(* ===== verification/Prelude.thy ===== *)
theory Prelude
  imports
    Complex_Main
    "HOL-Library.Char_ord"
    "HOL-Library.List_Lexorder"
    "HOL-Library.Product_Lexorder"
    "HOL-Library.Multiset"
    "HOL-Library.Sublist"
begin

text \<open>
  The shared prelude of the development: the collections of facts the component theories
  fill, the type of a C++ computation that may end with an exception, a stable descending
  sort (SQL's \<open>ORDER BY ... DESC\<close>) with its laws, and generic lemmas on lists.
\<close>

named_theorems json_defs \<open>definitions of the JSON accessors\<close>
named_theorems codec_defs \<open>encoders and decoders of the JSON codec\<close>
named_theorems store_defs \<open>operations of the store, unfolded down to the tables\<close>
named_theorems inv_intros \<open>preservation of the store invariant\<close>

section \<open>Computations that may throw\<close>

text \<open>
  A C++ function either returns a value or leaves with an exception; the text is what
  \<open>e.what()\<close> shows.
\<close>

datatype 'a outcome = Ret 'a | Throw string

fun map_outcome_val :: "('a \<Rightarrow> 'b) \<Rightarrow> 'a outcome \<Rightarrow> 'b outcome" where
  "map_outcome_val f (Ret x) = Ret (f x)"
| "map_outcome_val f (Throw e) = Throw e"

fun returns :: "'a outcome \<Rightarrow> bool" where
  "returns (Ret x) = True"
| "returns (Throw e) = False"

lemma returns_iff: "returns r \<longleftrightarrow> (\<exists>x. r = Ret x)"
  by (cases r) auto

lemma map_outcome_val_eq_Ret [simp]:
  "map_outcome_val f r = Ret y \<longleftrightarrow> (\<exists>x. r = Ret x \<and> y = f x)"
  by (cases r) auto

lemma map_outcome_val_eq_Throw [simp]: "map_outcome_val f r = Throw e \<longleftrightarrow> r = Throw e"
  by (cases r) auto

section \<open>Descending stable sort\<close>

text \<open>
  \<open>order_desc f xs\<close> lists \<open>xs\<close> by decreasing \<open>f\<close>; elements with equal keys keep the order
  they have in \<open>xs\<close>.
\<close>

definition order_desc :: "('a \<Rightarrow> 'k::linorder) \<Rightarrow> 'a list \<Rightarrow> 'a list" where
  "order_desc f xs = rev (sort_key f (rev xs))"

lemma set_order_desc [simp]: "set (order_desc f xs) = set xs"
  by (simp add: order_desc_def)

lemma mset_order_desc [simp]: "mset (order_desc f xs) = mset xs"
  by (simp add: order_desc_def)

lemma length_order_desc [simp]: "length (order_desc f xs) = length xs"
  by (simp add: order_desc_def)

lemma order_desc_Nil [simp]: "order_desc f [] = []"
  by (simp add: order_desc_def)

lemma sorted_order_desc: "sorted_wrt (\<lambda>x y. f y \<le> f x) (order_desc f xs)"
proof -
  have "sorted_wrt (\<lambda>x y. f x \<le> f y) (sort_key f (rev xs))"
    using sorted_sort_key [of f "rev xs"] by (simp add: sorted_map)
  then show ?thesis
    by (simp add: order_desc_def sorted_wrt_rev)
qed

lemma sorted_wrt_less_inj:
  "sorted_wrt (\<lambda>x y. f x < (f y :: 'k::linorder)) xs \<Longrightarrow> distinct xs \<and> inj_on f (set xs)"
  by (induction xs) auto

lemma order_desc_increasing:
  assumes "sorted_wrt (\<lambda>x y. f x < f y) xs"
  shows "order_desc f xs = rev xs"
proof -
  have dist: "distinct xs" and inj: "inj_on f (set xs)"
    using sorted_wrt_less_inj [OF assms] by blast+
  have srt: "sorted (map f xs)"
    using sorted_wrt_mono_rel [OF _ assms, of "\<lambda>x y. f x \<le> f y"] by (simp add: sorted_map)
  have "sort_key f (rev xs) = xs"
  proof (rule sort_key_inj_key_eq)
    show "mset (rev xs) = mset xs" by simp
    show "inj_on f (set (rev xs))" using inj by simp
    show "sorted (map f xs)" by (rule srt)
  qed
  then show ?thesis by (simp add: order_desc_def)
qed

section \<open>Lists\<close>

lemma sorted_wrt_less_distinct: "sorted_wrt (\<lambda>x y. f x < (f y :: 'a::linorder)) xs \<Longrightarrow> distinct (map f xs)"
  by (induction xs) auto

lemma sorted_wrt_less_append1:
  "sorted_wrt (\<lambda>x y. f x < (f y :: 'a::linorder)) (xs @ [z]) \<longleftrightarrow>
   sorted_wrt (\<lambda>x y. f x < f y) xs \<and> (\<forall>x\<in>set xs. f x < f z)"
  by (auto simp: sorted_wrt_append)

lemma sorted_wrt_map_keep:
  assumes "\<And>x. f (g x) = f x"
  shows "sorted_wrt (\<lambda>x y. f x < (f y :: 'a::linorder)) (map g xs) = sorted_wrt (\<lambda>x y. f x < f y) xs"
  by (simp add: sorted_wrt_map assms)

lemma sorted_wrt_filter_keep: "sorted_wrt P xs \<Longrightarrow> sorted_wrt P (filter Q xs)"
  by (rule sorted_wrt_filter)

lemma map_filter_swap: "(\<And>x. Q (g x) = P x) \<Longrightarrow> filter Q (map g xs) = map g (filter P xs)"
  by (induction xs) auto

text \<open>The last \<open>n\<close> elements, in order: what a reversed \<open>LIMIT n\<close> of a reversed scan keeps.\<close>

definition last_n :: "nat \<Rightarrow> 'a list \<Rightarrow> 'a list" where
  "last_n n xs = rev (take n (rev xs))"

lemma last_n_drop: "last_n n xs = drop (length xs - n) xs"
  by (simp add: last_n_def take_rev)

lemma suffix_last_n: "suffix (last_n n xs) xs"
  by (simp add: last_n_drop suffix_drop)

lemma length_last_n [simp]: "length (last_n n xs) = min n (length xs)"
  by (simp add: last_n_def)

lemma set_last_n: "set (last_n n xs) \<subseteq> set xs"
  by (simp add: last_n_drop set_drop_subset)

lemma last_n_append1: "0 < n \<Longrightarrow> last_n n (xs @ [x]) = last_n (n - 1) xs @ [x]"
  by (cases n) (simp_all add: last_n_def)

end
