(* ===== verification/Cpp_Lib.thy ===== *)
theory Cpp_Lib
  imports Prelude "HOL-Library.Word" "HOL-Library.Log_Nat"
begin

text \<open>
  What the program uses of the C++ language and its standard library: the conversions
  between integer widths, the \<open>cctype\<close> predicates in the C locale, \<open>std::to_string\<close>,
  \<open>std::stoi\<close>, \<open>std::stoll\<close> and \<open>std::from_chars\<close>, \<open>std::string::find\<close>,
  C strings, and IEEE rounding to \<open>float\<close> and \<open>double\<close>.
\<close>

section \<open>Integer widths\<close>

definition i32 :: "int \<Rightarrow> int" where
  "i32 x = (x + 2147483648) mod 4294967296 - 2147483648"

definition i64 :: "int \<Rightarrow> int" where
  "i64 x = (x + 9223372036854775808) mod 18446744073709551616 - 9223372036854775808"

definition INT_MIN :: int where "INT_MIN = - 2147483648"
definition INT_MAX :: int where "INT_MAX = 2147483647"
definition LLONG_MIN :: int where "LLONG_MIN = - 9223372036854775808"
definition LLONG_MAX :: int where "LLONG_MAX = 9223372036854775807"

lemmas int_limits = INT_MIN_def INT_MAX_def LLONG_MIN_def LLONG_MAX_def

lemma i32_id: "INT_MIN \<le> x \<Longrightarrow> x \<le> INT_MAX \<Longrightarrow> i32 x = x"
  by (simp add: i32_def int_limits)

lemma i64_id: "LLONG_MIN \<le> x \<Longrightarrow> x \<le> LLONG_MAX \<Longrightarrow> i64 x = x"
  by (simp add: i64_def int_limits)

lemma i32_range: "INT_MIN \<le> i32 x \<and> i32 x \<le> INT_MAX"
proof -
  have "0 \<le> (x + 2147483648) mod 4294967296" "(x + 2147483648) mod 4294967296 < 4294967296"
    by simp_all
  then show ?thesis by (simp add: i32_def int_limits)
qed

section \<open>Characters in the C locale\<close>

definition code_of :: "char \<Rightarrow> nat" where
  "code_of c = of_char c"

definition isdigit :: "char \<Rightarrow> bool" where
  "isdigit c = (48 \<le> code_of c \<and> code_of c \<le> 57)"

definition isupper :: "char \<Rightarrow> bool" where
  "isupper c = (65 \<le> code_of c \<and> code_of c \<le> 90)"

definition islower :: "char \<Rightarrow> bool" where
  "islower c = (97 \<le> code_of c \<and> code_of c \<le> 122)"

definition isalnum :: "char \<Rightarrow> bool" where
  "isalnum c = (isdigit c \<or> isupper c \<or> islower c)"

definition isspace :: "char \<Rightarrow> bool" where
  "isspace c = (code_of c = 32 \<or> (9 \<le> code_of c \<and> code_of c \<le> 13))"

definition tolower :: "char \<Rightarrow> char" where
  "tolower c = (if isupper c then char_of (code_of c + 32) else c)"

lemma code_of_bound: "code_of c < 256"
  by (simp add: code_of_def)

lemma code_of_inject [simp]: "code_of c = code_of d \<longleftrightarrow> c = d"
  by (simp add: code_of_def)

lemma code_of_char_of: "n < 256 \<Longrightarrow> code_of (char_of n) = n"
  by (simp add: code_of_def)

lemma tolower_idem [simp]: "tolower (tolower c) = tolower c"
  by (auto simp: tolower_def isupper_def code_of_char_of)

section \<open>Strings\<close>

text \<open>\<open>c_str()\<close> passed with length \<open>-1\<close>: the callee sees the bytes before the first NUL.\<close>

definition c_str :: "string \<Rightarrow> string" where
  "c_str s = takeWhile (\<lambda>c. c \<noteq> CHR 0x00) s"

definition nul_free :: "string \<Rightarrow> bool" where
  "nul_free s = (CHR 0x00 \<notin> set s)"

lemma c_str_nul_free: "nul_free s \<Longrightarrow> c_str s = s"
  by (auto simp: c_str_def nul_free_def takeWhile_eq_all_conv)

lemma nul_free_c_str [simp]: "nul_free (c_str s)"
  by (auto simp: c_str_def nul_free_def dest: set_takeWhileD)

lemma c_str_idem [simp]: "c_str (c_str s) = c_str s"
  by (rule c_str_nul_free) simp

lemma c_str_Nil [simp]: "c_str [] = []"
  by (simp add: c_str_def)

text \<open>\<open>haystack.find(needle) != npos\<close>.\<close>

fun str_contains :: "string \<Rightarrow> string \<Rightarrow> bool" where
  "str_contains needle [] = (needle = [])"
| "str_contains needle (c # cs) = (prefix needle (c # cs) \<or> str_contains needle cs)"

lemma str_contains_iff: "str_contains needle s \<longleftrightarrow> sublist needle s"
  by (induction s) (auto simp: sublist_Cons_right)

text \<open>\<open>s.find(c)\<close> and \<open>s.rfind(c)\<close> for one character.\<close>

fun find_char :: "char \<Rightarrow> string \<Rightarrow> nat option" where
  "find_char c [] = None"
| "find_char c (x # xs) = (if x = c then Some 0 else map_option Suc (find_char c xs))"

definition rfind_char :: "char \<Rightarrow> string \<Rightarrow> nat option" where
  "rfind_char c s = map_option (\<lambda>i. length s - 1 - i) (find_char c (rev s))"

definition starts_with :: "string \<Rightarrow> string \<Rightarrow> bool" where
  "starts_with p s = prefix p s"

section \<open>Decimal numbers\<close>

definition digit_char :: "nat \<Rightarrow> char" where
  "digit_char d = char_of (48 + d)"

fun nat_digits :: "nat \<Rightarrow> string" where
  "nat_digits n = (if n < 10 then [digit_char n] else nat_digits (n div 10) @ [digit_char (n mod 10)])"

declare nat_digits.simps [simp del]

definition to_string :: "int \<Rightarrow> string" where
  "to_string i = (if i < 0 then CHR ''-'' # nat_digits (nat (- i)) else nat_digits (nat i))"

definition digits_value :: "string \<Rightarrow> nat" where
  "digits_value s = foldl (\<lambda>acc c. 10 * acc + (code_of c - 48)) 0 s"

text \<open>
  The number parser behind \<open>std::stoi\<close> and \<open>std::stoll\<close>: leading white space, an optional
  sign, the longest run of digits. \<open>None\<close> is the exception \<open>invalid_argument\<close> (no digit)
  or \<open>out_of_range\<close>.
\<close>

definition parse_prefix_int :: "int \<Rightarrow> int \<Rightarrow> string \<Rightarrow> int option" where
  "parse_prefix_int lo hi s =
     (let t = dropWhile isspace s;
          neg = (t \<noteq> [] \<and> hd t = CHR ''-'');
          u = (if t \<noteq> [] \<and> (hd t = CHR ''-'' \<or> hd t = CHR ''+'') then tl t else t);
          ds = takeWhile isdigit u;
          v = (if neg then - int (digits_value ds) else int (digits_value ds))
      in if ds = [] then None else if lo \<le> v \<and> v \<le> hi then Some v else None)"

definition stoll :: "string \<Rightarrow> int option" where
  "stoll s = parse_prefix_int LLONG_MIN LLONG_MAX s"

definition stoi :: "string \<Rightarrow> int option" where
  "stoi s = parse_prefix_int INT_MIN INT_MAX s"

text \<open>
  \<open>std::from_chars(first, last, int)\<close> with the checks that the whole range is consumed: no
  white space, an optional minus sign, digits only.
\<close>

definition from_chars_int :: "string \<Rightarrow> int option" where
  "from_chars_int s =
     (let neg = (s \<noteq> [] \<and> hd s = CHR ''-'');
          u = (if neg then tl s else s);
          v = (if neg then - int (digits_value u) else int (digits_value u))
      in if u = [] \<or> \<not> list_all isdigit u then None
         else if INT_MIN \<le> v \<and> v \<le> INT_MAX then Some v else None)"

lemma code_of_digit_char: "d < 10 \<Longrightarrow> code_of (digit_char d) = 48 + d"
  by (simp add: digit_char_def code_of_char_of)

lemma isdigit_digit_char: "d < 10 \<Longrightarrow> isdigit (digit_char d)"
  by (simp add: isdigit_def code_of_digit_char)

lemma digits_value_append1: "digits_value (s @ [c]) = 10 * digits_value s + (code_of c - 48)"
  by (simp add: digits_value_def)

lemma digits_value_nat_digits: "digits_value (nat_digits n) = n"
proof (induction n rule: nat_digits.induct)
  case (1 n)
  show ?case
  proof (cases "n < 10")
    case True
    then show ?thesis
      by (subst nat_digits.simps) (simp add: digits_value_def code_of_digit_char)
  next
    case False
    with 1 have "digits_value (nat_digits (n div 10)) = n div 10" by simp
    with False show ?thesis
      by (subst nat_digits.simps) (simp add: digits_value_append1 code_of_digit_char)
  qed
qed

lemma nat_digits_isdigit: "list_all isdigit (nat_digits n)"
proof (induction n rule: nat_digits.induct)
  case (1 n)
  then show ?case
    by (subst nat_digits.simps) (simp add: isdigit_digit_char)
qed

lemma nat_digits_nonempty [simp]: "nat_digits n \<noteq> []"
  by (subst nat_digits.simps) simp

lemma isdigit_not_space: "isdigit c \<Longrightarrow> \<not> isspace c \<and> c \<noteq> CHR ''-'' \<and> c \<noteq> CHR ''+''"
  by (auto simp: isdigit_def isspace_def code_of_def)

lemma takeWhile_digits [simp]: "takeWhile isdigit (nat_digits n) = nat_digits n"
  using nat_digits_isdigit [of n] by (simp add: takeWhile_eq_all_conv list_all_iff)

lemma hd_nat_digits: "isdigit (hd (nat_digits n))"
  using nat_digits_isdigit [of n] by (cases "nat_digits n") auto

lemma dropWhile_hd_False: "xs \<noteq> [] \<Longrightarrow> \<not> P (hd xs) \<Longrightarrow> dropWhile P xs = xs"
  by (cases xs) auto

lemma parse_prefix_to_string:
  assumes "lo \<le> i" "i \<le> hi"
  shows "parse_prefix_int lo hi (to_string i) = Some i"
proof (cases "i < 0")
  case True
  have "dropWhile isspace (to_string i) = to_string i"
    using True by (simp add: to_string_def isspace_def code_of_def)
  with True assms show ?thesis
    by (simp add: parse_prefix_int_def to_string_def digits_value_nat_digits)
next
  case False
  have h: "\<not> isspace (hd (nat_digits (nat i)))" "hd (nat_digits (nat i)) \<noteq> CHR ''-''"
    "hd (nat_digits (nat i)) \<noteq> CHR ''+''"
    using isdigit_not_space [OF hd_nat_digits] by auto
  have "dropWhile isspace (nat_digits (nat i)) = nat_digits (nat i)"
    by (rule dropWhile_hd_False) (use h in auto)
  with False assms h show ?thesis
    by (simp add: parse_prefix_int_def to_string_def digits_value_nat_digits)
qed

lemma to_string_nonempty [simp]: "to_string i \<noteq> []"
  by (simp add: to_string_def)

lemma to_string_inject [simp]: "to_string i = to_string j \<longleftrightarrow> i = j"
proof
  assume eq: "to_string i = to_string j"
  have i: "parse_prefix_int (min i j) (max i j) (to_string i) = Some i"
    by (rule parse_prefix_to_string) simp_all
  have j: "parse_prefix_int (min i j) (max i j) (to_string j) = Some j"
    by (rule parse_prefix_to_string) simp_all
  from i j show "i = j" unfolding eq by (metis option.inject)
qed simp

lemma nul_free_to_string [simp]: "nul_free (to_string i)"
proof -
  have d: "CHR 0x00 \<notin> set (nat_digits n)" for n
  proof
    assume "CHR 0x00 \<in> set (nat_digits n)"
    with nat_digits_isdigit [of n] have "isdigit (CHR 0x00)"
      by (simp add: list_all_iff)
    then show False by (simp add: isdigit_def code_of_def)
  qed
  then show ?thesis by (simp add: nul_free_def to_string_def)
qed

section \<open>Rounding to float and double\<close>

text \<open>
  A finite \<open>float\<close> or \<open>double\<close> is the rational number it denotes; \<open>f32\<close> and \<open>f64\<close> round to
  nearest with ties to even (24 and 53 significant bits, gradual underflow). Overflow to
  infinity and NaN are outside the model.
\<close>

definition round_half_even :: "rat \<Rightarrow> int" where
  "round_half_even x =
     (let f = \<lfloor>x\<rfloor>; d = x - of_int f
      in if d < 1 / 2 then f else if 1 / 2 < d then f + 1 else if even f then f else f + 1)"

definition ilog2 :: "rat \<Rightarrow> int" where
  "ilog2 x =
     (let p = fst (quotient_of x); q = snd (quotient_of x); k = bitlen p - bitlen q
      in if 2 powi k \<le> x then k else k - 1)"

definition ieee_round :: "int \<Rightarrow> int \<Rightarrow> rat \<Rightarrow> rat" where
  "ieee_round p emin x =
     (if x = 0 then 0
      else let e = max (ilog2 \<bar>x\<bar> - (p - 1)) emin
           in of_int (round_half_even (x / 2 powi e)) * 2 powi e)"

definition f32 :: "rat \<Rightarrow> rat" where
  "f32 x = ieee_round 24 (- 149) x"

definition f64 :: "rat \<Rightarrow> rat" where
  "f64 x = ieee_round 53 (- 1074) x"

definition is_f32 :: "rat \<Rightarrow> bool" where
  "is_f32 x = (f32 x = x)"

lemma round_half_even_nonneg: "0 \<le> x \<Longrightarrow> 0 \<le> round_half_even x"
  by (auto simp: round_half_even_def Let_def)

lemma ieee_round_nonneg: "0 \<le> x \<Longrightarrow> 0 \<le> ieee_round p emin x"
  by (auto simp: ieee_round_def Let_def intro!: mult_nonneg_nonneg round_half_even_nonneg)

lemma f32_nonneg: "0 \<le> x \<Longrightarrow> 0 \<le> f32 x"
  by (simp add: f32_def ieee_round_nonneg)

lemma f64_nonneg: "0 \<le> x \<Longrightarrow> 0 \<le> f64 x"
  by (simp add: f64_def ieee_round_nonneg)

lemma f32_0 [simp]: "f32 0 = 0"
  by (simp add: f32_def ieee_round_def)

end
