(* ===== verification/Json.thy ===== *)
theory Json
  imports Cpp_Lib
begin

text \<open>
  JSON values as the program sees them through \<open>nlohmann::json\<close>: the value type with its three
  kinds of number, the type tests and element accesses the program calls, and the accessors of
  \<open>src/serialization/json_helpers.h\<close>. Reading and writing JSON text belongs to that library and
  is a parameter (\<open>json_lib\<close>) of every definition that needs it.
\<close>

section \<open>Values\<close>

text \<open>
  \<open>JInt\<close> is a \<open>number_integer\<close> (64-bit signed), \<open>JUInt\<close> a \<open>number_unsigned\<close>, \<open>JFloat\<close> a
  \<open>number_float\<close>. An object is a \<open>std::map\<close>: its members are listed by increasing key.
\<close>

datatype json =
    JNull
  | JBool bool
  | JInt int
  | JUInt int
  | JFloat rat
  | JStr string
  | JArr "json list"
  | JObj "(string \<times> json) list"

fun is_object :: "json \<Rightarrow> bool" where
  "is_object (JObj m) = True"
| "is_object _ = False"

fun is_array :: "json \<Rightarrow> bool" where
  "is_array (JArr xs) = True"
| "is_array _ = False"

fun is_string :: "json \<Rightarrow> bool" where
  "is_string (JStr s) = True"
| "is_string _ = False"

fun is_boolean :: "json \<Rightarrow> bool" where
  "is_boolean (JBool b) = True"
| "is_boolean _ = False"

fun is_number_integer :: "json \<Rightarrow> bool" where
  "is_number_integer (JInt n) = True"
| "is_number_integer (JUInt n) = True"
| "is_number_integer _ = False"

fun is_number_unsigned :: "json \<Rightarrow> bool" where
  "is_number_unsigned (JUInt n) = True"
| "is_number_unsigned _ = False"

fun is_number :: "json \<Rightarrow> bool" where
  "is_number (JFloat x) = True"
| "is_number j = is_number_integer j"

fun type_name :: "json \<Rightarrow> string" where
  "type_name JNull = ''null''"
| "type_name (JBool b) = ''boolean''"
| "type_name (JStr s) = ''string''"
| "type_name (JArr xs) = ''array''"
| "type_name (JObj m) = ''object''"
| "type_name _ = ''number''"

fun json_empty :: "json \<Rightarrow> bool" where
  "json_empty JNull = True"
| "json_empty (JArr xs) = (xs = [])"
| "json_empty (JObj m) = (m = [])"
| "json_empty _ = False"

section \<open>Objects\<close>

fun jput :: "string \<Rightarrow> json \<Rightarrow> (string \<times> json) list \<Rightarrow> (string \<times> json) list" where
  "jput k v [] = [(k, v)]"
| "jput k v ((k', v') # m) =
     (if k = k' then (k, v) # m
      else if k < k' then (k, v) # (k', v') # m
      else (k', v') # jput k v m)"

text \<open>An initialiser list \<open>{{k, v}, ...}\<close> with distinct keys.\<close>

definition jobj :: "(string \<times> json) list \<Rightarrow> json" where
  "jobj kvs = JObj (foldl (\<lambda>m kv. jput (fst kv) (snd kv) m) [] kvs)"

text \<open>\<open>j[key] = v\<close> on an object (on \<open>null\<close> it first becomes an object).\<close>

fun json_set :: "string \<Rightarrow> json \<Rightarrow> json \<Rightarrow> json" where
  "json_set k v (JObj m) = JObj (jput k v m)"
| "json_set k v JNull = JObj [(k, v)]"
| "json_set k v j = j"

fun contains :: "json \<Rightarrow> string \<Rightarrow> bool" where
  "contains (JObj m) k = (map_of m k \<noteq> None)"
| "contains _ k = False"

text \<open>\<open>j[key]\<close>, read only where \<open>j.contains(key)\<close>.\<close>

fun json_at :: "json \<Rightarrow> string \<Rightarrow> json" where
  "json_at (JObj m) k = (case map_of m k of Some v \<Rightarrow> v | None \<Rightarrow> JNull)"
| "json_at _ k = JNull"

text \<open>Keys of an object strictly increase, at every level.\<close>

fun wf_json :: "json \<Rightarrow> bool" where
  "wf_json (JArr xs) = list_all wf_json xs"
| "wf_json (JObj m) = (sorted_wrt (<) (map fst m) \<and> list_all (\<lambda>kv. wf_json (snd kv)) m)"
| "wf_json _ = True"

lemma map_of_jput [simp]: "map_of (jput k v m) = (map_of m)(k \<mapsto> v)"
  by (induction k v m rule: jput.induct) (auto simp: fun_eq_iff)

lemma map_of_foldl_jput:
  "map_of (foldl (\<lambda>m kv. jput (fst kv) (snd kv) m) m0 kvs) =
   foldl (\<lambda>f kv. f(fst kv \<mapsto> snd kv)) (map_of m0) kvs"
  by (induction kvs arbitrary: m0) auto

lemma contains_jobj: "contains (jobj kvs) k = (foldl (\<lambda>f kv. f(fst kv \<mapsto> snd kv)) Map.empty kvs k \<noteq> None)"
  by (simp add: jobj_def map_of_foldl_jput)

lemma json_at_jobj:
  "json_at (jobj kvs) k =
   (case foldl (\<lambda>f kv. f(fst kv \<mapsto> snd kv)) Map.empty kvs k of Some v \<Rightarrow> v | None \<Rightarrow> JNull)"
  by (simp add: jobj_def map_of_foldl_jput)

lemma is_object_jobj [simp]: "is_object (jobj kvs)"
  by (simp add: jobj_def)

lemma is_object_json_set [simp]: "is_object j \<Longrightarrow> is_object (json_set k v j)"
  by (cases j) auto

lemma contains_json_set [simp]:
  "is_object j \<Longrightarrow> contains (json_set k v j) k' = (k' = k \<or> contains j k')"
  by (cases j) auto

lemma json_at_json_set [simp]:
  "is_object j \<Longrightarrow> json_at (json_set k v j) k' = (if k' = k then v else json_at j k')"
  by (cases j) auto

lemma set_fst_jput: "fst ` set (jput k v m) = insert k (fst ` set m)"
  by (induction k v m rule: jput.induct) auto

lemma sorted_jput: "sorted_wrt (<) (map fst m) \<Longrightarrow> sorted_wrt (<) (map fst (jput k v m))"
proof (induction k v m rule: jput.induct)
  case (2 k v k' v' m)
  show ?case
  proof (cases "k = k' \<or> k < k'")
    case True
    with 2 show ?thesis by (auto intro: less_trans)
  next
    case False
    then have gt: "k' < k" "k \<noteq> k'" "\<not> k < k'" by auto
    have "\<forall>x\<in>fst ` set (jput k v m). k' < x"
      using 2 gt by (simp add: set_fst_jput)
    moreover have "sorted_wrt (<) (map fst (jput k v m))"
      using 2 gt by simp
    ultimately show ?thesis
      using gt by simp
  qed
qed simp

lemma wf_values_jput:
  "wf_json v \<Longrightarrow> list_all (\<lambda>kv. wf_json (snd kv)) m \<Longrightarrow> list_all (\<lambda>kv. wf_json (snd kv)) (jput k v m)"
  by (induction k v m rule: jput.induct) auto

lemma wf_json_set: "wf_json j \<Longrightarrow> wf_json v \<Longrightarrow> wf_json (json_set k v j)"
  by (cases j) (simp_all add: sorted_jput wf_values_jput)

lemma wf_foldl_jput:
  "wf_json (JObj m) \<Longrightarrow> list_all (\<lambda>kv. wf_json (snd kv)) kvs \<Longrightarrow>
   wf_json (JObj (foldl (\<lambda>m kv. jput (fst kv) (snd kv) m) m kvs))"
proof (induction kvs arbitrary: m)
  case (Cons kv kvs)
  then have "wf_json (JObj (jput (fst kv) (snd kv) m))"
    by (simp add: sorted_jput wf_values_jput)
  with Cons show ?case by simp
qed simp

lemma wf_jobj: "list_all (\<lambda>kv. wf_json (snd kv)) kvs \<Longrightarrow> wf_json (jobj kvs)"
  unfolding jobj_def by (rule wf_foldl_jput) simp_all

section \<open>JSON text\<close>

text \<open>
  \<open>jdump\<close> is \<open>json::dump()\<close>: the text, or on the left the message of the exception it throws (a
  string that is not valid UTF-8). \<open>jparse\<close> is \<open>json::parse\<close>: the value, or the message of the
  parse error (the overload that does not throw gives a discarded value there).
\<close>

record json_lib =
  jdump :: "json \<Rightarrow> string + string"
  jparse :: "string \<Rightarrow> string + json"

text \<open>Numbers read back from text: an integer without a minus sign is a \<open>number_unsigned\<close>.\<close>

fun jnorm :: "json \<Rightarrow> json" where
  "jnorm (JInt n) = (if n < 0 then JInt n else JUInt n)"
| "jnorm (JArr xs) = JArr (map jnorm xs)"
| "jnorm (JObj m) = JObj (map (\<lambda>kv. (fst kv, jnorm (snd kv))) m)"
| "jnorm j = j"

text \<open>
  The documented behaviour of the library that theorems name as a hypothesis: dumped text is
  free of NUL bytes (control characters are escaped) and parses back to the same value up to the
  kind of integer.
\<close>

definition json_text_ok :: "json_lib \<Rightarrow> bool" where
  "json_text_ok J = (\<forall>j s. jdump J j = Inr s \<longrightarrow> nul_free s \<and> s \<noteq> [] \<and> jparse J s = Inr (jnorm j))"

lemma json_text_okD:
  assumes "json_text_ok J" "jdump J j = Inr s"
  shows "nul_free s" "s \<noteq> []" "jparse J s = Inr (jnorm j)"
  using assms by (auto simp: json_text_ok_def)

text \<open>A table of values and their texts as a concrete library; anything else is refused.\<close>

definition table_lib :: "(json \<times> string) list \<Rightarrow> json_lib" where
  "table_lib tab =
     \<lparr>jdump = (\<lambda>j. case map_of tab j of Some s \<Rightarrow> Inr s | None \<Rightarrow> Inl ''type_error.316''),
      jparse = (\<lambda>s. case map_of (map (\<lambda>p. (snd p, fst p)) tab) s of
                       Some j \<Rightarrow> Inr (jnorm j) | None \<Rightarrow> Inl ''parse_error.101'')\<rparr>"

lemma table_lib_ok:
  assumes "distinct (map snd tab)" "list_all (\<lambda>p. nul_free (snd p) \<and> snd p \<noteq> []) tab"
  shows "json_text_ok (table_lib tab)"
  unfolding json_text_ok_def
proof (intro allI impI)
  fix j s
  assume "jdump (table_lib tab) j = Inr s"
  then have js: "(j, s) \<in> set tab"
    by (auto simp: table_lib_def split: option.splits dest: map_of_SomeD)
  have "map_of (map (\<lambda>p. (snd p, fst p)) tab) s = Some j"
    by (rule map_of_is_SomeI) (use assms(1) js in \<open>force simp: comp_def\<close>)+
  with js assms(2) show "nul_free s \<and> s \<noteq> [] \<and> jparse (table_lib tab) s = Inr (jnorm j)"
    by (auto simp: table_lib_def list_all_iff)
qed

text \<open>
  \<open>j.value(key, std::string())\<close> and \<open>j.value(key, json)\<close>, with the library's exceptions.
\<close>

definition type_error :: "nat \<Rightarrow> string \<Rightarrow> string" where
  "type_error n msg = ''[json.exception.type_error.'' @ nat_digits n @ ''] '' @ msg"

definition value_string :: "json \<Rightarrow> string \<Rightarrow> string \<Rightarrow> string outcome" where
  "value_string j key dflt =
     (if \<not> is_object j then Throw (type_error 306 (''cannot use value() with '' @ type_name j))
      else if \<not> contains j key then Ret dflt
      else case json_at j key of
             JStr s \<Rightarrow> Ret s
           | v \<Rightarrow> Throw (type_error 302 (''type must be string, but is '' @ type_name v)))"

definition value_json :: "json \<Rightarrow> string \<Rightarrow> json \<Rightarrow> json outcome" where
  "value_json j key dflt =
     (if \<not> is_object j then Throw (type_error 306 (''cannot use value() with '' @ type_name j))
      else if contains j key then Ret (json_at j key) else Ret dflt)"

section \<open>The accessors of json\_helpers.h\<close>

definition JsonFieldValue :: "json \<Rightarrow> string \<Rightarrow> json" where [json_defs]:
  "JsonFieldValue j key = (if \<not> is_object j \<or> \<not> contains j key then JNull else json_at j key)"

fun get_string :: "json \<Rightarrow> string" where
  "get_string (JStr s) = s"
| "get_string _ = []"

fun get_bool :: "json \<Rightarrow> bool" where
  "get_bool (JBool b) = b"
| "get_bool _ = False"

fun get_longlong :: "json \<Rightarrow> int" where
  "get_longlong (JInt n) = n"
| "get_longlong (JUInt n) = i64 n"
| "get_longlong _ = 0"

fun get_ulonglong :: "json \<Rightarrow> int" where
  "get_ulonglong (JUInt n) = n"
| "get_ulonglong (JInt n) = n mod 18446744073709551616"
| "get_ulonglong _ = 0"

fun get_number :: "json \<Rightarrow> rat" where
  "get_number (JInt n) = of_int n"
| "get_number (JUInt n) = of_int n"
| "get_number (JFloat x) = x"
| "get_number _ = 0"

definition JsonString :: "json \<Rightarrow> string \<Rightarrow> string \<Rightarrow> string" where [json_defs]:
  "JsonString j key fallback =
     (if \<not> is_object j \<or> \<not> contains j key \<or> \<not> is_string (json_at j key) then fallback
      else get_string (json_at j key))"

definition JsonInt :: "json \<Rightarrow> string \<Rightarrow> int \<Rightarrow> int" where [json_defs]:
  "JsonInt j key fallback =
     (if \<not> is_object j \<or> \<not> contains j key then fallback
      else let v = json_at j key in
        if is_number_integer v \<and> INT_MIN \<le> get_longlong v \<and> get_longlong v \<le> INT_MAX
        then get_longlong v
        else if is_number_unsigned v \<and> get_ulonglong v \<le> INT_MAX then get_ulonglong v
        else fallback)"

definition JsonFloat :: "json \<Rightarrow> string \<Rightarrow> rat \<Rightarrow> rat" where [json_defs]:
  "JsonFloat j key fallback =
     (if \<not> is_object j \<or> \<not> contains j key \<or> \<not> is_number (json_at j key) then fallback
      else f32 (get_number (json_at j key)))"

definition JsonDouble :: "json \<Rightarrow> string \<Rightarrow> rat \<Rightarrow> rat" where [json_defs]:
  "JsonDouble j key fallback =
     (if \<not> is_object j \<or> \<not> contains j key \<or> \<not> is_number (json_at j key) then fallback
      else f64 (get_number (json_at j key)))"

definition JsonBool :: "json \<Rightarrow> string \<Rightarrow> bool \<Rightarrow> bool" where [json_defs]:
  "JsonBool j key fallback =
     (if \<not> is_object j \<or> \<not> contains j key \<or> \<not> is_boolean (json_at j key) then fallback
      else get_bool (json_at j key))"

fun string_members :: "(string \<times> json) list \<Rightarrow> (string \<times> string) list" where
  "string_members [] = []"
| "string_members ((k, v) # m) =
     (if is_string v then (k, get_string v) # string_members m else string_members m)"

definition JsonStringMap :: "json \<Rightarrow> string \<Rightarrow> (string \<times> string) list" where [json_defs]:
  "JsonStringMap j key =
     (if \<not> is_object j \<or> \<not> contains j key then []
      else case json_at j key of JObj m \<Rightarrow> string_members m | _ \<Rightarrow> [])"

definition HasInvalidString :: "json \<Rightarrow> string \<Rightarrow> bool" where [json_defs]:
  "HasInvalidString j key = (is_object j \<and> contains j key \<and> \<not> is_string (json_at j key))"

definition HasInvalidInteger :: "json \<Rightarrow> string \<Rightarrow> bool" where [json_defs]:
  "HasInvalidInteger j key = (is_object j \<and> contains j key \<and> \<not> is_number_integer (json_at j key))"

definition HasInvalidNumber :: "json \<Rightarrow> string \<Rightarrow> bool" where [json_defs]:
  "HasInvalidNumber j key = (is_object j \<and> contains j key \<and> \<not> is_number (json_at j key))"

definition HasInvalidObject :: "json \<Rightarrow> string \<Rightarrow> bool" where [json_defs]:
  "HasInvalidObject j key = (is_object j \<and> contains j key \<and> \<not> is_object (json_at j key))"

definition JsonObject :: "json \<Rightarrow> json" where [json_defs]:
  "JsonObject v = (if is_object v then v else JObj [])"

fun json_strings :: "json list \<Rightarrow> string list" where
  "json_strings [] = []"
| "json_strings (v # vs) = (if is_string v then get_string v # json_strings vs else json_strings vs)"

definition StringVectorFromJson :: "json \<Rightarrow> string list" where [json_defs]:
  "StringVectorFromJson j = (case j of JArr vs \<Rightarrow> json_strings vs | _ \<Rightarrow> [])"

definition string_array :: "string list \<Rightarrow> json" where
  "string_array ss = JArr (map JStr ss)"

definition MetadataString :: "json \<Rightarrow> string \<Rightarrow> string \<Rightarrow> string" where
  "MetadataString metadata key fallback = JsonString metadata key fallback"

definition MetadataInt :: "json \<Rightarrow> string \<Rightarrow> int \<Rightarrow> int" where
  "MetadataInt metadata key fallback =
     (let result = JsonInt metadata key fallback in
      if result \<noteq> fallback then result
      else if \<not> is_object metadata \<or> \<not> contains metadata key then fallback
      else if is_string (json_at metadata key)
           then (case stoi (get_string (json_at metadata key)) of Some v \<Rightarrow> v | None \<Rightarrow> fallback)
      else fallback)"

lemma json_strings_map_JStr [simp]: "json_strings (map JStr ss) = ss"
  by (induction ss) auto

lemma StringVectorFromJson_string_array [simp]: "StringVectorFromJson (string_array ss) = ss"
  by (simp add: StringVectorFromJson_def string_array_def)

lemma jnorm_string_array [simp]: "jnorm (string_array ss) = string_array ss"
  by (induction ss) (auto simp: string_array_def)

lemma is_object_JsonObject [simp]: "is_object (JsonObject v)"
  by (simp add: JsonObject_def)

lemma JsonObject_id: "is_object v \<Longrightarrow> JsonObject v = v"
  by (simp add: JsonObject_def)

lemma is_object_jnorm [simp]: "is_object (jnorm j) = is_object j"
  by (cases j) auto

lemma JsonInt_range: "INT_MIN \<le> fb \<Longrightarrow> fb \<le> INT_MAX \<Longrightarrow>
  (\<forall>n. json_at j key = JUInt n \<longrightarrow> 0 \<le> n) \<Longrightarrow>
  INT_MIN \<le> JsonInt j key fb \<and> JsonInt j key fb \<le> INT_MAX"
  by (cases "json_at j key") (auto simp: JsonInt_def Let_def int_limits)

end
