(* ===== verification/Memory_Types.thy ===== *)
theory Memory_Types
  imports Json
begin

text \<open>
  The public data model of \<open>include/agent_memory/\<close>: errors and results, events, payloads,
  long-term memory, search, context packages, statistics and configuration. One record per
  struct; a short prefix replaces the C++ scope of a field.
\<close>

section \<open>error.h\<close>

record MemoryError =
  err_code :: string
  err_message :: string
  err_details :: string
  err_retryable :: bool

definition no_error :: MemoryError where
  "no_error = \<lparr>err_code = [], err_message = [], err_details = [], err_retryable = False\<rparr>"

definition mk_error :: "string \<Rightarrow> string \<Rightarrow> string \<Rightarrow> bool \<Rightarrow> MemoryError" where
  "mk_error c m d r = \<lparr>err_code = c, err_message = m, err_details = d, err_retryable = r\<rparr>"

definition HasError :: "MemoryError \<Rightarrow> bool" where
  "HasError e = (err_code e \<noteq> [])"

definition ErrorIsEmpty :: "MemoryError \<Rightarrow> bool" where
  "ErrorIsEmpty e = (err_code e = [])"

text \<open>
  The result structs (\<open>MemoryOperationResult\<close>, \<open>MemoryEventsResult\<close>, \<open>MemoryStatsResult\<close>, ...)
  all hold a success flag, the data of the operation and an error.
\<close>

record 'a memory_result =
  succeeded :: bool
  payload_of :: 'a
  error_of :: MemoryError

type_synonym MemoryOperationResult = "unit memory_result"

definition success_with :: "'a \<Rightarrow> 'a memory_result" where
  "success_with x = \<lparr>succeeded = True, payload_of = x, error_of = no_error\<rparr>"

definition failure_with :: "'a \<Rightarrow> MemoryError \<Rightarrow> 'a memory_result" where
  "failure_with x e = \<lparr>succeeded = False, payload_of = x, error_of = e\<rparr>"

definition MemorySuccess :: MemoryOperationResult where
  "MemorySuccess = success_with ()"

definition MemoryFailure :: "string \<Rightarrow> string \<Rightarrow> string \<Rightarrow> bool \<Rightarrow> MemoryOperationResult" where
  "MemoryFailure c m d r = failure_with () (mk_error c m d r)"

lemma result_simps [simp]:
  "succeeded (success_with x)" "payload_of (success_with x) = x" "error_of (success_with x) = no_error"
  "\<not> succeeded (failure_with x e)" "payload_of (failure_with x e) = x" "error_of (failure_with x e) = e"
  "succeeded MemorySuccess" "\<not> succeeded (MemoryFailure c m d r)"
  "error_of (MemoryFailure c m d r) = mk_error c m d r" "error_of MemorySuccess = no_error"
  by (simp_all add: success_with_def failure_with_def MemorySuccess_def MemoryFailure_def)

lemma error_simps [simp]:
  "err_code (mk_error c m d r) = c" "err_message (mk_error c m d r) = m"
  "err_details (mk_error c m d r) = d" "err_retryable (mk_error c m d r) = r"
  "HasError (mk_error c m d r) = (c \<noteq> [])" "\<not> HasError no_error" "err_code no_error = []"
  "err_details no_error = []"
  by (simp_all add: mk_error_def HasError_def no_error_def)

lemma success_not_failure [simp]:
  "success_with x \<noteq> failure_with y e" "failure_with y e \<noteq> success_with x"
  "MemorySuccess \<noteq> MemoryFailure c m d r" "MemoryFailure c m d r \<noteq> MemorySuccess"
  by (simp_all add: success_with_def failure_with_def MemorySuccess_def MemoryFailure_def)

section \<open>event.h\<close>

text \<open>
  An \<open>enum class\<close> over \<open>int\<close>; \<open>static_cast\<close> from a stored integer may give a value that is none
  of the enumerators.
\<close>

datatype MemoryEventType =
    SESSION_STARTED
  | SESSION_ENDED
  | MESSAGE_APPENDED
  | TOOL_CALL_STARTED
  | TOOL_CALL_FINISHED
  | PAYLOAD_OFFLOADED
  | CONSOLIDATION_REQUESTED
  | CONSOLIDATION_COMPLETED
  | UNNAMED_EVENT_TYPE int

fun event_type_to_int :: "MemoryEventType \<Rightarrow> int" where
  "event_type_to_int SESSION_STARTED = 0"
| "event_type_to_int SESSION_ENDED = 1"
| "event_type_to_int MESSAGE_APPENDED = 2"
| "event_type_to_int TOOL_CALL_STARTED = 3"
| "event_type_to_int TOOL_CALL_FINISHED = 4"
| "event_type_to_int PAYLOAD_OFFLOADED = 5"
| "event_type_to_int CONSOLIDATION_REQUESTED = 6"
| "event_type_to_int CONSOLIDATION_COMPLETED = 7"
| "event_type_to_int (UNNAMED_EVENT_TYPE n) = n"

definition event_type_of_int :: "int \<Rightarrow> MemoryEventType" where
  "event_type_of_int n =
     (if n = 0 then SESSION_STARTED else if n = 1 then SESSION_ENDED
      else if n = 2 then MESSAGE_APPENDED else if n = 3 then TOOL_CALL_STARTED
      else if n = 4 then TOOL_CALL_FINISHED else if n = 5 then PAYLOAD_OFFLOADED
      else if n = 6 then CONSOLIDATION_REQUESTED else if n = 7 then CONSOLIDATION_COMPLETED
      else UNNAMED_EVENT_TYPE n)"

text \<open>A value of the enum: an unnamed one is outside 0..7 and fits an \<open>int\<close>.\<close>

fun valid_event_type :: "MemoryEventType \<Rightarrow> bool" where
  "valid_event_type (UNNAMED_EVENT_TYPE n) = ((n < 0 \<or> 7 < n) \<and> INT_MIN \<le> n \<and> n \<le> INT_MAX)"
| "valid_event_type _ = True"

lemma event_type_of_to_int [simp]: "valid_event_type t \<Longrightarrow> event_type_of_int (event_type_to_int t) = t"
  by (cases t) (auto simp: event_type_of_int_def)

lemma event_type_to_of_int [simp]: "event_type_to_int (event_type_of_int n) = n"
  by (simp add: event_type_of_int_def)

lemma event_type_of_int_message [simp]: "event_type_of_int n = MESSAGE_APPENDED \<longleftrightarrow> n = 2"
  by (auto simp: event_type_of_int_def split: if_splits)

record MemoryEvent =
  ev_type :: MemoryEventType
  ev_agentId :: string
  ev_sessionId :: string
  ev_role :: string
  ev_content :: string
  ev_toolCallId :: string
  ev_toolName :: string
  ev_payloadRef :: string
  ev_storeCursor :: string
  ev_metadata :: json
  ev_timestamp :: string

section \<open>payload.h\<close>

record MemoryPayloadRef =
  pay_agentId :: string
  pay_sessionId :: string
  pay_uri :: string
  pay_contentType :: string
  pay_summary :: string
  pay_toolName :: string
  pay_originalChars :: int
  pay_metadata :: json
  pay_createdAt :: string

definition empty_payload_ref :: MemoryPayloadRef where
  "empty_payload_ref =
     \<lparr>pay_agentId = [], pay_sessionId = [], pay_uri = [], pay_contentType = [], pay_summary = [],
      pay_toolName = [], pay_originalChars = 0, pay_metadata = JObj [], pay_createdAt = []\<rparr>"

record MemoryPayloadWriteRequest =
  pw_agentId :: string
  pw_sessionId :: string
  pw_content :: string
  pw_contentType :: string
  pw_toolCallId :: string
  pw_toolName :: string
  pw_metadata :: json

record MemoryPayloadWriteResult =
  pwr_succeeded :: bool
  pwr_offloaded :: bool
  pwr_payload :: MemoryPayloadRef
  pwr_replacementContent :: string
  pwr_error :: MemoryError

type_synonym MemoryPayloadReadResult = "string memory_result"

section \<open>long\_term\_memory.h\<close>

record MemoryEntity =
  en_id :: string
  en_agentId :: string
  en_entityType :: string
  en_name :: string
  en_summary :: string
  en_confidence :: rat
  en_isActive :: bool
  en_supersededByEntityId :: string
  en_supersededEntityId :: string
  en_sourceRefs :: "string list"
  en_metadata :: json
  en_createdAt :: string
  en_updatedAt :: string

definition default_entity :: MemoryEntity where
  "default_entity =
     \<lparr>en_id = [], en_agentId = [], en_entityType = [], en_name = [], en_summary = [],
      en_confidence = 0, en_isActive = True, en_supersededByEntityId = [],
      en_supersededEntityId = [], en_sourceRefs = [], en_metadata = JObj [],
      en_createdAt = [], en_updatedAt = []\<rparr>"

record MemoryRelation =
  rel_id :: string
  rel_agentId :: string
  rel_fromEntityId :: string
  rel_relationType :: string
  rel_toEntityId :: string
  rel_confidence :: rat
  rel_sourceRefs :: "string list"
  rel_metadata :: json
  rel_createdAt :: string
  rel_updatedAt :: string

definition default_relation :: MemoryRelation where
  "default_relation =
     \<lparr>rel_id = [], rel_agentId = [], rel_fromEntityId = [], rel_relationType = [],
      rel_toEntityId = [], rel_confidence = 0, rel_sourceRefs = [], rel_metadata = JObj [],
      rel_createdAt = [], rel_updatedAt = []\<rparr>"

record MemoryConsolidationRequest =
  cr_agentId :: string
  cr_sessionId :: string
  cr_maxEvents :: int
  cr_forceReprocess :: bool
  cr_excludedSessionIds :: "string list"
  cr_metadata :: json

record MemoryConsolidationResult =
  cres_succeeded :: bool
  cres_fallbackUsed :: bool
  cres_processedEvents :: int
  cres_savedSummaries :: int
  cres_savedEntities :: int
  cres_savedRelations :: int
  cres_nextCursor :: string
  cres_sessionId :: string
  cres_error :: MemoryError

definition default_consolidation_result :: MemoryConsolidationResult where
  "default_consolidation_result =
     \<lparr>cres_succeeded = False, cres_fallbackUsed = False, cres_processedEvents = 0,
      cres_savedSummaries = 0, cres_savedEntities = 0, cres_savedRelations = 0,
      cres_nextCursor = [], cres_sessionId = [], cres_error = no_error\<rparr>"

section \<open>search.h, stats.h\<close>

record MemorySearchHit =
  hit_id :: string
  hit_type :: string
  hit_content :: string
  hit_score :: rat
  hit_sourceRefs :: "string list"
  hit_metadata :: json

record MemorySearchRequest =
  sr_agentId :: string
  sr_sessionId :: string
  sr_query :: string
  sr_limit :: int
  sr_includeSections :: "string list"
  sr_metadata :: json

type_synonym MemorySearchResult = "MemorySearchHit list memory_result"

record MemoryStats =
  st_events :: int
  st_payloads :: int
  st_summaries :: int
  st_entities :: int
  st_relations :: int
  st_metadata :: json

definition default_stats :: MemoryStats where
  "default_stats =
     \<lparr>st_events = 0, st_payloads = 0, st_summaries = 0, st_entities = 0, st_relations = 0,
      st_metadata = JObj []\<rparr>"

type_synonym MemoryStatsResult = "MemoryStats memory_result"

section \<open>context.h\<close>

record MemoryMessage =
  msg_role :: string
  msg_content :: string
  msg_toolCallId :: string
  msg_toolName :: string
  msg_payloadRef :: string

record MemoryContextRequest =
  cx_agentId :: string
  cx_sessionId :: string
  cx_query :: string
  cx_tokenBudget :: int
  cx_includeSections :: "string list"
  cx_metadata :: json

record MemoryContextPackage =
  pkg_messages :: "MemoryMessage list"
  pkg_memoryText :: string
  pkg_entities :: "MemoryEntity list"
  pkg_relations :: "MemoryRelation list"
  pkg_payloadRefs :: "MemoryPayloadRef list"
  pkg_citations :: "string list"
  pkg_metadata :: json

definition empty_package :: MemoryContextPackage where
  "empty_package =
     \<lparr>pkg_messages = [], pkg_memoryText = [], pkg_entities = [], pkg_relations = [],
      pkg_payloadRefs = [], pkg_citations = [], pkg_metadata = JObj []\<rparr>"

type_synonym MemoryContextResult = "MemoryContextPackage memory_result"

section \<open>config.h, model\_client.h\<close>

record MemoryModelConfig =
  mc_enabled :: bool
  mc_formatType :: string
  mc_baseUrl :: string
  mc_apiKey :: string
  mc_modelName :: string
  mc_organization :: string
  mc_anthropicVersion :: string
  mc_timeoutSeconds :: int
  mc_temperature :: rat
  mc_maxTokens :: int
  mc_headers :: "(string \<times> string) list"
  mc_extraParams :: json

definition default_model_config :: MemoryModelConfig where
  "default_model_config =
     \<lparr>mc_enabled = False, mc_formatType = ''openai'', mc_baseUrl = [], mc_apiKey = [],
      mc_modelName = [], mc_organization = [], mc_anthropicVersion = ''2023-06-01'',
      mc_timeoutSeconds = 60, mc_temperature = 0, mc_maxTokens = 0, mc_headers = [],
      mc_extraParams = JObj []\<rparr>"

record MemoryConfig =
  cfg_dataPath :: string
  cfg_tokenBudget :: int
  cfg_offloadThresholdChars :: int
  cfg_enablePayloadOffload :: bool
  cfg_model :: MemoryModelConfig

definition default_config :: MemoryConfig where
  "default_config =
     \<lparr>cfg_dataPath = [], cfg_tokenBudget = 4096, cfg_offloadThresholdChars = 8000,
      cfg_enablePayloadOffload = True, cfg_model = default_model_config\<rparr>"

record ModelInvokeResult =
  inv_text :: string
  inv_httpStatus :: int
  inv_errorCode :: string
  inv_errorMessage :: string
  inv_providerError :: string

definition default_invoke_result :: ModelInvokeResult where
  "default_invoke_result =
     \<lparr>inv_text = [], inv_httpStatus = 0, inv_errorCode = [], inv_errorMessage = [],
      inv_providerError = []\<rparr>"

definition invoke_ok :: "ModelInvokeResult \<Rightarrow> bool" where
  "invoke_ok r = (inv_errorMessage r = [] \<and> inv_text r \<noteq> [])"

section \<open>Results of the storage interface (src/storage/store.h)\<close>

record LongTermSummaryRecord =
  ls_level :: string
  ls_topic :: string
  ls_summary :: string
  ls_confidence :: rat
  ls_sourceRefs :: "string list"
  ls_createdAt :: string
  ls_updatedAt :: string

record LongTermMemorySnapshot =
  snap_summaries :: "LongTermSummaryRecord list"
  snap_entities :: "MemoryEntity list"
  snap_relations :: "MemoryRelation list"

definition empty_snapshot :: LongTermMemorySnapshot where
  "empty_snapshot = \<lparr>snap_summaries = [], snap_entities = [], snap_relations = []\<rparr>"

type_synonym MemoryEventsResult = "MemoryEvent list memory_result"
type_synonym MemoryPayloadRefsResult = "MemoryPayloadRef list memory_result"
type_synonym LongTermMemorySnapshotResult = "LongTermMemorySnapshot memory_result"
type_synonym MemorySearchStoreResult = "MemorySearchHit list memory_result"
type_synonym ConsolidationCursorResult = "string memory_result"

end
