(* ===== verification/Sqlite_Db.thy ===== *)
theory Sqlite_Db
  imports Memory_Types
begin

text \<open>
  The SQLite database of \<open>src/storage/sqlite_store.cpp\<close>: the tables \<open>Initialize\<close> creates, the
  full-text indexes its triggers maintain, and one function per data-changing SQL statement the
  store prepares. SQLite itself is not modelled: a statement has its documented SQL meaning on
  the tables, and the store (next theory) decides whether it runs at all. Text parameters are
  bound as C strings, so a row holds the bytes before the first NUL. The database invariant
  closes the theory: row identifiers increase and fit 64 bits, keys are unique, at most one
  entity per agent, type and name and one relation per quadruple is active, and every full-text
  index holds exactly the rows of its table.
\<close>

section \<open>Rows\<close>

record event_row =
  evr_id :: int
  evr_agent :: string
  evr_session :: string
  evr_type :: int
  evr_role :: string
  evr_content :: string
  evr_payload_ref :: string
  evr_tool_call_id :: string
  evr_tool_name :: string
  evr_metadata_json :: string
  evr_created_at :: string

record payload_row =
  pyr_id :: int
  pyr_agent :: string
  pyr_session :: string
  pyr_ref :: string
  pyr_content_type :: string
  pyr_tool_name :: string
  pyr_summary :: string
  pyr_original_chars :: int
  pyr_created_at :: string

record summary_row =
  smr_id :: int
  smr_agent :: string
  smr_session :: string
  smr_level :: string
  smr_topic :: string
  smr_summary :: string
  smr_source_refs_json :: string
  smr_confidence :: rat
  smr_updated_at :: string

record entity_row =
  enr_rowid :: int
  enr_id :: string
  enr_agent :: string
  enr_type :: string
  enr_name :: string
  enr_summary :: string
  enr_confidence :: rat
  enr_source_refs_json :: string
  enr_metadata_json :: string
  enr_active :: bool
  enr_superseded_by :: "string option"
  enr_updated_at :: string

record relation_row =
  rlr_id :: int
  rlr_agent :: string
  rlr_from :: string
  rlr_relation :: string
  rlr_to :: string
  rlr_confidence :: rat
  rlr_source_refs_json :: string
  rlr_metadata_json :: string
  rlr_active :: bool
  rlr_updated_at :: string

record cursor_row =
  cur_agent :: string
  cur_session :: string
  cur_cursor :: int
  cur_updated_at :: string

type_synonym fts_doc = "int \<times> string list"

text \<open>
  \<open>db_schema\<close> lists the tables that exist with their columns; \<open>seq_\<close> is the table's entry of
  \<open>sqlite_sequence\<close> (\<open>AUTOINCREMENT\<close>); \<open>fts_\<close> the documents of a full-text index by row.
\<close>

record database =
  db_schema :: "(string \<times> string list) list"
  t_events :: "event_row list"
  seq_events :: int
  t_payloads :: "payload_row list"
  seq_payloads :: int
  t_summaries :: "summary_row list"
  seq_summaries :: int
  t_entities :: "entity_row list"
  t_relations :: "relation_row list"
  seq_relations :: int
  t_cursors :: "cursor_row list"
  fts_summaries :: "fts_doc list"
  fts_entities :: "fts_doc list"
  fts_relations :: "fts_doc list"

definition empty_database :: database where
  "empty_database =
     \<lparr>db_schema = [], t_events = [], seq_events = 0, t_payloads = [], seq_payloads = 0,
      t_summaries = [], seq_summaries = 0, t_entities = [], t_relations = [], seq_relations = 0,
      t_cursors = [], fts_summaries = [], fts_entities = [], fts_relations = []\<rparr>"

section \<open>Full-text triggers\<close>

text \<open>
  The documents of the three indexes, and the triggers \<open>AFTER INSERT\<close> (add the new document) and
  \<open>AFTER UPDATE\<close> (delete the old document, add the new one).
\<close>

definition summary_doc :: "summary_row \<Rightarrow> fts_doc" where
  "summary_doc r = (smr_id r, [smr_level r, smr_topic r, smr_summary r])"

definition entity_doc :: "entity_row \<Rightarrow> fts_doc" where
  "entity_doc r = (enr_rowid r, [enr_type r, enr_name r, enr_summary r])"

definition relation_doc :: "relation_row \<Rightarrow> fts_doc" where
  "relation_doc r = (rlr_id r, [rlr_from r, rlr_relation r, rlr_to r])"

definition fts_after_insert :: "fts_doc \<Rightarrow> fts_doc list \<Rightarrow> fts_doc list" where
  "fts_after_insert new idx = idx @ [new]"

definition fts_after_update :: "fts_doc \<Rightarrow> fts_doc \<Rightarrow> fts_doc list \<Rightarrow> fts_doc list" where
  "fts_after_update old new idx = remove1 old idx @ [new]"

text \<open>\<open>UPDATE t SET ... WHERE P\<close>: the rows and the index after the triggers of the changed rows.\<close>

definition update_rows :: "('r \<Rightarrow> bool) \<Rightarrow> ('r \<Rightarrow> 'r) \<Rightarrow> 'r list \<Rightarrow> 'r list" where
  "update_rows P f rows = map (\<lambda>r. if P r then f r else r) rows"

definition update_index ::
  "('r \<Rightarrow> fts_doc) \<Rightarrow> ('r \<Rightarrow> bool) \<Rightarrow> ('r \<Rightarrow> 'r) \<Rightarrow> 'r list \<Rightarrow> fts_doc list \<Rightarrow> fts_doc list" where
  "update_index doc P f rows idx =
     foldl (\<lambda>i r. fts_after_update (doc r) (doc (f r)) i) idx (filter P rows)"

section \<open>Statements\<close>

text \<open>\<open>INSERT INTO memory_events\<close>: the next identifier of the sequence, or failure when it is full.\<close>

definition insert_event :: "string \<Rightarrow> event_row \<Rightarrow> database \<Rightarrow> database option" where
  "insert_event now r d =
     (if seq_events d < LLONG_MAX
      then Some (d\<lparr>t_events := t_events d @ [r\<lparr>evr_id := seq_events d + 1, evr_created_at := now\<rparr>],
                   seq_events := seq_events d + 1\<rparr>)
      else None)"

text \<open>\<open>INSERT INTO memory_payloads ... ON CONFLICT(ref) DO UPDATE\<close>.\<close>

definition payload_conflict_update :: "payload_row \<Rightarrow> payload_row \<Rightarrow> payload_row" where
  "payload_conflict_update new old =
     old\<lparr>pyr_agent := pyr_agent new, pyr_session := pyr_session new,
         pyr_content_type := pyr_content_type new, pyr_tool_name := pyr_tool_name new,
         pyr_summary := pyr_summary new, pyr_original_chars := pyr_original_chars new\<rparr>"

definition upsert_payload :: "string \<Rightarrow> payload_row \<Rightarrow> database \<Rightarrow> database option" where
  "upsert_payload now r d =
     (if \<exists>x\<in>set (t_payloads d). pyr_ref x = pyr_ref r
      then Some (d\<lparr>t_payloads :=
             update_rows (\<lambda>x. pyr_ref x = pyr_ref r) (payload_conflict_update r) (t_payloads d)\<rparr>)
      else if seq_payloads d < LLONG_MAX
      then Some (d\<lparr>t_payloads :=
                     t_payloads d @ [r\<lparr>pyr_id := seq_payloads d + 1, pyr_created_at := now\<rparr>],
                   seq_payloads := seq_payloads d + 1\<rparr>)
      else None)"

text \<open>\<open>INSERT INTO memory_summaries\<close> with trigger \<open>fts_mem_sum_ai\<close>.\<close>

definition insert_summary :: "string \<Rightarrow> summary_row \<Rightarrow> database \<Rightarrow> database option" where
  "insert_summary now r d =
     (if seq_summaries d < LLONG_MAX
      then (let new = r\<lparr>smr_id := seq_summaries d + 1, smr_updated_at := now\<rparr>
            in Some (d\<lparr>t_summaries := t_summaries d @ [new],
                       seq_summaries := seq_summaries d + 1,
                       fts_summaries := fts_after_insert (summary_doc new) (fts_summaries d)\<rparr>))
      else None)"

definition update_entities ::
  "(entity_row \<Rightarrow> bool) \<Rightarrow> (entity_row \<Rightarrow> entity_row) \<Rightarrow> database \<Rightarrow> database" where
  "update_entities P f d =
     d\<lparr>t_entities := update_rows P f (t_entities d),
       fts_entities := update_index entity_doc P f (t_entities d) (fts_entities d)\<rparr>"

definition obsolete_entity :: "string \<Rightarrow> string \<Rightarrow> entity_row \<Rightarrow> entity_row" where
  "obsolete_entity now by r =
     r\<lparr>enr_active := False, enr_superseded_by := Some by, enr_updated_at := now\<rparr>"

definition entity_key :: "entity_row \<Rightarrow> string \<times> string \<times> string" where
  "entity_key r = (enr_agent r, enr_type r, enr_name r)"

text \<open>The \<open>UPDATE memory_entities\<close> of \<open>MarkDuplicateEntitiesObsoleteUnlocked\<close>.\<close>

definition mark_duplicate_entities ::
  "string \<Rightarrow> string \<Rightarrow> string \<Rightarrow> string \<Rightarrow> string \<Rightarrow> database \<Rightarrow> database option" where
  "mark_duplicate_entities now eid agent typ nam d =
     Some (update_entities
       (\<lambda>r. entity_key r = (agent, typ, nam) \<and> enr_id r \<noteq> eid \<and> enr_active r)
       (obsolete_entity now eid) d)"

text \<open>The \<open>UPDATE memory_entities\<close> of \<open>MarkEntityObsoleteUnlocked\<close>: by identifier alone.\<close>

definition mark_entity_obsolete :: "string \<Rightarrow> string \<Rightarrow> string \<Rightarrow> database \<Rightarrow> database option" where
  "mark_entity_obsolete now eid by d =
     Some (update_entities (\<lambda>r. enr_id r = eid) (obsolete_entity now by) d)"

text \<open>
  \<open>INSERT INTO memory_entities ... ON CONFLICT(id) DO UPDATE\<close>: the conflict is on the identifier
  alone, and every other column is replaced.
\<close>

definition next_entity_rowid :: "entity_row list \<Rightarrow> int" where
  "next_entity_rowid rows = foldl max 0 (map enr_rowid rows) + 1"

definition entity_conflict_update :: "string \<Rightarrow> entity_row \<Rightarrow> entity_row \<Rightarrow> entity_row" where
  "entity_conflict_update now new old = new\<lparr>enr_rowid := enr_rowid old, enr_updated_at := now\<rparr>"

definition upsert_entity :: "string \<Rightarrow> entity_row \<Rightarrow> database \<Rightarrow> database option" where
  "upsert_entity now r d =
     (if \<exists>x\<in>set (t_entities d). enr_id x = enr_id r
      then Some (update_entities (\<lambda>x. enr_id x = enr_id r) (entity_conflict_update now r) d)
      else (let new = r\<lparr>enr_rowid := next_entity_rowid (t_entities d), enr_updated_at := now\<rparr>
            in Some (d\<lparr>t_entities := t_entities d @ [new],
                       fts_entities := fts_after_insert (entity_doc new) (fts_entities d)\<rparr>)))"

text \<open>The two statements of \<open>SaveRelationUnlocked\<close>.\<close>

definition relation_key :: "relation_row \<Rightarrow> string \<times> string \<times> string \<times> string" where
  "relation_key r = (rlr_agent r, rlr_from r, rlr_relation r, rlr_to r)"

definition obsolete_relations ::
  "string \<Rightarrow> string \<Rightarrow> string \<Rightarrow> string \<Rightarrow> string \<Rightarrow> database \<Rightarrow> database option" where
  "obsolete_relations now agent frm typ to d =
     (let P = (\<lambda>r. relation_key r = (agent, frm, typ, to) \<and> rlr_active r);
          f = (\<lambda>r. r\<lparr>rlr_active := False, rlr_updated_at := now\<rparr>)
      in Some (d\<lparr>t_relations := update_rows P f (t_relations d),
                 fts_relations := update_index relation_doc P f (t_relations d) (fts_relations d)\<rparr>))"

definition insert_relation :: "string \<Rightarrow> relation_row \<Rightarrow> database \<Rightarrow> database option" where
  "insert_relation now r d =
     (if seq_relations d < LLONG_MAX
      then (let new = r\<lparr>rlr_id := seq_relations d + 1, rlr_active := True, rlr_updated_at := now\<rparr>
            in Some (d\<lparr>t_relations := t_relations d @ [new],
                       seq_relations := seq_relations d + 1,
                       fts_relations := fts_after_insert (relation_doc new) (fts_relations d)\<rparr>))
      else None)"

text \<open>\<open>INSERT INTO memory_consolidation_cursors ... ON CONFLICT(agent_id, session_id) DO UPDATE\<close>.\<close>

definition upsert_cursor :: "string \<Rightarrow> string \<Rightarrow> string \<Rightarrow> int \<Rightarrow> database \<Rightarrow> database option" where
  "upsert_cursor now agent session c d =
     Some (if \<exists>x\<in>set (t_cursors d). cur_agent x = agent \<and> cur_session x = session
           then d\<lparr>t_cursors :=
                  update_rows (\<lambda>x. cur_agent x = agent \<and> cur_session x = session)
                    (\<lambda>x. x\<lparr>cur_cursor := c, cur_updated_at := now\<rparr>) (t_cursors d)\<rparr>
           else d\<lparr>t_cursors := t_cursors d @
                  [\<lparr>cur_agent = agent, cur_session = session, cur_cursor = c, cur_updated_at = now\<rparr>]\<rparr>)"

definition select_cursor :: "string \<Rightarrow> string \<Rightarrow> database \<Rightarrow> int option" where
  "select_cursor agent session d =
     map_option cur_cursor (find (\<lambda>x. cur_agent x = agent \<and> cur_session x = session) (t_cursors d))"

section \<open>The database invariant\<close>

definition ids_ok :: "('r \<Rightarrow> int) \<Rightarrow> int \<Rightarrow> 'r list \<Rightarrow> bool" where
  "ids_ok f sq rows =
     (sorted_wrt (\<lambda>x y. f x < f y) rows \<and> (\<forall>r\<in>set rows. 0 < f r \<and> f r \<le> sq) \<and> 0 \<le> sq \<and> sq \<le> LLONG_MAX)"

definition mirrors :: "('r \<Rightarrow> fts_doc) \<Rightarrow> 'r list \<Rightarrow> fts_doc list \<Rightarrow> bool" where
  "mirrors doc rows idx = (mset idx = mset (map doc rows))"

definition keyed :: "entity_row \<Rightarrow> bool" where
  "keyed r = (enr_id r \<noteq> [] \<and> enr_agent r \<noteq> [] \<and> enr_type r \<noteq> [] \<and> enr_name r \<noteq> [])"

definition one_active_entity :: "entity_row list \<Rightarrow> bool" where
  "one_active_entity rows =
     (\<forall>r\<in>set rows. \<forall>r'\<in>set rows. enr_active r \<and> enr_active r' \<and> keyed r \<and> keyed r' \<and>
        entity_key r = entity_key r' \<longrightarrow> enr_id r = enr_id r')"

definition one_active_relation :: "relation_row list \<Rightarrow> bool" where
  "one_active_relation rows =
     (\<forall>r\<in>set rows. \<forall>r'\<in>set rows. rlr_active r \<and> rlr_active r' \<and> relation_key r = relation_key r'
        \<longrightarrow> rlr_id r = rlr_id r')"

definition events_ok :: "database \<Rightarrow> bool" where
  "events_ok d = ids_ok evr_id (seq_events d) (t_events d)"

definition payloads_ok :: "database \<Rightarrow> bool" where
  "payloads_ok d = (ids_ok pyr_id (seq_payloads d) (t_payloads d) \<and> distinct (map pyr_ref (t_payloads d)))"

definition summaries_ok :: "database \<Rightarrow> bool" where
  "summaries_ok d =
     (ids_ok smr_id (seq_summaries d) (t_summaries d) \<and> mirrors summary_doc (t_summaries d) (fts_summaries d))"

definition entities_ok :: "database \<Rightarrow> bool" where
  "entities_ok d =
     (distinct (map enr_id (t_entities d)) \<and> sorted_wrt (\<lambda>x y. enr_rowid x < enr_rowid y) (t_entities d) \<and>
      one_active_entity (t_entities d) \<and> mirrors entity_doc (t_entities d) (fts_entities d))"

definition relations_ok :: "database \<Rightarrow> bool" where
  "relations_ok d =
     (ids_ok rlr_id (seq_relations d) (t_relations d) \<and> one_active_relation (t_relations d) \<and>
      mirrors relation_doc (t_relations d) (fts_relations d))"

definition cursors_ok :: "database \<Rightarrow> bool" where
  "cursors_ok d =
     (distinct (map (\<lambda>x. (cur_agent x, cur_session x)) (t_cursors d)) \<and>
      (\<forall>x\<in>set (t_cursors d). LLONG_MIN \<le> cur_cursor x \<and> cur_cursor x \<le> LLONG_MAX))"

definition db_inv :: "database \<Rightarrow> bool" where
  "db_inv d = (events_ok d \<and> payloads_ok d \<and> summaries_ok d \<and> entities_ok d \<and> relations_ok d \<and> cursors_ok d)"

lemmas table_ok_defs = events_ok_def payloads_ok_def summaries_ok_def entities_ok_def relations_ok_def
  cursors_ok_def

lemma db_inv_empty: "db_inv empty_database"
  by (simp add: db_inv_def table_ok_defs empty_database_def ids_ok_def mirrors_def
      one_active_entity_def one_active_relation_def int_limits)


section \<open>Preservation of the invariant\<close>

subsection \<open>Identifiers and mirrors\<close>

lemma ids_ok_append1:
  "ids_ok f sq rows \<Longrightarrow> sq < LLONG_MAX \<Longrightarrow> f r = sq + 1 \<Longrightarrow> ids_ok f (sq + 1) (rows @ [r])"
  by (auto simp: ids_ok_def sorted_wrt_less_append1 int_limits)

lemma ids_ok_map: "(\<And>r. f (g r) = f r) \<Longrightarrow> ids_ok f sq (map g rows) = ids_ok f sq rows"
  by (simp add: ids_ok_def sorted_wrt_map)

lemma ids_ok_update_rows: "(\<And>r. f (g r) = f r) \<Longrightarrow> ids_ok f sq (update_rows P g rows) = ids_ok f sq rows"
  unfolding update_rows_def by (rule ids_ok_map) simp

lemma mirrors_append1: "mirrors doc rows idx \<Longrightarrow> mirrors doc (rows @ [r]) (fts_after_insert (doc r) idx)"
  by (simp add: mirrors_def fts_after_insert_def)

lemma mset_update_index:
  "mset idx = mset (map doc rows) + M \<Longrightarrow>
   mset (update_index doc P f rows idx) = mset (map doc (update_rows P f rows)) + M"
proof (induction rows arbitrary: idx M)
  case Nil
  then show ?case by (simp add: update_index_def update_rows_def)
next
  case (Cons r rows)
  show ?case
  proof (cases "P r")
    case True
    have "doc r \<in># mset idx" using Cons.prems by simp
    then have "mset (fts_after_update (doc r) (doc (f r)) idx) =
        mset (map doc rows) + (M + {#doc (f r)#})"
      using Cons.prems by (simp add: fts_after_update_def)
    from Cons.IH [OF this] True show ?thesis
      by (simp add: update_index_def update_rows_def)
  next
    case False
    have "mset idx = mset (map doc rows) + (M + {#doc r#})"
      using Cons.prems by simp
    from Cons.IH [OF this] False show ?thesis
      by (simp add: update_index_def update_rows_def)
  qed
qed

lemma mirrors_update: "mirrors doc rows idx \<Longrightarrow> mirrors doc (update_rows P f rows) (update_index doc P f rows idx)"
  using mset_update_index [of idx doc rows "{#}" P f] by (simp add: mirrors_def)

lemma set_update_rows: "x \<in> set (update_rows P f rows) \<longleftrightarrow> (\<exists>r\<in>set rows. x = (if P r then f r else r))"
  by (auto simp: update_rows_def)

lemma map_update_rows: "(\<And>r. g (f r) = g r) \<Longrightarrow> map g (update_rows P f rows) = map g rows"
  by (simp add: update_rows_def)

lemma map_update_rows_on:
  "(\<And>r. P r \<Longrightarrow> g (f r) = g r) \<Longrightarrow> map g (update_rows P f rows) = map g rows"
  by (simp add: update_rows_def)

subsection \<open>Events, payloads, summaries, cursors\<close>

lemma insert_event_frame:
  assumes "insert_event now r d = Some d'"
  shows "payloads_ok d' = payloads_ok d" "summaries_ok d' = summaries_ok d"
    "entities_ok d' = entities_ok d" "relations_ok d' = relations_ok d" "cursors_ok d' = cursors_ok d"
  using assms by (auto simp: insert_event_def table_ok_defs split: if_splits)

lemma insert_event_inv [inv_intros]:
  assumes "db_inv d" "insert_event now r d = Some d'"
  shows "db_inv d'"
proof -
  have "events_ok d'"
    using assms by (auto simp: db_inv_def events_ok_def insert_event_def ids_ok_append1 split: if_splits)
  with assms(1) show ?thesis
    by (simp add: db_inv_def insert_event_frame [OF assms(2)])
qed

lemma payloads_ok_upsert:
  assumes "payloads_ok d" "upsert_payload now r d = Some d'"
  shows "payloads_ok d'"
proof (cases "\<exists>x\<in>set (t_payloads d). pyr_ref x = pyr_ref r")
  case True
  have keep: "pyr_id (payload_conflict_update r x) = pyr_id x"
    "pyr_ref (payload_conflict_update r x) = pyr_ref x" for x
    by (simp_all add: payload_conflict_update_def)
  from True assms show ?thesis
    by (auto simp: upsert_payload_def payloads_ok_def ids_ok_update_rows keep map_update_rows)
next
  case False
  then have "pyr_ref r \<notin> pyr_ref ` set (t_payloads d)" by auto
  with False assms show ?thesis
    by (simp add: upsert_payload_def payloads_ok_def split: if_splits)
      (auto simp: ids_ok_append1)
qed

lemma upsert_payload_shape:
  assumes "upsert_payload now r d = Some d'"
  obtains ps sq where "d' = d\<lparr>t_payloads := ps, seq_payloads := sq\<rparr>"
proof (cases "\<exists>x\<in>set (t_payloads d). pyr_ref x = pyr_ref r")
  case True
  then have "d' = d\<lparr>t_payloads := update_rows (\<lambda>x. pyr_ref x = pyr_ref r) (payload_conflict_update r)
      (t_payloads d)\<rparr>"
    using assms by (simp add: upsert_payload_def)
  then have "d' = d\<lparr>t_payloads := t_payloads d', seq_payloads := seq_payloads d\<rparr>"
    by simp
  then show ?thesis by (rule that)
next
  case False
  then have "d' = d\<lparr>t_payloads := t_payloads d @
      [r\<lparr>pyr_id := seq_payloads d + 1, pyr_created_at := now\<rparr>], seq_payloads := seq_payloads d + 1\<rparr>"
    using assms by (simp add: upsert_payload_def split: if_splits)
  then show ?thesis by (rule that)
qed

lemma upsert_payload_inv [inv_intros]:
  assumes "db_inv d" "upsert_payload now r d = Some d'"
  shows "db_inv d'"
proof -
  obtain ps sq where d': "d' = d\<lparr>t_payloads := ps, seq_payloads := sq\<rparr>"
    using assms(2) by (rule upsert_payload_shape)
  have "events_ok d' = events_ok d" "summaries_ok d' = summaries_ok d"
    "entities_ok d' = entities_ok d" "relations_ok d' = relations_ok d" "cursors_ok d' = cursors_ok d"
    by (simp_all add: d' events_ok_def summaries_ok_def entities_ok_def relations_ok_def cursors_ok_def)
  moreover have "payloads_ok d'"
    by (rule payloads_ok_upsert [OF _ assms(2)]) (use assms(1) in \<open>simp add: db_inv_def\<close>)
  ultimately show ?thesis using assms(1) by (simp add: db_inv_def)
qed

lemma insert_summary_inv [inv_intros]:
  assumes "db_inv d" "insert_summary now r d = Some d'"
  shows "db_inv d'"
proof -
  have "summaries_ok d'"
    using assms by (auto simp: db_inv_def summaries_ok_def insert_summary_def Let_def ids_ok_append1
        mirrors_append1 split: if_splits)
  moreover have "events_ok d' = events_ok d" "payloads_ok d' = payloads_ok d"
    "entities_ok d' = entities_ok d" "relations_ok d' = relations_ok d" "cursors_ok d' = cursors_ok d"
    using assms(2) by (auto simp: insert_summary_def Let_def table_ok_defs split: if_splits)
  ultimately show ?thesis using assms(1) by (simp add: db_inv_def)
qed

lemma cursors_ok_upsert:
  assumes "cursors_ok d" "upsert_cursor now a s c d = Some d'" "LLONG_MIN \<le> c" "c \<le> LLONG_MAX"
  shows "cursors_ok d'"
  using assms
  by (auto simp: cursors_ok_def upsert_cursor_def map_update_rows set_update_rows image_iff
      split: if_splits)

lemma upsert_cursor_shape:
  assumes "upsert_cursor now a s c d = Some d'"
  obtains cs where "d' = d\<lparr>t_cursors := cs\<rparr>"
proof -
  have "d' = d\<lparr>t_cursors := t_cursors d'\<rparr>"
    using assms unfolding upsert_cursor_def option.inject
    by (cases "\<exists>x\<in>set (t_cursors d). cur_agent x = a \<and> cur_session x = s") auto
  then show ?thesis by (rule that)
qed

lemma upsert_cursor_inv [inv_intros]:
  assumes "db_inv d" "upsert_cursor now a s c d = Some d'" "LLONG_MIN \<le> c" "c \<le> LLONG_MAX"
  shows "db_inv d'"
proof -
  obtain cs where d': "d' = d\<lparr>t_cursors := cs\<rparr>"
    using assms(2) by (rule upsert_cursor_shape)
  have "events_ok d' = events_ok d" "payloads_ok d' = payloads_ok d"
    "summaries_ok d' = summaries_ok d" "entities_ok d' = entities_ok d" "relations_ok d' = relations_ok d"
    by (simp_all add: d' events_ok_def payloads_ok_def summaries_ok_def entities_ok_def relations_ok_def)
  moreover have "cursors_ok d'"
    by (rule cursors_ok_upsert [OF _ assms(2-4)]) (use assms(1) in \<open>simp add: db_inv_def\<close>)
  ultimately show ?thesis using assms(1) by (simp add: db_inv_def)
qed

subsection \<open>Entities\<close>

lemma update_entities_frame [simp]:
  "events_ok (update_entities P f d) = events_ok d" "payloads_ok (update_entities P f d) = payloads_ok d"
  "summaries_ok (update_entities P f d) = summaries_ok d"
  "relations_ok (update_entities P f d) = relations_ok d" "cursors_ok (update_entities P f d) = cursors_ok d"
  by (simp_all add: update_entities_def table_ok_defs)

lemma obsolete_entity_simps [simp]:
  "enr_id (obsolete_entity now by r) = enr_id r" "enr_rowid (obsolete_entity now by r) = enr_rowid r"
  "\<not> enr_active (obsolete_entity now by r)" "enr_agent (obsolete_entity now by r) = enr_agent r"
  "enr_superseded_by (obsolete_entity now by r) = Some by"
  by (simp_all add: obsolete_entity_def)

lemma update_entities_tables [simp]:
  "t_entities (update_entities P f d) = update_rows P f (t_entities d)"
  "fts_entities (update_entities P f d) = update_index entity_doc P f (t_entities d) (fts_entities d)"
  by (simp_all add: update_entities_def)

lemma update_rowsE:
  assumes "x \<in> set (update_rows P f rows)"
  obtains y where "y \<in> set rows" "P y" "x = f y" | "x \<in> set rows" "\<not> P x"
  using assms by (auto simp: set_update_rows split: if_splits)

lemma sorted_rowid_update_rows:
  "(\<And>x. enr_rowid (f x) = enr_rowid x) \<Longrightarrow>
   sorted_wrt (\<lambda>x y. enr_rowid x < enr_rowid y) (update_rows P f rows) =
   sorted_wrt (\<lambda>x y. enr_rowid x < enr_rowid y) rows"
  unfolding update_rows_def by (rule sorted_wrt_map_keep) simp

text \<open>Deactivating rows keeps uniqueness of the active ones.\<close>

lemma one_active_entity_obsolete:
  assumes "one_active_entity rows"
  shows "one_active_entity (update_rows P (obsolete_entity now by) rows)"
proof -
  have "x \<in> set rows" if "x \<in> set (update_rows P (obsolete_entity now by) rows)" "enr_active x" for x
    using that by (auto elim!: update_rowsE)
  with assms show ?thesis unfolding one_active_entity_def by blast
qed

lemma update_entities_obsolete_inv:
  assumes "db_inv d"
  shows "db_inv (update_entities P (obsolete_entity now by) d)"
proof -
  have "entities_ok d" using assms by (simp add: db_inv_def)
  then have "entities_ok (update_entities P (obsolete_entity now by) d)"
    by (simp add: entities_ok_def map_update_rows mirrors_update one_active_entity_obsolete
        sorted_rowid_update_rows)
  with assms show ?thesis by (simp add: db_inv_def)
qed

lemma mark_duplicate_entities_inv [inv_intros]:
  "db_inv d \<Longrightarrow> mark_duplicate_entities now i a t n d = Some d' \<Longrightarrow> db_inv d'"
  unfolding mark_duplicate_entities_def option.inject by (erule subst) (rule update_entities_obsolete_inv)

lemma mark_entity_obsolete_inv [inv_intros]:
  "db_inv d \<Longrightarrow> mark_entity_obsolete now i by d = Some d' \<Longrightarrow> db_inv d'"
  unfolding mark_entity_obsolete_def option.inject by (erule subst) (rule update_entities_obsolete_inv)

text \<open>
  The precondition of the entity upsert, established by \<open>mark_duplicate_entities\<close>: no other row
  with the key of the new one is active.
\<close>

definition no_active_duplicate :: "entity_row \<Rightarrow> database \<Rightarrow> bool" where
  "no_active_duplicate r d =
     (\<forall>x\<in>set (t_entities d). enr_active x \<and> entity_key x = entity_key r \<longrightarrow> enr_id x = enr_id r)"

lemma mark_duplicate_entities_clears:
  assumes "mark_duplicate_entities now (enr_id r) (enr_agent r) (enr_type r) (enr_name r) d = Some d'"
  shows "no_active_duplicate r d'"
  unfolding no_active_duplicate_def
proof (intro ballI impI)
  fix x
  assume x: "x \<in> set (t_entities d')" "enr_active x \<and> entity_key x = entity_key r"
  have key: "(enr_agent r, enr_type r, enr_name r) = entity_key r"
    by (simp add: entity_key_def)
  from assms have d': "d' = update_entities
      (\<lambda>y. entity_key y = entity_key r \<and> enr_id y \<noteq> enr_id r \<and> enr_active y)
      (obsolete_entity now (enr_id r)) d"
    by (simp add: mark_duplicate_entities_def key)
  from x(1) show "enr_id x = enr_id r"
    unfolding d' update_entities_tables by (rule update_rowsE) (use x(2) in auto)
qed

lemma foldl_max_ge: "(\<forall>x\<in>set xs. x \<le> foldl max a xs) \<and> a \<le> foldl max (a::int) xs"
proof (induction xs arbitrary: a)
  case (Cons y ys)
  have "max a y \<le> foldl max (max a y) ys" "\<forall>x\<in>set ys. x \<le> foldl max (max a y) ys"
    using Cons.IH [of "max a y"] by auto
  then show ?case by auto
qed simp

lemma next_entity_rowid_fresh: "r \<in> set rows \<Longrightarrow> enr_rowid r < next_entity_rowid rows"
  using foldl_max_ge [of "map enr_rowid rows" 0] by (auto simp: next_entity_rowid_def)

lemma one_active_entity_upsert:
  assumes act: "one_active_entity rows"
    and dup: "\<And>x. x \<in> set rows \<Longrightarrow> enr_active x \<Longrightarrow> keyed r \<Longrightarrow> entity_key x = entity_key r \<Longrightarrow> enr_id x = enr_id r"
    and rows': "\<And>x. x \<in> set rows' \<Longrightarrow>
      x \<in> set rows \<or> (enr_id x = enr_id r \<and> keyed x = keyed r \<and> entity_key x = entity_key r)"
  shows "one_active_entity rows'"
  unfolding one_active_entity_def
proof (intro ballI impI)
  fix x y
  assume x: "x \<in> set rows'" and y: "y \<in> set rows'"
    and *: "enr_active x \<and> enr_active y \<and> keyed x \<and> keyed y \<and> entity_key x = entity_key y"
  show "enr_id x = enr_id y"
    using rows' [OF x]
  proof
    assume xr: "x \<in> set rows"
    show ?thesis
      using rows' [OF y]
    proof
      assume "y \<in> set rows"
      with xr * act show ?thesis unfolding one_active_entity_def by blast
    next
      assume "enr_id y = enr_id r \<and> keyed y = keyed r \<and> entity_key y = entity_key r"
      with dup [OF xr] * show ?thesis by metis
    qed
  next
    assume xn: "enr_id x = enr_id r \<and> keyed x = keyed r \<and> entity_key x = entity_key r"
    show ?thesis
      using rows' [OF y]
    proof
      assume "y \<in> set rows"
      from dup [OF this] xn * show ?thesis by metis
    next
      assume "enr_id y = enr_id r \<and> keyed y = keyed r \<and> entity_key y = entity_key r"
      with xn show ?thesis by metis
    qed
  qed
qed

lemma entity_conflict_update_simps [simp]:
  "enr_id (entity_conflict_update now r x) = enr_id r"
  "enr_rowid (entity_conflict_update now r x) = enr_rowid x"
  "keyed (entity_conflict_update now r x) = keyed r"
  "entity_key (entity_conflict_update now r x) = entity_key r"
  by (simp_all add: entity_conflict_update_def keyed_def entity_key_def)

lemma entities_ok_upsert_conflict:
  assumes ok: "entities_ok d" and dup: "keyed r \<Longrightarrow> no_active_duplicate r d"
  shows "entities_ok (update_entities (\<lambda>x. enr_id x = enr_id r) (entity_conflict_update now r) d)"
proof -
  let ?rows = "update_rows (\<lambda>x. enr_id x = enr_id r) (entity_conflict_update now r) (t_entities d)"
  have act: "one_active_entity ?rows"
  proof (rule one_active_entity_upsert [where r = r])
    show "one_active_entity (t_entities d)" using ok by (simp add: entities_ok_def)
    show "enr_id x = enr_id r"
      if "x \<in> set (t_entities d)" "enr_active x" "keyed r" "entity_key x = entity_key r" for x
      using dup that unfolding no_active_duplicate_def by blast
    show "x \<in> set (t_entities d) \<or> (enr_id x = enr_id r \<and> keyed x = keyed r \<and> entity_key x = entity_key r)"
      if "x \<in> set ?rows" for x
      using that by (rule update_rowsE) simp_all
  qed
  have ids: "map enr_id ?rows = map enr_id (t_entities d)"
    by (rule map_update_rows_on) simp
  have srt: "sorted_wrt (\<lambda>x y. enr_rowid x < enr_rowid y) ?rows"
    using ok by (simp add: entities_ok_def sorted_rowid_update_rows)
  show ?thesis
    using ok act ids srt by (simp add: entities_ok_def mirrors_update)
qed

lemma upsert_entity_new:
  assumes "\<not> (\<exists>x\<in>set (t_entities d). enr_id x = enr_id r)"
  shows "upsert_entity now r d =
    Some (d\<lparr>t_entities := t_entities d @ [r\<lparr>enr_rowid := next_entity_rowid (t_entities d), enr_updated_at := now\<rparr>],
            fts_entities := fts_after_insert
              (entity_doc (r\<lparr>enr_rowid := next_entity_rowid (t_entities d), enr_updated_at := now\<rparr>)) (fts_entities d)\<rparr>)"
  unfolding upsert_entity_def Let_def using assms by (rule if_not_P)

lemma entities_ok_upsert_new:
  assumes ok: "entities_ok d" and dup: "keyed r \<Longrightarrow> no_active_duplicate r d"
    and fresh: "\<not> (\<exists>x\<in>set (t_entities d). enr_id x = enr_id r)"
    and d': "upsert_entity now r d = Some d'"
  shows "entities_ok d'"
proof -
  let ?new = "r\<lparr>enr_rowid := next_entity_rowid (t_entities d), enr_updated_at := now\<rparr>"
  have act: "one_active_entity (t_entities d @ [?new])"
  proof (rule one_active_entity_upsert [where r = r])
    show "one_active_entity (t_entities d)" using ok by (simp add: entities_ok_def)
    show "enr_id x = enr_id r"
      if "x \<in> set (t_entities d)" "enr_active x" "keyed r" "entity_key x = entity_key r" for x
      using dup that unfolding no_active_duplicate_def by blast
    show "x \<in> set (t_entities d) \<or> (enr_id x = enr_id r \<and> keyed x = keyed r \<and> entity_key x = entity_key r)"
      if "x \<in> set (t_entities d @ [?new])" for x
      using that by (auto simp: keyed_def entity_key_def)
  qed
  have srt: "sorted_wrt (\<lambda>x y. enr_rowid x < enr_rowid y) (t_entities d @ [?new])"
    using ok by (simp add: entities_ok_def sorted_wrt_less_append1 next_entity_rowid_fresh)
  have ids: "distinct (map enr_id (t_entities d @ [?new]))"
    using ok fresh by (auto simp: entities_ok_def image_iff)
  from d' have rows: "t_entities d' = t_entities d @ [?new]"
      "fts_entities d' = fts_after_insert (entity_doc ?new) (fts_entities d)"
    by (auto simp: upsert_entity_new [OF fresh])
  have "mirrors entity_doc (t_entities d @ [?new]) (fts_after_insert (entity_doc ?new) (fts_entities d))"
    using ok by (intro mirrors_append1) (simp add: entities_ok_def)
  with act srt ids show ?thesis by (simp only: entities_ok_def rows simp_thms)
qed

lemma upsert_entity_inv:
  assumes inv: "db_inv d" and dup: "keyed r \<Longrightarrow> no_active_duplicate r d"
    and d': "upsert_entity now r d = Some d'"
  shows "db_inv d'"
proof (cases "\<exists>x\<in>set (t_entities d). enr_id x = enr_id r")
  case True
  then have "d' = update_entities (\<lambda>x. enr_id x = enr_id r) (entity_conflict_update now r) d"
    using d' by (simp add: upsert_entity_def)
  moreover have "entities_ok (update_entities (\<lambda>x. enr_id x = enr_id r) (entity_conflict_update now r) d)"
    using inv dup by (intro entities_ok_upsert_conflict) (simp_all add: db_inv_def)
  ultimately show ?thesis using inv by (simp add: db_inv_def)
next
  case False
  have "entities_ok d" using inv by (simp add: db_inv_def)
  then have "entities_ok d'" by (rule entities_ok_upsert_new [OF _ dup False d'])
  moreover have "events_ok d' = events_ok d" "payloads_ok d' = payloads_ok d"
    "summaries_ok d' = summaries_ok d" "relations_ok d' = relations_ok d" "cursors_ok d' = cursors_ok d"
    using d' unfolding upsert_entity_new [OF False]
    by (auto simp: events_ok_def payloads_ok_def summaries_ok_def relations_ok_def cursors_ok_def)
  ultimately show ?thesis using inv by (simp add: db_inv_def)
qed

subsection \<open>Relations\<close>

lemma obsolete_relations_tables:
  assumes "obsolete_relations now a f t to d = Some d'"
  defines "P \<equiv> \<lambda>r. relation_key r = (a, f, t, to) \<and> rlr_active r"
    and "g \<equiv> \<lambda>r. r\<lparr>rlr_active := False, rlr_updated_at := now\<rparr>"
  shows "t_relations d' = update_rows P g (t_relations d)"
    "fts_relations d' = update_index relation_doc P g (t_relations d) (fts_relations d)"
    "seq_relations d' = seq_relations d"
    "events_ok d' = events_ok d" "payloads_ok d' = payloads_ok d"
    "summaries_ok d' = summaries_ok d" "entities_ok d' = entities_ok d" "cursors_ok d' = cursors_ok d"
  using assms(1) unfolding P_def g_def
  by (auto simp: obsolete_relations_def Let_def events_ok_def payloads_ok_def summaries_ok_def
      entities_ok_def cursors_ok_def)

lemma one_active_relation_obsolete:
  assumes "one_active_relation rows"
  shows "one_active_relation (update_rows P (\<lambda>r. r\<lparr>rlr_active := False, rlr_updated_at := now\<rparr>) rows)"
proof -
  have "x \<in> set rows"
    if "x \<in> set (update_rows P (\<lambda>r. r\<lparr>rlr_active := False, rlr_updated_at := now\<rparr>) rows)" "rlr_active x" for x
    using that by (auto elim!: update_rowsE)
  with assms show ?thesis unfolding one_active_relation_def by blast
qed

lemma obsolete_relations_inv [inv_intros]:
  assumes "db_inv d" "obsolete_relations now a f t to d = Some d'"
  shows "db_inv d'"
proof -
  have "relations_ok d" using assms(1) by (simp add: db_inv_def)
  then have "relations_ok d'"
    by (simp add: relations_ok_def obsolete_relations_tables [OF assms(2)] ids_ok_update_rows
        mirrors_update one_active_relation_obsolete)
  then show ?thesis
    using assms(1) by (simp add: db_inv_def obsolete_relations_tables(4-) [OF assms(2)])
qed

definition no_active_relation :: "relation_row \<Rightarrow> database \<Rightarrow> bool" where
  "no_active_relation r d =
     (\<forall>x\<in>set (t_relations d). relation_key x = relation_key r \<longrightarrow> \<not> rlr_active x)"

lemma obsolete_relations_clears:
  assumes "obsolete_relations now (rlr_agent r) (rlr_from r) (rlr_relation r) (rlr_to r) d = Some d'"
  shows "no_active_relation r d'"
  unfolding no_active_relation_def
proof (intro ballI impI)
  fix x
  assume x: "x \<in> set (t_relations d')" "relation_key x = relation_key r"
  have key: "(rlr_agent r, rlr_from r, rlr_relation r, rlr_to r) = relation_key r"
    by (simp add: relation_key_def)
  from x(1) show "\<not> rlr_active x"
    unfolding obsolete_relations_tables(1) [OF assms] key by (rule update_rowsE) (use x(2) in auto)
qed

lemma insert_relation_tables:
  assumes "insert_relation now r d = Some d'"
  defines "new \<equiv> r\<lparr>rlr_id := seq_relations d + 1, rlr_active := True, rlr_updated_at := now\<rparr>"
  shows "t_relations d' = t_relations d @ [new]" "seq_relations d' = seq_relations d + 1"
    "fts_relations d' = fts_after_insert (relation_doc new) (fts_relations d)"
    "seq_relations d < LLONG_MAX"
    "events_ok d' = events_ok d" "payloads_ok d' = payloads_ok d"
    "summaries_ok d' = summaries_ok d" "entities_ok d' = entities_ok d" "cursors_ok d' = cursors_ok d"
  using assms(1) unfolding new_def
  by (auto simp: insert_relation_def Let_def events_ok_def payloads_ok_def summaries_ok_def
      entities_ok_def cursors_ok_def split: if_splits)

lemma one_active_relation_append1:
  assumes "one_active_relation rows" "\<And>x. x \<in> set rows \<Longrightarrow> relation_key x = relation_key r \<Longrightarrow> \<not> rlr_active x"
  shows "one_active_relation (rows @ [r])"
  unfolding one_active_relation_def
proof (intro ballI impI)
  fix x y
  assume x: "x \<in> set (rows @ [r])" and y: "y \<in> set (rows @ [r])"
    and *: "rlr_active x \<and> rlr_active y \<and> relation_key x = relation_key y"
  from x y have "x \<in> set rows \<and> y \<in> set rows \<or> x = r \<or> y = r" by auto
  then show "rlr_id x = rlr_id y"
    using assms x y * unfolding one_active_relation_def by (metis Un_iff empty_iff insert_iff list.set set_append)
qed

lemma insert_relation_inv:
  assumes inv: "db_inv d" and dup: "no_active_relation r d" and d': "insert_relation now r d = Some d'"
  shows "db_inv d'"
proof -
  let ?new = "r\<lparr>rlr_id := seq_relations d + 1, rlr_active := True, rlr_updated_at := now\<rparr>"
  note tabs = insert_relation_tables [OF d']
  have ok: "relations_ok d" using inv by (simp add: db_inv_def)
  have "one_active_relation (t_relations d @ [?new])"
  proof (rule one_active_relation_append1)
    show "one_active_relation (t_relations d)" using ok by (simp add: relations_ok_def)
    show "\<not> rlr_active x" if "x \<in> set (t_relations d)" "relation_key x = relation_key ?new" for x
      using dup that by (auto simp: no_active_relation_def relation_key_def)
  qed
  then have "relations_ok d'"
    using ok tabs(4) by (simp add: relations_ok_def tabs(1-3) ids_ok_append1 mirrors_append1)
  then show ?thesis using inv by (simp add: db_inv_def tabs(5-))
qed

subsection \<open>The saved cursor\<close>

lemma select_cursor_Nil: "t_cursors d = [] \<Longrightarrow> select_cursor a s d = None"
  by (simp add: select_cursor_def)

lemma find_update_rows:
  "(\<And>x. P (f x) = P x) \<Longrightarrow> find P (update_rows P f rows) = map_option f (find P rows)"
  by (induction rows) (auto simp: update_rows_def)

lemma find_update_rows_other:
  "(\<And>x. P x \<Longrightarrow> \<not> Q x \<and> \<not> Q (f x)) \<Longrightarrow> find Q (update_rows P f rows) = find Q rows"
  by (induction rows) (auto simp: update_rows_def)

lemma find_append1: "find P (xs @ [y]) = (case find P xs of Some x \<Rightarrow> Some x | None \<Rightarrow> if P y then Some y else None)"
  by (induction xs) auto

lemma select_upsert_cursor:
  assumes "upsert_cursor now a s c d = Some d'"
  shows "select_cursor a' s' d' = (if a' = a \<and> s' = s then Some c else select_cursor a' s' d)"
proof (cases "\<exists>x\<in>set (t_cursors d). cur_agent x = a \<and> cur_session x = s")
  case True
  let ?P = "\<lambda>x. cur_agent x = a \<and> cur_session x = s"
  let ?f = "\<lambda>x. x\<lparr>cur_cursor := c, cur_updated_at := now\<rparr>"
  have d': "t_cursors d' = update_rows ?P ?f (t_cursors d)"
    using assms True by (auto simp: upsert_cursor_def)
  show ?thesis
  proof (cases "a' = a \<and> s' = s")
    case same: True
    from True obtain x where "find ?P (t_cursors d) = Some x"
      by (cases "find ?P (t_cursors d)") (auto simp: find_None_iff)
    with same show ?thesis by (simp add: select_cursor_def d' find_update_rows)
  next
    case False
    have "find (\<lambda>x. cur_agent x = a' \<and> cur_session x = s') (t_cursors d') =
          find (\<lambda>x. cur_agent x = a' \<and> cur_session x = s') (t_cursors d)"
      unfolding d' by (rule find_update_rows_other) (use False in auto)
    with False show ?thesis by (auto simp: select_cursor_def)
  qed
next
  case False
  then have "find (\<lambda>x. cur_agent x = a \<and> cur_session x = s) (t_cursors d) = None"
    by (auto simp: find_None_iff)
  with assms False show ?thesis
    by (auto simp: upsert_cursor_def select_cursor_def find_append1 split: option.splits)
qed

end
