(* ===== verification/Sqlite_Store.thy ===== *)
theory Sqlite_Store
  imports Sqlite_Db "HOL-Library.AList"
begin

text \<open>
  \<open>MemorySqliteStore\<close> and \<open>SqliteStoreTransaction\<close> of \<open>src/storage/sqlite_store.cpp\<close>: opening
  and migrating the database, the write operations, transactions, and the reads other than the
  search. Every call into SQLite may fail; \<open>s_faults\<close> is the schedule of those outcomes
  (exhausted means success), so a theorem over all stores covers every pattern of failures.
\<close>

section \<open>The store\<close>

text \<open>
  \<open>s_file\<close> is the database file while it is closed, \<open>s_db\<close> the open connection's view (\<open>db_\<close> is
  null when \<open>None\<close>), \<open>s_saved\<close> the content at \<open>BEGIN\<close> while a transaction is open, \<open>s_now\<close> the
  value of \<open>CURRENT_TIMESTAMP\<close> and \<open>s_errmsg\<close> that of \<open>sqlite3_errmsg\<close>.
\<close>

record store =
  s_file :: database
  s_db :: "database option"
  s_saved :: "database option"
  s_faults :: "bool list"
  s_now :: string
  s_errmsg :: string

definition new_store :: "database \<Rightarrow> store" where
  "new_store file =
     \<lparr>s_file = file, s_db = None, s_saved = None, s_faults = [], s_now = [], s_errmsg = []\<rparr>"

text \<open>What survives when the connection is lost now: the content without the open transaction.\<close>

definition durable :: "store \<Rightarrow> database" where
  "durable s = (case s_saved s of Some d \<Rightarrow> d | None \<Rightarrow> (case s_db s of Some d \<Rightarrow> d | None \<Rightarrow> s_file s))"

text \<open>The outcome of the next call into SQLite.\<close>

definition next_ok :: "store \<Rightarrow> bool \<times> store" where
  "next_ok s = (case s_faults s of [] \<Rightarrow> (True, s) | b # bs \<Rightarrow> (b, s\<lparr>s_faults := bs\<rparr>))"

definition SqliteErrorMessage :: "store \<Rightarrow> string" where
  "SqliteErrorMessage s =
     (case s_db s of
        None \<Rightarrow> ''sqlite database is not initialized''
      | Some _ \<Rightarrow> (if s_errmsg s = [] then ''sqlite operation failed'' else s_errmsg s))"

definition sqlite_error :: "store \<Rightarrow> string \<Rightarrow> MemoryError" where
  "sqlite_error s ctx =
     mk_error ''sqlite_error'' ''sqlite operation failed'' (ctx @ '': '' @ SqliteErrorMessage s) True"

definition SqliteFailure :: "store \<Rightarrow> string \<Rightarrow> MemoryOperationResult" where
  "SqliteFailure s ctx = failure_with () (sqlite_error s ctx)"

definition store_unavailable :: MemoryError where
  "store_unavailable = mk_error ''store_unavailable'' ''sqlite store is not initialized'' [] False"

text \<open>\<open>sqlite3_step\<close> of a statement that changes data, and preparing and stepping one.\<close>

definition sql_step :: "(database \<Rightarrow> database option) \<Rightarrow> store \<Rightarrow> bool \<times> store" where
  "sql_step f s =
     (let (ok, s1) = next_ok s in
      if \<not> ok then (False, s1)
      else case s_db s1 of
             None \<Rightarrow> (False, s1)
           | Some d \<Rightarrow> (case f d of None \<Rightarrow> (False, s1) | Some d' \<Rightarrow> (True, s1\<lparr>s_db := Some d'\<rparr>)))"

definition run_stmt :: "(database \<Rightarrow> database option) \<Rightarrow> store \<Rightarrow> bool \<times> store" where
  "run_stmt f s = (let (ok, s1) = next_ok s in if \<not> ok then (False, s1) else sql_step f s1)"

text \<open>
  Stepping a \<open>SELECT\<close> until \<open>SQLITE_DONE\<close>: the rows read before the first failing step, and
  whether the end was reached.
\<close>

fun fetch :: "'r list \<Rightarrow> store \<Rightarrow> bool \<times> 'r list \<times> store" where
  "fetch [] s = (let (ok, s1) = next_ok s in (ok, [], s1))"
| "fetch (r # rs) s =
     (let (ok, s1) = next_ok s in
      if \<not> ok then (False, [], s1)
      else let (ok2, rs2, s2) = fetch rs s1 in (ok2, r # rs2, s2))"

section \<open>Columns\<close>

definition SerializeSourceRefs :: "json_lib \<Rightarrow> string list \<Rightarrow> string + string" where
  "SerializeSourceRefs J refs = jdump J (string_array refs)"

definition ParseJsonSafely :: "json_lib \<Rightarrow> string \<Rightarrow> json" where
  "ParseJsonSafely J text = (case jparse J text of Inl _ \<Rightarrow> JObj [] | Inr j \<Rightarrow> JsonObject j)"

definition ParseJsonColumn :: "json_lib \<Rightarrow> string \<Rightarrow> json" where
  "ParseJsonColumn J text = ParseJsonSafely J text"

definition ExtractSourceRefsFromJson :: "json \<Rightarrow> string list" where
  "ExtractSourceRefsFromJson j =
     StringVectorFromJson
       (if is_object j \<and> contains j ''sourceRefs'' then json_at j ''sourceRefs'' else j)"

definition ParseSourceRefsColumn :: "json_lib \<Rightarrow> string \<Rightarrow> string list" where
  "ParseSourceRefsColumn J text =
     (if text = [] then []
      else case jparse J text of Inl _ \<Rightarrow> [] | Inr j \<Rightarrow> ExtractSourceRefsFromJson j)"

definition CursorToInt :: "string \<Rightarrow> int" where
  "CursorToInt cursor = (if cursor = [] then 0 else case stoll cursor of Some v \<Rightarrow> v | None \<Rightarrow> 0)"

definition ReadEventRow :: "json_lib \<Rightarrow> event_row \<Rightarrow> MemoryEvent" where
  "ReadEventRow J r =
     \<lparr>ev_type = event_type_of_int (i32 (evr_type r)), ev_agentId = evr_agent r,
      ev_sessionId = evr_session r, ev_role = evr_role r, ev_content = evr_content r,
      ev_toolCallId = evr_tool_call_id r, ev_toolName = evr_tool_name r,
      ev_payloadRef = evr_payload_ref r, ev_storeCursor = to_string (evr_id r),
      ev_metadata = ParseJsonColumn J (evr_metadata_json r), ev_timestamp = []\<rparr>"

section \<open>Opening and migrating the database\<close>

definition VALID_TABLE_NAMES :: "string list" where
  "VALID_TABLE_NAMES =
     [''memory_events'', ''memory_payloads'', ''memory_summaries'', ''memory_entities'',
      ''memory_relations'', ''memory_consolidation_cursors'']"

definition IsValidTableName :: "string \<Rightarrow> bool" where
  "IsValidTableName t = (t \<in> set VALID_TABLE_NAMES)"

definition ExecuteUnlocked :: "(database \<Rightarrow> database option) \<Rightarrow> store \<Rightarrow> bool \<times> store" where
  "ExecuteUnlocked f s = sql_step f s"

definition create_table :: "string \<Rightarrow> string list \<Rightarrow> database \<Rightarrow> database option" where
  "create_table t cols d =
     Some (if map_of (db_schema d) t \<noteq> None then d else d\<lparr>db_schema := db_schema d @ [(t, cols)]\<rparr>)"

definition add_column :: "string \<Rightarrow> string \<Rightarrow> database \<Rightarrow> database option" where
  "add_column t c d =
     (case map_of (db_schema d) t of
        None \<Rightarrow> None
      | Some cols \<Rightarrow>
          (if c \<in> set cols then None
           else Some (d\<lparr>db_schema := AList.update t (cols @ [c]) (db_schema d)\<rparr>)))"

fun scan_columns :: "string \<Rightarrow> string list \<Rightarrow> store \<Rightarrow> bool \<times> store" where
  "scan_columns c [] s = (let (ok, s1) = next_ok s in (False, s1))"
| "scan_columns c (x # xs) s =
     (let (ok, s1) = next_ok s in
      if \<not> ok then (False, s1) else if x = c then (True, s1) else scan_columns c xs s1)"

definition table_columns :: "store \<Rightarrow> string \<Rightarrow> string list" where
  "table_columns s t =
     (case s_db s of None \<Rightarrow> [] | Some d \<Rightarrow> (case map_of (db_schema d) t of None \<Rightarrow> [] | Some cols \<Rightarrow> cols))"

definition ColumnExistsUnlocked :: "string \<Rightarrow> string \<Rightarrow> store \<Rightarrow> bool \<times> store" where
  "ColumnExistsUnlocked t c s =
     (if \<not> IsValidTableName t then (False, s)
      else let (ok, s1) = next_ok s in
           if \<not> ok then (False, s1) else scan_columns c (table_columns s1 t) s1)"

definition AddColumnIfMissingUnlocked :: "string \<Rightarrow> string \<Rightarrow> store \<Rightarrow> bool \<times> store" where
  "AddColumnIfMissingUnlocked t c s =
     (if \<not> IsValidTableName t then (False, s)
      else let (found, s1) = ColumnExistsUnlocked t c s in
           if found then (True, s1) else ExecuteUnlocked (add_column t c) s1)"

text \<open>The statements of \<open>Initialize\<close>: the first chain stops at the first failure.\<close>

definition table_definitions :: "(string \<times> string list) list" where
  "table_definitions =
     [(''memory_events'', [''id'', ''agent_id'', ''session_id'', ''event_type'', ''role'', ''content'',
         ''payload_ref'', ''tool_call_id'', ''tool_name'', ''metadata_json'', ''created_at'']),
      (''memory_payloads'', [''id'', ''agent_id'', ''session_id'', ''ref'', ''content_type'',
         ''tool_name'', ''summary'', ''original_chars'', ''created_at'']),
      (''memory_summaries'', [''id'', ''agent_id'', ''session_id'', ''level'', ''topic'', ''summary'',
         ''source_refs_json'', ''confidence'', ''created_at'', ''updated_at'']),
      (''memory_entities'', [''id'', ''agent_id'', ''type'', ''name'', ''summary'', ''confidence'',
         ''source_refs_json'', ''metadata_json'', ''active'', ''superseded_by'', ''created_at'',
         ''updated_at'']),
      (''memory_relations'', [''id'', ''agent_id'', ''from_entity'', ''relation'', ''to_entity'',
         ''confidence'', ''source_refs_json'', ''metadata_json'', ''active'', ''created_at'',
         ''updated_at'']),
      (''memory_consolidation_cursors'', [''agent_id'', ''session_id'', ''cursor'', ''updated_at''])]"

definition migrated_columns :: "(string \<times> string) list" where
  "migrated_columns =
     [(''memory_entities'', ''agent_id''), (''memory_entities'', ''active''),
      (''memory_entities'', ''superseded_by''), (''memory_entities'', ''source_refs_json''),
      (''memory_relations'', ''agent_id''), (''memory_relations'', ''active''),
      (''memory_relations'', ''source_refs_json''), (''memory_relations'', ''metadata_json'')]"

fun exec_chain :: "(database \<Rightarrow> database option) list \<Rightarrow> store \<Rightarrow> bool \<times> store" where
  "exec_chain [] s = (True, s)"
| "exec_chain (f # fs) s =
     (let (ok, s1) = ExecuteUnlocked f s in if \<not> ok then (False, s1) else exec_chain fs s1)"

fun exec_each :: "(store \<Rightarrow> bool \<times> store) list \<Rightarrow> bool \<Rightarrow> store \<Rightarrow> bool \<times> store" where
  "exec_each [] ok s = (ok, s)"
| "exec_each (f # fs) ok s = (let (r, s1) = f s in exec_each fs (r \<and> ok) s1)"

text \<open>
  An index needs its table and every column it names. The pragmas (3), the virtual tables and
  the triggers (12) change nothing of the tables: executing one is a call that may fail. The
  triggers themselves act in the statements of the previous theory.
\<close>

definition index_definitions :: "(string \<times> string list) list" where
  "index_definitions =
     [(''memory_events'', [''agent_id'', ''session_id'', ''id'']),
      (''memory_payloads'', [''agent_id'', ''session_id'', ''created_at'', ''id'']),
      (''memory_summaries'', [''agent_id'', ''session_id'', ''updated_at'', ''id'']),
      (''memory_entities'', [''agent_id'', ''active'']),
      (''memory_relations'', [''agent_id'', ''active'']),
      (''memory_relations'', [''active''])]"

definition create_index :: "string \<Rightarrow> string list \<Rightarrow> database \<Rightarrow> database option" where
  "create_index t cols d =
     (case map_of (db_schema d) t of
        None \<Rightarrow> None
      | Some cs \<Rightarrow> (if set cols \<subseteq> set cs then Some d else None))"

definition schema_chain :: "(database \<Rightarrow> database option) list" where
  "schema_chain =
     replicate 3 Some @ map (\<lambda>t. create_table (fst t) (snd t)) table_definitions @
     map (\<lambda>t. create_index (fst t) (snd t)) index_definitions"

definition schema_tail :: "(store \<Rightarrow> bool \<times> store) list" where
  "schema_tail =
     map (\<lambda>p. AddColumnIfMissingUnlocked (fst p) (snd p)) migrated_columns @
     replicate 12 (ExecuteUnlocked Some)"

text \<open>
  A failed \<open>sqlite3_open\<close> still gives a handle, from which the error text is read before it is
  closed. After a failed schema statement the connection stays open.
\<close>

definition Initialize :: "store \<Rightarrow> MemoryOperationResult \<times> store" where
  "Initialize s =
     (if s_db s \<noteq> None then (MemorySuccess, s)
      else let (opened, s1) = next_ok s in
        if \<not> opened then (SqliteFailure (s1\<lparr>s_db := Some (s_file s1)\<rparr>) ''Initialize::open'', s1)
        else
          let (ok1, s2) = exec_chain schema_chain (s1\<lparr>s_db := Some (s_file s1), s_saved := None\<rparr>);
              (ok, s3) = exec_each schema_tail ok1 s2
          in if \<not> ok then (SqliteFailure s3 ''Initialize::schema'', s3) else (MemorySuccess, s3))"

text \<open>The destructor: roll back, close.\<close>

definition exec_rollback :: "store \<Rightarrow> bool \<times> store" where
  "exec_rollback s =
     (let (ok, s1) = next_ok s in
      if \<not> ok then (False, s1)
      else case s_saved s1 of
             None \<Rightarrow> (False, s1)
           | Some d \<Rightarrow> (True, s1\<lparr>s_db := Some d, s_saved := None\<rparr>))"

definition close_store :: "store \<Rightarrow> store" where
  "close_store s =
     (if s_db s = None then s
      else let s1 = snd (exec_rollback s)
           in s1\<lparr>s_file := durable s1, s_db := None, s_saved := None\<rparr>)"

section \<open>Writes\<close>

definition event_to_row :: "MemoryEvent \<Rightarrow> string \<Rightarrow> event_row" where
  "event_to_row e metadataJson =
     \<lparr>evr_id = 0, evr_agent = c_str (ev_agentId e), evr_session = c_str (ev_sessionId e),
      evr_type = event_type_to_int (ev_type e), evr_role = c_str (ev_role e),
      evr_content = c_str (ev_content e), evr_payload_ref = c_str (ev_payloadRef e),
      evr_tool_call_id = c_str (ev_toolCallId e), evr_tool_name = c_str (ev_toolName e),
      evr_metadata_json = c_str metadataJson, evr_created_at = []\<rparr>"

definition SaveEventUnlocked :: "json_lib \<Rightarrow> MemoryEvent \<Rightarrow> store \<Rightarrow> bool outcome \<times> store" where [store_defs]:
  "SaveEventUnlocked J e s =
     (let (ok, s1) = next_ok s in
      if \<not> ok then (Ret False, s1)
      else case jdump J (JsonObject (ev_metadata e)) of
             Inl w \<Rightarrow> (Throw w, s1)
           | Inr metadataJson \<Rightarrow>
               (let (ok2, s2) = sql_step (insert_event (s_now s1) (event_to_row e metadataJson)) s1
                in (Ret ok2, s2)))"

definition payload_to_row :: "MemoryPayloadRef \<Rightarrow> payload_row" where
  "payload_to_row p =
     \<lparr>pyr_id = 0, pyr_agent = c_str (pay_agentId p), pyr_session = c_str (pay_sessionId p),
      pyr_ref = c_str (pay_uri p), pyr_content_type = c_str (pay_contentType p),
      pyr_tool_name = c_str (pay_toolName p), pyr_summary = c_str (pay_summary p),
      pyr_original_chars = pay_originalChars p, pyr_created_at = []\<rparr>"

definition SavePayloadUnlocked :: "MemoryPayloadRef \<Rightarrow> store \<Rightarrow> bool \<times> store" where [store_defs]:
  "SavePayloadUnlocked p s = run_stmt (upsert_payload (s_now s) (payload_to_row p)) s"

definition SaveSummaryUnlocked ::
  "json_lib \<Rightarrow> string \<Rightarrow> string \<Rightarrow> string \<Rightarrow> string \<Rightarrow> string \<Rightarrow> rat \<Rightarrow> string list \<Rightarrow> store \<Rightarrow> bool outcome \<times> store" where
  [store_defs]:
  "SaveSummaryUnlocked J agentId sessionId level topic summary confidence sourceRefs s =
     (case SerializeSourceRefs J sourceRefs of
        Inl w \<Rightarrow> (Throw w, s)
      | Inr refsStr \<Rightarrow>
          (let row = \<lparr>smr_id = 0, smr_agent = c_str agentId, smr_session = c_str sessionId,
                      smr_level = c_str level, smr_topic = c_str topic, smr_summary = c_str summary,
                      smr_source_refs_json = c_str refsStr, smr_confidence = confidence,
                      smr_updated_at = []\<rparr>;
               (ok, s1) = run_stmt (insert_summary (s_now s) row) s
           in (Ret ok, s1)))"

definition MarkDuplicateEntitiesObsoleteUnlocked :: "MemoryEntity \<Rightarrow> store \<Rightarrow> bool \<times> store" where [store_defs]:
  "MarkDuplicateEntitiesObsoleteUnlocked e s =
     (if en_id e = [] \<or> en_agentId e = [] \<or> en_entityType e = [] \<or> en_name e = [] then (True, s)
      else run_stmt (mark_duplicate_entities (s_now s) (c_str (en_id e)) (c_str (en_agentId e))
                       (c_str (en_entityType e)) (c_str (en_name e))) s)"

definition MarkEntityObsoleteUnlocked :: "string \<Rightarrow> string \<Rightarrow> store \<Rightarrow> bool \<times> store" where [store_defs]:
  "MarkEntityObsoleteUnlocked entityId supersededBy s =
     run_stmt (mark_entity_obsolete (s_now s) (c_str entityId) (c_str supersededBy)) s"

definition entity_to_row :: "MemoryEntity \<Rightarrow> string \<Rightarrow> string \<Rightarrow> entity_row" where
  "entity_to_row e refsStr metadataStr =
     \<lparr>enr_rowid = 0, enr_id = c_str (en_id e), enr_agent = c_str (en_agentId e),
      enr_type = c_str (en_entityType e), enr_name = c_str (en_name e),
      enr_summary = c_str (en_summary e), enr_confidence = en_confidence e,
      enr_source_refs_json = c_str refsStr, enr_metadata_json = c_str metadataStr,
      enr_active = en_isActive e,
      enr_superseded_by =
        (if en_supersededByEntityId e = [] then None else Some (c_str (en_supersededByEntityId e))),
      enr_updated_at = []\<rparr>"

definition SaveEntityUnlocked :: "json_lib \<Rightarrow> MemoryEntity \<Rightarrow> store \<Rightarrow> bool outcome \<times> store" where [store_defs]:
  "SaveEntityUnlocked J e s =
     (case SerializeSourceRefs J (en_sourceRefs e) of
        Inl w \<Rightarrow> (Throw w, s)
      | Inr refsStr \<Rightarrow>
        (case jdump J (JsonObject (en_metadata e)) of
           Inl w \<Rightarrow> (Throw w, s)
         | Inr metadataStr \<Rightarrow>
           (let (ok1, s1) = MarkDuplicateEntitiesObsoleteUnlocked e s in
            if \<not> ok1 then (Ret False, s1)
            else let (ok2, s2) = run_stmt (upsert_entity (s_now s1) (entity_to_row e refsStr metadataStr)) s1 in
            if \<not> ok2 then (Ret False, s2)
            else if en_supersededEntityId e \<noteq> []
            then (let (ok3, s3) = MarkEntityObsoleteUnlocked (en_supersededEntityId e) (en_id e) s2
                  in (Ret ok3, s3))
            else (Ret True, s2))))"

definition relation_metadata :: "MemoryRelation \<Rightarrow> json" where
  "relation_metadata r =
     (let m = JsonObject (rel_metadata r) in
      if rel_relationType r = ''contradicts''
      then json_set ''conflictsWithEntityId'' (JStr (rel_toEntityId r)) (json_set ''conflict'' (JBool True) m)
      else m)"

definition relation_to_row :: "MemoryRelation \<Rightarrow> string \<Rightarrow> string \<Rightarrow> relation_row" where
  "relation_to_row r refsStr metadataStr =
     \<lparr>rlr_id = 0, rlr_agent = c_str (rel_agentId r), rlr_from = c_str (rel_fromEntityId r),
      rlr_relation = c_str (rel_relationType r), rlr_to = c_str (rel_toEntityId r),
      rlr_confidence = rel_confidence r, rlr_source_refs_json = c_str refsStr,
      rlr_metadata_json = c_str metadataStr, rlr_active = True, rlr_updated_at = []\<rparr>"

definition SaveRelationUnlocked :: "json_lib \<Rightarrow> MemoryRelation \<Rightarrow> store \<Rightarrow> bool outcome \<times> store" where [store_defs]:
  "SaveRelationUnlocked J r s =
     (case SerializeSourceRefs J (rel_sourceRefs r) of
        Inl w \<Rightarrow> (Throw w, s)
      | Inr refsStr \<Rightarrow>
        (case jdump J (relation_metadata r) of
           Inl w \<Rightarrow> (Throw w, s)
         | Inr metadataStr \<Rightarrow>
           (let (ok1, s1) = run_stmt (obsolete_relations (s_now s) (c_str (rel_agentId r))
                  (c_str (rel_fromEntityId r)) (c_str (rel_relationType r)) (c_str (rel_toEntityId r))) s in
            if \<not> ok1 then (Ret False, s1)
            else let (ok2, s2) = run_stmt (insert_relation (s_now s1) (relation_to_row r refsStr metadataStr)) s1 in
            if \<not> ok2 then (Ret False, s2)
            else if rel_relationType r = ''supersedes''
            then (let (ok3, s3) = MarkEntityObsoleteUnlocked (rel_toEntityId r) (rel_fromEntityId r) s2
                  in (Ret ok3, s3))
            else (Ret True, s2))))"

definition SaveConsolidationCursorUnlocked :: "string \<Rightarrow> string \<Rightarrow> string \<Rightarrow> store \<Rightarrow> bool \<times> store" where [store_defs]:
  "SaveConsolidationCursorUnlocked agentId sessionId cursor s =
     run_stmt (upsert_cursor (s_now s) (c_str agentId) (c_str sessionId) (CursorToInt cursor)) s"

section \<open>The public write operations and the transaction object\<close>

text \<open>The result of an operation that reports \<open>SqliteFailure(db_, context)\<close> when its work fails.\<close>

fun op_result :: "string \<Rightarrow> bool outcome \<times> store \<Rightarrow> MemoryOperationResult outcome \<times> store" where
  "op_result ctx (Ret ok, s) = (Ret (if ok then MemorySuccess else SqliteFailure s ctx), s)"
| "op_result ctx (Throw w, s) = (Throw w, s)"

definition lift_ok :: "bool \<times> store \<Rightarrow> bool outcome \<times> store" where
  "lift_ok r = (Ret (fst r), snd r)"

text \<open>The guard of every public operation: \<open>db_\<close> must not be null.\<close>

definition guarded ::
  "(store \<Rightarrow> MemoryOperationResult outcome \<times> store) \<Rightarrow> store \<Rightarrow> MemoryOperationResult outcome \<times> store" where
  "guarded f s = (if s_db s = None then (Ret (failure_with () store_unavailable), s) else f s)"

definition SaveEvent :: "json_lib \<Rightarrow> MemoryEvent \<Rightarrow> store \<Rightarrow> MemoryOperationResult outcome \<times> store" where
  "SaveEvent J e = guarded (\<lambda>s. op_result ''SaveEvent'' (SaveEventUnlocked J e s))"

definition SavePayload :: "MemoryPayloadRef \<Rightarrow> store \<Rightarrow> MemoryOperationResult outcome \<times> store" where
  "SavePayload p = guarded (\<lambda>s. op_result ''SavePayload'' (lift_ok (SavePayloadUnlocked p s)))"

definition SaveSummary ::
  "json_lib \<Rightarrow> string \<Rightarrow> string \<Rightarrow> string \<Rightarrow> string \<Rightarrow> string \<Rightarrow> rat \<Rightarrow> string list \<Rightarrow> store \<Rightarrow>
   MemoryOperationResult outcome \<times> store" where
  "SaveSummary J agentId sessionId level topic summary confidence sourceRefs =
     guarded (\<lambda>s. op_result ''SaveSummary''
       (SaveSummaryUnlocked J agentId sessionId level topic summary confidence sourceRefs s))"

definition SaveEntity :: "json_lib \<Rightarrow> MemoryEntity \<Rightarrow> store \<Rightarrow> MemoryOperationResult outcome \<times> store" where
  "SaveEntity J e = guarded (\<lambda>s. op_result ''SaveEntity'' (SaveEntityUnlocked J e s))"

definition SaveRelation :: "json_lib \<Rightarrow> MemoryRelation \<Rightarrow> store \<Rightarrow> MemoryOperationResult outcome \<times> store" where
  "SaveRelation J r = guarded (\<lambda>s. op_result ''SaveRelation'' (SaveRelationUnlocked J r s))"

definition MarkEntityObsolete :: "string \<Rightarrow> string \<Rightarrow> store \<Rightarrow> MemoryOperationResult outcome \<times> store" where
  "MarkEntityObsolete entityId supersededBy =
     guarded (\<lambda>s. op_result ''MarkEntityObsolete'' (lift_ok (MarkEntityObsoleteUnlocked entityId supersededBy s)))"

definition SaveConsolidationCursor ::
  "string \<Rightarrow> string \<Rightarrow> string \<Rightarrow> store \<Rightarrow> MemoryOperationResult outcome \<times> store" where
  "SaveConsolidationCursor agentId sessionId cursor =
     guarded (\<lambda>s. op_result ''SaveConsolidationCursor''
       (lift_ok (SaveConsolidationCursorUnlocked agentId sessionId cursor s)))"

definition tx_SaveSummary ::
  "json_lib \<Rightarrow> string \<Rightarrow> string \<Rightarrow> string \<Rightarrow> string \<Rightarrow> string \<Rightarrow> rat \<Rightarrow> string list \<Rightarrow> store \<Rightarrow>
   MemoryOperationResult outcome \<times> store" where
  "tx_SaveSummary J agentId sessionId level topic summary confidence sourceRefs s =
     op_result ''Transaction::SaveSummary''
       (SaveSummaryUnlocked J agentId sessionId level topic summary confidence sourceRefs s)"

definition tx_SaveEntity :: "json_lib \<Rightarrow> MemoryEntity \<Rightarrow> store \<Rightarrow> MemoryOperationResult outcome \<times> store" where
  "tx_SaveEntity J e s = op_result ''Transaction::SaveEntity'' (SaveEntityUnlocked J e s)"

definition tx_SaveRelation :: "json_lib \<Rightarrow> MemoryRelation \<Rightarrow> store \<Rightarrow> MemoryOperationResult outcome \<times> store" where
  "tx_SaveRelation J r s = op_result ''Transaction::SaveRelation'' (SaveRelationUnlocked J r s)"

definition tx_MarkEntityObsolete :: "string \<Rightarrow> string \<Rightarrow> store \<Rightarrow> MemoryOperationResult outcome \<times> store" where
  "tx_MarkEntityObsolete entityId supersededBy s =
     op_result ''Transaction::MarkEntityObsolete'' (lift_ok (MarkEntityObsoleteUnlocked entityId supersededBy s))"

definition tx_SaveConsolidationCursor ::
  "string \<Rightarrow> string \<Rightarrow> string \<Rightarrow> store \<Rightarrow> MemoryOperationResult outcome \<times> store" where
  "tx_SaveConsolidationCursor agentId sessionId cursor s =
     op_result ''Transaction::SaveConsolidationCursor''
       (lift_ok (SaveConsolidationCursorUnlocked agentId sessionId cursor s))"

section \<open>Transactions\<close>

definition exec_begin :: "store \<Rightarrow> bool \<times> store" where
  "exec_begin s =
     (let (ok, s1) = next_ok s in
      if \<not> ok \<or> s_saved s1 \<noteq> None then (False, s1) else (True, s1\<lparr>s_saved := s_db s1\<rparr>))"

definition exec_commit :: "store \<Rightarrow> bool \<times> store" where
  "exec_commit s =
     (let (ok, s1) = next_ok s in
      if \<not> ok \<or> s_saved s1 = None then (False, s1) else (True, s1\<lparr>s_saved := None\<rparr>))"

text \<open>
  \<open>work\<close> is the callback; the variables it captures by reference are the second component of its
  result, and \<open>aux0\<close> their value before it runs. An exception of the callback leaves
  \<open>RunInTransaction\<close> between \<open>BEGIN\<close> and the code that would end the transaction.
\<close>

definition RunInTransaction ::
  "'a \<Rightarrow> (store \<Rightarrow> (MemoryOperationResult \<times> 'a) outcome \<times> store) \<Rightarrow> store \<Rightarrow>
   (MemoryOperationResult \<times> 'a) outcome \<times> store" where
  "RunInTransaction aux0 work s =
     (if s_db s = None then (Ret (failure_with () store_unavailable, aux0), s)
      else let (begun, s1) = exec_begin s in
        if \<not> begun then (Ret (SqliteFailure s1 ''RunInTransaction::begin'', aux0), s1)
        else case work s1 of
          (Throw w, s2) \<Rightarrow> (Throw w, s2)
        | (Ret (result, aux), s2) \<Rightarrow>
            (if succeeded result
             then (let (committed, s3) = exec_commit s2 in
                   if \<not> committed
                   then (Ret (SqliteFailure s3 ''RunInTransaction::commit'', aux), snd (exec_rollback s3))
                   else (Ret (MemorySuccess, aux), s3))
             else (Ret (if HasError (error_of result) then result
                        else MemoryFailure ''transaction_failed'' ''transaction work failed'' [] False, aux),
                   snd (exec_rollback s2))))"

section \<open>Reads\<close>

text \<open>A read: guard, prepare, step, and the error context of each failure.\<close>

definition run_query ::
  "string \<Rightarrow> (database \<Rightarrow> 'r list) \<Rightarrow> ('r list \<Rightarrow> 'a) \<Rightarrow> 'a \<Rightarrow> store \<Rightarrow> 'a memory_result \<times> store" where
  "run_query ctx q f dflt s =
     (case s_db s of
        None \<Rightarrow> (failure_with dflt store_unavailable, s)
      | Some d \<Rightarrow>
          (let (ok, s1) = next_ok s in
           if \<not> ok then (failure_with dflt (sqlite_error s1 (ctx @ ''::prepare'')), s1)
           else let (done_ok, rows, s2) = fetch (q d) s1 in
                if \<not> done_ok then (failure_with (f rows) (sqlite_error s2 (ctx @ ''::step'')), s2)
                else (success_with (f rows), s2)))"

definition select_events_after ::
  "int \<Rightarrow> string \<Rightarrow> string \<Rightarrow> string list \<Rightarrow> database \<Rightarrow> event_row list" where
  "select_events_after c agentId sessionId excluded d =
     sort_key evr_id
       (filter (\<lambda>r. c < evr_id r \<and> evr_agent r = c_str agentId \<and>
                    (if sessionId \<noteq> [] then evr_session r = c_str sessionId
                     else evr_session r \<notin> set (map c_str excluded)))
          (t_events d))"

definition LoadEventsAfterCursor ::
  "json_lib \<Rightarrow> string \<Rightarrow> string \<Rightarrow> string \<Rightarrow> string list \<Rightarrow> store \<Rightarrow> MemoryEventsResult \<times> store" where
  "LoadEventsAfterCursor J agentId sessionId cursor excludedSessionIds =
     run_query ''LoadEventsAfterCursor''
       (select_events_after (CursorToInt cursor) agentId sessionId excludedSessionIds)
       (map (ReadEventRow J)) []"

definition in_scope :: "string \<Rightarrow> string \<Rightarrow> string \<Rightarrow> string \<Rightarrow> bool" where
  "in_scope agentId sessionId a s =
     (a = c_str agentId \<and> (c_str sessionId = [] \<or> s = c_str sessionId))"

definition effective_limit :: "int \<Rightarrow> int \<Rightarrow> nat" where
  "effective_limit dflt limit = nat (if limit > 0 then limit else dflt)"

definition LoadRecentEvents ::
  "json_lib \<Rightarrow> string \<Rightarrow> string \<Rightarrow> int \<Rightarrow> store \<Rightarrow> MemoryEventsResult \<times> store" where
  "LoadRecentEvents J agentId sessionId limit s =
     (let (r, s1) = run_query ''LoadRecentEvents''
            (\<lambda>d. take (effective_limit 20 limit)
                   (order_desc evr_id
                     (filter (\<lambda>r. in_scope agentId sessionId (evr_agent r) (evr_session r)) (t_events d))))
            (map (ReadEventRow J)) [] s
      in (if succeeded r then success_with (rev (payload_of r)) else r, s1))"

definition ReadPayloadRow :: "payload_row \<Rightarrow> MemoryPayloadRef" where
  "ReadPayloadRow r =
     \<lparr>pay_agentId = pyr_agent r, pay_sessionId = pyr_session r, pay_uri = pyr_ref r,
      pay_contentType = pyr_content_type r, pay_summary = pyr_summary r, pay_toolName = pyr_tool_name r,
      pay_originalChars = i32 (pyr_original_chars r), pay_metadata = JObj [],
      pay_createdAt = pyr_created_at r\<rparr>"

definition LoadRecentPayloads :: "string \<Rightarrow> string \<Rightarrow> int \<Rightarrow> store \<Rightarrow> MemoryPayloadRefsResult \<times> store" where
  "LoadRecentPayloads agentId sessionId limit =
     run_query ''LoadRecentPayloads''
       (\<lambda>d. take (effective_limit 20 limit)
              (order_desc (\<lambda>r. (pyr_created_at r, pyr_id r))
                (filter (\<lambda>r. in_scope agentId sessionId (pyr_agent r) (pyr_session r)) (t_payloads d))))
       (map ReadPayloadRow) []"

definition LoadConsolidationCursor :: "string \<Rightarrow> string \<Rightarrow> store \<Rightarrow> ConsolidationCursorResult \<times> store" where
  "LoadConsolidationCursor agentId sessionId s =
     (case s_db s of
        None \<Rightarrow> (failure_with [] store_unavailable, s)
      | Some d \<Rightarrow>
          (let (ok, s1) = next_ok s in
           if \<not> ok then (failure_with [] (sqlite_error s1 ''LoadConsolidationCursor::prepare''), s1)
           else let (ok2, s2) = next_ok s1 in
                if \<not> ok2 then (failure_with [] (sqlite_error s2 ''LoadConsolidationCursor::step''), s2)
                else (success_with (case select_cursor (c_str agentId) (c_str sessionId) d of
                                      Some c \<Rightarrow> to_string c | None \<Rightarrow> []), s2)))"

definition ReadSummaryRow :: "json_lib \<Rightarrow> summary_row \<Rightarrow> LongTermSummaryRecord" where
  "ReadSummaryRow J r =
     \<lparr>ls_level = smr_level r, ls_topic = smr_topic r, ls_summary = smr_summary r,
      ls_confidence = f32 (smr_confidence r),
      ls_sourceRefs = ParseSourceRefsColumn J (smr_source_refs_json r), ls_createdAt = [], ls_updatedAt = []\<rparr>"

definition ReadEntityRow :: "json_lib \<Rightarrow> entity_row \<Rightarrow> MemoryEntity" where
  "ReadEntityRow J r =
     default_entity\<lparr>en_id := enr_id r, en_agentId := enr_agent r, en_entityType := enr_type r,
       en_name := enr_name r, en_summary := enr_summary r, en_confidence := f32 (enr_confidence r),
       en_sourceRefs := ParseSourceRefsColumn J (enr_source_refs_json r),
       en_metadata := ParseJsonColumn J (enr_metadata_json r)\<rparr>"

definition ReadRelationRow :: "json_lib \<Rightarrow> relation_row \<Rightarrow> MemoryRelation" where
  "ReadRelationRow J r =
     default_relation\<lparr>rel_id := to_string (i32 (rlr_id r)), rel_agentId := rlr_agent r,
       rel_fromEntityId := rlr_from r, rel_relationType := rlr_relation r, rel_toEntityId := rlr_to r,
       rel_confidence := f32 (rlr_confidence r),
       rel_sourceRefs := ParseSourceRefsColumn J (rlr_source_refs_json r),
       rel_metadata := ParseJsonColumn J (rlr_metadata_json r)\<rparr>"

definition select_summaries :: "string \<Rightarrow> string \<Rightarrow> database \<Rightarrow> summary_row list" where
  "select_summaries agentId sessionId d =
     order_desc (\<lambda>r. (smr_updated_at r, smr_id r))
       (filter (\<lambda>r. in_scope agentId sessionId (smr_agent r) (smr_session r)) (t_summaries d))"

definition select_entities :: "string \<Rightarrow> database \<Rightarrow> entity_row list" where
  "select_entities agentId d =
     order_desc enr_updated_at (filter (\<lambda>r. enr_active r \<and> enr_agent r = c_str agentId) (t_entities d))"

definition select_relations :: "string \<Rightarrow> database \<Rightarrow> relation_row list" where
  "select_relations agentId d =
     order_desc (\<lambda>r. (rlr_updated_at r, rlr_id r))
       (filter (\<lambda>r. rlr_active r \<and> rlr_agent r = c_str agentId) (t_relations d))"

text \<open>One block of \<open>LoadLongTermMemory\<close>: prepare and step a query, or the error it returns with.\<close>

definition snapshot_block :: "string \<Rightarrow> 'r list \<Rightarrow> store \<Rightarrow> (MemoryError option \<times> 'r list) \<times> store" where
  "snapshot_block ctx rows s =
     (let (ok, s1) = next_ok s in
      if \<not> ok then ((Some (sqlite_error s1 (ctx @ ''_prepare'')), []), s1)
      else let (done_ok, rs, s2) = fetch rows s1 in
           ((if done_ok then None else Some (sqlite_error s2 (ctx @ ''_step'')), rs), s2))"

definition LoadLongTermMemory ::
  "json_lib \<Rightarrow> string \<Rightarrow> int \<Rightarrow> string \<Rightarrow> store \<Rightarrow> LongTermMemorySnapshotResult \<times> store" where
  "LoadLongTermMemory J agentId limit sessionId s =
     (case s_db s of
        None \<Rightarrow> (failure_with empty_snapshot store_unavailable, s)
      | Some d \<Rightarrow>
        (let n = effective_limit 100 limit;
             ((e1, srows), s1) = snapshot_block ''LoadLongTermMemory::summaries''
                                  (take n (select_summaries agentId sessionId d)) s;
             snap1 = empty_snapshot\<lparr>snap_summaries := map (ReadSummaryRow J) srows\<rparr>
         in case e1 of Some e \<Rightarrow> (failure_with snap1 e, s1) | None \<Rightarrow>
        (let ((e2, ents), s2) = snapshot_block ''LoadLongTermMemory::entities''
                                  (take n (select_entities agentId d)) s1;
             snap2 = snap1\<lparr>snap_entities := map (ReadEntityRow J) ents\<rparr>
         in case e2 of Some e \<Rightarrow> (failure_with snap2 e, s2) | None \<Rightarrow>
        (let ((e3, rels), s3) = snapshot_block ''LoadLongTermMemory::relations''
                                  (take n (select_relations agentId d)) s2;
             snap3 = snap2\<lparr>snap_relations := map (ReadRelationRow J) rels\<rparr>
         in case e3 of Some e \<Rightarrow> (failure_with snap3 e, s3) | None \<Rightarrow> (success_with snap3, s3)))))"

text \<open>The counting queries of \<open>GetStoreStats\<close>, in order; counts read before a failure stay.\<close>

fun count_queries :: "int list \<Rightarrow> store \<Rightarrow> (MemoryError option \<times> int list) \<times> store" where
  "count_queries [] s = ((None, []), s)"
| "count_queries (n # ns) s =
     (let (ok, s1) = next_ok s in
      if \<not> ok then ((Some (sqlite_error s1 ''GetStoreStats::prepare''), []), s1)
      else let (ok2, s2) = next_ok s1 in
        if \<not> ok2 then ((Some (sqlite_error s2 ''GetStoreStats::step''), []), s2)
        else let ((e, cs), s3) = count_queries ns s2 in ((e, i32 n # cs), s3))"

definition stats_of_counts :: "int list \<Rightarrow> MemoryStats" where
  "stats_of_counts cs =
     (let c = (\<lambda>i. if i < length cs then cs ! i else 0)
      in \<lparr>st_events = c 0, st_payloads = c 1, st_summaries = c 2, st_entities = c 3,
          st_relations = c 4, st_metadata = JObj []\<rparr>)"

definition GetStoreStats :: "store \<Rightarrow> MemoryStatsResult \<times> store" where
  "GetStoreStats s =
     (case s_db s of
        None \<Rightarrow> (failure_with default_stats store_unavailable, s)
      | Some d \<Rightarrow>
          (let ((e, cs), s1) = count_queries
                 [int (length (t_events d)), int (length (t_payloads d)), int (length (t_summaries d)),
                  int (length (t_entities d)), int (length (t_relations d))] s
           in case e of
                Some err \<Rightarrow> (failure_with (stats_of_counts cs) err, s1)
              | None \<Rightarrow> (success_with (stats_of_counts cs), s1)))"

end
