(* ===== verification/Store_Laws.thy ===== *)
theory Store_Laws
  imports Sqlite_Store
begin

text \<open>
  What the operations of \<open>MemorySqliteStore\<close> promise. Every write keeps the frame of the
  connection (file, saved content, clock) and the database invariant; a transaction is atomic for
  any callback that keeps the frame (locale \<open>transaction_work\<close>); without faults each operation
  does exactly what its statement says; and every reachable state of a store, under any schedule
  of failures, satisfies the invariant.
\<close>

section \<open>The frame of a write\<close>

definition frame :: "store \<Rightarrow> store \<Rightarrow> bool" where
  "frame s s' =
     (s_file s' = s_file s \<and> s_saved s' = s_saved s \<and> s_now s' = s_now s \<and> (s_db s' = None \<longleftrightarrow> s_db s = None))"

definition db_ok :: "store \<Rightarrow> bool" where
  "db_ok s = (\<forall>d. s_db s = Some d \<longrightarrow> db_inv d)"

definition write_step :: "store \<Rightarrow> store \<Rightarrow> bool" where
  "write_step s s' = (frame s s' \<and> (db_ok s \<longrightarrow> db_ok s'))"

lemma write_step_refl [simp, intro]: "write_step s s"
  by (simp add: write_step_def frame_def)

lemma write_step_trans [trans]: "write_step s t \<Longrightarrow> write_step t u \<Longrightarrow> write_step s u"
  by (simp add: write_step_def frame_def)

lemma next_ok_step: "next_ok s = (ok, s1) \<Longrightarrow> write_step s s1 \<and> s_db s1 = s_db s"
  by (auto simp: next_ok_def write_step_def frame_def db_ok_def split: list.splits)

lemma sql_step_cases:
  assumes "sql_step f s = (ok, s')"
  obtains (kept) k where "\<not> ok" "next_ok s = (k, s')"
  | (ran) s1 d d' where "ok" "next_ok s = (True, s1)" "s_db s1 = Some d" "f d = Some d'"
      "s' = s1\<lparr>s_db := Some d'\<rparr>"
proof -
  obtain k s1 where n: "next_ok s = (k, s1)" by fastforce
  show ?thesis
  proof (cases k)
    case False
    with assms n kept show ?thesis by (simp add: sql_step_def)
  next
    case k: True
    show ?thesis
    proof (cases "s_db s1")
      case None
      with assms n k kept show ?thesis by (simp add: sql_step_def)
    next
      case (Some d)
      then show ?thesis
        using assms n k kept ran by (cases "f d") (simp_all add: sql_step_def)
    qed
  qed
qed

lemma run_stmt_cases:
  assumes "run_stmt f s = (ok, s')"
  obtains (kept) k where "\<not> ok" "next_ok s = (k, s')"
  | (stepped) s1 where "next_ok s = (True, s1)" "sql_step f s1 = (ok, s')"
proof -
  obtain k s1 where n: "next_ok s = (k, s1)" by fastforce
  then show ?thesis using assms that by (cases k) (simp_all add: run_stmt_def)
qed

lemma write_step_db: "write_step s s1 \<Longrightarrow> s_db s1 = Some d \<Longrightarrow> (db_ok s1 \<Longrightarrow> db_inv d') \<Longrightarrow>
   write_step s (s1\<lparr>s_db := Some d'\<rparr>)"
  by (auto simp: write_step_def frame_def db_ok_def)

lemma sql_step_step:
  assumes "sql_step f s = (ok, s')" "\<And>d d'. s_db s = Some d \<Longrightarrow> db_inv d \<Longrightarrow> f d = Some d' \<Longrightarrow> db_inv d'"
  shows "write_step s s'"
  using assms(1)
proof (cases rule: sql_step_cases)
  case (kept k)
  then show ?thesis using next_ok_step by blast
next
  case (ran s1 d d')
  have "s_db s = Some d" using ran(3) next_ok_step [OF ran(2)] by simp
  then have "db_inv d'" if "db_ok s1" using that ran(3,4) assms(2) unfolding db_ok_def by blast
  then show ?thesis
    unfolding ran(5) using next_ok_step [OF ran(2)] ran(3) by (blast intro: write_step_db)
qed

lemma run_stmt_step:
  assumes "run_stmt f s = (ok, s')" "\<And>d d'. s_db s = Some d \<Longrightarrow> db_inv d \<Longrightarrow> f d = Some d' \<Longrightarrow> db_inv d'"
  shows "write_step s s'"
  using assms(1)
proof (cases rule: run_stmt_cases)
  case (kept k)
  then show ?thesis using next_ok_step by blast
next
  case (stepped s1)
  have "write_step s s1" using next_ok_step [OF stepped(1)] by blast
  also have "write_step s1 s'"
    using stepped(2) by (rule sql_step_step) (use assms(2) next_ok_step [OF stepped(1)] in simp)
  finally show ?thesis .
qed

text \<open>What a statement did: on success the tables changed by \<open>f\<close>, on failure nothing.\<close>

lemma sql_step_db:
  assumes "sql_step f s = (ok, s')"
  shows "if ok then (\<exists>d d'. s_db s = Some d \<and> f d = Some d' \<and> s_db s' = Some d') else s_db s' = s_db s"
  using assms
proof (cases rule: sql_step_cases)
  case (kept k)
  then show ?thesis using next_ok_step by simp
next
  case (ran s1 d d')
  then show ?thesis using next_ok_step [OF ran(2)] by simp
qed

lemma run_stmt_db:
  assumes "run_stmt f s = (ok, s')"
  shows "if ok then (\<exists>d d'. s_db s = Some d \<and> f d = Some d' \<and> s_db s' = Some d') else s_db s' = s_db s"
  using assms
proof (cases rule: run_stmt_cases)
  case (kept k)
  then show ?thesis using next_ok_step by simp
next
  case (stepped s1)
  have "s_db s1 = s_db s" using next_ok_step [OF stepped(1)] by simp
  with sql_step_db [OF stepped(2)] show ?thesis by (simp only:)
qed

lemma CursorToInt_range: "LLONG_MIN \<le> CursorToInt c \<and> CursorToInt c \<le> LLONG_MAX"
proof (cases "stoll c")
  case None
  then show ?thesis by (simp add: CursorToInt_def int_limits)
next
  case (Some v)
  then have "LLONG_MIN \<le> v \<and> v \<le> LLONG_MAX"
    unfolding stoll_def parse_prefix_int_def Let_def
    by (metis (no_types, lifting) option.distinct(1) option.inject)
  with Some show ?thesis by (simp add: CursorToInt_def int_limits)
qed

section \<open>Every write keeps the frame and the invariant\<close>

lemma run_insert_event_step: "run_stmt (insert_event n r) s = (ok, s') \<Longrightarrow> write_step s s'"
  by (erule run_stmt_step) (rule insert_event_inv)

lemma SaveEventUnlocked_step: "SaveEventUnlocked J e s = (r, s') \<Longrightarrow> write_step s s'"
proof -
  assume a: "SaveEventUnlocked J e s = (r, s')"
  obtain k s1 where n: "next_ok s = (k, s1)" by fastforce
  have b: "write_step s s1" using next_ok_step [OF n] by blast
  show ?thesis
  proof (cases "jdump J (JsonObject (ev_metadata e))")
    case (Inl w)
    with a b n show ?thesis by (auto simp: SaveEventUnlocked_def split: if_splits)
  next
    case (Inr t)
    obtain k2 s2 where q: "sql_step (insert_event (s_now s1) (event_to_row e t)) s1 = (k2, s2)" by fastforce
    have "write_step s1 s2" by (rule sql_step_step [OF q]) (rule insert_event_inv)
    with a b n q Inr show ?thesis
      by (auto simp: SaveEventUnlocked_def split: if_splits intro: write_step_trans)
  qed
qed

lemma SavePayloadUnlocked_step: "SavePayloadUnlocked p s = (ok, s') \<Longrightarrow> write_step s s'"
  unfolding SavePayloadUnlocked_def by (erule run_stmt_step) (rule upsert_payload_inv)

lemma SaveSummaryUnlocked_step: "SaveSummaryUnlocked J a ss l t m c refs s = (r, s') \<Longrightarrow> write_step s s'"
  unfolding SaveSummaryUnlocked_def Let_def
  by (auto split: sum.splits prod.splits elim!: run_stmt_step intro: insert_summary_inv)

lemma MarkEntityObsoleteUnlocked_step: "MarkEntityObsoleteUnlocked i b s = (ok, s') \<Longrightarrow> write_step s s'"
  unfolding MarkEntityObsoleteUnlocked_def by (erule run_stmt_step) (rule mark_entity_obsolete_inv)

lemma MarkDuplicateEntitiesObsoleteUnlocked_step:
  "MarkDuplicateEntitiesObsoleteUnlocked e s = (ok, s') \<Longrightarrow> write_step s s'"
  unfolding MarkDuplicateEntitiesObsoleteUnlocked_def
  by (auto split: if_splits elim!: run_stmt_step intro: mark_duplicate_entities_inv)

lemma SaveConsolidationCursorUnlocked_step:
  "SaveConsolidationCursorUnlocked a ss c s = (ok, s') \<Longrightarrow> write_step s s'"
  unfolding SaveConsolidationCursorUnlocked_def
  by (erule run_stmt_step)
    (erule upsert_cursor_inv, assumption,
      rule CursorToInt_range [THEN conjunct1], rule CursorToInt_range [THEN conjunct2])

lemma MarkDuplicateEntitiesObsoleteUnlocked_clears:
  assumes m: "MarkDuplicateEntitiesObsoleteUnlocked e s = (True, s1)" and d: "s_db s1 = Some d"
    and k: "keyed (entity_to_row e refs meta)"
  shows "no_active_duplicate (entity_to_row e refs meta) d"
proof -
  let ?r = "entity_to_row e refs meta"
  have row: "enr_id ?r = c_str (en_id e)" "enr_agent ?r = c_str (en_agentId e)"
      "enr_type ?r = c_str (en_entityType e)" "enr_name ?r = c_str (en_name e)"
    by (simp_all add: entity_to_row_def)
  have "en_id e \<noteq> []" "en_agentId e \<noteq> []" "en_entityType e \<noteq> []" "en_name e \<noteq> []"
    using k unfolding keyed_def row by auto
  then have "run_stmt (mark_duplicate_entities (s_now s) (enr_id ?r) (enr_agent ?r) (enr_type ?r) (enr_name ?r)) s
      = (True, s1)"
    using m unfolding row MarkDuplicateEntitiesObsoleteUnlocked_def by simp
  from run_stmt_db [OF this] obtain d0 where
    "mark_duplicate_entities (s_now s) (enr_id ?r) (enr_agent ?r) (enr_type ?r) (enr_name ?r) d0 = Some d"
    using d by auto
  then show ?thesis by (rule mark_duplicate_entities_clears)
qed

lemma upsert_after_mark_step:
  assumes "MarkDuplicateEntitiesObsoleteUnlocked e s = (True, s1)"
    and "run_stmt (upsert_entity now (entity_to_row e refs meta)) s1 = (ok, s2)"
  shows "write_step s s2"
proof -
  have "write_step s s1" by (rule MarkDuplicateEntitiesObsoleteUnlocked_step [OF assms(1)])
  also have "write_step s1 s2"
    using assms(2)
  proof (rule run_stmt_step)
    fix d d'
    assume d: "s_db s1 = Some d" "db_inv d" "upsert_entity now (entity_to_row e refs meta) d = Some d'"
    show "db_inv d'"
      by (rule upsert_entity_inv [OF d(2) _ d(3)])
        (rule MarkDuplicateEntitiesObsoleteUnlocked_clears [OF assms(1) d(1)])
  qed
  finally show ?thesis .
qed

lemma SaveEntityUnlocked_step: "SaveEntityUnlocked J e s = (r, s') \<Longrightarrow> write_step s s'"
proof -
  assume a: "SaveEntityUnlocked J e s = (r, s')"
  consider (thrown) w where "r = Throw w" "s' = s"
    | (dumped) refs meta where "SerializeSourceRefs J (en_sourceRefs e) = Inr refs"
        "jdump J (JsonObject (en_metadata e)) = Inr meta"
    using a by (auto simp: SaveEntityUnlocked_def split: sum.splits)
  then show ?thesis
  proof cases
    case thrown
    then show ?thesis by simp
  next
    case dumped
    obtain ok1 s1 where m: "MarkDuplicateEntitiesObsoleteUnlocked e s = (ok1, s1)" by fastforce
    obtain ok2 s2 where u: "run_stmt (upsert_entity (s_now s1) (entity_to_row e refs meta)) s1 = (ok2, s2)"
      by fastforce
    obtain ok3 s3 where o: "MarkEntityObsoleteUnlocked (en_supersededEntityId e) (en_id e) s2 = (ok3, s3)"
      by fastforce
    have 1: "write_step s s1" by (rule MarkDuplicateEntitiesObsoleteUnlocked_step [OF m])
    have 2: "ok1 \<Longrightarrow> write_step s s2" using upsert_after_mark_step m u by simp
    have 3: "write_step s2 s3" by (rule MarkEntityObsoleteUnlocked_step [OF o])
    have "s' = s1 \<or> (ok1 \<and> s' = s2) \<or> (ok1 \<and> s' = s3)"
      using a unfolding SaveEntityUnlocked_def dumped m u o sum.case Let_def prod.case
      by (cases ok1; cases ok2; cases "en_supersededEntityId e = []") simp_all
    then show ?thesis using 1 2 3 write_step_trans by blast
  qed
qed

lemma insert_after_obsolete_step:
  assumes "run_stmt (obsolete_relations now1 (c_str (rel_agentId r)) (c_str (rel_fromEntityId r))
             (c_str (rel_relationType r)) (c_str (rel_toEntityId r))) s = (True, s1)"
    and "run_stmt (insert_relation now2 (relation_to_row r refs meta)) s1 = (ok, s2)"
  shows "write_step s s2"
proof -
  let ?r = "relation_to_row r refs meta"
  have row: "c_str (rel_agentId r) = rlr_agent ?r" "c_str (rel_fromEntityId r) = rlr_from ?r"
      "c_str (rel_relationType r) = rlr_relation ?r" "c_str (rel_toEntityId r) = rlr_to ?r"
    by (simp_all add: relation_to_row_def)
  note ob = assms(1) [unfolded row]
  have "write_step s s1" using ob by (rule run_stmt_step) (rule obsolete_relations_inv)
  also have "write_step s1 s2"
    using assms(2)
  proof (rule run_stmt_step)
    fix d d'
    assume d: "s_db s1 = Some d" "db_inv d" "insert_relation now2 ?r d = Some d'"
    from run_stmt_db [OF ob] d(1) obtain d0 where
      "obsolete_relations now1 (rlr_agent ?r) (rlr_from ?r) (rlr_relation ?r) (rlr_to ?r) d0 = Some d"
      by auto
    then have "no_active_relation ?r d" by (rule obsolete_relations_clears)
    with d show "db_inv d'" by (blast intro: insert_relation_inv)
  qed
  finally show ?thesis .
qed

lemma SaveRelationUnlocked_step: "SaveRelationUnlocked J rel s = (r, s') \<Longrightarrow> write_step s s'"
proof -
  assume a: "SaveRelationUnlocked J rel s = (r, s')"
  consider (thrown) w where "r = Throw w" "s' = s"
    | (dumped) refs meta where "SerializeSourceRefs J (rel_sourceRefs rel) = Inr refs"
        "jdump J (relation_metadata rel) = Inr meta"
    using a by (auto simp: SaveRelationUnlocked_def split: sum.splits)
  then show ?thesis
  proof cases
    case thrown
    then show ?thesis by simp
  next
    case dumped
    obtain ok1 s1 where m: "run_stmt (obsolete_relations (s_now s) (c_str (rel_agentId rel))
        (c_str (rel_fromEntityId rel)) (c_str (rel_relationType rel)) (c_str (rel_toEntityId rel))) s = (ok1, s1)"
      by fastforce
    obtain ok2 s2 where u: "run_stmt (insert_relation (s_now s1) (relation_to_row rel refs meta)) s1 = (ok2, s2)"
      by fastforce
    obtain ok3 s3 where o: "MarkEntityObsoleteUnlocked (rel_toEntityId rel) (rel_fromEntityId rel) s2 = (ok3, s3)"
      by fastforce
    have 1: "write_step s s1" using m by (rule run_stmt_step) (rule obsolete_relations_inv)
    have 2: "ok1 \<Longrightarrow> write_step s s2" using insert_after_obsolete_step m u by simp
    have 3: "write_step s2 s3" by (rule MarkEntityObsoleteUnlocked_step [OF o])
    have "s' = s1 \<or> (ok1 \<and> s' = s2) \<or> (ok1 \<and> s' = s3)"
      using a unfolding SaveRelationUnlocked_def dumped m u o sum.case Let_def prod.case
      by (cases ok1; cases ok2; cases "rel_relationType rel = ''supersedes''") simp_all
    then show ?thesis using 1 2 3 write_step_trans by blast
  qed
qed

section \<open>The contract of a write and of a transaction callback\<close>

text \<open>
  What \<open>MemoryStoreTransaction\<close> (\<open>src/storage/store.h\<close>) promises of each operation: it stays on the
  connection, leaves the saved content alone and keeps the invariant.
\<close>

locale write_op =
  fixes run :: "store \<Rightarrow> 'r outcome \<times> store"
  assumes keeps: "write_step s (snd (run s))"
begin

lemma keeps_saved: "s_saved (snd (run s)) = s_saved s"
  using keeps [of s] by (simp add: write_step_def frame_def)

lemma keeps_db: "s_db (snd (run s)) = None \<longleftrightarrow> s_db s = None"
  using keeps [of s] by (simp add: write_step_def frame_def)

lemma keeps_durable_in_transaction: "s_saved s \<noteq> None \<Longrightarrow> durable (snd (run s)) = durable s"
  using keeps_saved by (auto simp: durable_def)

end

lemma op_result_snd [simp]: "snd (op_result ctx r) = snd r"
  by (cases "(ctx, r)" rule: op_result.cases) auto

lemma lift_ok_snd [simp]: "snd (lift_ok r) = snd r"
  by (simp add: lift_ok_def)

interpretation tx_summary: write_op "tx_SaveSummary J a ss l t m c refs" for J a ss l t m c refs
  by unfold_locales (simp add: tx_SaveSummary_def SaveSummaryUnlocked_step [OF surjective_pairing])

interpretation tx_entity: write_op "tx_SaveEntity J e" for J e
  by unfold_locales (simp add: tx_SaveEntity_def SaveEntityUnlocked_step [OF surjective_pairing])

interpretation tx_relation: write_op "tx_SaveRelation J r" for J r
  by unfold_locales (simp add: tx_SaveRelation_def SaveRelationUnlocked_step [OF surjective_pairing])

interpretation tx_obsolete: write_op "tx_MarkEntityObsolete i b" for i b
  by unfold_locales (simp add: tx_MarkEntityObsolete_def MarkEntityObsoleteUnlocked_step [OF surjective_pairing])

interpretation tx_cursor: write_op "tx_SaveConsolidationCursor a ss c" for a ss c
  by unfold_locales
    (simp add: tx_SaveConsolidationCursor_def SaveConsolidationCursorUnlocked_step [OF surjective_pairing])

lemma guarded_step: "(\<And>s. write_step s (snd (f s))) \<Longrightarrow> write_step s (snd (guarded f s))"
  by (simp add: guarded_def)

interpretation save_event: write_op "SaveEvent J e" for J e
  by unfold_locales (simp add: SaveEvent_def guarded_step SaveEventUnlocked_step [OF surjective_pairing])

interpretation save_payload: write_op "SavePayload p" for p
  by unfold_locales (simp add: SavePayload_def guarded_step SavePayloadUnlocked_step [OF surjective_pairing])

interpretation save_summary: write_op "SaveSummary J a ss l t m c refs" for J a ss l t m c refs
  by unfold_locales (simp add: SaveSummary_def guarded_step SaveSummaryUnlocked_step [OF surjective_pairing])

interpretation save_entity: write_op "SaveEntity J e" for J e
  by unfold_locales (simp add: SaveEntity_def guarded_step SaveEntityUnlocked_step [OF surjective_pairing])

interpretation save_relation: write_op "SaveRelation J r" for J r
  by unfold_locales (simp add: SaveRelation_def guarded_step SaveRelationUnlocked_step [OF surjective_pairing])

interpretation save_cursor: write_op "SaveConsolidationCursor a ss c" for a ss c
  by unfold_locales
    (simp add: SaveConsolidationCursor_def guarded_step SaveConsolidationCursorUnlocked_step [OF surjective_pairing])

interpretation mark_obsolete: write_op "MarkEntityObsolete i b" for i b
  by unfold_locales
    (simp add: MarkEntityObsolete_def guarded_step MarkEntityObsoleteUnlocked_step [OF surjective_pairing])

section \<open>Transactions\<close>

definition store_inv :: "store \<Rightarrow> bool" where
  "store_inv s =
     (db_inv (s_file s) \<and> db_ok s \<and> (\<forall>d. s_saved s = Some d \<longrightarrow> db_inv d) \<and> (s_saved s \<noteq> None \<longrightarrow> s_db s \<noteq> None))"

lemma durable_inv: "store_inv s \<Longrightarrow> db_inv (durable s)"
  by (auto simp: store_inv_def durable_def db_ok_def split: option.splits)

lemma write_step_store_inv: "write_step s s' \<Longrightarrow> store_inv s \<Longrightarrow> store_inv s'"
  by (simp add: store_inv_def write_step_def frame_def)

lemma durable_cong:
  "s_saved t = s_saved s \<Longrightarrow> s_db t = s_db s \<Longrightarrow> s_file t = s_file s \<Longrightarrow> durable t = durable s"
  by (simp only: durable_def)

lemma next_ok_frame:
  assumes "next_ok s = (k, s1)"
  shows "s_file s1 = s_file s" "s_saved s1 = s_saved s" "s_db s1 = s_db s" "durable s1 = durable s"
    "s_now s1 = s_now s"
  using assms by (auto simp: next_ok_def split: list.splits intro: durable_cong)

lemma exec_begin_cases:
  assumes "exec_begin s = (ok, s1)"
  obtains (refused) "\<not> ok" "s_saved s1 = s_saved s" "s_db s1 = s_db s" "s_file s1 = s_file s"
  | (begun) "ok" "s_saved s = None" "s_saved s1 = s_db s" "s_db s1 = s_db s" "s_file s1 = s_file s"
proof -
  obtain k t where n: "next_ok s = (k, t)" by fastforce
  note f = next_ok_frame [OF n]
  show ?thesis
  proof (cases "\<not> k \<or> s_saved t \<noteq> None")
    case True
    with assms n f refused show ?thesis by (simp add: exec_begin_def)
  next
    case False
    then have "ok" "s1 = t\<lparr>s_saved := s_db t\<rparr>" using assms n by (simp_all add: exec_begin_def)
    with False f begun show ?thesis by simp
  qed
qed

lemma exec_commit_cases:
  assumes "exec_commit s = (ok, s1)"
  obtains (refused) "\<not> ok" "s_saved s1 = s_saved s" "s_db s1 = s_db s" "s_file s1 = s_file s"
  | (committed) "ok" "s_saved s \<noteq> None" "s_saved s1 = None" "s_db s1 = s_db s" "s_file s1 = s_file s"
proof -
  obtain k t where n: "next_ok s = (k, t)" by fastforce
  note f = next_ok_frame [OF n]
  show ?thesis
  proof (cases "\<not> k \<or> s_saved t = None")
    case True
    with assms n f refused show ?thesis by (simp add: exec_commit_def)
  next
    case False
    then have "ok" "s1 = t\<lparr>s_saved := None\<rparr>" using assms n by (auto simp: exec_commit_def)
    with False f committed show ?thesis by simp
  qed
qed

lemma exec_rollback_cases:
  obtains (kept) "s_saved (snd (exec_rollback s)) = s_saved s" "s_db (snd (exec_rollback s)) = s_db s"
    "s_file (snd (exec_rollback s)) = s_file s"
  | (undone) d where "s_saved s = Some d" "s_saved (snd (exec_rollback s)) = None"
      "s_db (snd (exec_rollback s)) = Some d" "s_file (snd (exec_rollback s)) = s_file s"
proof -
  obtain k t where n: "next_ok s = (k, t)" by fastforce
  note f = next_ok_frame [OF n]
  show ?thesis
  proof (cases "k \<and> s_saved t \<noteq> None")
    case True
    then obtain d where "k" "s_saved t = Some d" by auto
    then show ?thesis using undone [of d] n f by (simp add: exec_rollback_def)
  next
    case False
    then show ?thesis using kept n f by (cases k) (auto simp: exec_rollback_def)
  qed
qed

lemma exec_rollback_durable [simp]: "durable (snd (exec_rollback s)) = durable s"
proof (cases s rule: exec_rollback_cases)
  case kept
  then show ?thesis by (rule durable_cong)
next
  case (undone d)
  then show ?thesis by (simp add: durable_def)
qed

lemma exec_rollback_inv: "store_inv s \<Longrightarrow> store_inv (snd (exec_rollback s))"
  by (cases s rule: exec_rollback_cases) (simp_all add: store_inv_def db_ok_def)

text \<open>
  A transaction whose callback uses the store only through the transaction object: it commits what
  the callback left, or it changes nothing that survives the connection.
\<close>

lemma RunInTransaction_cases:
  assumes "RunInTransaction aux0 work s = (res, s')"
  obtains (closed) "s_db s = None" "res = Ret (failure_with () store_unavailable, aux0)" "s' = s"
  | (refused) s1 where "exec_begin s = (False, s1)" "s' = s1"
      "res = Ret (SqliteFailure s1 ''RunInTransaction::begin'', aux0)"
  | (thrown) s1 w where "s_db s \<noteq> None" "exec_begin s = (True, s1)" "work s1 = (Throw w, s')" "res = Throw w"
  | (committed) s1 s2 r0 aux where "s_db s \<noteq> None" "exec_begin s = (True, s1)" "work s1 = (Ret (r0, aux), s2)"
      "succeeded r0" "exec_commit s2 = (True, s')" "res = Ret (MemorySuccess, aux)"
  | (rolled_back) s1 s2 s3 r0 r aux where "s_db s \<noteq> None" "exec_begin s = (True, s1)"
      "work s1 = (Ret (r0, aux), s2)"
      "(succeeded r0 \<and> exec_commit s2 = (False, s3)) \<or> (\<not> succeeded r0 \<and> s3 = s2)"
      "res = Ret (r, aux)" "\<not> succeeded r" "s' = snd (exec_rollback s3)"
proof -
  obtain b s1 where b: "exec_begin s = (b, s1)" by fastforce
  obtain wr s2 where w: "work s1 = (wr, s2)" by fastforce
  obtain c s3 where c: "exec_commit s2 = (c, s3)" by fastforce
  show ?thesis
  proof (cases "s_db s = None")
    case True
    then have "res = Ret (failure_with () store_unavailable, aux0) \<and> s' = s"
      using assms by (simp add: RunInTransaction_def)
    with True show ?thesis by (intro closed) simp_all
  next
    case open_db: False
    note un = assms [unfolded RunInTransaction_def if_not_P [OF open_db] b Let_def prod.case w]
    show ?thesis
    proof (cases b)
      case False
      then have "res = Ret (SqliteFailure s1 ''RunInTransaction::begin'', aux0) \<and> s' = s1" "exec_begin s = (False, s1)"
        using un b by auto
      then show ?thesis by (intro refused) simp_all
    next
      case True
      show ?thesis
      proof (cases wr)
        case (Throw e)
        then have "res = Throw e \<and> s' = s2" using un True by auto
        then show ?thesis using b w True Throw open_db by (intro thrown [of s1 e]) simp_all
      next
        case (Ret p)
        obtain r0 aux where p: "p = (r0, aux)" by fastforce
        show ?thesis
        proof (cases "succeeded r0 \<and> c")
          case ok: True
          then have "res = Ret (MemorySuccess, aux) \<and> s' = s3" using un c True Ret p by auto
          then show ?thesis using b w c ok True Ret p open_db by (intro committed [of s1 r0 aux s2]) simp_all
        next
          case bad: False
          then have "res = Ret (if succeeded r0 then SqliteFailure s3 ''RunInTransaction::commit''
                else if HasError (error_of r0) then r0
                else MemoryFailure ''transaction_failed'' ''transaction work failed'' [] False, aux) \<and>
              s' = snd (exec_rollback (if succeeded r0 then s3 else s2))"
            using un c True Ret p by (cases "succeeded r0") simp_all
          then show ?thesis
            using rolled_back [of s1 r0 aux s2 "if succeeded r0 then s3 else s2"] bad b w c True Ret p open_db
            by (cases "succeeded r0") (simp_all add: SqliteFailure_def)
        qed
      qed
    qed
  qed
qed

locale transaction_work = write_op work
  for work :: "store \<Rightarrow> (MemoryOperationResult \<times> 'a) outcome \<times> store"
begin

lemma work_frame:
  assumes "exec_begin s = (True, s1)" "work s1 = (r, s2)" "s_db s \<noteq> None"
  shows "s_saved s2 = s_db s" "s_saved s = None" "durable s2 = durable s" "s_db s2 \<noteq> None"
proof -
  from assms(1) have s1: "s_saved s = None" "s_saved s1 = s_db s" "s_db s1 = s_db s"
    by (auto elim: exec_begin_cases)
  then show "s_saved s2 = s_db s" "s_saved s = None" "s_db s2 \<noteq> None"
    using keeps_saved [of s1] keeps_db [of s1] assms(2,3) by simp_all
  then show "durable s2 = durable s"
    using assms(3) by (auto simp: durable_def)
qed

lemma failure_keeps_durable:
  assumes run: "RunInTransaction aux0 work s = (Ret (r, aux), s')" and fail: "\<not> succeeded r"
  shows "durable s' = durable s"
  using run
proof (cases rule: RunInTransaction_cases)
  case closed
  then show ?thesis by simp
next
  case (refused s1)
  from refused(1) show ?thesis
    unfolding refused(2) by (rule exec_begin_cases) (rule durable_cong, assumption+, simp)
next
  case (committed s1 s2 r0 aux')
  with fail show ?thesis by simp
next
  case (rolled_back s1 s2 s3 r0 r' aux')
  have "durable s3 = durable s2"
    using rolled_back(4)
  proof (elim disjE conjE)
    assume "exec_commit s2 = (False, s3)"
    then show ?thesis by (rule exec_commit_cases) (rule durable_cong, assumption+, simp)
  qed simp
  then show ?thesis using rolled_back work_frame(3) by simp
qed simp

lemma success_commits:
  assumes "RunInTransaction aux0 work s = (Ret (r, aux), s')" "succeeded r"
  shows "\<exists>s1 s2 r0. exec_begin s = (True, s1) \<and> s_db s1 = s_db s \<and> work s1 = (Ret (r0, aux), s2) \<and>
    succeeded r0 \<and> s_db s2 = Some (durable s') \<and> s_db s' = s_db s2 \<and> s_saved s' = None"
  using assms(1)
proof (cases rule: RunInTransaction_cases)
  case (committed s1 s2 r0 aux')
  then have aux: "aux' = aux" by simp
  have s1: "s_db s1 = s_db s" using committed(2) by (auto elim: exec_begin_cases)
  have s': "s_saved s' = None" "s_db s' = s_db s2" using committed(5) by (auto elim: exec_commit_cases)
  then have "s_db s2 = Some (durable s')"
    using work_frame(4) [OF committed(2,3,1)] by (auto simp: durable_def)
  with committed aux s1 s' show ?thesis by blast
qed (use assms(2) in \<open>simp_all add: SqliteFailure_def\<close>)

lemma exception_leaves_open:
  assumes "RunInTransaction aux0 work s = (Throw w, s')"
  shows "s_saved s' = s_db s \<and> s_db s \<noteq> None \<and> durable s' = durable s"
  using assms
proof (cases rule: RunInTransaction_cases)
  case (thrown s1 w')
  then show ?thesis using work_frame [OF thrown(2,3,1)] by simp
qed simp_all

lemma transaction_inv:
  assumes "store_inv s"
  shows "store_inv (snd (RunInTransaction aux0 work s))"
proof -
  obtain res s' where run: "RunInTransaction aux0 work s = (res, s')" by fastforce
  have begun: "store_inv s2" if "exec_begin s = (b, s1)" "s2 = s1 \<or> s2 = snd (work s1)" for b s1 s2
  proof -
    have "store_inv s1"
      using that(1) assms by (cases rule: exec_begin_cases) (auto simp: store_inv_def db_ok_def)
    with that(2) keeps show ?thesis using write_step_store_inv by blast
  qed
  have comm: "store_inv s3" if "exec_commit s2 = (c, s3)" "store_inv s2" for c s2 s3
    using that by (cases rule: exec_commit_cases) (auto simp: store_inv_def db_ok_def)
  from run have "store_inv s'"
  proof (cases rule: RunInTransaction_cases)
    case (rolled_back s1 s2 s3 r0 r aux)
    then have "store_inv s2" using begun [OF rolled_back(2), of s2] by simp
    then have "store_inv s3" using rolled_back(4) comm by blast
    then show ?thesis using rolled_back(7) exec_rollback_inv by simp
  next
    case (committed s1 s2 r0 aux)
    then have "store_inv s2" using begun [OF committed(2), of s2] by simp
    then show ?thesis using committed(5) comm by blast
  qed (use assms begun in \<open>auto\<close>)
  with run show ?thesis by simp
qed

end

section \<open>Reads\<close>

text \<open>A read consumes outcomes of the fault schedule and changes nothing else.\<close>

definition read_step :: "store \<Rightarrow> store \<Rightarrow> bool" where
  "read_step s s' = (\<exists>fs. s' = s\<lparr>s_faults := fs\<rparr>)"

lemma read_step_refl [simp, intro]: "read_step s s"
  unfolding read_step_def by (rule exI [of _ "s_faults s"]) simp

lemma read_step_trans [trans]: "read_step s t \<Longrightarrow> read_step t u \<Longrightarrow> read_step s u"
  by (auto simp: read_step_def)

lemma read_step_frame:
  assumes "read_step s s'"
  shows "s_db s' = s_db s" "s_saved s' = s_saved s" "s_file s' = s_file s" "durable s' = durable s"
    "store_inv s' = store_inv s"
  using assms by (auto simp: read_step_def store_inv_def db_ok_def intro: durable_cong)

lemma next_ok_read: "next_ok s = (k, s1) \<Longrightarrow> read_step s s1"
  by (auto simp: next_ok_def split: list.splits) (auto simp: read_step_def)

lemma fetch_read:
  "fetch rs s = (ok, rs', s') \<Longrightarrow> read_step s s' \<and> prefix rs' rs \<and> (ok \<longrightarrow> rs' = rs)"
proof (induction rs arbitrary: s ok rs' s')
  case Nil
  then show ?case using next_ok_read by (auto split: prod.splits)
next
  case (Cons r rs)
  obtain k s1 where n: "next_ok s = (k, s1)" by fastforce
  obtain k2 rs2 s2 where f: "fetch rs s1 = (k2, rs2, s2)" by (metis prod_cases3)
  from Cons.IH [OF f] next_ok_read [OF n] have "read_step s s2" "prefix rs2 rs" "k2 \<longrightarrow> rs2 = rs"
    using read_step_trans by blast+
  moreover have "read_step s s1" by (rule next_ok_read [OF n])
  ultimately show ?case using Cons.prems n f by (auto split: if_splits)
qed

lemma run_query_read:
  assumes "run_query ctx q f dflt s = (r, s')"
  shows "read_step s s'"
    and "succeeded r \<Longrightarrow> \<exists>d. s_db s = Some d \<and> r = success_with (f (q d))"
    and "\<not> succeeded r \<Longrightarrow> HasError (error_of r)"
proof -
  have "read_step s s' \<and> (succeeded r \<longrightarrow> (\<exists>d. s_db s = Some d \<and> r = success_with (f (q d)))) \<and>
    (\<not> succeeded r \<longrightarrow> HasError (error_of r))"
  proof (cases "s_db s")
    case None
    then show ?thesis using assms by (auto simp: run_query_def store_unavailable_def)
  next
    case (Some d)
    obtain k s1 where n: "next_ok s = (k, s1)" by fastforce
    obtain k2 rs s2 where ft: "fetch (q d) s1 = (k2, rs, s2)" by (metis prod_cases3)
    have "read_step s s1" by (rule next_ok_read [OF n])
    moreover have "read_step s1 s2" "k2 \<longrightarrow> rs = q d" using fetch_read [OF ft] by blast+
    ultimately show ?thesis
      using assms Some n ft read_step_trans [of s s1 s2]
      by (auto simp: run_query_def sqlite_error_def split: if_splits)
  qed
  then show "read_step s s'" "succeeded r \<Longrightarrow> \<exists>d. s_db s = Some d \<and> r = success_with (f (q d))"
    "\<not> succeeded r \<Longrightarrow> HasError (error_of r)" by blast+
qed

lemma LoadEventsAfterCursor_read: "LoadEventsAfterCursor J a ss c ex s = (r, s') \<Longrightarrow> read_step s s'"
  unfolding LoadEventsAfterCursor_def by (rule run_query_read)

lemma LoadRecentEvents_read: "LoadRecentEvents J a ss n s = (r, s') \<Longrightarrow> read_step s s'"
  unfolding LoadRecentEvents_def Let_def by (auto split: prod.splits dest: run_query_read(1))

lemma LoadRecentPayloads_read: "LoadRecentPayloads a ss n s = (r, s') \<Longrightarrow> read_step s s'"
  unfolding LoadRecentPayloads_def by (rule run_query_read)

lemma LoadConsolidationCursor_read: "LoadConsolidationCursor a ss s = (r, s') \<Longrightarrow> read_step s s'"
proof -
  assume a: "LoadConsolidationCursor a ss s = (r, s')"
  obtain k s1 where n: "next_ok s = (k, s1)" by fastforce
  obtain k2 s2 where n2: "next_ok s1 = (k2, s2)" by fastforce
  have "read_step s s1" "read_step s s2"
    using next_ok_read [OF n] next_ok_read [OF n2] read_step_trans by blast+
  with a n n2 show ?thesis
    by (auto simp: LoadConsolidationCursor_def split: option.splits if_splits)
qed

lemma snapshot_block_read: "snapshot_block ctx rows s = (x, s') \<Longrightarrow> read_step s s'"
proof -
  assume a: "snapshot_block ctx rows s = (x, s')"
  obtain k s1 where n: "next_ok s = (k, s1)" by fastforce
  obtain k2 rs s2 where f: "fetch rows s1 = (k2, rs, s2)" by (metis prod_cases3)
  have "read_step s s1" "read_step s s2"
    using next_ok_read [OF n] fetch_read [OF f] read_step_trans by blast+
  with a n f show ?thesis by (auto simp: snapshot_block_def split: if_splits)
qed

lemma LoadLongTermMemory_read: "LoadLongTermMemory J a n ss s = (r, s') \<Longrightarrow> read_step s s'"
proof (cases "s_db s")
  case None
  then show "LoadLongTermMemory J a n ss s = (r, s') \<Longrightarrow> ?thesis" by (auto simp: LoadLongTermMemory_def)
next
  case (Some d)
  let ?n = "effective_limit 100 n"
  assume a: "LoadLongTermMemory J a n ss s = (r, s')"
  obtain e1 rs1 s1 where b1: "snapshot_block ''LoadLongTermMemory::summaries''
      (take ?n (select_summaries a ss d)) s = ((e1, rs1), s1)" by (metis surj_pair)
  obtain e2 rs2 s2 where b2: "snapshot_block ''LoadLongTermMemory::entities''
      (take ?n (select_entities a d)) s1 = ((e2, rs2), s2)" by (metis surj_pair)
  obtain e3 rs3 s3 where b3: "snapshot_block ''LoadLongTermMemory::relations''
      (take ?n (select_relations a d)) s2 = ((e3, rs3), s3)" by (metis surj_pair)
  have "read_step s s1" "read_step s s2" "read_step s s3"
    using snapshot_block_read [OF b1] snapshot_block_read [OF b2] snapshot_block_read [OF b3]
      read_step_trans by blast+
  then show ?thesis
    using a Some b1 b2 b3 by (auto simp: LoadLongTermMemory_def Let_def split: option.splits)
qed

lemma count_queries_read: "count_queries ns s = (x, s') \<Longrightarrow> read_step s s'"
proof (induction ns arbitrary: s x s')
  case (Cons n ns)
  obtain k s1 where n: "next_ok s = (k, s1)" by fastforce
  obtain k2 s2 where n2: "next_ok s1 = (k2, s2)" by fastforce
  obtain e cs s3 where c: "count_queries ns s2 = ((e, cs), s3)" by (metis surj_pair)
  have "read_step s s1" "read_step s s2" "read_step s s3"
    using next_ok_read [OF n] next_ok_read [OF n2] Cons.IH [OF c] read_step_trans by blast+
  with Cons.prems n n2 c show ?case by (auto split: if_splits)
qed simp

lemma GetStoreStats_read: "GetStoreStats s = (r, s') \<Longrightarrow> read_step s s'"
  unfolding GetStoreStats_def Let_def
  by (auto simp del: count_queries.simps split: option.splits prod.splits dest: count_queries_read)

lemmas store_reads = LoadEventsAfterCursor_read LoadRecentEvents_read LoadRecentPayloads_read
  LoadConsolidationCursor_read LoadLongTermMemory_read GetStoreStats_read

section \<open>Opening the database\<close>

lemma db_inv_schema [simp]: "db_inv (d\<lparr>db_schema := x\<rparr>) = db_inv d"
  by (simp add: db_inv_def table_ok_defs)

lemma create_table_inv: "db_inv d \<Longrightarrow> create_table t cols d = Some d' \<Longrightarrow> db_inv d'"
  by (auto simp: create_table_def split: if_splits)

lemma create_index_inv: "db_inv d \<Longrightarrow> create_index t cols d = Some d' \<Longrightarrow> db_inv d'"
  by (auto simp: create_index_def split: option.splits if_splits)

lemma add_column_inv: "db_inv d \<Longrightarrow> add_column t c d = Some d' \<Longrightarrow> db_inv d'"
  by (auto simp: add_column_def split: option.splits if_splits)

lemma ExecuteUnlocked_step:
  "ExecuteUnlocked f s = (ok, s') \<Longrightarrow> (\<And>d d'. db_inv d \<Longrightarrow> f d = Some d' \<Longrightarrow> db_inv d') \<Longrightarrow> write_step s s'"
  unfolding ExecuteUnlocked_def by (erule sql_step_step) blast

lemma exec_chain_step:
  "exec_chain fs s = (ok, s') \<Longrightarrow> \<forall>f\<in>set fs. \<forall>d d'. db_inv d \<longrightarrow> f d = Some d' \<longrightarrow> db_inv d' \<Longrightarrow>
   write_step s s'"
proof (induction fs arbitrary: s ok s')
  case (Cons f fs)
  obtain k s1 where e: "ExecuteUnlocked f s = (k, s1)" by fastforce
  have 1: "write_step s s1" using e by (rule ExecuteUnlocked_step) (use Cons.prems(2) in auto)
  show ?case
  proof (cases k)
    case True
    then have "exec_chain fs s1 = (ok, s')" using Cons.prems(1) e by simp
    then have "write_step s1 s'" by (rule Cons.IH) (meson Cons.prems(2) list.set_intros(2))
    with 1 show ?thesis by (rule write_step_trans)
  next
    case False
    with Cons.prems e 1 show ?thesis by simp
  qed
qed simp

lemma exec_each_step:
  "exec_each fs ok0 s = (ok, s') \<Longrightarrow> \<forall>f\<in>set fs. \<forall>t. write_step t (snd (f t)) \<Longrightarrow> write_step s s'"
proof (induction fs arbitrary: s ok0 ok s')
  case (Cons f fs)
  obtain k s1 where e: "f s = (k, s1)" by fastforce
  have each: "exec_each fs (k \<and> ok0) s1 = (ok, s')" using Cons.prems(1) e by simp
  have "write_step s s1" using Cons.prems(2) e by (metis list.set_intros(1) snd_conv)
  also have "write_step s1 s'" using each by (rule Cons.IH) (meson Cons.prems(2) list.set_intros(2))
  finally show ?case .
qed simp

lemma scan_columns_step: "write_step s (snd (scan_columns c cols s))"
proof (induction cols arbitrary: s)
  case Nil
  then show ?case using next_ok_step by (auto split: prod.splits)
next
  case (Cons x xs)
  obtain k s1 where n: "next_ok s = (k, s1)" by fastforce
  have "write_step s s1" using next_ok_step [OF n] by blast
  with Cons.IH [of s1] n show ?case by (auto intro: write_step_trans)
qed

lemma ColumnExistsUnlocked_step: "write_step s (snd (ColumnExistsUnlocked t c s))"
proof -
  obtain k s1 where n: "next_ok s = (k, s1)" by fastforce
  have "write_step s s1" using next_ok_step [OF n] by blast
  with scan_columns_step [of s1] n show ?thesis
    by (auto simp: ColumnExistsUnlocked_def intro: write_step_trans)
qed

lemma AddColumnIfMissingUnlocked_step: "write_step s (snd (AddColumnIfMissingUnlocked t c s))"
proof -
  obtain k s1 where n: "ColumnExistsUnlocked t c s = (k, s1)" by fastforce
  have 1: "write_step s s1" using ColumnExistsUnlocked_step [of s t c] n by simp
  obtain k2 s2 where e: "ExecuteUnlocked (add_column t c) s1 = (k2, s2)" by fastforce
  have "write_step s1 s2" using e by (rule ExecuteUnlocked_step) (rule add_column_inv)
  with 1 n e show ?thesis by (auto simp: AddColumnIfMissingUnlocked_def intro: write_step_trans)
qed

lemma schema_chain_inv: "\<forall>f\<in>set schema_chain. \<forall>d d'. db_inv d \<longrightarrow> f d = Some d' \<longrightarrow> db_inv d'"
  unfolding schema_chain_def
  by (auto simp del: replicate.simps intro: create_table_inv create_index_inv)

lemma schema_tail_step: "\<forall>f\<in>set schema_tail. \<forall>t. write_step t (snd (f t))"
proof -
  have "write_step t (snd (ExecuteUnlocked Some t))" for t
    by (rule ExecuteUnlocked_step [OF surjective_pairing]) simp
  then show ?thesis
    unfolding schema_tail_def using AddColumnIfMissingUnlocked_step by auto
qed

lemma Initialize_inv:
  assumes "store_inv s"
  shows "store_inv (snd (Initialize s))"
proof (cases "s_db s")
  case None
  then have saved: "s_saved s = None" using assms by (auto simp: store_inv_def)
  obtain k s1 where n: "next_ok s = (k, s1)" by fastforce
  obtain k2 s2 where c: "exec_chain schema_chain (s1\<lparr>s_db := Some (s_file s1), s_saved := None\<rparr>) = (k2, s2)"
    by fastforce
  obtain k3 s3 where t: "exec_each schema_tail k2 s2 = (k3, s3)" by fastforce
  note f = next_ok_frame [OF n]
  have 1: "store_inv s1" using assms write_step_store_inv next_ok_step [OF n] by blast
  have "store_inv (s1\<lparr>s_db := Some (s_file s1), s_saved := None\<rparr>)"
    using 1 by (simp add: store_inv_def db_ok_def)
  then have "store_inv s2" using exec_chain_step [OF c schema_chain_inv] write_step_store_inv by blast
  then have 3: "store_inv s3" using exec_each_step [OF t schema_tail_step] write_step_store_inv by blast
  show ?thesis using None n c t 1 3 by (simp add: Initialize_def)
next
  case (Some d)
  with assms show ?thesis by (simp add: Initialize_def)
qed

lemma close_store_inv: "store_inv s \<Longrightarrow> store_inv (close_store s)"
  using durable_inv [of s]
  by (auto simp: close_store_def Let_def store_inv_def db_ok_def)

section \<open>Reachable states\<close>

text \<open>
  The steps of a store: its operations, transactions whose callback issues operations of the
  transaction object, the destructor, the death of the process, and the environment, which
  chooses the coming faults, the clock and the text of \<open>sqlite3_errmsg\<close>.
\<close>

inductive tx_step :: "json_lib \<Rightarrow> store \<Rightarrow> store \<Rightarrow> bool" for J where
  tx_summary: "tx_step J s (snd (tx_SaveSummary J a ss l t m c refs s))"
| tx_entity: "tx_step J s (snd (tx_SaveEntity J e s))"
| tx_relation: "tx_step J s (snd (tx_SaveRelation J r s))"
| tx_obsolete: "tx_step J s (snd (tx_MarkEntityObsolete i b s))"
| tx_cursor: "tx_step J s (snd (tx_SaveConsolidationCursor a ss c s))"

inductive store_step :: "json_lib \<Rightarrow> store \<Rightarrow> store \<Rightarrow> bool" for J where
  step_initialize: "store_step J s (snd (Initialize s))"
| step_event: "store_step J s (snd (SaveEvent J e s))"
| step_payload: "store_step J s (snd (SavePayload p s))"
| step_summary: "store_step J s (snd (SaveSummary J a ss l t m c refs s))"
| step_entity: "store_step J s (snd (SaveEntity J e s))"
| step_relation: "store_step J s (snd (SaveRelation J r s))"
| step_obsolete: "store_step J s (snd (MarkEntityObsolete i b s))"
| step_cursor: "store_step J s (snd (SaveConsolidationCursor a ss c s))"
| step_transaction: "(\<And>t. (tx_step J)\<^sup>*\<^sup>* t (snd (work t))) \<Longrightarrow> store_step J s (snd (RunInTransaction () work s))"
| step_read: "read_step s s' \<Longrightarrow> store_step J s s'"
| step_environment: "store_step J s (s\<lparr>s_faults := fs, s_now := n, s_errmsg := m\<rparr>)"
| step_close: "store_step J s (close_store s)"
| step_crash: "store_step J s (s\<lparr>s_file := durable s, s_db := None, s_saved := None\<rparr>)"

inductive reachable :: "json_lib \<Rightarrow> store \<Rightarrow> bool" for J where
  reach_new: "reachable J (new_store empty_database)"
| reach_step: "reachable J s \<Longrightarrow> store_step J s s' \<Longrightarrow> reachable J s'"

inductive_cases store_stepE: "store_step J s s'"

lemma tx_step_write: "tx_step J s s' \<Longrightarrow> write_step s s'"
  by (induction rule: tx_step.induct)
    (rule tx_summary.keeps tx_entity.keeps tx_relation.keeps tx_obsolete.keeps tx_cursor.keeps)+

lemma tx_steps_write: "(tx_step J)\<^sup>*\<^sup>* s s' \<Longrightarrow> write_step s s'"
  by (induction rule: rtranclp_induct) (auto intro: write_step_trans tx_step_write)

lemma tx_work_transactional: "(\<And>t. (tx_step J)\<^sup>*\<^sup>* t (snd (work t))) \<Longrightarrow> transaction_work work"
  by unfold_locales (rule tx_steps_write)

lemma store_step_inv: "store_step J s s' \<Longrightarrow> store_inv s \<Longrightarrow> store_inv s'"
proof (induction rule: store_step.induct)
  case (step_transaction work s)
  from step_transaction(1) have "transaction_work work" by (rule tx_work_transactional)
  then show ?case using step_transaction(2) by (rule transaction_work.transaction_inv)
next
  case (step_read s s')
  then show ?case using read_step_frame(5) by blast
next
  case (step_environment s fs n m)
  then show ?case by (simp add: store_inv_def db_ok_def)
next
  case (step_crash s)
  then show ?case using durable_inv [of s] by (simp add: store_inv_def db_ok_def)
qed (blast intro: Initialize_inv close_store_inv write_step_store_inv save_event.keeps save_payload.keeps
    save_summary.keeps save_entity.keeps save_relation.keeps mark_obsolete.keeps save_cursor.keeps)+

lemma reachable_store_inv: "reachable J s \<Longrightarrow> store_inv s"
proof (induction rule: reachable.induct)
  case reach_new
  then show ?case by (simp add: new_store_def store_inv_def db_ok_def db_inv_empty)
qed (rule store_step_inv)

end
