(* ===== verification/Event_Log.thy ===== *)
theory Event_Log
  imports Store_Laws
begin

text \<open>
  The contract of \<open>MemoryEventStore\<close> and of the consolidation cursor (\<open>src/storage/store.h\<close>) as the
  SQLite store implements it. The abstract view of the events table is a list of events whose
  store cursors increase; saving appends to it, the two loads read a filtered part of it. The
  locale \<open>cursor_log\<close> is what a consumer that works in batches relies on.
\<close>

section \<open>A log read from a cursor\<close>

locale cursor_log =
  fixes entries :: "'d \<Rightarrow> 'e list" and pos :: "'e \<Rightarrow> int" and after :: "int \<Rightarrow> 'd \<Rightarrow> 'e list"
    and good :: "'d \<Rightarrow> bool"
  assumes increasing: "good d \<Longrightarrow> sorted_wrt (\<lambda>x y. pos x < pos y) (entries d)"
    and after_entries: "good d \<Longrightarrow> after c d = filter (\<lambda>e. c < pos e) (entries d)"
begin

lemma after_increasing: "good d \<Longrightarrow> sorted_wrt (\<lambda>x y. pos x < pos y) (after c d)"
  by (simp add: after_entries increasing sorted_wrt_filter)

text \<open>
  Consuming a prefix of what is new and moving the cursor to its last entry leaves exactly the
  rest: nothing is skipped and nothing is delivered twice.
\<close>

lemma resume:
  assumes good: "good d" and split: "after c d = xs @ ys" and ne: "xs \<noteq> []"
  shows "after (pos (last xs)) d = ys"
proof -
  have srt: "sorted_wrt (\<lambda>x y. pos x < pos y) (xs @ ys)"
    using after_increasing [OF good] split by metis
  have mem: "last xs \<in> set xs" using ne by simp
  then have "last xs \<in> set (after c d)" using split by simp
  then have c: "c < pos (last xs)" using good by (simp add: after_entries)
  have xs: "\<not> pos (last xs) < pos x" if "x \<in> set xs" for x
  proof -
    have "sorted_wrt (\<lambda>x y. pos x < pos y) (butlast xs @ [last xs])"
      using srt ne by (simp add: sorted_wrt_append)
    moreover have "x \<in> set (butlast xs) \<or> x = last xs"
      using that ne by (metis append_butlast_last_id rotate1.simps(2) set_ConsD set_rotate1)
    ultimately show ?thesis by (auto simp: sorted_wrt_append)
  qed
  have ys: "pos (last xs) < pos y" if "y \<in> set ys" for y
    using srt mem that by (auto simp: sorted_wrt_append)
  have "after (pos (last xs)) d = filter (\<lambda>e. pos (last xs) < pos e) (after c d)"
    using good c by (auto simp: after_entries intro!: filter_cong)
  also have "\<dots> = ys"
    unfolding split using xs ys by (simp add: filter_empty_conv)
  finally show ?thesis .
qed

end

section \<open>The abstract event log\<close>

definition event_log :: "json_lib \<Rightarrow> database \<Rightarrow> MemoryEvent list" where
  "event_log J d = map (ReadEventRow J) (t_events d)"

text \<open>The event a later load returns for \<open>e\<close> saved under identifier \<open>n\<close>.\<close>

definition stored_event :: "MemoryEvent \<Rightarrow> int \<Rightarrow> MemoryEvent" where
  "stored_event e n =
     \<lparr>ev_type = ev_type e, ev_agentId = c_str (ev_agentId e), ev_sessionId = c_str (ev_sessionId e),
      ev_role = c_str (ev_role e), ev_content = c_str (ev_content e),
      ev_toolCallId = c_str (ev_toolCallId e), ev_toolName = c_str (ev_toolName e),
      ev_payloadRef = c_str (ev_payloadRef e), ev_storeCursor = to_string n,
      ev_metadata = jnorm (JsonObject (ev_metadata e)), ev_timestamp = []\<rparr>"

lemma valid_event_type_range: "valid_event_type t \<Longrightarrow> i32 (event_type_to_int t) = event_type_to_int t"
  by (rule i32_id) (cases t; simp add: int_limits)+

lemma ReadEventRow_stored:
  assumes J: "json_text_ok J" and t: "valid_event_type (ev_type e)"
    and m: "jdump J (JsonObject (ev_metadata e)) = Inr mj"
  shows "ReadEventRow J ((event_to_row e mj)\<lparr>evr_id := n, evr_created_at := now\<rparr>) = stored_event e n"
proof -
  have "ParseJsonColumn J (c_str mj) = jnorm (JsonObject (ev_metadata e))"
    using json_text_okD [OF J m]
    by (simp add: ParseJsonColumn_def ParseJsonSafely_def c_str_nul_free JsonObject_id)
  then show ?thesis
    using t by (simp add: ReadEventRow_def event_to_row_def stored_event_def valid_event_type_range)
qed

lemma SaveEvent_cases:
  assumes "SaveEvent J e s = (r, s')"
  obtains (saved) d mj now where "r = Ret MemorySuccess" "s_db s = Some d"
      "jdump J (JsonObject (ev_metadata e)) = Inr mj" "seq_events d < LLONG_MAX"
      "insert_event now (event_to_row e mj) d \<noteq> None"
      "s_db s' = insert_event now (event_to_row e mj) d"
  | (failed) f where "r = Ret (failure_with () f)" "HasError f" "s_db s' = s_db s"
  | (thrown) w where "r = Throw w" "jdump J (JsonObject (ev_metadata e)) = Inl w" "s_db s' = s_db s"
proof (cases "s_db s")
  case None
  then show ?thesis
    using assms failed [of store_unavailable] by (simp add: SaveEvent_def guarded_def store_unavailable_def)
next
  case (Some d)
  obtain k s1 where n: "next_ok s = (k, s1)" by fastforce
  have db1: "s_db s1 = s_db s" using next_ok_frame [OF n] by simp
  show ?thesis
  proof (cases k)
    case False
    with assms n Some have "r = Ret (SqliteFailure s1 ''SaveEvent'')" "s' = s1"
      by (auto simp: SaveEvent_def guarded_def SaveEventUnlocked_def)
    with db1 show ?thesis
      by (intro failed [of "sqlite_error s1 ''SaveEvent''"]) (simp_all add: SqliteFailure_def sqlite_error_def)
  next
    case True
    show ?thesis
    proof (cases "jdump J (JsonObject (ev_metadata e))")
      case (Inl w)
      with assms n Some True have "r = Throw w" "s' = s1"
        by (simp_all add: SaveEvent_def guarded_def SaveEventUnlocked_def)
      with Inl db1 show ?thesis by (intro thrown) simp_all
    next
      case (Inr mj)
      let ?f = "insert_event (s_now s1) (event_to_row e mj)"
      obtain k2 s2 where q: "sql_step ?f s1 = (k2, s2)" by fastforce
      have res: "r = Ret (if k2 then MemorySuccess else SqliteFailure s2 ''SaveEvent'')" "s' = s2"
        using assms n Some True Inr q by (simp_all add: SaveEvent_def guarded_def SaveEventUnlocked_def)
      show ?thesis
      proof (cases k2)
        case True
        with sql_step_db [OF q] obtain d1 d2 where
          d: "s_db s1 = Some d1" "?f d1 = Some d2" "s_db s2 = Some d2" by auto
        then have "d1 = d" using db1 Some by simp
        with d res True Inr Some show ?thesis
          by (intro saved [of d mj "s_now s1"]) (auto simp: insert_event_def split: if_splits)
      next
        case False
        with sql_step_db [OF q] res db1 show ?thesis
          by (intro failed [of "sqlite_error s2 ''SaveEvent''"]) (simp_all add: SqliteFailure_def sqlite_error_def)
      qed
    qed
  qed
qed

lemma event_log_insert:
  assumes J: "json_text_ok J" and t: "valid_event_type (ev_type e)"
    and m: "jdump J (JsonObject (ev_metadata e)) = Inr mj"
    and i: "insert_event now (event_to_row e mj) d = Some d'"
  shows "event_log J d' = event_log J d @ [stored_event e (seq_events d + 1)]"
  using i by (auto simp: insert_event_def event_log_def ReadEventRow_stored [OF J t m] split: if_splits)

section \<open>Loading\<close>

lemma CursorToInt_to_string: "LLONG_MIN \<le> n \<Longrightarrow> n \<le> LLONG_MAX \<Longrightarrow> CursorToInt (to_string n) = n"
  by (simp add: CursorToInt_def stoll_def parse_prefix_to_string)

lemma CursorToInt_Nil [simp]: "CursorToInt [] = 0"
  by (simp add: CursorToInt_def)

definition event_pos :: "MemoryEvent \<Rightarrow> int" where
  "event_pos e = CursorToInt (ev_storeCursor e)"

lemma event_pos_row:
  assumes "db_inv d" "r \<in> set (t_events d)"
  shows "event_pos (ReadEventRow J r) = evr_id r"
proof -
  have "0 < evr_id r" "evr_id r \<le> LLONG_MAX"
    using assms by (auto simp: db_inv_def events_ok_def ids_ok_def)
  then show ?thesis by (simp add: event_pos_def ReadEventRow_def CursorToInt_to_string int_limits)
qed

lemma ReadEventRow_scope [simp]:
  "ev_agentId (ReadEventRow J r) = evr_agent r" "ev_sessionId (ReadEventRow J r) = evr_session r"
  by (simp_all add: ReadEventRow_def)

lemma event_log_increasing:
  assumes "db_inv d"
  shows "sorted_wrt (\<lambda>x y. event_pos x < event_pos y) (event_log J d)"
proof -
  have "sorted_wrt (\<lambda>x y. evr_id x < evr_id y) (t_events d)"
    using assms by (simp add: db_inv_def events_ok_def ids_ok_def)
  then have "sorted_wrt (\<lambda>x y. event_pos (ReadEventRow J x) < event_pos (ReadEventRow J y)) (t_events d)"
    by (rule sorted_wrt_mono_rel [rotated]) (simp add: event_pos_row [OF assms])
  then show ?thesis by (simp add: event_log_def sorted_wrt_map)
qed

text \<open>Which events a consumer of an agent (and a session, or all but the excluded ones) sees.\<close>

definition event_wanted :: "string \<Rightarrow> string \<Rightarrow> string list \<Rightarrow> MemoryEvent \<Rightarrow> bool" where
  "event_wanted agentId sessionId excluded e =
     (ev_agentId e = c_str agentId \<and>
      (if sessionId \<noteq> [] then ev_sessionId e = c_str sessionId
       else ev_sessionId e \<notin> set (map c_str excluded)))"

lemma sort_key_increasing: "sorted_wrt (\<lambda>x y. f x < (f y :: 'k::linorder)) xs \<Longrightarrow> sort_key f xs = xs"
  by (rule sort_key_id_if_sorted) (auto simp: sorted_map intro: sorted_wrt_mono_rel [rotated] less_imp_le)

lemma select_events_after_log:
  assumes "db_inv d"
  shows "map (ReadEventRow J) (select_events_after c a ss ex d) =
         filter (\<lambda>e. c < event_pos e) (filter (event_wanted a ss ex) (event_log J d))"
proof -
  let ?P = "\<lambda>r. c < evr_id r \<and> evr_agent r = c_str a \<and>
      (if ss \<noteq> [] then evr_session r = c_str ss else evr_session r \<notin> set (map c_str ex))"
  have srt: "sorted_wrt (\<lambda>x y. evr_id x < evr_id y) (filter ?P (t_events d))"
    using assms by (simp add: db_inv_def events_ok_def ids_ok_def sorted_wrt_filter)
  have "map (ReadEventRow J) (select_events_after c a ss ex d) = map (ReadEventRow J) (filter ?P (t_events d))"
    unfolding select_events_after_def by (simp only: sort_key_increasing [OF srt])
  also have "\<dots> = map (ReadEventRow J)
      (filter (\<lambda>r. c < event_pos (ReadEventRow J r) \<and> event_wanted a ss ex (ReadEventRow J r)) (t_events d))"
    by (rule arg_cong [where f = "map (ReadEventRow J)"], rule filter_cong [OF refl])
      (simp add: event_pos_row [OF assms] event_wanted_def)
  also have "\<dots> = filter (\<lambda>e. c < event_pos e) (filter (event_wanted a ss ex) (event_log J d))"
    by (simp add: event_log_def filter_map comp_def conj_commute)
  finally show ?thesis .
qed

interpretation event_log: cursor_log
  "\<lambda>d. filter (event_wanted a ss ex) (event_log J d)" event_pos
  "\<lambda>c d. map (ReadEventRow J) (select_events_after c a ss ex d)" db_inv for J a ss ex
  by unfold_locales (simp_all add: event_log_increasing sorted_wrt_filter select_events_after_log)

lemma LoadEventsAfterCursor_success:
  assumes "LoadEventsAfterCursor J a ss c ex s = (r, s')" "succeeded r"
  shows "\<exists>d. s_db s = Some d \<and> payload_of r = map (ReadEventRow J) (select_events_after (CursorToInt c) a ss ex d)"
  using run_query_read(2) [OF assms(1) [unfolded LoadEventsAfterCursor_def] assms(2)] by auto

definition event_in_scope :: "string \<Rightarrow> string \<Rightarrow> MemoryEvent \<Rightarrow> bool" where
  "event_in_scope agentId sessionId e = in_scope agentId sessionId (ev_agentId e) (ev_sessionId e)"

lemma recent_events_log:
  assumes "db_inv d"
  shows "rev (map (ReadEventRow J) (take n (order_desc evr_id
           (filter (\<lambda>r. in_scope a ss (evr_agent r) (evr_session r)) (t_events d))))) =
         last_n n (filter (event_in_scope a ss) (event_log J d))"
proof -
  let ?rows = "filter (\<lambda>r. in_scope a ss (evr_agent r) (evr_session r)) (t_events d)"
  have "sorted_wrt (\<lambda>x y. evr_id x < evr_id y) ?rows"
    using assms by (simp add: db_inv_def events_ok_def ids_ok_def sorted_wrt_filter)
  then have "order_desc evr_id ?rows = rev ?rows" by (rule order_desc_increasing)
  moreover have "map (ReadEventRow J) ?rows = filter (event_in_scope a ss) (event_log J d)"
    by (simp add: event_log_def filter_map comp_def event_in_scope_def)
  ultimately show ?thesis by (metis last_n_def rev_map take_map)
qed

lemma LoadRecentEvents_success:
  assumes "LoadRecentEvents J a ss n s = (r, s')" "succeeded r" "store_inv s"
  shows "\<exists>d. s_db s = Some d \<and>
    payload_of r = last_n (effective_limit 20 n) (filter (event_in_scope a ss) (event_log J d))"
proof -
  let ?q = "\<lambda>d. take (effective_limit 20 n) (order_desc evr_id
       (filter (\<lambda>r. in_scope a ss (evr_agent r) (evr_session r)) (t_events d)))"
  obtain r0 s0 where q: "run_query ''LoadRecentEvents'' ?q (map (ReadEventRow J)) [] s = (r0, s0)" by fastforce
  with assms(1,2) have r: "succeeded r0" "r = success_with (rev (payload_of r0))"
    by (auto simp: LoadRecentEvents_def split: if_splits)
  from run_query_read(2) [OF q r(1)] obtain d where
    d: "s_db s = Some d" "r0 = success_with (map (ReadEventRow J) (?q d))" by auto
  with assms(3) have "db_inv d" by (simp add: store_inv_def db_ok_def)
  with d r show ?thesis by (simp add: recent_events_log)
qed

end
