(* ===== verification/Store_Properties.thy ===== *)
theory Store_Properties
  imports Event_Log
begin

text \<open>
  The properties of the SQLite store: what every reachable state satisfies, what a transaction
  guarantees and what an exception in its callback leaves behind, and what each operation means
  in terms of the abstract event log, the cursors and the active entities.
\<close>

section \<open>Helper lemmas\<close>

lemma reachable_db_inv: "reachable J s \<Longrightarrow> s_db s = Some d \<Longrightarrow> db_inv d"
  using reachable_store_inv by (auto simp: store_inv_def db_ok_def)

lemma begin_refused_in_transaction:
  assumes "s_saved s \<noteq> None" "s_db s \<noteq> None"
  shows "\<exists>s1. RunInTransaction aux work s = (Ret (SqliteFailure s1 ''RunInTransaction::begin'', aux), s1)"
proof -
  obtain k s1 where b: "exec_begin s = (k, s1)" by fastforce
  then have "\<not> k" using assms(1) by (auto elim: exec_begin_cases)
  with b assms(2) show ?thesis by (auto simp: RunInTransaction_def)
qed

lemma close_store_file: "s_db s \<noteq> None \<Longrightarrow> s_file (close_store s) = durable s"
  by (auto simp: close_store_def Let_def)

text \<open>An open, empty store, and a library that knows the texts of the empty object and array.\<close>

definition open_store :: store where
  "open_store = (new_store empty_database)\<lparr>s_db := Some empty_database\<rparr>"

definition small_lib :: json_lib where
  "small_lib = table_lib [(JObj [], ''{}''), (JArr [], ''[]'')]"

lemma small_lib_ok: "json_text_ok small_lib"
  unfolding small_lib_def by (rule table_lib_ok) (simp_all add: nul_free_def)

lemma open_store_inv: "store_inv open_store"
  by (simp add: open_store_def new_store_def store_inv_def db_ok_def db_inv_empty)

definition hello :: MemoryEvent where
  "hello = \<lparr>ev_type = MESSAGE_APPENDED, ev_agentId = ''a'', ev_sessionId = ''s'', ev_role = ''user'',
     ev_content = ''hi'', ev_toolCallId = [], ev_toolName = [], ev_payloadRef = [], ev_storeCursor = [],
     ev_metadata = JObj [], ev_timestamp = []\<rparr>"

definition hello_store :: store where
  "hello_store = snd (SaveEvent small_lib hello open_store)"

lemma hello_store_eq: "fst (SaveEvent small_lib hello open_store) = Ret MemorySuccess"
  by code_simp

lemma hello_store_inv: "store_inv hello_store"
  unfolding hello_store_def using save_event.keeps open_store_inv by (rule write_step_store_inv)

lemma reachable_open: "reachable J (snd (Initialize (new_store empty_database)))"
  by (rule reach_step [OF reach_new step_initialize])

section \<open>Every reachable state\<close>





text \<open>
  In every reachable state at most one entity per agent, type and name is active (entities
  whose identifier, agent, type and name are not empty), and at most one relation per agent,
  source, type and target.
\<close>

theorem one_active_per_key:
  assumes "reachable J s" "s_db s = Some d"
  shows "(\<forall>x\<in>set (t_entities d). \<forall>y\<in>set (t_entities d).
            enr_active x \<and> enr_active y \<and> keyed x \<and> keyed y \<and> entity_key x = entity_key y \<longrightarrow> x = y) \<and>
         (\<forall>x\<in>set (t_relations d). \<forall>y\<in>set (t_relations d).
            rlr_active x \<and> rlr_active y \<and> relation_key x = relation_key y \<longrightarrow> x = y)"
proof -
  note inv = reachable_db_inv [OF assms]
  have ents: "one_active_entity (t_entities d)" "inj_on enr_id (set (t_entities d))"
    using inv by (simp_all add: db_inv_def entities_ok_def distinct_map)
  have "sorted_wrt (\<lambda>x y. rlr_id x < rlr_id y) (t_relations d)"
    using inv by (simp add: db_inv_def relations_ok_def ids_ok_def)
  then have "inj_on rlr_id (set (t_relations d))" using sorted_wrt_less_inj by blast
  moreover have "one_active_relation (t_relations d)"
    using inv by (simp add: db_inv_def relations_ok_def)
  ultimately have rels: "one_active_relation (t_relations d)" "inj_on rlr_id (set (t_relations d))" by blast+
  show ?thesis
    using ents rels unfolding one_active_entity_def one_active_relation_def inj_on_def by blast
qed

theorem one_active_per_key_witness:
  "\<exists>d. s_db (snd (Initialize (new_store empty_database))) = Some d \<and>
     (\<forall>x\<in>set (t_relations d). \<forall>y\<in>set (t_relations d).
        rlr_active x \<and> rlr_active y \<and> relation_key x = relation_key y \<longrightarrow> x = y)"
proof -
  have "s_db (snd (Initialize (new_store empty_database))) \<noteq> None" by code_simp
  then obtain d where "s_db (snd (Initialize (new_store empty_database))) = Some d" by blast
  with one_active_per_key [OF reachable_open [of small_lib] this] show ?thesis by blast
qed

section \<open>Transactions\<close>


definition cursor_work :: "store \<Rightarrow> (MemoryOperationResult \<times> unit) outcome \<times> store" where
  "cursor_work s =
     (case tx_SaveConsolidationCursor ''a'' ''s'' ''7'' s of
        (Ret r, s') \<Rightarrow> (Ret (r, ()), s') | (Throw w, s') \<Rightarrow> (Throw w, s'))"

lemma cursor_work_tx: "(tx_step J)\<^sup>*\<^sup>* t (snd (cursor_work t))"
proof -
  have "snd (cursor_work t) = snd (tx_SaveConsolidationCursor ''a'' ''s'' ''7'' t)"
    by (simp add: cursor_work_def split: prod.splits outcome.splits)
  then show ?thesis using tx_cursor by (metis r_into_rtranclp)
qed


text \<open>
  C39: An exception of the callback (a string that is not UTF-8 reaching \<open>json::dump\<close>) leaves the
  transaction open: from then on every transaction fails at \<open>BEGIN\<close>, and an event that
  \<open>SaveEvent\<close> reports as saved is not in the file after the store is closed.
\<close>

theorem RunInTransaction_exception_leaks:
  assumes work: "\<And>t. (tx_step J)\<^sup>*\<^sup>* t (snd (work t))"
    and run: "RunInTransaction aux0 work s = (Throw w, s1)"
  shows "(\<forall>aux1 work1. \<exists>s2. RunInTransaction aux1 work1 s1 =
            (Ret (SqliteFailure s2 ''RunInTransaction::begin'', aux1), s2)) \<and>
         (\<forall>e. s_file (close_store (snd (SaveEvent J e s1))) = durable s)"
proof -
  have leak: "s_saved s1 = s_db s" "s_db s \<noteq> None" "durable s1 = durable s"
    using transaction_work.exception_leaves_open [OF tx_work_transactional [OF work] run] by blast+
  have db: "s_db s1 \<noteq> None"
    using run
  proof (cases rule: RunInTransaction_cases)
    case (thrown s0 w')
    have "write_step s0 (snd (work s0))" using work tx_steps_write by blast
    moreover have "s_db s0 = s_db s" using thrown(2) by (auto elim: exec_begin_cases)
    ultimately show ?thesis using thrown by (auto simp: write_step_def frame_def)
  qed simp_all
  have "s_file (close_store (snd (SaveEvent J e s1))) = durable s" for e
    using save_event.keeps_db [of J e s1] save_event.keeps_durable_in_transaction [of s1 J e] db leak
    by (simp add: close_store_file)
  with begin_refused_in_transaction [of s1] db leak show ?thesis by auto
qed

definition throwing_work :: "store \<Rightarrow> (MemoryOperationResult \<times> unit) outcome \<times> store" where
  "throwing_work s =
     (case tx_SaveSummary small_lib ''a'' ''s'' ''session'' ''t'' ''m'' (1 / 2) [''x''] s of
        (Ret r, s') \<Rightarrow> (Ret (r, ()), s') | (Throw w, s') \<Rightarrow> (Throw w, s'))"

lemma throwing_work_tx: "(tx_step small_lib)\<^sup>*\<^sup>* t (snd (throwing_work t))"
proof -
  have "snd (throwing_work t) = snd (tx_SaveSummary small_lib ''a'' ''s'' ''session'' ''t'' ''m'' (1 / 2) [''x''] t)"
    by (simp add: throwing_work_def split: prod.splits outcome.splits)
  then show ?thesis using tx_summary by (metis r_into_rtranclp)
qed

theorem RunInTransaction_exception_leaks_witness:
  "\<exists>s1 w. RunInTransaction () throwing_work open_store = (Throw w, s1) \<and>
     fst (SaveEvent small_lib hello s1) = Ret MemorySuccess \<and>
     s_file (close_store (snd (SaveEvent small_lib hello s1))) = empty_database"
proof -
  let ?s1 = "open_store\<lparr>s_saved := Some empty_database\<rparr>"
  have run: "RunInTransaction () throwing_work open_store = (Throw ''type_error.316'', ?s1)"
    by code_simp
  have ok: "fst (SaveEvent small_lib hello ?s1) = Ret MemorySuccess" by code_simp
  have "durable open_store = empty_database" by (simp add: durable_def open_store_def new_store_def)
  with RunInTransaction_exception_leaks [OF throwing_work_tx run] run ok show ?thesis by auto
qed

section \<open>The event log\<close>

text \<open>
  \<open>SaveEvent\<close> refines appending to the abstract log: when it reports success the log has gained
  exactly the event (cut at a NUL byte, numbers of the metadata normalised, the next identifier as
  its store cursor) at its end; when it fails or throws, the tables are unchanged and a failure
  carries an error code.
\<close>

theorem SaveEvent_appends:
  assumes "json_text_ok J" "valid_event_type (ev_type e)" "s_db s = Some d" "SaveEvent J e s = (res, s')"
  shows "(case res of
            Ret r \<Rightarrow>
              (if succeeded r
               then \<exists>d'. s_db s' = Some d' \<and> event_log J d' = event_log J d @ [stored_event e (seq_events d + 1)]
               else s_db s' = s_db s \<and> HasError (error_of r))
          | Throw w \<Rightarrow> s_db s' = s_db s)"
  using assms(4)
proof (cases rule: SaveEvent_cases)
  case (saved d0 mj now)
  with assms(3) obtain d' where "insert_event now (event_to_row e mj) d = Some d'" "d0 = d" by auto
  with saved event_log_insert [OF assms(1,2) saved(3)] show ?thesis by auto
qed simp_all

theorem SaveEvent_appends_witness:
  "\<exists>d'. s_db hello_store = Some d' \<and> event_log small_lib d' = [stored_event hello 1]"
proof -
  have "event_log small_lib empty_database = []" "seq_events empty_database = 0"
    by (simp_all add: event_log_def empty_database_def)
  moreover have "SaveEvent small_lib hello open_store = (Ret MemorySuccess, hello_store)"
    by (rule prod_eqI) (simp_all add: hello_store_eq hello_store_def)
  moreover have "s_db open_store = Some empty_database" by (simp add: open_store_def)
  moreover have "valid_event_type (ev_type hello)" by (simp add: hello_def)
  ultimately show ?thesis using SaveEvent_appends [OF small_lib_ok, of hello open_store] by fastforce
qed

text \<open>
  \<open>LoadEventsAfterCursor\<close>, when it succeeds, returns exactly the events of the log that belong
  to the agent, to the session (or to no excluded session) and have a store cursor greater than the
  given one, in the order they were saved.
\<close>

theorem LoadEventsAfterCursor_exact:
  assumes "store_inv s" "LoadEventsAfterCursor J a ss c ex s = (r, s')" "succeeded r"
  shows "\<exists>d. s_db s = Some d \<and>
    payload_of r = filter (\<lambda>e. CursorToInt c < event_pos e \<and> event_wanted a ss ex e) (event_log J d)"
proof -
  obtain d where d: "s_db s = Some d"
      "payload_of r = map (ReadEventRow J) (select_events_after (CursorToInt c) a ss ex d)"
    using LoadEventsAfterCursor_success [OF assms(2,3)] by blast
  then have "db_inv d" using assms(1) by (simp add: store_inv_def db_ok_def)
  with d show ?thesis by (simp add: select_events_after_log conj_commute)
qed

lemma hello_load:
  "LoadEventsAfterCursor small_lib ''a'' [] [] [] hello_store =
   (success_with [stored_event hello 1], hello_store)"
  by code_simp

theorem LoadEventsAfterCursor_exact_witness:
  "\<exists>d. s_db hello_store = Some d \<and>
     [stored_event hello 1] = filter (\<lambda>e. 0 < event_pos e \<and> event_wanted ''a'' [] [] e) (event_log small_lib d)"
  using LoadEventsAfterCursor_exact [OF hello_store_inv hello_load] by simp

text \<open>
  A consumer that processes a non-empty prefix of the events it loaded and continues from the
  store cursor of the last one is given exactly the remaining events: none is skipped, none is
  delivered twice.
\<close>

theorem LoadEventsAfterCursor_resumes:
  assumes inv: "store_inv s" and load: "LoadEventsAfterCursor J a ss c ex s = (r, s')" "succeeded r"
    and split: "payload_of r = xs @ ys" "xs \<noteq> []"
    and again: "s_db t = s_db s"
      "LoadEventsAfterCursor J a ss (ev_storeCursor (last xs)) ex t = (r2, t')" "succeeded r2"
  shows "payload_of r2 = ys"
proof -
  obtain d where d: "s_db s = Some d"
      "payload_of r = map (ReadEventRow J) (select_events_after (CursorToInt c) a ss ex d)"
    using LoadEventsAfterCursor_success [OF load] by blast
  then have good: "db_inv d" using inv by (simp add: store_inv_def db_ok_def)
  have "payload_of r2 = map (ReadEventRow J)
      (select_events_after (CursorToInt (ev_storeCursor (last xs))) a ss ex d)"
    using LoadEventsAfterCursor_success [OF again(2,3)] again(1) d(1) by auto
  with event_log.resume [OF good] d(2) split show ?thesis by (simp add: event_pos_def)
qed

theorem LoadEventsAfterCursor_resumes_witness:
  "\<exists>t'. LoadEventsAfterCursor small_lib ''a'' [] ''1'' [] hello_store = (success_with [], t')"
proof -
  have again: "LoadEventsAfterCursor small_lib ''a'' [] (ev_storeCursor (last [stored_event hello 1])) [] hello_store =
      (success_with [], hello_store)" by code_simp
  have "payload_of (success_with ([] :: MemoryEvent list)) = []"
    by (rule LoadEventsAfterCursor_resumes [OF hello_store_inv hello_load _ _ _ refl again]) simp_all
  moreover have "ev_storeCursor (last [stored_event hello 1]) = ''1''" by code_simp
  ultimately show ?thesis using again by metis
qed

text \<open>
  \<open>LoadRecentEvents\<close> returns the last \<open>limit\<close> events (20 when the limit is not positive) of the
  agent and, when one is named, of the session, oldest first.
\<close>

theorem LoadRecentEvents_exact:
  assumes "store_inv s" "LoadRecentEvents J a ss n s = (r, s')" "succeeded r"
  shows "\<exists>d. s_db s = Some d \<and>
    payload_of r = last_n (nat (if n > 0 then n else 20)) (filter (event_in_scope a ss) (event_log J d))"
  using LoadRecentEvents_success [OF assms(2,3,1)] by (simp add: effective_limit_def)

theorem LoadRecentEvents_exact_witness:
  "\<exists>d. s_db hello_store = Some d \<and>
     [stored_event hello 1] = last_n 20 (filter (event_in_scope ''a'' ''s'') (event_log small_lib d))"
proof -
  have "LoadRecentEvents small_lib ''a'' ''s'' 0 hello_store = (success_with [stored_event hello 1], hello_store)"
    by code_simp
  from LoadRecentEvents_exact [OF hello_store_inv this] show ?thesis by simp
qed

section \<open>Cursors, entities and the schema\<close>

lemma tx_result_cases:
  assumes "guarded (\<lambda>s. op_result ctx (f s)) s = (Ret r, s')" "succeeded r"
  shows "f s = (Ret True, s')"
proof (cases "s_db s")
  case None
  with assms show ?thesis by (auto simp: guarded_def)
next
  case (Some d)
  obtain o1 s1 where f: "f s = (o1, s1)" by fastforce
  with assms Some show ?thesis
    by (cases o1) (auto simp: guarded_def SqliteFailure_def split: if_splits)
qed

lemma LoadConsolidationCursor_success:
  assumes "LoadConsolidationCursor a ss s = (r, s')" "succeeded r"
  shows "\<exists>d. s_db s = Some d \<and>
    payload_of r = (case select_cursor (c_str a) (c_str ss) d of Some c \<Rightarrow> to_string c | None \<Rightarrow> [])"
  using assms
  by (cases "s_db s"; cases "next_ok s"; cases "next_ok (snd (next_ok s))")
    (auto simp: LoadConsolidationCursor_def split: if_splits)

text \<open>
  A consolidation cursor that was saved is the one loaded for the same agent and session, and
  the cursor of any other pair is what it was (names are compared up to their first NUL byte).
\<close>

theorem consolidation_cursor_roundtrip:
  assumes save: "SaveConsolidationCursor a ss c s = (Ret r, s1)" "succeeded r"
    and before: "LoadConsolidationCursor a' ss' s = (r0, t0)" "succeeded r0"
    and after: "s_db s2 = s_db s1" "LoadConsolidationCursor a' ss' s2 = (r2, t2)" "succeeded r2"
  shows "payload_of r2 =
    (if c_str a' = c_str a \<and> c_str ss' = c_str ss then to_string (CursorToInt c) else payload_of r0)"
proof -
  have "lift_ok (SaveConsolidationCursorUnlocked a ss c s) = (Ret True, s1)"
    using tx_result_cases [OF save(1) [unfolded SaveConsolidationCursor_def] save(2)] .
  then have "SaveConsolidationCursorUnlocked a ss c s = (True, s1)"
    by (cases "SaveConsolidationCursorUnlocked a ss c s") (simp add: lift_ok_def)
  then obtain d d' where d: "s_db s = Some d" "s_db s1 = Some d'"
      "upsert_cursor (s_now s) (c_str a) (c_str ss) (CursorToInt c) d = Some d'"
    using run_stmt_db by (fastforce simp: SaveConsolidationCursorUnlocked_def)
  from LoadConsolidationCursor_success [OF before] d have
    0: "payload_of r0 = (case select_cursor (c_str a') (c_str ss') d of Some c \<Rightarrow> to_string c | None \<Rightarrow> [])" by auto
  from LoadConsolidationCursor_success [OF after(2,3)] after(1) d have
    2: "payload_of r2 = (case select_cursor (c_str a') (c_str ss') d' of Some c \<Rightarrow> to_string c | None \<Rightarrow> [])" by auto
  show ?thesis unfolding 0 2 select_upsert_cursor [OF d(3)] by simp
qed

theorem consolidation_cursor_roundtrip_witness:
  "\<exists>s1 t2. SaveConsolidationCursor ''a'' ''s'' ''7'' open_store = (Ret MemorySuccess, s1) \<and>
     LoadConsolidationCursor ''a'' ''s'' s1 = (success_with ''7'', t2)"
proof -
  let ?s1 = "snd (SaveConsolidationCursor ''a'' ''s'' ''7'' open_store)"
  have save: "SaveConsolidationCursor ''a'' ''s'' ''7'' open_store = (Ret MemorySuccess, ?s1)" by code_simp
  have before: "LoadConsolidationCursor ''a'' ''s'' open_store = (success_with [], open_store)" by code_simp
  have after: "LoadConsolidationCursor ''a'' ''s'' ?s1 =
      (success_with (payload_of (fst (LoadConsolidationCursor ''a'' ''s'' ?s1))), ?s1)" by code_simp
  have seven: "to_string (CursorToInt ''7'') = ''7''" by code_simp
  from consolidation_cursor_roundtrip [OF save _ before _ refl after]
  have "payload_of (fst (LoadConsolidationCursor ''a'' ''s'' ?s1)) = ''7''" by (simp add: seven)
  with save after show ?thesis by metis
qed

lemma upsert_entity_by_id:
  assumes "distinct (map enr_id (t_entities d))" "upsert_entity now r d = Some d'"
  shows "\<exists>n. {x \<in> set (t_entities d'). enr_id x = enr_id r} = {r\<lparr>enr_rowid := n, enr_updated_at := now\<rparr>}"
proof (cases "\<exists>x\<in>set (t_entities d). enr_id x = enr_id r")
  case True
  then obtain x where x: "x \<in> set (t_entities d)" "enr_id x = enr_id r" by blast
  have "inj_on enr_id (set (t_entities d))" using assms(1) by (simp add: distinct_map)
  then have uniq: "y = x" if "y \<in> set (t_entities d)" "enr_id y = enr_id r" for y
    using x that by (metis inj_onD)
  let ?rows = "update_rows (\<lambda>y. enr_id y = enr_id r) (entity_conflict_update now r) (t_entities d)"
  have rows: "t_entities d' = ?rows"
    using assms(2) True by (auto simp: upsert_entity_def update_entities_def)
  have "entity_conflict_update now r x \<in> set ?rows"
    unfolding update_rows_def set_map using x by (intro image_eqI [of _ _ x]) simp_all
  moreover have "y = entity_conflict_update now r x" if "y \<in> set ?rows" "enr_id y = enr_id r" for y
    using that(1) by (rule update_rowsE) (use that(2) uniq in blast)+
  ultimately have "{y \<in> set (t_entities d'). enr_id y = enr_id r} = {entity_conflict_update now r x}"
    unfolding rows using entity_conflict_update_simps(1) by blast
  then show ?thesis unfolding entity_conflict_update_def by (rule exI)
next
  case False
  then have "t_entities d' =
      t_entities d @ [r\<lparr>enr_rowid := next_entity_rowid (t_entities d), enr_updated_at := now\<rparr>]"
    using assms(2) by (auto simp: upsert_entity_new)
  with False show ?thesis by auto
qed

lemma SaveEntityUnlocked_True:
  assumes "SaveEntityUnlocked J e s = (Ret True, s')"
  obtains refs meta d1 d2 d3 s1 now now2 where "MarkDuplicateEntitiesObsoleteUnlocked e s = (True, s1)"
    "s_db s1 = Some d1" "upsert_entity now (entity_to_row e refs meta) d1 = Some d2" "s_db s' = Some d3"
    "d3 = (if en_supersededEntityId e = [] then d2
           else update_entities (\<lambda>r. enr_id r = c_str (en_supersededEntityId e)) (obsolete_entity now2 (c_str (en_id e))) d2)"
proof -
  obtain refs meta where t: "SerializeSourceRefs J (en_sourceRefs e) = Inr refs"
      "jdump J (JsonObject (en_metadata e)) = Inr meta"
    using assms by (auto simp: SaveEntityUnlocked_def split: sum.splits)
  obtain ok1 s1 where m: "MarkDuplicateEntitiesObsoleteUnlocked e s = (ok1, s1)" by fastforce
  obtain ok2 s2 where u: "run_stmt (upsert_entity (s_now s1) (entity_to_row e refs meta)) s1 = (ok2, s2)" by fastforce
  obtain ok3 s3 where o: "MarkEntityObsoleteUnlocked (en_supersededEntityId e) (en_id e) s2 = (ok3, s3)" by fastforce
  note un = assms [unfolded SaveEntityUnlocked_def t m u o sum.case Let_def prod.case]
  then have ok: "ok1" "ok2" by (cases ok1; cases ok2; simp)+
  from run_stmt_db [OF u] ok obtain d1 d2 where
    d: "s_db s1 = Some d1" "upsert_entity (s_now s1) (entity_to_row e refs meta) d1 = Some d2" "s_db s2 = Some d2"
    by auto
  show ?thesis
  proof (cases "en_supersededEntityId e = []")
    case True
    with un ok have "s' = s2" by simp
    with that [OF _ d(1,2)] True d m ok show ?thesis by auto
  next
    case False
    with un ok have o': "ok3" "s' = s3" by simp_all
    with o run_stmt_db [of _ s2 True s3] obtain d3 where
      "mark_entity_obsolete (s_now s2) (c_str (en_supersededEntityId e)) (c_str (en_id e)) d2 = Some d3" "s_db s3 = Some d3"
      using d(3) by (auto simp: MarkEntityObsoleteUnlocked_def)
    with that [OF _ d(1,2), of d3 "s_now s2"] False o' m ok show ?thesis by (auto simp: mark_entity_obsolete_def)
  qed
qed

lemma upsert_entity_other:
  assumes "upsert_entity now r d = Some d'" "y \<in> set (t_entities d')" "enr_id y \<noteq> enr_id r"
  shows "y \<in> set (t_entities d)"
proof (cases "\<exists>x\<in>set (t_entities d). enr_id x = enr_id r")
  case True
  then have rows: "t_entities d' = update_rows (\<lambda>y. enr_id y = enr_id r) (entity_conflict_update now r) (t_entities d)"
    using assms(1) by (auto simp: upsert_entity_def update_entities_def)
  from assms(2) show ?thesis unfolding rows by (rule update_rowsE) (use assms(3) in auto)
next
  case False
  then show ?thesis using assms by (auto simp: upsert_entity_new)
qed

definition superseded_rows :: "string \<Rightarrow> string \<Rightarrow> string \<Rightarrow> entity_row list \<Rightarrow> entity_row list" where
  "superseded_rows old now by rows =
     (if old = [] then rows else update_rows (\<lambda>r. enr_id r = c_str old) (obsolete_entity now by) rows)"

lemma superseded_rows_active: "y \<in> set (superseded_rows old now by rows) \<Longrightarrow> enr_active y \<Longrightarrow> y \<in> set rows"
  unfolding superseded_rows_def
  by (auto split: if_splits elim!: update_rowsE simp: obsolete_entity_def)

lemma superseded_rows_other:
  assumes "y \<in> set rows" "enr_id y \<noteq> c_str old"
  shows "y \<in> set (superseded_rows old now by rows)"
proof -
  have "y \<in> set (update_rows (\<lambda>r. enr_id r = c_str old) (obsolete_entity now by) rows)"
    unfolding update_rows_def set_map using assms by (intro image_eqI [of _ _ y]) auto
  with assms show ?thesis by (simp add: superseded_rows_def)
qed

lemma SaveEntity_rows:
  assumes inv: "store_inv s" and save: "SaveEntity J e s = (Ret r, s')" "succeeded r"
  obtains refs meta d1 d2 d' n now now2 where "s_db s' = Some d'" "upsert_entity now (entity_to_row e refs meta) d1 = Some d2"
    "keyed (entity_to_row e refs meta) \<longrightarrow> no_active_duplicate (entity_to_row e refs meta) d1"
    "{x \<in> set (t_entities d2). enr_id x = c_str (en_id e)} =
       {(entity_to_row e refs meta)\<lparr>enr_rowid := n, enr_updated_at := now\<rparr>}"
    "t_entities d' = superseded_rows (en_supersededEntityId e) now2 (c_str (en_id e)) (t_entities d2)"
proof -
  have "SaveEntityUnlocked J e s = (Ret True, s')"
    using tx_result_cases [OF save(1) [unfolded SaveEntity_def] save(2)] .
  then obtain refs meta d1 d2 d3 s1 now now2 where
    m: "MarkDuplicateEntitiesObsoleteUnlocked e s = (True, s1)" "s_db s1 = Some d1"
    and u: "upsert_entity now (entity_to_row e refs meta) d1 = Some d2" and d3: "s_db s' = Some d3"
      "d3 = (if en_supersededEntityId e = [] then d2
        else update_entities (\<lambda>r. enr_id r = c_str (en_supersededEntityId e)) (obsolete_entity now2 (c_str (en_id e))) d2)"
    by (rule SaveEntityUnlocked_True)
  have "store_inv s1"
    using MarkDuplicateEntitiesObsoleteUnlocked_step [OF m(1)] inv by (rule write_step_store_inv)
  then have "distinct (map enr_id (t_entities d1))"
    using m(2) by (simp add: store_inv_def db_ok_def db_inv_def entities_ok_def)
  from upsert_entity_by_id [OF this u] obtain n where
    "{x \<in> set (t_entities d2). enr_id x = c_str (en_id e)} =
       {(entity_to_row e refs meta)\<lparr>enr_rowid := n, enr_updated_at := now\<rparr>}"
    by (auto simp: entity_to_row_def)
  moreover have "t_entities d3 = superseded_rows (en_supersededEntityId e) now2 (c_str (en_id e)) (t_entities d2)"
    unfolding d3(2) by (simp add: update_entities_def superseded_rows_def)
  moreover have "keyed (entity_to_row e refs meta) \<longrightarrow> no_active_duplicate (entity_to_row e refs meta) d1"
    using MarkDuplicateEntitiesObsoleteUnlocked_clears [OF m] by blast
  ultimately show ?thesis using that d3(1) u by blast
qed

text \<open>
  After \<open>SaveEntity\<close> of an active entity whose identifier, agent, type and name are not empty
  (and that does not supersede itself), the one active entity of that agent, type and name is the
  saved one: earlier entities of the same name are no longer active.
\<close>

theorem SaveEntity_unique_active:
  assumes inv: "store_inv s" and save: "SaveEntity J e s = (Ret r, s')" "succeeded r"
    and key: "c_str (en_id e) \<noteq> []" "c_str (en_agentId e) \<noteq> []" "c_str (en_entityType e) \<noteq> []" "c_str (en_name e) \<noteq> []"
    and act: "en_isActive e" "c_str (en_supersededEntityId e) \<noteq> c_str (en_id e)"
  shows "\<exists>d' x. s_db s' = Some d' \<and>
    {y \<in> set (t_entities d'). enr_active y \<and>
       entity_key y = (c_str (en_agentId e), c_str (en_entityType e), c_str (en_name e))} = {x} \<and>
    enr_id x = c_str (en_id e) \<and> enr_summary x = c_str (en_summary e) \<and> enr_confidence x = en_confidence e"
proof -
  obtain refs meta d1 d2 d' n now now2 where d': "s_db s' = Some d'"
    and u: "upsert_entity now (entity_to_row e refs meta) d1 = Some d2"
    and dup: "keyed (entity_to_row e refs meta) \<longrightarrow> no_active_duplicate (entity_to_row e refs meta) d1"
    and by_id: "{x \<in> set (t_entities d2). enr_id x = c_str (en_id e)} =
       {(entity_to_row e refs meta)\<lparr>enr_rowid := n, enr_updated_at := now\<rparr>}"
    and rows: "t_entities d' = superseded_rows (en_supersededEntityId e) now2 (c_str (en_id e)) (t_entities d2)"
    by (rule SaveEntity_rows [OF inv save])
  let ?r = "entity_to_row e refs meta"
  let ?x = "?r\<lparr>enr_rowid := n, enr_updated_at := now\<rparr>"
  have x: "enr_id ?x = c_str (en_id e)" "enr_active ?x" "entity_key ?x = entity_key ?r" "enr_id ?r = c_str (en_id e)"
    "entity_key ?r = (c_str (en_agentId e), c_str (en_entityType e), c_str (en_name e))"
    using act(1) by (simp_all add: entity_to_row_def entity_key_def)
  have nodup: "no_active_duplicate ?r d1"
    using dup key by (simp add: keyed_def entity_to_row_def)
  have only: "y = ?x" if "y \<in> set (t_entities d2)" "enr_active y" "entity_key y = entity_key ?r" for y
  proof (cases "enr_id y = enr_id ?r")
    case True
    then show ?thesis using by_id that(1) x(4) by auto
  next
    case False
    then have "y \<in> set (t_entities d1)" using upsert_entity_other [OF u that(1)] by blast
    with nodup that False show ?thesis unfolding no_active_duplicate_def by blast
  qed
  have "?x \<in> set (t_entities d')"
    unfolding rows using by_id act(2) x(1) by (intro superseded_rows_other) auto
  moreover have "y = ?x" if "y \<in> set (t_entities d')" "enr_active y" "entity_key y = entity_key ?r" for y
    using that only superseded_rows_active unfolding rows by blast
  ultimately have "{y \<in> set (t_entities d'). enr_active y \<and> entity_key y = entity_key ?r} = {?x}"
    using x(2,3) by blast
  moreover have "enr_summary ?x = c_str (en_summary e)" "enr_confidence ?x = en_confidence e"
    by (simp_all add: entity_to_row_def)
  ultimately show ?thesis using d' x(1) unfolding x(5) by blast
qed

definition tea :: MemoryEntity where
  "tea = default_entity\<lparr>en_id := ''e1'', en_agentId := ''a'', en_entityType := ''preference'', en_name := ''drink'',
     en_summary := ''tea''\<rparr>"

definition tea_store :: store where
  "tea_store = snd (SaveEntity small_lib tea open_store)"

lemma tea_saved: "SaveEntity small_lib tea open_store = (Ret MemorySuccess, tea_store)"
  unfolding tea_store_def by code_simp

lemma tea_store_inv: "store_inv tea_store"
  unfolding tea_store_def using save_entity.keeps open_store_inv by (rule write_step_store_inv)

theorem SaveEntity_unique_active_witness:
  "\<exists>d' x. s_db tea_store = Some d' \<and>
    {y \<in> set (t_entities d'). enr_active y \<and> entity_key y = (''a'', ''preference'', ''drink'')} = {x} \<and> enr_summary x = ''tea''"
proof -
  have c: "c_str ''e1'' = ''e1''" "c_str ''a'' = ''a''" "c_str ''preference'' = ''preference''" "c_str ''drink'' = ''drink''"
    "c_str ''tea'' = ''tea''" by code_simp+
  show ?thesis
    using SaveEntity_unique_active [OF open_store_inv tea_saved] by (auto simp: tea_def default_entity_def c)
qed

text \<open>
  Entity identifiers are one namespace for all agents: saving an entity whose identifier
  another agent already uses takes that entity away from the other agent, which no longer sees it
  among its active entities.
\<close>

theorem SaveEntity_takes_over_identifier:
  assumes inv: "store_inv s" and save: "SaveEntity J e s = (Ret r, s')" "succeeded r"
    and other: "s_db s = Some d" "x \<in> set (select_entities a d)" "enr_id x = c_str (en_id e)"
      "c_str a \<noteq> c_str (en_agentId e)"
  shows "\<exists>d'. s_db s' = Some d' \<and> (\<forall>y\<in>set (select_entities a d'). enr_id y \<noteq> enr_id x)"
proof -
  obtain refs meta d1 d2 d' n now now2 where d': "s_db s' = Some d'"
    and "upsert_entity now (entity_to_row e refs meta) d1 = Some d2"
    and "keyed (entity_to_row e refs meta) \<longrightarrow> no_active_duplicate (entity_to_row e refs meta) d1"
    and by_id: "{x \<in> set (t_entities d2). enr_id x = c_str (en_id e)} =
       {(entity_to_row e refs meta)\<lparr>enr_rowid := n, enr_updated_at := now\<rparr>}"
    and rows: "t_entities d' = superseded_rows (en_supersededEntityId e) now2 (c_str (en_id e)) (t_entities d2)"
    by (rule SaveEntity_rows [OF inv save])
  have d2: "enr_agent y = c_str (en_agentId e)" if "y \<in> set (t_entities d2)" "enr_id y = c_str (en_id e)" for y
  proof -
    have "y = (entity_to_row e refs meta)\<lparr>enr_rowid := n, enr_updated_at := now\<rparr>" using that by_id by blast
    then show ?thesis by (simp add: entity_to_row_def)
  qed
  have "enr_agent y = c_str (en_agentId e)" if "y \<in> set (t_entities d')" "enr_id y = c_str (en_id e)" "enr_active y" for y
    using that d2 superseded_rows_active unfolding rows by blast
  with d' other show ?thesis by (auto simp: select_entities_def)
qed

theorem SaveEntity_takes_over_identifier_witness:
  "\<exists>s' d'. SaveEntity small_lib (tea\<lparr>en_agentId := ''b''\<rparr>) tea_store = (Ret MemorySuccess, s') \<and>
     s_db s' = Some d' \<and> (\<forall>y\<in>set (select_entities ''a'' d'). enr_id y \<noteq> ''e1'')"
proof -
  let ?e = "tea\<lparr>en_agentId := ''b''\<rparr>"
  let ?x = "(entity_to_row tea ''[]'' ''{}'')\<lparr>enr_rowid := 1\<rparr>"
  have save: "SaveEntity small_lib ?e tea_store = (Ret MemorySuccess, snd (SaveEntity small_lib ?e tea_store))"
    by code_simp
  have db: "s_db tea_store = Some (the (s_db tea_store))" by code_simp
  have x: "?x \<in> set (select_entities ''a'' (the (s_db tea_store)))" by code_simp
  have i: "enr_id ?x = c_str (en_id ?e)" "c_str ''a'' \<noteq> c_str (en_agentId ?e)" "enr_id ?x = ''e1''" by code_simp+
  from SaveEntity_takes_over_identifier [OF tea_store_inv save _ db x i(1,2)] i(3) save
  show ?thesis by auto
qed

end
