(* ===== verification/Schema_Migration.thy ===== *)
theory Schema_Migration
  imports Store_Laws
begin

text \<open>
  \<open>MemorySqliteStore::Initialize\<close> on a database written by an earlier version: which columns exist
  afterwards, that no row is touched, and when it reports success. The order of its statements
  matters: the indexes are created before the missing columns are added.
\<close>

section \<open>Runs without faults\<close>

definition quiet :: "store \<Rightarrow> bool" where
  "quiet s = (s_faults s = [])"

lemma next_ok_quiet [simp]: "quiet s \<Longrightarrow> next_ok s = (True, s)"
  by (simp add: quiet_def next_ok_def)

lemma quiet_db [simp]: "quiet (s\<lparr>s_db := x\<rparr>) = quiet s" "quiet (s\<lparr>s_saved := y\<rparr>) = quiet s"
  by (simp_all add: quiet_def)

lemma ExecuteUnlocked_quiet:
  "quiet s \<Longrightarrow> s_db s = Some d \<Longrightarrow>
   ExecuteUnlocked f s = (case f d of None \<Rightarrow> (False, s) | Some d' \<Rightarrow> (True, s\<lparr>s_db := Some d'\<rparr>))"
  by (simp add: ExecuteUnlocked_def sql_step_def)

fun chain :: "(database \<Rightarrow> database option) list \<Rightarrow> database \<Rightarrow> bool \<times> database" where
  "chain [] d = (True, d)"
| "chain (f # fs) d = (case f d of None \<Rightarrow> (False, d) | Some d' \<Rightarrow> chain fs d')"

lemma exec_chain_quiet:
  "quiet s \<Longrightarrow> s_db s = Some d \<Longrightarrow>
   exec_chain fs s = (fst (chain fs d), s\<lparr>s_db := Some (snd (chain fs d))\<rparr>)"
  by (induction fs arbitrary: s d) (auto simp: ExecuteUnlocked_quiet split: option.splits)

lemma chain_append_ok: "chain fs d = (True, d') \<Longrightarrow> chain (fs @ gs) d = chain gs d'"
  by (induction fs arbitrary: d) (auto split: option.splits)

section \<open>Tables and indexes\<close>

definition with_schema :: "(string \<times> string list) list \<Rightarrow> database \<Rightarrow> database" where
  "with_schema sch d = d\<lparr>db_schema := sch\<rparr>"

lemma with_schema_simps [simp]:
  "db_schema (with_schema x d) = x" "with_schema y (with_schema x d) = with_schema y d"
  "with_schema (db_schema d) d = d"
  by (simp_all add: with_schema_def)

lemma chain_replicate_Some: "chain (replicate n Some @ fs) d = chain fs d"
  by (induction n) simp_all

lemma chain_create_tables:
  "\<exists>sch. chain (map (\<lambda>t. create_table (fst t) (snd t)) defs) d = (True, with_schema sch d) \<and>
     (\<forall>t. map_of sch t = (case map_of (db_schema d) t of Some c \<Rightarrow> Some c | None \<Rightarrow> map_of defs t))"
proof (induction defs arbitrary: d)
  case Nil
  show ?case by (rule exI [of _ "db_schema d"]) (simp split: option.split)
next
  case (Cons p defs)
  obtain t cols where p: "p = (t, cols)" by fastforce
  let ?sch = "if map_of (db_schema d) t \<noteq> None then db_schema d else db_schema d @ [(t, cols)]"
  have create: "create_table t cols d = Some (with_schema ?sch d)"
    by (auto simp: create_table_def with_schema_def)
  obtain sch where sch: "chain (map (\<lambda>t. create_table (fst t) (snd t)) defs) (with_schema ?sch d) =
      (True, with_schema sch d)"
    and m: "\<And>u. map_of sch u = (case map_of ?sch u of Some c \<Rightarrow> Some c | None \<Rightarrow> map_of defs u)"
    using Cons.IH [of "with_schema ?sch d"] by auto
  have "map_of ?sch u = (case map_of (db_schema d) u of Some c \<Rightarrow> Some c | None \<Rightarrow> if u = t then Some cols else None)" for u
    by (auto simp: map_of_append map_add_def split: option.split)
  with m have "map_of sch u = (case map_of (db_schema d) u of Some c \<Rightarrow> Some c | None \<Rightarrow> map_of (p # defs) u)" for u
    by (simp add: p split: option.split)
  then show ?case using sch create p by auto
qed

definition index_fits :: "(string \<times> string list) list \<Rightarrow> string \<times> string list \<Rightarrow> bool" where
  "index_fits sch ix = (case map_of sch (fst ix) of None \<Rightarrow> False | Some cs \<Rightarrow> set (snd ix) \<subseteq> set cs)"

lemma chain_create_indexes:
  "chain (map (\<lambda>t. create_index (fst t) (snd t)) ixs) d = (list_all (index_fits (db_schema d)) ixs, d)"
  by (induction ixs) (auto simp: create_index_def index_fits_def split: option.splits)

text \<open>The tables after \<open>CREATE TABLE IF NOT EXISTS\<close>: old tables keep their columns.\<close>

definition merged_schema :: "database \<Rightarrow> string \<Rightarrow> string list option" where
  "merged_schema d t = (case map_of (db_schema d) t of Some c \<Rightarrow> Some c | None \<Rightarrow> map_of table_definitions t)"

text \<open>Every index finds its columns.\<close>

definition schema_fits :: "database \<Rightarrow> bool" where
  "schema_fits d = list_all (\<lambda>ix. case merged_schema d (fst ix) of None \<Rightarrow> False | Some cs \<Rightarrow> set (snd ix) \<subseteq> set cs)
     index_definitions"

lemma schema_chain_quiet:
  "\<exists>sch. chain schema_chain d = (schema_fits d, with_schema sch d) \<and> (\<forall>t. map_of sch t = merged_schema d t)"
proof -
  obtain sch where sch: "chain (map (\<lambda>t. create_table (fst t) (snd t)) table_definitions) d = (True, with_schema sch d)"
    and m: "\<And>t. map_of sch t = merged_schema d t"
    using chain_create_tables [of table_definitions d] unfolding merged_schema_def by auto
  have "chain schema_chain d = (list_all (index_fits sch) index_definitions, with_schema sch d)"
    unfolding schema_chain_def chain_replicate_Some chain_append_ok [OF sch] chain_create_indexes by simp
  moreover have "index_fits sch = (\<lambda>ix. case merged_schema d (fst ix) of None \<Rightarrow> False | Some cs \<Rightarrow> set (snd ix) \<subseteq> set cs)"
    by (simp add: fun_eq_iff index_fits_def m)
  ultimately show ?thesis using m unfolding schema_fits_def by metis
qed

section \<open>Added columns\<close>

lemma scan_columns_quiet: "quiet s \<Longrightarrow> scan_columns c cols s = (c \<in> set cols, s)"
  by (induction cols) auto

text \<open>\<open>sch'\<close> has every table of \<open>sch\<close> with at least its columns.\<close>

definition schema_grows :: "(string \<times> string list) list \<Rightarrow> (string \<times> string list) list \<Rightarrow> bool" where
  "schema_grows sch sch' =
     (\<forall>t cs. map_of sch t = Some cs \<longrightarrow> (\<exists>cs'. map_of sch' t = Some cs' \<and> set cs \<subseteq> set cs'))"

lemma schema_grows_refl: "schema_grows x x"
  by (simp add: schema_grows_def)

lemma schema_grows_trans: "schema_grows x y \<Longrightarrow> schema_grows y z \<Longrightarrow> schema_grows x z"
  unfolding schema_grows_def by (meson order_trans)

definition has_column :: "(string \<times> string list) list \<Rightarrow> string \<times> string \<Rightarrow> bool" where
  "has_column sch tc = (case map_of sch (fst tc) of None \<Rightarrow> False | Some cs \<Rightarrow> snd tc \<in> set cs)"

lemma has_column_grows: "has_column x tc \<Longrightarrow> schema_grows x y \<Longrightarrow> has_column y tc"
  by (fastforce simp: has_column_def schema_grows_def split: option.splits)

lemma AddColumnIfMissingUnlocked_quiet:
  assumes q: "quiet s" and d: "s_db s = Some d" and t: "IsValidTableName t" "map_of (db_schema d) t = Some cs"
  shows "\<exists>sch. AddColumnIfMissingUnlocked t c s = (True, s\<lparr>s_db := Some (with_schema sch d)\<rparr>) \<and>
    schema_grows (db_schema d) sch \<and> has_column sch (t, c)"
proof (cases "c \<in> set cs")
  case True
  then have "AddColumnIfMissingUnlocked t c s = (True, s\<lparr>s_db := Some (with_schema (db_schema d) d)\<rparr>)"
    using assms by (simp add: AddColumnIfMissingUnlocked_def ColumnExistsUnlocked_def scan_columns_quiet table_columns_def)
  with True t show ?thesis
    by (intro exI [of _ "db_schema d"]) (simp add: schema_grows_refl has_column_def)
next
  case False
  let ?sch = "AList.update t (cs @ [c]) (db_schema d)"
  have "AddColumnIfMissingUnlocked t c s = (True, s\<lparr>s_db := Some (with_schema ?sch d)\<rparr>)"
    using assms False
    by (simp add: AddColumnIfMissingUnlocked_def ColumnExistsUnlocked_def scan_columns_quiet table_columns_def
        ExecuteUnlocked_quiet add_column_def with_schema_def)
  moreover have "schema_grows (db_schema d) ?sch" "has_column ?sch (t, c)"
    using t(2) by (auto simp: schema_grows_def has_column_def update_conv' split: if_splits)
  ultimately show ?thesis by blast
qed

lemma add_columns_quiet:
  assumes "quiet s" "s_db s = Some d"
    and "\<forall>p\<in>set tcs. IsValidTableName (fst p) \<and> map_of (db_schema d) (fst p) \<noteq> None"
  shows "\<exists>sch. exec_each (map (\<lambda>p. AddColumnIfMissingUnlocked (fst p) (snd p)) tcs @ gs) ok s =
      exec_each gs ok (s\<lparr>s_db := Some (with_schema sch d)\<rparr>) \<and>
    schema_grows (db_schema d) sch \<and> (\<forall>p\<in>set tcs. has_column sch p)"
  using assms
proof (induction tcs arbitrary: s d)
  case Nil
  then have "s\<lparr>s_db := Some (with_schema (db_schema d) d)\<rparr> = s" by simp
  then show ?case using schema_grows_refl by (intro exI [of _ "db_schema d"]) simp
next
  case (Cons p tcs)
  obtain cs where "map_of (db_schema d) (fst p) = Some cs" using Cons.prems(3) by auto
  with AddColumnIfMissingUnlocked_quiet [OF Cons.prems(1,2), of "fst p" cs "snd p"] Cons.prems(3)
  obtain sch1 where a: "AddColumnIfMissingUnlocked (fst p) (snd p) s = (True, s\<lparr>s_db := Some (with_schema sch1 d)\<rparr>)"
    and g: "schema_grows (db_schema d) sch1" and h: "has_column sch1 p" by auto
  have dom: "\<forall>q\<in>set tcs. IsValidTableName (fst q) \<and> map_of (db_schema (with_schema sch1 d)) (fst q) \<noteq> None"
    using Cons.prems(3) g by (fastforce simp: schema_grows_def)
  obtain sch where e: "exec_each (map (\<lambda>p. AddColumnIfMissingUnlocked (fst p) (snd p)) tcs @ gs) ok (s\<lparr>s_db := Some (with_schema sch1 d)\<rparr>) =
      exec_each gs ok (s\<lparr>s_db := Some (with_schema sch d)\<rparr>)"
    and g2: "schema_grows sch1 sch" and h2: "\<forall>q\<in>set tcs. has_column sch q"
    using Cons.IH [of "s\<lparr>s_db := Some (with_schema sch1 d)\<rparr>" "with_schema sch1 d"] Cons.prems(1) dom by auto
  show ?case
    using a e g h g2 h2 schema_grows_trans has_column_grows by (intro exI [of _ sch]) auto
qed

lemma exec_each_quiet_Some:
  "quiet s \<Longrightarrow> s_db s \<noteq> None \<Longrightarrow> exec_each (replicate n (ExecuteUnlocked Some)) ok s = (ok, s)"
proof (induction n)
  case (Suc n)
  then obtain d where d: "s_db s = Some d" by auto
  then have "ExecuteUnlocked Some s = (True, s)" using Suc by (simp add: ExecuteUnlocked_quiet)
  with Suc show ?case by simp
qed simp

lemma Initialize_quiet:
  assumes q: "quiet s" "s_db s = None"
  shows "\<exists>sch r. Initialize s = (r, s\<lparr>s_db := Some (with_schema sch (s_file s)), s_saved := None\<rparr>) \<and>
    succeeded r = schema_fits (s_file s) \<and> (\<forall>p\<in>set migrated_columns. has_column sch p) \<and>
    (\<forall>t cs. merged_schema (s_file s) t = Some cs \<longrightarrow> (\<exists>cs'. map_of sch t = Some cs' \<and> set cs \<subseteq> set cs'))"
proof -
  let ?d = "s_file s" and ?s1 = "s\<lparr>s_db := Some (s_file s), s_saved := None\<rparr>"
  obtain sch1 where c: "chain schema_chain ?d = (schema_fits ?d, with_schema sch1 ?d)"
    and m: "\<And>t. map_of sch1 t = merged_schema ?d t" using schema_chain_quiet by blast
  let ?s2 = "?s1\<lparr>s_db := Some (with_schema sch1 ?d)\<rparr>"
  have chain: "exec_chain schema_chain ?s1 = (schema_fits ?d, ?s2)"
    using exec_chain_quiet [of ?s1 ?d schema_chain] q c by simp
  have dom: "\<forall>p\<in>set migrated_columns. IsValidTableName (fst p) \<and> map_of (db_schema (with_schema sch1 ?d)) (fst p) \<noteq> None"
    by (auto simp: migrated_columns_def IsValidTableName_def VALID_TABLE_NAMES_def m merged_schema_def
        table_definitions_def split: option.splits)
  obtain sch where e: "exec_each schema_tail (schema_fits ?d) ?s2 =
      exec_each (replicate 12 (ExecuteUnlocked Some)) (schema_fits ?d) (?s2\<lparr>s_db := Some (with_schema sch (with_schema sch1 ?d))\<rparr>)"
    and g: "schema_grows sch1 sch" "\<forall>p\<in>set migrated_columns. has_column sch p"
    using add_columns_quiet [of ?s2 "with_schema sch1 ?d" migrated_columns
        "replicate 12 (ExecuteUnlocked Some)" "schema_fits ?d"] q dom
    unfolding schema_tail_def by auto
  let ?s3 = "?s1\<lparr>s_db := Some (with_schema sch ?d)\<rparr>"
  let ?r = "if schema_fits ?d then MemorySuccess else SqliteFailure ?s3 ''Initialize::schema''"
  have "exec_each schema_tail (schema_fits ?d) ?s2 = (schema_fits ?d, ?s3)"
    using e q by (simp add: exec_each_quiet_Some del: replicate.simps)
  then have "Initialize s = (?r, ?s3)"
    using q chain unfolding Initialize_def next_ok_quiet [OF q(1)] Let_def by simp
  moreover have "?s3 = s\<lparr>s_db := Some (with_schema sch ?d), s_saved := None\<rparr>" by simp
  moreover have "succeeded ?r = schema_fits ?d" by (simp add: SqliteFailure_def)
  moreover have "\<forall>t cs. merged_schema ?d t = Some cs \<longrightarrow> (\<exists>cs'. map_of sch t = Some cs' \<and> set cs \<subseteq> set cs')"
    using g(1) m by (simp add: schema_grows_def)
  ultimately show ?thesis using g(2) by metis
qed

section \<open>Properties\<close>

text \<open>
  C35: Opening a database without faults touches no row, leaves every table with the columns it had
  (or the columns of its definition, if it is new) and with every column the migration adds; and
  it reports success exactly when every index definition already found its columns in the tables
  before those columns were added.
\<close>

theorem Initialize_migrates:
  assumes "quiet s" "s_db s = None"
  shows "\<exists>sch r. Initialize s = (r, s\<lparr>s_db := Some ((s_file s)\<lparr>db_schema := sch\<rparr>), s_saved := None\<rparr>) \<and>
    (\<forall>p\<in>set migrated_columns. has_column sch p) \<and>
    (\<forall>t cs. merged_schema (s_file s) t = Some cs \<longrightarrow> (\<exists>cs'. map_of sch t = Some cs' \<and> set cs \<subseteq> set cs')) \<and>
    (succeeded r \<longleftrightarrow> schema_fits (s_file s))"
  using Initialize_quiet [OF assms] unfolding with_schema_def by blast

theorem Initialize_migrates_witness:
  "\<exists>sch r. Initialize (new_store empty_database) =
     (r, (new_store empty_database)\<lparr>s_db := Some (empty_database\<lparr>db_schema := sch\<rparr>), s_saved := None\<rparr>) \<and> succeeded r"
proof -
  have "quiet (new_store empty_database)" "s_db (new_store empty_database) = None"
    by (simp_all add: quiet_def new_store_def)
  moreover have "schema_fits empty_database" by code_simp
  ultimately show ?thesis
    using Initialize_migrates [of "new_store empty_database"] by (auto simp: new_store_def)
qed

text \<open>
  A database whose entity table predates the column \<open>agent_id\<close> cannot be opened by the runtime
  the first time: \<open>CREATE INDEX\<close> on the missing column fails before the migration adds it, so
  \<open>Initialize\<close> reports an error. The columns are added nevertheless, so that opening the file a
  second time does succeed.
\<close>

theorem Initialize_legacy_fails_once:
  assumes "quiet s" "s_db s = None" "map_of (db_schema (s_file s)) ''memory_entities'' = Some cs" "''agent_id'' \<notin> set cs"
    and rest: "\<forall>t cs'. t \<noteq> ''memory_entities'' \<longrightarrow> map_of (db_schema (s_file s)) t = Some cs' \<longrightarrow>
      (\<forall>ix\<in>set index_definitions. fst ix = t \<longrightarrow> set (snd ix) \<subseteq> set cs')"
  shows "\<not> succeeded (fst (Initialize s)) \<and>
    succeeded (fst (Initialize (close_store (snd (Initialize s)))))"
proof -
  obtain sch r where i: "Initialize s = (r, s\<lparr>s_db := Some (with_schema sch (s_file s)), s_saved := None\<rparr>)"
      "succeeded r = schema_fits (s_file s)" "\<forall>p\<in>set migrated_columns. has_column sch p"
      "\<forall>t cs. merged_schema (s_file s) t = Some cs \<longrightarrow> (\<exists>cs'. map_of sch t = Some cs' \<and> set cs \<subseteq> set cs')"
    using Initialize_quiet [OF assms(1,2)] by blast
  have no: "\<not> schema_fits (s_file s)"
    using assms(3,4) by (simp add: schema_fits_def merged_schema_def index_definitions_def)
  have closed: "close_store (snd (Initialize s)) = s\<lparr>s_file := with_schema sch (s_file s), s_db := None, s_saved := None\<rparr>"
    using assms(1) i(1) by (simp add: close_store_def exec_rollback_def Let_def durable_def)
  have cols: "\<exists>cs'. map_of sch t = Some cs' \<and> set (snd ix) \<subseteq> set cs'"
    if "ix \<in> set index_definitions" "fst ix = t" "t \<noteq> ''memory_entities''" for ix t
  proof -
    have "\<exists>c. merged_schema (s_file s) t = Some c \<and> set (snd ix) \<subseteq> set c"
    proof (cases "map_of (db_schema (s_file s)) t")
      case None
      then show ?thesis using that by (auto simp: merged_schema_def index_definitions_def table_definitions_def)
    next
      case (Some c)
      then show ?thesis using that rest by (auto simp: merged_schema_def)
    qed
    with i(4) show ?thesis by (meson order_trans)
  qed
  have ent: "\<exists>cs'. map_of sch ''memory_entities'' = Some cs' \<and> {''agent_id'', ''active''} \<subseteq> set cs'"
    using i(3) by (auto simp: migrated_columns_def has_column_def split: option.splits)
  have fits: "schema_fits (with_schema sch (s_file s))"
    unfolding schema_fits_def list_all_iff
  proof
    fix ix assume ix: "ix \<in> set index_definitions"
    have "\<exists>cs'. map_of sch (fst ix) = Some cs' \<and> set (snd ix) \<subseteq> set cs'"
      using cols [OF ix refl] ent ix by (cases "fst ix = ''memory_entities''") (auto simp: index_definitions_def)
    then show "case merged_schema (with_schema sch (s_file s)) (fst ix) of None \<Rightarrow> False | Some cs \<Rightarrow> set (snd ix) \<subseteq> set cs"
      by (auto simp: merged_schema_def)
  qed
  let ?t = "s\<lparr>s_file := with_schema sch (s_file s), s_db := None, s_saved := None\<rparr>"
  have "quiet ?t" "s_db ?t = None" "s_file ?t = with_schema sch (s_file s)"
    using assms(1) by (simp_all add: quiet_def)
  then have "succeeded (fst (Initialize ?t))" using Initialize_quiet [of ?t] fits by auto
  with closed i(1,2) no show ?thesis by simp
qed

theorem Initialize_legacy_fails_once_witness:
  "let s = new_store (empty_database\<lparr>db_schema := [(''memory_entities'', [''id'', ''name''])]\<rparr>)
   in \<not> succeeded (fst (Initialize s)) \<and> succeeded (fst (Initialize (close_store (snd (Initialize s)))))"
  unfolding Let_def
  by (rule Initialize_legacy_fails_once [where cs = "[''id'', ''name'']"])
    (simp_all add: quiet_def new_store_def empty_database_def)

end
