(* ===== verification/Store_Search.thy ===== *)
theory Store_Search
  imports Store_Laws
begin

text \<open>
  Searching long-term memory (\<open>src/storage/sqlite_store.cpp\<close>): escaping the query for the
  full-text engine and for \<open>LIKE\<close>, the two-stage search, scoring and the final ranking. The
  full-text engine is a parameter: for a query and an index it gives the matching rows with their
  \<open>bm25\<close> ranks, or nothing when it rejects the query. \<open>LIKE ... ESCAPE\<close> is modelled with its SQL
  meaning, ASCII case folded as SQLite does.
\<close>

section \<open>Escaping\<close>

fun EscapeLikePattern :: "string \<Rightarrow> string" where
  "EscapeLikePattern [] = []"
| "EscapeLikePattern (ch # cs) =
     (if ch = CHR 0x5C \<or> ch = CHR ''%'' \<or> ch = CHR ''_''
      then CHR 0x5C # ch # EscapeLikePattern cs else ch # EscapeLikePattern cs)"

text \<open>\<open>text LIKE pattern ESCAPE '\'\<close>.\<close>

fun like_match :: "string \<Rightarrow> string \<Rightarrow> bool" where
  "like_match [] t = (t = [])"
| "like_match (p # ps) t =
     (if p = CHR ''%'' then like_match ps t \<or> (case t of [] \<Rightarrow> False | c # cs \<Rightarrow> like_match (p # ps) cs)
      else if p = CHR ''_'' then (case t of [] \<Rightarrow> False | c # cs \<Rightarrow> like_match ps cs)
      else if p = CHR 0x5C
      then (case ps of
              [] \<Rightarrow> False
            | q # qs \<Rightarrow> (case t of [] \<Rightarrow> False | c # cs \<Rightarrow> tolower q = tolower c \<and> like_match qs cs))
      else (case t of [] \<Rightarrow> False | c # cs \<Rightarrow> tolower p = tolower c \<and> like_match ps cs))"

text \<open>The loop of \<open>Fts5EscapeQuery\<close>; the accumulator holds \<open>escaped\<close> reversed.\<close>

fun fts_escape_loop :: "string \<Rightarrow> string \<Rightarrow> string" where
  "fts_escape_loop acc [] = rev acc"
| "fts_escape_loop acc (c # cs) =
     (if isalnum c \<or> c = CHR ''_'' \<or> isspace c \<or> 128 \<le> code_of c then fts_escape_loop (c # acc) cs
      else if c = CHR ''*''
      then (case acc of
              [] \<Rightarrow> fts_escape_loop acc cs
            | prev # _ \<Rightarrow>
                (if \<not> isalnum prev \<and> prev \<noteq> CHR ''_'' then fts_escape_loop acc cs
                 else fts_escape_loop (c # acc) cs))
      else fts_escape_loop acc cs)"

definition Fts5EscapeQuery :: "string \<Rightarrow> string" where
  "Fts5EscapeQuery query =
     (let escaped = fts_escape_loop [] query in
      if escaped = [] then filter (\<lambda>c. isalnum c \<or> c = CHR ''_'' \<or> c = CHR '' '') query else escaped)"

section \<open>Scores\<close>

definition TypeWeight :: "string \<Rightarrow> rat" where
  "TypeWeight t = (if t = ''summary'' then 1 else if t = ''entity'' then f64 (95 / 100) else f64 (90 / 100))"

definition FallbackScore :: "string \<Rightarrow> rat" where
  "FallbackScore t =
     (if t = ''summary'' then f64 (30 / 100) else if t = ''entity'' then f64 (25 / 100) else f64 (20 / 100))"

definition ApplyFtsScore :: "rat \<Rightarrow> MemorySearchHit \<Rightarrow> MemorySearchHit" where
  "ApplyFtsScore bm25Rank hit =
     (let rawRank = max 0 (- bm25Rank);
          normalized = (if rawRank > 0 then f64 (rawRank / f64 (rawRank + 1)) else 0);
          weight = TypeWeight (hit_type hit)
      in hit\<lparr>hit_score := f32 (f64 (normalized * weight)),
             hit_metadata := json_set ''typeWeight'' (JFloat weight)
               (json_set ''rawRank'' (JFloat rawRank)
                 (json_set ''scoreSource'' (JStr ''fts_bm25'') (hit_metadata hit)))\<rparr>)"

definition ApplyFallbackScore :: "MemorySearchHit \<Rightarrow> MemorySearchHit" where
  "ApplyFallbackScore hit =
     hit\<lparr>hit_score := f32 (FallbackScore (hit_type hit)),
         hit_metadata := json_set ''scoreSource'' (JStr ''like_fallback'') (hit_metadata hit)\<rparr>"

text \<open>
  \<open>std::sort\<close> by decreasing score, then increasing identifier. (Hits that agree on both may come in
  any order in C++; here they keep the order they had.)
\<close>

definition SortAndLimitSearchResults :: "MemorySearchHit list \<Rightarrow> int \<Rightarrow> MemorySearchHit list" where
  "SortAndLimitSearchResults hits limit =
     (let sorted_hits = sort_key (\<lambda>h. (- hit_score h, hit_id h)) hits in
      if limit > 0 \<and> i32 (int (length sorted_hits)) > limit then take (nat limit) sorted_hits else sorted_hits)"

section \<open>Hits\<close>

definition summary_hit :: "json_lib \<Rightarrow> summary_row \<Rightarrow> MemorySearchHit" where
  "summary_hit J r =
     \<lparr>hit_id = ''summary:'' @ to_string (i32 (smr_id r)), hit_type = ''summary'',
      hit_content = smr_level r @ '': '' @ smr_topic r @ '': '' @ smr_summary r, hit_score = 0,
      hit_sourceRefs = ParseSourceRefsColumn J (smr_source_refs_json r), hit_metadata = JObj []\<rparr>"

definition entity_hit :: "json_lib \<Rightarrow> entity_row \<Rightarrow> MemorySearchHit" where
  "entity_hit J r =
     \<lparr>hit_id = enr_id r, hit_type = ''entity'',
      hit_content = enr_type r @ '': '' @ enr_name r @ '': '' @ enr_summary r, hit_score = 0,
      hit_sourceRefs = ParseSourceRefsColumn J (enr_source_refs_json r),
      hit_metadata = ParseJsonColumn J (enr_metadata_json r)\<rparr>"

definition relation_hit :: "json_lib \<Rightarrow> relation_row \<Rightarrow> MemorySearchHit" where
  "relation_hit J r =
     \<lparr>hit_id = ''relation:'' @ to_string (i32 (rlr_id r)), hit_type = ''relation'',
      hit_content = rlr_from r @ '' '' @ rlr_relation r @ '' '' @ rlr_to r, hit_score = 0,
      hit_sourceRefs = ParseSourceRefsColumn J (rlr_source_refs_json r), hit_metadata = JObj []\<rparr>"

section \<open>The full-text stage\<close>

type_synonym fts_engine = "string \<Rightarrow> fts_doc list \<Rightarrow> (int \<times> rat) list option"

text \<open>The join of a table with the matches of its index.\<close>

fun join_matches :: "('r \<Rightarrow> int) \<Rightarrow> (int \<times> rat) list \<Rightarrow> 'r list \<Rightarrow> ('r \<times> rat) list" where
  "join_matches f ms [] = []"
| "join_matches f ms (r # rs) =
     (case map_of ms (f r) of
        None \<Rightarrow> join_matches f ms rs
      | Some rank \<Rightarrow> (r, rank) # join_matches f ms rs)"

definition fts_summary_rows ::
  "fts_engine \<Rightarrow> string \<Rightarrow> string \<Rightarrow> string \<Rightarrow> nat \<Rightarrow> database \<Rightarrow> (summary_row \<times> rat) list option" where
  "fts_summary_rows fts q agentId sessionId limit d =
     map_option (\<lambda>ms. take limit (order_desc (\<lambda>p. (- snd p, smr_updated_at (fst p), smr_id (fst p)))
         (join_matches smr_id ms
           (filter (\<lambda>r. in_scope agentId sessionId (smr_agent r) (smr_session r)) (t_summaries d)))))
       (fts q (fts_summaries d))"

definition fts_entity_rows ::
  "fts_engine \<Rightarrow> string \<Rightarrow> string \<Rightarrow> nat \<Rightarrow> database \<Rightarrow> (entity_row \<times> rat) list option" where
  "fts_entity_rows fts q agentId limit d =
     map_option (\<lambda>ms. take limit (order_desc (\<lambda>p. (- snd p, enr_updated_at (fst p)))
         (join_matches enr_rowid ms
           (filter (\<lambda>r. enr_active r \<and> enr_agent r = c_str agentId) (t_entities d)))))
       (fts q (fts_entities d))"

definition fts_relation_rows ::
  "fts_engine \<Rightarrow> string \<Rightarrow> string \<Rightarrow> nat \<Rightarrow> database \<Rightarrow> (relation_row \<times> rat) list option" where
  "fts_relation_rows fts q agentId limit d =
     map_option (\<lambda>ms. take limit (order_desc (\<lambda>p. (- snd p, rlr_updated_at (fst p), rlr_id (fst p)))
         (join_matches rlr_id ms
           (filter (\<lambda>r. rlr_active r \<and> rlr_agent r = c_str agentId) (t_relations d)))))
       (fts q (fts_relations d))"

text \<open>
  One full-text block: the error of a failed prepare, or the rows, or \<open>None\<close> when a step failed
  (the engine rejecting the query shows at the first step).
\<close>

definition fts_block ::
  "string \<Rightarrow> ('r \<times> rat) list option \<Rightarrow> store \<Rightarrow> (MemoryError + ('r \<times> rat) list option) \<times> store" where
  "fts_block ctx rows s =
     (let (ok, s1) = next_ok s in
      if \<not> ok then (Inl (sqlite_error s1 (ctx @ ''_prepare'')), s1)
      else case rows of
             None \<Rightarrow> (let (k, s2) = next_ok s1 in (Inr None, s2))
           | Some rs \<Rightarrow> (let (done_ok, rs', s2) = fetch rs s1 in (Inr (if done_ok then Some rs' else None), s2)))"

text \<open>
  The three blocks in order. The result: the error that ends the search together with the hits
  collected so far, or the hits (none when a step failed, which skips the remaining blocks).
\<close>

definition SearchFts ::
  "json_lib \<Rightarrow> fts_engine \<Rightarrow> MemorySearchRequest \<Rightarrow> string \<Rightarrow> nat \<Rightarrow> database \<Rightarrow> store \<Rightarrow>
   (MemoryError option \<times> MemorySearchHit list) \<times> store" where
  "SearchFts J fts req ftsQuery limit d s =
     (if ftsQuery = [] then ((None, []), s)
      else let q = c_str ftsQuery;
               (b1, s1) = fts_block ''SearchLongTermMemory::fts_summaries''
                            (fts_summary_rows fts q (sr_agentId req) (sr_sessionId req) limit d) s
      in case b1 of Inl e \<Rightarrow> ((Some e, []), s1) | Inr None \<Rightarrow> ((None, []), s1) | Inr (Some rows1) \<Rightarrow>
         (let hits1 = map (\<lambda>p. ApplyFtsScore (snd p) (summary_hit J (fst p))) rows1;
              (b2, s2) = fts_block ''SearchLongTermMemory::fts_entities''
                           (fts_entity_rows fts q (sr_agentId req) limit d) s1
          in case b2 of Inl e \<Rightarrow> ((Some e, hits1), s2) | Inr None \<Rightarrow> ((None, []), s2) | Inr (Some rows2) \<Rightarrow>
         (let hits2 = hits1 @ map (\<lambda>p. ApplyFtsScore (snd p) (entity_hit J (fst p))) rows2;
              (b3, s3) = fts_block ''SearchLongTermMemory::fts_relations''
                           (fts_relation_rows fts q (sr_agentId req) limit d) s2
          in case b3 of Inl e \<Rightarrow> ((Some e, hits2), s3) | Inr None \<Rightarrow> ((None, []), s3) | Inr (Some rows3) \<Rightarrow>
             ((None, hits2 @ map (\<lambda>p. ApplyFtsScore (snd p) (relation_hit J (fst p))) rows3), s3))))"

section \<open>The \<open>LIKE\<close> stage\<close>

definition like_summary_rows :: "string \<Rightarrow> string \<Rightarrow> string \<Rightarrow> nat \<Rightarrow> database \<Rightarrow> summary_row list" where
  "like_summary_rows pat agentId sessionId limit d =
     take limit (order_desc (\<lambda>r. (smr_updated_at r, smr_id r))
       (filter (\<lambda>r. in_scope agentId sessionId (smr_agent r) (smr_session r) \<and>
                    (like_match pat (smr_topic r) \<or> like_match pat (smr_summary r))) (t_summaries d)))"

definition like_entity_rows :: "string \<Rightarrow> string \<Rightarrow> nat \<Rightarrow> database \<Rightarrow> entity_row list" where
  "like_entity_rows pat agentId limit d =
     take limit (order_desc enr_updated_at
       (filter (\<lambda>r. enr_active r \<and> enr_agent r = c_str agentId \<and>
                    (like_match pat (enr_id r) \<or> like_match pat (enr_type r) \<or> like_match pat (enr_name r) \<or>
                     like_match pat (enr_summary r))) (t_entities d)))"

definition like_relation_rows :: "string \<Rightarrow> string \<Rightarrow> nat \<Rightarrow> database \<Rightarrow> relation_row list" where
  "like_relation_rows pat agentId limit d =
     take limit (order_desc (\<lambda>r. (rlr_updated_at r, rlr_id r))
       (filter (\<lambda>r. rlr_active r \<and> rlr_agent r = c_str agentId \<and>
                    (like_match pat (rlr_from r) \<or> like_match pat (rlr_relation r) \<or> like_match pat (rlr_to r)))
          (t_relations d)))"

definition SearchLike ::
  "json_lib \<Rightarrow> MemorySearchRequest \<Rightarrow> nat \<Rightarrow> database \<Rightarrow> store \<Rightarrow>
   (MemoryError option \<times> MemorySearchHit list) \<times> store" where
  "SearchLike J req limit d s =
     (let pat = c_str (''%'' @ EscapeLikePattern (sr_query req) @ ''%'');
          ((e1, rows1), s1) = snapshot_block ''SearchLongTermMemory::like_summaries''
                                (like_summary_rows pat (sr_agentId req) (sr_sessionId req) limit d) s;
          hits1 = map (\<lambda>r. ApplyFallbackScore (summary_hit J r)) rows1
      in case e1 of Some e \<Rightarrow> ((Some e, hits1), s1) | None \<Rightarrow>
     (let ((e2, rows2), s2) = snapshot_block ''SearchLongTermMemory::like_entities''
                                (like_entity_rows pat (sr_agentId req) limit d) s1;
          hits2 = hits1 @ map (\<lambda>r. ApplyFallbackScore (entity_hit J r)) rows2
      in case e2 of Some e \<Rightarrow> ((Some e, hits2), s2) | None \<Rightarrow>
     (let ((e3, rows3), s3) = snapshot_block ''SearchLongTermMemory::like_relations''
                                (like_relation_rows pat (sr_agentId req) limit d) s2;
          hits3 = hits2 @ map (\<lambda>r. ApplyFallbackScore (relation_hit J r)) rows3
      in ((e3, hits3), s3))))"

definition SearchLongTermMemory ::
  "json_lib \<Rightarrow> fts_engine \<Rightarrow> MemorySearchRequest \<Rightarrow> store \<Rightarrow> MemorySearchStoreResult \<times> store" where
  "SearchLongTermMemory J fts req s =
     (case s_db s of
        None \<Rightarrow> (failure_with [] store_unavailable, s)
      | Some d \<Rightarrow>
        if sr_query req = [] then (success_with [], s)
        else
          let limit = (if sr_limit req > 0 then sr_limit req else 10);
              ((e1, hits1), s1) = SearchFts J fts req (Fts5EscapeQuery (sr_query req)) (nat limit) d s
          in case e1 of
               Some e \<Rightarrow> (failure_with hits1 e, s1)
             | None \<Rightarrow>
                 (let ((e2, hits2), s2) =
                        (if hits1 = [] then SearchLike J req (nat limit) d s1 else ((None, hits1), s1))
                  in case e2 of
                       Some e \<Rightarrow> (failure_with hits2 e, s2)
                     | None \<Rightarrow> (success_with (SortAndLimitSearchResults hits2 limit), s2)))"

section \<open>Laws of the escapes\<close>

lemma like_match_percent: "like_match (CHR ''%'' # ps) t \<longleftrightarrow> (\<exists>u v. t = u @ v \<and> like_match ps v)"
proof (induction t)
  case Nil
  then show ?case by simp
next
  case (Cons c cs)
  have "like_match (CHR ''%'' # ps) (c # cs) \<longleftrightarrow> like_match ps (c # cs) \<or> like_match (CHR ''%'' # ps) cs"
    by simp
  also have "\<dots> \<longleftrightarrow> (\<exists>u v. c # cs = u @ v \<and> like_match ps v)"
    unfolding Cons.IH by (metis append_Cons append_Nil append_eq_Cons_conv)
  finally show ?case .
qed

lemma like_match_escape:
  "like_match (EscapeLikePattern q @ ps) t \<longleftrightarrow>
   (\<exists>u v. t = u @ v \<and> map tolower u = map tolower q \<and> like_match ps v)"
proof (induction q arbitrary: t)
  case Nil
  then show ?case by simp
next
  case (Cons ch q)
  have split: "(\<exists>u v. t = u @ v \<and> map tolower u = map tolower (ch # q) \<and> like_match ps v) \<longleftrightarrow>
      (\<exists>c cs. t = c # cs \<and> tolower ch = tolower c \<and>
        (\<exists>u v. cs = u @ v \<and> map tolower u = map tolower q \<and> like_match ps v))"
    by (auto simp: map_eq_Cons_conv append_eq_Cons_conv Cons_eq_append_conv) metis+
  show ?case
    unfolding split Cons.IH [symmetric] by (cases t) auto
qed

lemma like_contains_pattern:
  "like_match (''%'' @ EscapeLikePattern q @ ''%'') t \<longleftrightarrow> sublist (map tolower q) (map tolower t)"
proof -
  have all: "like_match ''%'' v" for v
    using like_match_percent [of "[]" v] by auto
  have esc: "like_match (EscapeLikePattern q @ ''%'') v \<longleftrightarrow> (\<exists>x w. v = x @ w \<and> map tolower x = map tolower q)" for v
    by (simp only: like_match_escape all simp_thms)
  have "like_match (''%'' @ EscapeLikePattern q @ ''%'') t \<longleftrightarrow>
      (\<exists>u v. t = u @ v \<and> like_match (EscapeLikePattern q @ ''%'') v)"
    unfolding append_Cons append_Nil by (rule like_match_percent)
  also have "\<dots> \<longleftrightarrow> (\<exists>u v w. t = u @ v @ w \<and> map tolower v = map tolower q)"
    unfolding esc by blast
  also have "\<dots> \<longleftrightarrow> sublist (map tolower q) (map tolower t)"
  proof
    assume "\<exists>u v w. t = u @ v @ w \<and> map tolower v = map tolower q"
    then obtain u v w where "t = u @ v @ w" "map tolower v = map tolower q" by blast
    then show "sublist (map tolower q) (map tolower t)"
      by (auto simp: sublist_def intro: exI [of _ "map tolower u"] exI [of _ "map tolower w"])
  next
    assume "sublist (map tolower q) (map tolower t)"
    then obtain u w where "map tolower t = u @ map tolower q @ w" by (auto simp: sublist_def)
    then obtain a b c where "t = a @ b @ c" "map tolower b = map tolower q"
      by (metis (no_types, lifting) append_eq_map_conv)
    then show "\<exists>u v w. t = u @ v @ w \<and> map tolower v = map tolower q" by blast
  qed
  finally show ?thesis .
qed

lemma EscapeLikePattern_nul_free: "nul_free q \<Longrightarrow> nul_free (EscapeLikePattern q)"
  by (induction q) (auto simp: nul_free_def)

lemma like_bound_pattern:
  assumes "nul_free q"
  shows "like_match (c_str (''%'' @ EscapeLikePattern q @ ''%'')) t \<longleftrightarrow> sublist (map tolower q) (map tolower t)"
proof -
  have pat: "nul_free (''%'' @ EscapeLikePattern q @ ''%'')"
    using EscapeLikePattern_nul_free [OF assms] by (auto simp: nul_free_def)
  show ?thesis unfolding c_str_nul_free [OF pat] by (rule like_contains_pattern)
qed

text \<open>Bytes the full-text engine is given, and where a star may stand.\<close>

definition fts_safe :: "char \<Rightarrow> bool" where
  "fts_safe c = (isalnum c \<or> c = CHR ''_'' \<or> isspace c \<or> 128 \<le> code_of c)"

definition star_rule :: "string \<Rightarrow> bool" where
  "star_rule s =
     (\<forall>i < length s. s ! i = CHR ''*'' \<longrightarrow> 0 < i \<and> (isalnum (s ! (i - 1)) \<or> s ! (i - 1) = CHR ''_''))"

lemma star_not_safe: "\<not> fts_safe (CHR ''*'')"
  by code_simp

lemma star_rule_snoc:
  "star_rule s \<Longrightarrow> (c = CHR ''*'' \<Longrightarrow> s \<noteq> [] \<and> (isalnum (last s) \<or> last s = CHR ''_'')) \<Longrightarrow> star_rule (s @ [c])"
  by (auto simp: star_rule_def nth_append less_Suc_eq last_conv_nth)

definition fts_keep :: "string \<Rightarrow> char \<Rightarrow> bool" where
  "fts_keep acc c = (fts_safe c \<or> (c = CHR ''*'' \<and> acc \<noteq> [] \<and> (isalnum (hd acc) \<or> hd acc = CHR ''_'')))"

lemma fts_escape_loop_Cons:
  "fts_escape_loop acc (c # cs) = fts_escape_loop (if fts_keep acc c then c # acc else acc) cs"
  by (cases acc) (auto simp: fts_keep_def fts_safe_def)

lemma fts_escape_loop_ok: "star_rule (rev acc) \<Longrightarrow> star_rule (fts_escape_loop acc cs)"
proof (induction cs arbitrary: acc)
  case (Cons c cs)
  have "star_rule (rev acc @ [c])" if "fts_keep acc c"
    using Cons.prems by (rule star_rule_snoc) (use that star_not_safe in \<open>auto simp: fts_keep_def last_rev\<close>)
  then show ?case
    unfolding fts_escape_loop_Cons using Cons by (intro Cons.IH) simp
qed simp

lemma set_fts_escape_loop:
  "set (fts_escape_loop acc cs) \<subseteq> set acc \<union> {c. fts_safe c \<or> c = CHR ''*''}"
proof (induction cs arbitrary: acc)
  case (Cons c cs)
  have "set (if fts_keep acc c then c # acc else acc) \<subseteq> set acc \<union> {c. fts_safe c \<or> c = CHR ''*''}"
    by (auto simp: fts_keep_def)
  then show ?case unfolding fts_escape_loop_Cons using Cons.IH by blast
qed simp

lemma fts_escape_loop_keeps: "{c \<in> set cs. fts_safe c} \<union> set acc \<subseteq> set (fts_escape_loop acc cs)"
proof (induction cs arbitrary: acc)
  case (Cons d cs)
  have "{c \<in> set (d # cs). fts_safe c} \<union> set acc \<subseteq>
      {c \<in> set cs. fts_safe c} \<union> set (if fts_keep acc d then d # acc else acc)"
    by (auto simp: fts_keep_def)
  then show ?case unfolding fts_escape_loop_Cons using Cons.IH by blast
qed simp

lemma Fts5EscapeQuery_loop: "Fts5EscapeQuery q = fts_escape_loop [] q"
proof (cases "fts_escape_loop [] q = []")
  case True
  have "\<not> isalnum c \<and> c \<noteq> CHR ''_'' \<and> c \<noteq> CHR '' ''" if "c \<in> set q" for c
    using fts_escape_loop_keeps [of q "[]"] True that by (auto simp: fts_safe_def isspace_def code_of_def)
  with True show ?thesis by (auto simp: Fts5EscapeQuery_def filter_empty_conv)
qed (simp add: Fts5EscapeQuery_def)

section \<open>Laws of the search\<close>

lemma fts_block_read: "fts_block ctx rows s = (b, s') \<Longrightarrow>
   read_step s s' \<and> (\<forall>rs. b = Inr (Some rs) \<longrightarrow> rows = Some rs) \<and> (\<forall>e. b = Inl e \<longrightarrow> HasError e)"
proof -
  assume a: "fts_block ctx rows s = (b, s')"
  obtain k s1 where n: "next_ok s = (k, s1)" by fastforce
  obtain k2 s2 where n2: "next_ok s1 = (k2, s2)" by fastforce
  have r: "read_step s s1" "read_step s s2"
    using next_ok_read [OF n] next_ok_read [OF n2] read_step_trans by blast+
  show ?thesis
  proof (cases "k \<and> rows \<noteq> None")
    case True
    then obtain rs where rs: "rows = Some rs" by auto
    obtain k3 rs' s3 where f: "fetch rs s1 = (k3, rs', s3)" by (metis prod_cases3)
    have "read_step s s3" "k3 \<longrightarrow> rs' = rs"
      using fetch_read [OF f] r(1) read_step_trans by blast+
    with True rs f a n show ?thesis by (auto simp: fts_block_def split: if_splits)
  next
    case False
    with a n n2 r show ?thesis by (auto simp: fts_block_def sqlite_error_def split: if_splits option.splits)
  qed
qed

lemma snapshot_block_rows: "snapshot_block ctx rows s = ((e, rs), s') \<Longrightarrow>
   read_step s s' \<and> prefix rs rows \<and> (e = None \<longrightarrow> rs = rows) \<and> (\<forall>x. e = Some x \<longrightarrow> HasError x)"
proof -
  assume a: "snapshot_block ctx rows s = ((e, rs), s')"
  obtain k s1 where n: "next_ok s = (k, s1)" by fastforce
  obtain k2 rs2 s2 where f: "fetch rows s1 = (k2, rs2, s2)" by (metis prod_cases3)
  have "prefix rs2 rows" "k2 \<longrightarrow> rs2 = rows" using fetch_read [OF f] by blast+
  with a n f snapshot_block_read [OF a] show ?thesis
    by (auto simp: snapshot_block_def sqlite_error_def split: if_splits)
qed

text \<open>
  Where a hit may come from: a summary in the requested scope, or an active entity or relation of
  the requested agent.
\<close>

definition hit_from :: "json_lib \<Rightarrow> MemorySearchRequest \<Rightarrow> database \<Rightarrow> MemorySearchHit \<Rightarrow> bool" where
  "hit_from J req d h =
     ((\<exists>r\<in>set (t_summaries d). in_scope (sr_agentId req) (sr_sessionId req) (smr_agent r) (smr_session r) \<and>
          hit_id h = hit_id (summary_hit J r) \<and> hit_content h = hit_content (summary_hit J r) \<and> hit_type h = ''summary'') \<or>
      (\<exists>r\<in>set (t_entities d). enr_active r \<and> enr_agent r = c_str (sr_agentId req) \<and>
          hit_id h = hit_id (entity_hit J r) \<and> hit_content h = hit_content (entity_hit J r) \<and> hit_type h = ''entity'') \<or>
      (\<exists>r\<in>set (t_relations d). rlr_active r \<and> rlr_agent r = c_str (sr_agentId req) \<and>
          hit_id h = hit_id (relation_hit J r) \<and> hit_content h = hit_content (relation_hit J r) \<and> hit_type h = ''relation''))"

lemma score_simps [simp]:
  "hit_id (ApplyFtsScore k h) = hit_id h" "hit_type (ApplyFtsScore k h) = hit_type h"
  "hit_content (ApplyFtsScore k h) = hit_content h"
  "hit_id (ApplyFallbackScore h) = hit_id h" "hit_type (ApplyFallbackScore h) = hit_type h"
  "hit_content (ApplyFallbackScore h) = hit_content h"
  by (simp_all add: ApplyFtsScore_def ApplyFallbackScore_def Let_def)

lemma hit_type_simps [simp]:
  "hit_type (summary_hit J r) = ''summary''" "hit_type (entity_hit J e) = ''entity''"
  "hit_type (relation_hit J l) = ''relation''"
  by (simp_all add: summary_hit_def entity_hit_def relation_hit_def)

lemma hit_id_simps:
  "hit_id (summary_hit J r) = ''summary:'' @ to_string (i32 (smr_id r))" "hit_id (entity_hit J e) = enr_id e"
  "hit_id (relation_hit J l) = ''relation:'' @ to_string (i32 (rlr_id l))"
  by (simp_all add: summary_hit_def entity_hit_def relation_hit_def)

lemma hit_fromI:
  "r \<in> set (t_summaries d) \<Longrightarrow> in_scope (sr_agentId req) (sr_sessionId req) (smr_agent r) (smr_session r) \<Longrightarrow>
   hit_from J req d (ApplyFtsScore k (summary_hit J r)) \<and> hit_from J req d (ApplyFallbackScore (summary_hit J r))"
  "e \<in> set (t_entities d) \<Longrightarrow> enr_active e \<Longrightarrow> enr_agent e = c_str (sr_agentId req) \<Longrightarrow>
   hit_from J req d (ApplyFtsScore k (entity_hit J e)) \<and> hit_from J req d (ApplyFallbackScore (entity_hit J e))"
  "l \<in> set (t_relations d) \<Longrightarrow> rlr_active l \<Longrightarrow> rlr_agent l = c_str (sr_agentId req) \<Longrightarrow>
   hit_from J req d (ApplyFtsScore k (relation_hit J l)) \<and> hit_from J req d (ApplyFallbackScore (relation_hit J l))"
  unfolding hit_from_def by (auto; blast)+

lemma set_join_matches: "p \<in> set (join_matches f ms rs) \<Longrightarrow> fst p \<in> set rs"
  by (induction rs) (auto split: option.splits)

lemma fts_rows_scope:
  "fts_summary_rows fts q a ss n d = Some rows1 \<Longrightarrow> p1 \<in> set rows1 \<Longrightarrow>
   fst p1 \<in> set (t_summaries d) \<and> in_scope a ss (smr_agent (fst p1)) (smr_session (fst p1))"
  "fts_entity_rows fts q a n d = Some rows2 \<Longrightarrow> p2 \<in> set rows2 \<Longrightarrow>
   fst p2 \<in> set (t_entities d) \<and> enr_active (fst p2) \<and> enr_agent (fst p2) = c_str a"
  "fts_relation_rows fts q a n d = Some rows3 \<Longrightarrow> p3 \<in> set rows3 \<Longrightarrow>
   fst p3 \<in> set (t_relations d) \<and> rlr_active (fst p3) \<and> rlr_agent (fst p3) = c_str a"
  unfolding fts_summary_rows_def fts_entity_rows_def fts_relation_rows_def
  by (auto dest!: in_set_takeD set_join_matches)

lemma fts_rows_length:
  "fts_summary_rows fts q a ss n d = Some rows1 \<Longrightarrow> length rows1 \<le> n"
  "fts_entity_rows fts q a n d = Some rows2 \<Longrightarrow> length rows2 \<le> n"
  "fts_relation_rows fts q a n d = Some rows3 \<Longrightarrow> length rows3 \<le> n"
  unfolding fts_summary_rows_def fts_entity_rows_def fts_relation_rows_def by auto

lemma like_rows_length:
  "length (like_summary_rows pat a ss n d) \<le> n" "length (like_entity_rows pat a n d) \<le> n"
  "length (like_relation_rows pat a n d) \<le> n"
  unfolding like_summary_rows_def like_entity_rows_def like_relation_rows_def by auto

lemma like_rows_scope:
  "r \<in> set (like_summary_rows pat a ss n d) \<Longrightarrow>
   r \<in> set (t_summaries d) \<and> in_scope a ss (smr_agent r) (smr_session r)"
  "e \<in> set (like_entity_rows pat a n d) \<Longrightarrow> e \<in> set (t_entities d) \<and> enr_active e \<and> enr_agent e = c_str a"
  "l \<in> set (like_relation_rows pat a n d) \<Longrightarrow> l \<in> set (t_relations d) \<and> rlr_active l \<and> rlr_agent l = c_str a"
  unfolding like_summary_rows_def like_entity_rows_def like_relation_rows_def
  by (auto dest!: in_set_takeD)

lemma SearchFts_law:
  assumes "SearchFts J fts req q n d s = ((e, hits), s')"
  shows "read_step s s' \<and> (\<forall>h\<in>set hits. hit_from J req d h) \<and> (\<forall>x. e = Some x \<longrightarrow> HasError x)"
proof (cases "q = []")
  case True
  with assms show ?thesis by (simp add: SearchFts_def)
next
  case False
  let ?q = "c_str q"
  obtain b1 s1 where 1: "fts_block ''SearchLongTermMemory::fts_summaries''
      (fts_summary_rows fts ?q (sr_agentId req) (sr_sessionId req) n d) s = (b1, s1)" by fastforce
  obtain b2 s2 where 2: "fts_block ''SearchLongTermMemory::fts_entities''
      (fts_entity_rows fts ?q (sr_agentId req) n d) s1 = (b2, s2)" by fastforce
  obtain b3 s3 where 3: "fts_block ''SearchLongTermMemory::fts_relations''
      (fts_relation_rows fts ?q (sr_agentId req) n d) s2 = (b3, s3)" by fastforce
  note l1 = fts_block_read [OF 1] and l2 = fts_block_read [OF 2] and l3 = fts_block_read [OF 3]
  have r: "read_step s s1" "read_step s s2" "read_step s s3"
    using l1 l2 l3 read_step_trans by blast+
  have h: "\<forall>h\<in>set (map (\<lambda>p. ApplyFtsScore (snd p) (summary_hit J (fst p))) rows1). hit_from J req d h"
      if "b1 = Inr (Some rows1)" for rows1
    using l1 that fts_rows_scope(1) hit_fromI(1) by fastforce
  have h2: "\<forall>h\<in>set (map (\<lambda>p. ApplyFtsScore (snd p) (entity_hit J (fst p))) rows2). hit_from J req d h"
      if "b2 = Inr (Some rows2)" for rows2
    using l2 that fts_rows_scope(2) hit_fromI(2) by fastforce
  have h3: "\<forall>h\<in>set (map (\<lambda>p. ApplyFtsScore (snd p) (relation_hit J (fst p))) rows3). hit_from J req d h"
      if "b3 = Inr (Some rows3)" for rows3
    using l3 that fts_rows_scope(3) hit_fromI(3) by fastforce
  note un = assms [unfolded SearchFts_def if_not_P [OF False] Let_def 1 2 3 prod.case]
  have e: "\<forall>x. b1 = Inl x \<longrightarrow> HasError x" "\<forall>x. b2 = Inl x \<longrightarrow> HasError x" "\<forall>x. b3 = Inl x \<longrightarrow> HasError x"
    using l1 l2 l3 by blast+
  from un r h h2 h3 e show ?thesis
    by (simp split: sum.splits option.splits) (elim exE conjE disjE; fastforce)+
qed

lemma fts_block_length:
  "fts_block ctx rows s = (Inr (Some rs), s') \<Longrightarrow> (\<And>rs. rows = Some rs \<Longrightarrow> length rs \<le> n) \<Longrightarrow> length rs \<le> n"
  using fts_block_read by blast

lemma SearchFts_length:
  assumes "SearchFts J fts req q n d s = ((e, hits), s')"
  shows "length hits \<le> 3 * n"
  using assms unfolding SearchFts_def Let_def
  by (auto split: if_splits prod.splits sum.splits option.splits
      dest!: fts_block_length [OF _ fts_rows_length(1)] fts_block_length [OF _ fts_rows_length(2)]
        fts_block_length [OF _ fts_rows_length(3)])

lemma SearchLike_law:
  assumes "SearchLike J req n d s = ((e, hits), s')"
  shows "read_step s s' \<and> (\<forall>h\<in>set hits. hit_from J req d h) \<and> (\<forall>x. e = Some x \<longrightarrow> HasError x) \<and>
    (e = None \<longrightarrow>
      hits = (let pat = c_str (''%'' @ EscapeLikePattern (sr_query req) @ ''%'') in
        map (\<lambda>r. ApplyFallbackScore (summary_hit J r)) (like_summary_rows pat (sr_agentId req) (sr_sessionId req) n d) @
        map (\<lambda>r. ApplyFallbackScore (entity_hit J r)) (like_entity_rows pat (sr_agentId req) n d) @
        map (\<lambda>r. ApplyFallbackScore (relation_hit J r)) (like_relation_rows pat (sr_agentId req) n d)))"
proof -
  let ?pat = "c_str (''%'' @ EscapeLikePattern (sr_query req) @ ''%'')"
  obtain e1 rs1 s1 where 1: "snapshot_block ''SearchLongTermMemory::like_summaries''
      (like_summary_rows ?pat (sr_agentId req) (sr_sessionId req) n d) s = ((e1, rs1), s1)" by (metis surj_pair)
  obtain e2 rs2 s2 where 2: "snapshot_block ''SearchLongTermMemory::like_entities''
      (like_entity_rows ?pat (sr_agentId req) n d) s1 = ((e2, rs2), s2)" by (metis surj_pair)
  obtain e3 rs3 s3 where 3: "snapshot_block ''SearchLongTermMemory::like_relations''
      (like_relation_rows ?pat (sr_agentId req) n d) s2 = ((e3, rs3), s3)" by (metis surj_pair)
  note l1 = snapshot_block_rows [OF 1] and l2 = snapshot_block_rows [OF 2] and l3 = snapshot_block_rows [OF 3]
  have r: "read_step s s1" "read_step s s2" "read_step s s3"
    using l1 l2 l3 read_step_trans by blast+
  have h1: "\<forall>h\<in>set (map (\<lambda>r. ApplyFallbackScore (summary_hit J r)) rs1). hit_from J req d h"
    using l1 set_mono_prefix like_rows_scope(1) hit_fromI(1) by fastforce
  have h2: "\<forall>h\<in>set (map (\<lambda>r. ApplyFallbackScore (entity_hit J r)) rs2). hit_from J req d h"
    using l2 set_mono_prefix like_rows_scope(2) hit_fromI(2) by fastforce
  have h3: "\<forall>h\<in>set (map (\<lambda>r. ApplyFallbackScore (relation_hit J r)) rs3). hit_from J req d h"
    using l3 set_mono_prefix like_rows_scope(3) hit_fromI(3) by fastforce
  note un = assms [unfolded SearchLike_def Let_def 1 2 3 prod.case]
  have e: "\<forall>x. e1 = Some x \<longrightarrow> HasError x" "\<forall>x. e2 = Some x \<longrightarrow> HasError x" "\<forall>x. e3 = Some x \<longrightarrow> HasError x"
      "e1 = None \<longrightarrow> rs1 = like_summary_rows ?pat (sr_agentId req) (sr_sessionId req) n d"
      "e2 = None \<longrightarrow> rs2 = like_entity_rows ?pat (sr_agentId req) n d"
      "e3 = None \<longrightarrow> rs3 = like_relation_rows ?pat (sr_agentId req) n d"
    using l1 l2 l3 by blast+
  show ?thesis
  proof (cases "e1 = None \<and> e2 = None")
    case True
    then have "e = e3" "s' = s3" "hits = map (\<lambda>r. ApplyFallbackScore (summary_hit J r)) rs1 @
        map (\<lambda>r. ApplyFallbackScore (entity_hit J r)) rs2 @ map (\<lambda>r. ApplyFallbackScore (relation_hit J r)) rs3"
      using un by auto
    with True r h1 h2 h3 e show ?thesis by (simp only: Let_def set_append ball_Un) blast
  next
    case False
    then show ?thesis using un r h1 h2 e by (cases e1; cases e2) auto
  qed
qed

lemma SearchLongTermMemory_read: "SearchLongTermMemory J fts req s = (r, s') \<Longrightarrow> read_step s s'"
proof (cases "s_db s")
  case (Some d)
  assume a: "SearchLongTermMemory J fts req s = (r, s')"
  let ?n = "nat (if sr_limit req > 0 then sr_limit req else 10)"
  obtain e1 h1 s1 where 1: "SearchFts J fts req (Fts5EscapeQuery (sr_query req)) ?n d s = ((e1, h1), s1)"
    by (metis surj_pair)
  obtain e2 h2 s2 where 2: "SearchLike J req ?n d s1 = ((e2, h2), s2)" by (metis surj_pair)
  have "read_step s s1" "read_step s s2"
    using SearchFts_law [OF 1] SearchLike_law [OF 2] read_step_trans by blast+
  then show ?thesis
    using a Some 1 2 by (auto simp: SearchLongTermMemory_def Let_def split: if_splits option.splits)
qed (simp add: SearchLongTermMemory_def)

lemma set_SortAndLimit: "set (SortAndLimitSearchResults hits n) \<subseteq> set hits"
  by (auto simp: SortAndLimitSearchResults_def Let_def dest: in_set_takeD)

lemma SortAndLimit_sorted:
  "sorted_wrt (\<lambda>x y. hit_score y \<le> hit_score x) (SortAndLimitSearchResults hits n)"
proof -
  have "sorted_wrt (\<lambda>x y. (- hit_score x, hit_id x) \<le> (- hit_score y, hit_id y))
      (sort_key (\<lambda>h. (- hit_score h, hit_id h)) hits)"
    using sorted_sort_key [of "\<lambda>h. (- hit_score h, hit_id h)" hits] by (simp add: sorted_map)
  then have "sorted_wrt (\<lambda>x y. hit_score y \<le> hit_score x) (sort_key (\<lambda>h. (- hit_score h, hit_id h)) hits)"
    by (rule sorted_wrt_mono_rel [rotated]) (auto simp: less_eq_prod_def)
  then show ?thesis by (simp add: SortAndLimitSearchResults_def Let_def sorted_wrt_take)
qed

lemma SortAndLimit_length:
  "0 < n \<Longrightarrow> int (length hits) \<le> INT_MAX \<Longrightarrow> int (length (SortAndLimitSearchResults hits n)) \<le> n"
  by (auto simp: SortAndLimitSearchResults_def Let_def i32_id int_limits)

lemma SortAndLimit_all:
  "int (length hits) \<le> n \<Longrightarrow> n \<le> INT_MAX \<Longrightarrow> set (SortAndLimitSearchResults hits n) = set hits"
  by (auto simp: SortAndLimitSearchResults_def Let_def i32_id int_limits)

text \<open>With a limit that is not smaller than the table, every matching row is found.\<close>

lemma like_rows_all:
  "length (t_summaries d) \<le> n \<Longrightarrow> set (like_summary_rows pat a ss n d) =
     {x \<in> set (t_summaries d). in_scope a ss (smr_agent x) (smr_session x) \<and>
       (like_match pat (smr_topic x) \<or> like_match pat (smr_summary x))}"
  "length (t_entities d) \<le> n \<Longrightarrow> set (like_entity_rows pat a n d) =
     {x \<in> set (t_entities d). enr_active x \<and> enr_agent x = c_str a \<and>
       (like_match pat (enr_id x) \<or> like_match pat (enr_type x) \<or> like_match pat (enr_name x) \<or> like_match pat (enr_summary x))}"
  "length (t_relations d) \<le> n \<Longrightarrow> set (like_relation_rows pat a n d) =
     {x \<in> set (t_relations d). rlr_active x \<and> rlr_agent x = c_str a \<and>
       (like_match pat (rlr_from x) \<or> like_match pat (rlr_relation x) \<or> like_match pat (rlr_to x))}"
  unfolding like_summary_rows_def like_entity_rows_def like_relation_rows_def
  by (simp_all add: order_trans [OF length_filter_le] del: like_match.simps)

lemma like_rows_table:
  "length (like_summary_rows pat a ss n d) \<le> length (t_summaries d)"
  "length (like_entity_rows pat a n d) \<le> length (t_entities d)"
  "length (like_relation_rows pat a n d) \<le> length (t_relations d)"
  unfolding like_summary_rows_def like_entity_rows_def like_relation_rows_def
  by (simp_all add: min.coboundedI1)

section \<open>Properties\<close>

text \<open>
  The \<open>LIKE\<close> pattern built from a query matches a text exactly when the query occurs in it as
  written, ASCII case ignored: no character of the query acts as a wildcard or as an escape.
\<close>

theorem like_pattern_is_substring:
  assumes "nul_free q"
  shows "like_match (c_str (''%'' @ EscapeLikePattern q @ ''%'')) t \<longleftrightarrow> sublist (map tolower q) (map tolower t)"
  using assms by (rule like_bound_pattern)

theorem like_pattern_is_substring_witness:
  "\<not> like_match (c_str (''%'' @ EscapeLikePattern ''50%'' @ ''%'')) ''500 units'' \<and>
   like_match (c_str (''%'' @ EscapeLikePattern ''50%'' @ ''%'')) ''at 50% now''"
proof -
  have "nul_free ''50%''" by (simp add: nul_free_def)
  note law = like_pattern_is_substring [OF this]
  have "str_contains (map tolower ''50%'') (map tolower ''at 50% now'')"
    "\<not> str_contains (map tolower ''50%'') (map tolower ''500 units'')" by code_simp+
  then show ?thesis using law by (simp add: str_contains_iff)
qed

text \<open>
  The query handed to the full-text engine consists of letters, digits, underscores, white
  space, bytes of multi-byte characters and stars; a star only follows a letter, a digit or an
  underscore; every such character of the original other than stars is kept; and the second loop
  of the function never contributes anything.
\<close>

theorem Fts5EscapeQuery_safe:
  "(\<forall>c\<in>set (Fts5EscapeQuery q). fts_safe c \<or> c = CHR ''*'') \<and> star_rule (Fts5EscapeQuery q) \<and>
   (\<forall>c\<in>set q. fts_safe c \<longrightarrow> c \<in> set (Fts5EscapeQuery q)) \<and> Fts5EscapeQuery q = fts_escape_loop [] q"
proof -
  have "star_rule (rev [])" by (simp add: star_rule_def)
  then show ?thesis
    unfolding Fts5EscapeQuery_loop
    using set_fts_escape_loop [of "[]" q] fts_escape_loop_ok [of "[]" q] fts_escape_loop_keeps [of q "[]"] by auto
qed

theorem Fts5EscapeQuery_safe_witness:
  "star_rule (Fts5EscapeQuery ''foo* AND (*bar)'') \<and> CHR ''f'' \<in> set (Fts5EscapeQuery ''foo* AND (*bar)'')"
proof -
  have "CHR ''f'' \<in> set ''foo* AND (*bar)''" "fts_safe (CHR ''f'')" by code_simp+
  then show ?thesis using Fts5EscapeQuery_safe [of "''foo* AND (*bar)''"] by blast
qed

lemma SearchLongTermMemory_success:
  assumes "SearchLongTermMemory J fts req s = (r, s')" "succeeded r" "sr_query req \<noteq> []"
  defines "n \<equiv> (if sr_limit req > 0 then sr_limit req else 10)"
  shows "\<exists>d hits. s_db s = Some d \<and> payload_of r = SortAndLimitSearchResults hits n \<and>
    (\<forall>h\<in>set hits. hit_from J req d h) \<and> int (length hits) \<le> 3 * n \<and>
    (Fts5EscapeQuery (sr_query req) = [] \<longrightarrow> (\<exists>t t'. SearchLike J req (nat n) d t = ((None, hits), t')))"
proof -
  obtain d where d: "s_db s = Some d" using assms(1,2) by (auto simp: SearchLongTermMemory_def split: option.splits)
  have pos: "0 < n" by (simp add: n_def)
  obtain e1 h1 s1 where 1: "SearchFts J fts req (Fts5EscapeQuery (sr_query req)) (nat n) d s = ((e1, h1), s1)"
    by (metis surj_pair)
  obtain e2 h2 s2 where 2: "SearchLike J req (nat n) d s1 = ((e2, h2), s2)" by (metis surj_pair)
  note un = assms(1) [unfolded SearchLongTermMemory_def d option.case if_not_P [OF assms(3)] n_def [symmetric] Let_def 1 prod.case]
  have e1: "e1 = None" using un assms(2) by (cases e1) auto
  show ?thesis
  proof (cases "h1 = []")
    case True
    have e2: "e2 = None" using un assms(2) e1 True 2 by (cases e2) auto
    then have "payload_of r = SortAndLimitSearchResults h2 n" using un e1 True 2 by auto
    moreover have "length h2 \<le> 3 * nat n"
    proof -
      let ?pat = "c_str (''%'' @ EscapeLikePattern (sr_query req) @ ''%'')"
      have "length h2 = length (like_summary_rows ?pat (sr_agentId req) (sr_sessionId req) (nat n) d) +
          length (like_entity_rows ?pat (sr_agentId req) (nat n) d) +
          length (like_relation_rows ?pat (sr_agentId req) (nat n) d)"
        using SearchLike_law [OF 2] e2 by (simp add: Let_def)
      then show ?thesis
        using like_rows_length(1) [of ?pat "sr_agentId req" "sr_sessionId req" "nat n" d]
          like_rows_length(2,3) [of ?pat "sr_agentId req" "nat n" d] by linarith
    qed
    ultimately show ?thesis using d SearchLike_law [OF 2] 2 e2 pos
      by (intro exI [of _ d] exI [of _ h2]) auto
  next
    case False
    then have "payload_of r = SortAndLimitSearchResults h1 n" using un e1 by auto
    moreover have "Fts5EscapeQuery (sr_query req) \<noteq> []" using False 1 by (auto simp: SearchFts_def)
    ultimately show ?thesis using d SearchFts_law [OF 1] SearchFts_length [OF 1] pos
      by (intro exI [of _ d] exI [of _ h1]) auto
  qed
qed

text \<open>
  C21: Whatever the full-text engine returns and whichever of the two stages answers, a successful
  search returns hits in order of decreasing score, at most as many as the limit asks for (10 when
  it is not positive), and each one renders a summary of the agent and session or an active entity
  or relation of the agent: no other agent's memory and nothing obsolete.
\<close>

theorem SearchLongTermMemory_scoped:
  assumes run: "SearchLongTermMemory J fts req s = (r, s')" "succeeded r"
    and small: "3 * sr_limit req \<le> INT_MAX"
  shows "\<exists>d. s_db s = Some d \<and> (\<forall>h\<in>set (payload_of r). hit_from J req d h) \<and>
    sorted_wrt (\<lambda>x y. hit_score y \<le> hit_score x) (payload_of r) \<and>
    int (length (payload_of r)) \<le> (if sr_limit req > 0 then sr_limit req else 10)"
proof (cases "sr_query req = []")
  case True
  then show ?thesis
    using run by (auto simp: SearchLongTermMemory_def split: option.splits)
next
  case False
  let ?n = "if sr_limit req > 0 then sr_limit req else 10"
  obtain d hits where d: "s_db s = Some d" "payload_of r = SortAndLimitSearchResults hits ?n"
      "\<forall>h\<in>set hits. hit_from J req d h" "int (length hits) \<le> 3 * ?n"
    using SearchLongTermMemory_success [OF run False] by blast
  have "int (length hits) \<le> INT_MAX" using d(4) small by (auto simp: int_limits split: if_splits)
  then have "int (length (payload_of r)) \<le> ?n" unfolding d(2) by (intro SortAndLimit_length) auto
  then show ?thesis
    using d set_SortAndLimit SortAndLimit_sorted by (metis (no_types, lifting) subsetD)
qed

definition search_store :: store where
  "search_store = (new_store empty_database)\<lparr>s_db := Some (empty_database\<lparr>t_summaries :=
     [\<lparr>smr_id = 1, smr_agent = ''a'', smr_session = ''s'', smr_level = ''topic'', smr_topic = ''auto'',
       smr_summary = ''C++ and %'', smr_source_refs_json = [], smr_confidence = 1 / 2, smr_updated_at = []\<rparr>]\<rparr>)\<rparr>"

definition search_request :: MemorySearchRequest where
  "search_request = \<lparr>sr_agentId = ''a'', sr_sessionId = [], sr_query = ''%'', sr_limit = 5,
     sr_includeSections = [], sr_metadata = JObj []\<rparr>"

lemma search_run:
  "SearchLongTermMemory (table_lib []) (\<lambda>_ _. None) search_request search_store =
   (success_with (payload_of (fst (SearchLongTermMemory (table_lib []) (\<lambda>_ _. None) search_request search_store))), search_store)"
  by code_simp

theorem SearchLongTermMemory_scoped_witness:
  "\<exists>d hits. s_db search_store = Some d \<and>
     SearchLongTermMemory (table_lib []) (\<lambda>_ _. None) search_request search_store = (success_with hits, search_store) \<and>
     (\<forall>h\<in>set hits. hit_from (table_lib []) search_request d h) \<and> length hits \<le> 5"
  using SearchLongTermMemory_scoped [OF search_run] search_run
  by (auto simp: search_request_def int_limits)

text \<open>
  A query the full-text stage cannot use at all (only punctuation) is answered by substring:
  when the limit is not smaller than the tables, the identifiers of the hits are exactly those of
  the rows in scope that contain the query, ASCII case ignored, in one of their searched columns.
\<close>

theorem SearchLongTermMemory_substring:
  assumes run: "SearchLongTermMemory J fts req s = (r, s')" "succeeded r"
    and query: "sr_query req \<noteq> []" "nul_free (sr_query req)" "Fts5EscapeQuery (sr_query req) = []"
    and db: "s_db s = Some d" and small: "3 * sr_limit req \<le> INT_MAX"
    and large: "int (length (t_summaries d) + length (t_entities d) + length (t_relations d)) \<le> sr_limit req"
  shows "hit_id ` set (payload_of r) =
    (let has = (\<lambda>t. sublist (map tolower (sr_query req)) (map tolower t)) in
     {''summary:'' @ to_string (i32 (smr_id x)) | x. x \<in> set (t_summaries d) \<and>
        in_scope (sr_agentId req) (sr_sessionId req) (smr_agent x) (smr_session x) \<and> (has (smr_topic x) \<or> has (smr_summary x))} \<union>
     {enr_id x | x. x \<in> set (t_entities d) \<and> enr_active x \<and> enr_agent x = c_str (sr_agentId req) \<and>
        (has (enr_id x) \<or> has (enr_type x) \<or> has (enr_name x) \<or> has (enr_summary x))} \<union>
     {''relation:'' @ to_string (i32 (rlr_id x)) | x. x \<in> set (t_relations d) \<and> rlr_active x \<and>
        rlr_agent x = c_str (sr_agentId req) \<and> (has (rlr_from x) \<or> has (rlr_relation x) \<or> has (rlr_to x))})"
proof -
  let ?n = "if sr_limit req > 0 then sr_limit req else 10"
  let ?pat = "c_str (''%'' @ EscapeLikePattern (sr_query req) @ ''%'')"
  obtain hits t t' where h: "payload_of r = SortAndLimitSearchResults hits ?n" "int (length hits) \<le> 3 * ?n"
      "SearchLike J req (nat ?n) d t = ((None, hits), t')"
    using SearchLongTermMemory_success [OF run query(1)] query(3) db by auto
  have lens: "length (t_summaries d) \<le> nat ?n" "length (t_entities d) \<le> nat ?n" "length (t_relations d) \<le> nat ?n"
    using large by auto
  have hits: "hits = map (\<lambda>r. ApplyFallbackScore (summary_hit J r)) (like_summary_rows ?pat (sr_agentId req) (sr_sessionId req) (nat ?n) d) @
      map (\<lambda>r. ApplyFallbackScore (entity_hit J r)) (like_entity_rows ?pat (sr_agentId req) (nat ?n) d) @
      map (\<lambda>r. ApplyFallbackScore (relation_hit J r)) (like_relation_rows ?pat (sr_agentId req) (nat ?n) d)"
    using SearchLike_law [OF h(3)] by (simp add: Let_def)
  have "length hits \<le> length (t_summaries d) + length (t_entities d) + length (t_relations d)"
    unfolding hits length_append length_map
    using like_rows_table(1) [of ?pat "sr_agentId req" "sr_sessionId req" "nat ?n" d]
      like_rows_table(2,3) [of ?pat "sr_agentId req" "nat ?n" d] by linarith
  then have "int (length hits) \<le> ?n" "?n \<le> INT_MAX" using large small by (auto simp: int_limits)
  then have "hit_id ` set (payload_of r) = hit_id ` set hits"
    unfolding h(1) by (simp only: SortAndLimit_all)
  also have "\<dots> = (hit_id \<circ> summary_hit J) ` set (like_summary_rows ?pat (sr_agentId req) (sr_sessionId req) (nat ?n) d) \<union>
      (hit_id \<circ> entity_hit J) ` set (like_entity_rows ?pat (sr_agentId req) (nat ?n) d) \<union>
      (hit_id \<circ> relation_hit J) ` set (like_relation_rows ?pat (sr_agentId req) (nat ?n) d)"
    unfolding hits set_append set_map image_Un image_image comp_def score_simps by (simp only: Un_assoc)
  finally show ?thesis
    unfolding Let_def like_rows_all(1) [OF lens(1)] like_rows_all(2) [OF lens(2)] like_rows_all(3) [OF lens(3)]
      like_bound_pattern [OF query(2)]
    by (simp only: comp_def hit_id_simps setcompr_eq_image)
qed

theorem SearchLongTermMemory_substring_witness:
  "hit_id ` set (payload_of (fst (SearchLongTermMemory (table_lib []) (\<lambda>_ _. None) search_request search_store))) = {''summary:1''}"
proof -
  let ?r = "payload_of (fst (SearchLongTermMemory (table_lib []) (\<lambda>_ _. None) search_request search_store))"
  let ?d = "the (s_db search_store)"
  have pre: "sr_query search_request \<noteq> []" "nul_free (sr_query search_request)"
    "Fts5EscapeQuery (sr_query search_request) = []" "3 * sr_limit search_request \<le> INT_MAX"
    "int (length (t_summaries ?d) + length (t_entities ?d) + length (t_relations ?d)) \<le> sr_limit search_request"
    "s_db search_store = Some ?d" by code_simp+
  have d: "t_entities ?d = []" "t_relations ?d = []" "sr_query search_request = ''%''" "sr_agentId search_request = ''a''"
    "sr_sessionId search_request = []" by code_simp+
  have sub: "sublist ''%'' (map tolower ''C++ and %'')" "map tolower ''%'' = ''%''"
    unfolding str_contains_iff [symmetric] by code_simp+
  have one: "to_string (i32 1) = ''1''" "c_str ''a'' = ''a''" by code_simp+
  show ?thesis
    using SearchLongTermMemory_substring [OF search_run _ pre(1-3,6,4,5)]
    unfolding d Let_def sub(2)
    by (simp add: search_store_def new_store_def empty_database_def in_scope_def one sub(1) [unfolded list.map])
qed

end
