(* ===== verification/Utils.thy ===== *)
theory Utils
  imports Memory_Types
begin

text \<open>
  \<open>src/utils/string_util.cpp\<close>, and the extraction of white-space separated words that
  \<open>std::stringstream >> word\<close> performs.
\<close>

definition ToLower :: "string \<Rightarrow> string" where
  "ToLower value = map tolower value"

definition EqualsIgnoreCase :: "string \<Rightarrow> string \<Rightarrow> bool" where
  "EqualsIgnoreCase left right =
     (if length left \<noteq> length right then False else ToLower left = ToLower right)"

definition nl :: string where
  "nl = [CHR 0x0A]"

lemma length_words_rest:
  assumes "dropWhile isspace s \<noteq> []"
  shows "length (dropWhile (\<lambda>c. \<not> isspace c) (dropWhile isspace s)) < length s"
proof -
  let ?t = "dropWhile isspace s"
  have "\<not> isspace (hd ?t)" using assms by (rule hd_dropWhile)
  then have "dropWhile (\<lambda>c. \<not> isspace c) ?t = dropWhile (\<lambda>c. \<not> isspace c) (tl ?t)"
    using assms by (cases ?t) auto
  then have "length (dropWhile (\<lambda>c. \<not> isspace c) ?t) \<le> length (tl ?t)"
    by (metis length_dropWhile_le)
  also have "\<dots> < length ?t" using assms by (cases ?t) auto
  also have "\<dots> \<le> length s" by (rule length_dropWhile_le)
  finally show ?thesis .
qed

function words_of :: "string \<Rightarrow> string list" where
  "words_of s =
     (let t = dropWhile isspace s in
      if t = [] then []
      else takeWhile (\<lambda>c. \<not> isspace c) t # words_of (dropWhile (\<lambda>c. \<not> isspace c) t))"
  by pat_completeness auto

termination
  by (relation "measure length") (auto intro: length_words_rest)

declare words_of.simps [simp del]

lemma ToLower_Nil [simp]: "ToLower [] = []"
  by (simp add: ToLower_def)

lemma ToLower_append [simp]: "ToLower (s @ t) = ToLower s @ ToLower t"
  by (simp add: ToLower_def)

lemma ToLower_idem [simp]: "ToLower (ToLower s) = ToLower s"
  by (simp add: ToLower_def)

lemma length_ToLower [simp]: "length (ToLower s) = length s"
  by (simp add: ToLower_def)

lemma EqualsIgnoreCase_iff: "EqualsIgnoreCase s t \<longleftrightarrow> ToLower s = ToLower t"
  unfolding EqualsIgnoreCase_def by (metis length_ToLower)

text \<open>Words are not empty, hold no white space, and joined by blanks give the same words.\<close>

lemma words_of_word: "w \<in> set (words_of s) \<Longrightarrow> w \<noteq> [] \<and> (\<forall>c\<in>set w. \<not> isspace c)"
proof (induction s rule: words_of.induct)
  case (1 s)
  let ?t = "dropWhile isspace s"
  show ?case
  proof (cases "?t = []")
    case True
    with 1 show ?thesis by (subst (asm) words_of.simps) simp
  next
    case False
    then have hd: "\<not> isspace (hd ?t)" by (rule hd_dropWhile)
    have "w = takeWhile (\<lambda>c. \<not> isspace c) ?t \<or> w \<in> set (words_of (dropWhile (\<lambda>c. \<not> isspace c) ?t))"
      using 1(2) False unfolding words_of.simps [of s] Let_def by (auto split: if_splits)
    then show ?thesis
    proof
      assume "w = takeWhile (\<lambda>c. \<not> isspace c) ?t"
      moreover have "takeWhile (\<lambda>c. \<not> isspace c) ?t \<noteq> []" using False hd by (cases ?t) auto
      ultimately show ?thesis by (auto dest: set_takeWhileD)
    next
      assume "w \<in> set (words_of (dropWhile (\<lambda>c. \<not> isspace c) ?t))"
      then show ?thesis using 1(1) [OF refl False] by blast
    qed
  qed
qed

end
