(* ===== verification/Consolidation.thy ===== *)
theory Consolidation
  imports Event_Log Utils
begin

text \<open>
  Consolidating events into long-term memory (\<open>src/consolidation/\<close>): building the batch, the
  rule-based and the model-based processor, writing an update through a store transaction, and the
  service that ties them together. The model client is an interface whose implementations are
  elsewhere: a parameter that maps a prompt to its invocation result.
\<close>

section \<open>Data (long\_term\_memory\_processor.h, memory\_update\_writer.h, consolidation\_batch\_builder.h)\<close>

record LongTermMemoryBatch =
  lb_events :: "MemoryEvent list"
  lb_sourceRefs :: "string list"

record LongTermMemoryUpdate =
  lu_entities :: "MemoryEntity list"
  lu_relations :: "MemoryRelation list"
  lu_profileSummaries :: "string list"
  lu_topicSummaries :: "string list"

definition empty_update :: LongTermMemoryUpdate where
  "empty_update = \<lparr>lu_entities = [], lu_relations = [], lu_profileSummaries = [], lu_topicSummaries = []\<rparr>"

record MemoryUpdateWriteResult =
  mw_succeeded :: bool
  mw_savedSummaries :: int
  mw_savedEntities :: int
  mw_savedRelations :: int
  mw_error :: MemoryError

definition empty_write :: MemoryUpdateWriteResult where
  "empty_write =
     \<lparr>mw_succeeded = True, mw_savedSummaries = 0, mw_savedEntities = 0, mw_savedRelations = 0, mw_error = no_error\<rparr>"

record ConsolidationBatchBuildResult =
  bb_batch :: LongTermMemoryBatch
  bb_sessionId :: string
  bb_sessionSummary :: string
  bb_sessionSourceRefs :: "string list"
  bb_nextCursor :: string

text \<open>
  A model client is any object with a \<open>GenerateMemoryUpdate\<close>, which may return or throw.
\<close>

type_synonym model_client = "string \<Rightarrow> ModelInvokeResult outcome"

section \<open>consolidation\_batch\_builder.cpp\<close>

definition event_cursor :: "nat \<Rightarrow> MemoryEvent \<Rightarrow> string" where
  "event_cursor i event = (if ev_storeCursor event \<noteq> [] then ev_storeCursor event else to_string (int i + 1))"

definition batch_skips :: "MemoryConsolidationRequest \<Rightarrow> MemoryEvent \<Rightarrow> bool" where
  "batch_skips request event =
     ((cr_sessionId request \<noteq> [] \<and> ev_sessionId event \<noteq> cr_sessionId request) \<or>
      (cr_excludedSessionIds request \<noteq> [] \<and> ev_sessionId event \<in> set (cr_excludedSessionIds request)) \<or>
      ev_type event \<noteq> MESSAGE_APPENDED)"

text \<open>The loop: \<open>i\<close> the index of the next event, \<open>cnt\<close> (\<open>count\<close>) the events taken so far.\<close>

fun batch_loop ::
  "MemoryConsolidationRequest \<Rightarrow> int \<Rightarrow> nat \<Rightarrow> int \<Rightarrow> ConsolidationBatchBuildResult \<Rightarrow> MemoryEvent list \<Rightarrow>
   ConsolidationBatchBuildResult" where
  "batch_loop request limit i cnt result [] = result"
| "batch_loop request limit i cnt result (event # events) =
     (let eventCursor = event_cursor i event;
          result1 = result\<lparr>bb_nextCursor := eventCursor\<rparr>
      in if batch_skips request event then batch_loop request limit (i + 1) cnt result1 events
         else
           let result2 = result1\<lparr>
                 bb_sessionSummary := bb_sessionSummary result1 @ ev_role event @ '': '' @ ev_content event @ nl,
                 bb_batch := \<lparr>lb_events = lb_events (bb_batch result1) @ [event],
                              lb_sourceRefs = lb_sourceRefs (bb_batch result1) @
                                [''session://'' @ bb_sessionId result1 @ ''#event:'' @ eventCursor]\<rparr>\<rparr>
           in if limit > 0 \<and> cnt + 1 \<ge> limit then result2
              else batch_loop request limit (i + 1) (cnt + 1) result2 events)"

definition empty_build :: "string \<Rightarrow> ConsolidationBatchBuildResult" where
  "empty_build sessionId =
     \<lparr>bb_batch = \<lparr>lb_events = [], lb_sourceRefs = []\<rparr>, bb_sessionId = sessionId, bb_sessionSummary = [],
      bb_sessionSourceRefs = [], bb_nextCursor = []\<rparr>"

definition Build :: "MemoryConsolidationRequest \<Rightarrow> MemoryEvent list \<Rightarrow> ConsolidationBatchBuildResult" where
  "Build request events =
     (let result = empty_build (cr_sessionId request) in
      if \<not> cr_forceReprocess request \<and> cr_maxEvents request \<le> 0 then result
      else
        let limit = (if cr_forceReprocess request \<and> cr_maxEvents request \<le> 0
                     then i32 (int (length events)) else cr_maxEvents request);
            r = batch_loop request limit 0 0 result events
        in r\<lparr>bb_sessionSourceRefs := bb_sessionSourceRefs r @ [''session://'' @ bb_sessionId r]\<rparr>)"

section \<open>rule\_based\_processor.cpp\<close>

definition ContainsPreferenceSignal :: "string \<Rightarrow> bool" where
  "ContainsPreferenceSignal t =
     (let lower = ToLower t in
      str_contains ''i like'' lower \<or> str_contains ''i prefer'' lower \<or> str_contains ''i want'' lower \<or>
      str_contains ''please'' lower \<or> str_contains ''always'' lower \<or> str_contains ''never'' lower)"

definition topic_patterns :: "(string \<times> string) list" where
  "topic_patterns =
     [(''project'', ''project''), (''repository'', ''project''), (''code'', ''coding''), (''api'', ''api''),
      (''test'', ''testing''), (''deploy'', ''deployment''), (''database'', ''database''),
      (''config'', ''configuration''), (''security'', ''security''), (''ui'', ''ui''), (''frontend'', ''ui''),
      (''backend'', ''backend''), (''memory'', ''memory_system'')]"

definition DetectTopic :: "string \<Rightarrow> string" where
  "DetectTopic t =
     (case find (\<lambda>p. str_contains (fst p) (ToLower t)) topic_patterns of Some p \<Rightarrow> snd p | None \<Rightarrow> [])"

definition topic_entity :: "string \<Rightarrow> string \<Rightarrow> string list \<Rightarrow> MemoryEntity" where
  "topic_entity topic agentId refs =
     default_entity\<lparr>en_id := ''entity:topic.'' @ topic, en_agentId := agentId, en_entityType := ''topic'',
       en_name := topic @ '' topic'', en_summary := ''Discussed topic: '' @ topic, en_confidence := f32 (1 / 2),
       en_sourceRefs := refs\<rparr>"

definition preference_entity :: "string \<Rightarrow> string list \<Rightarrow> MemoryEntity" where
  "preference_entity agentId refs =
     default_entity\<lparr>en_id := ''entity:preference.user'', en_agentId := agentId, en_entityType := ''preference'',
       en_name := ''User preference'', en_summary := ''User expressed preferences in session'',
       en_confidence := f32 (6 / 10), en_sourceRefs := refs\<rparr>"

definition preference_relation :: "string \<Rightarrow> string list \<Rightarrow> MemoryRelation" where
  "preference_relation agentId refs =
     default_relation\<lparr>rel_agentId := agentId, rel_fromEntityId := ''entity:user'',
       rel_relationType := ''has_preference'', rel_toEntityId := ''entity:preference.user'',
       rel_confidence := f32 (1 / 2), rel_sourceRefs := refs\<rparr>"

text \<open>The loop over the events: the topics seen, whether a preference was found, the update.\<close>

fun rule_loop ::
  "string list \<Rightarrow> string list \<Rightarrow> bool \<Rightarrow> LongTermMemoryUpdate \<Rightarrow> MemoryEvent list \<Rightarrow> LongTermMemoryUpdate" where
  "rule_loop refs seen hasPreference update [] = update"
| "rule_loop refs seen hasPreference update (event # events) =
     (if ev_type event \<noteq> MESSAGE_APPENDED then rule_loop refs seen hasPreference update events
      else
        let topic = DetectTopic (ev_content event);
            new = (topic \<noteq> [] \<and> topic \<notin> set seen);
            seen1 = (if new then topic # seen else seen);
            update1 = (if new
                       then update\<lparr>lu_topicSummaries := lu_topicSummaries update @ [''Discussed topic: '' @ topic],
                              lu_entities := lu_entities update @
                                (if topic \<noteq> ''memory_system'' then [topic_entity topic (ev_agentId event) refs] else [])\<rparr>
                       else update);
            pref = (\<not> hasPreference \<and> ev_role event = ''user'' \<and> ContainsPreferenceSignal (ev_content event));
            update2 = (if pref
                       then update1\<lparr>lu_entities := lu_entities update1 @ [preference_entity (ev_agentId event) refs],
                              lu_relations := lu_relations update1 @ [preference_relation (ev_agentId event) refs]\<rparr>
                       else update1)
        in rule_loop refs seen1 (hasPreference \<or> pref) update2 events)"

definition RuleBasedProcess :: "LongTermMemoryBatch \<Rightarrow> LongTermMemoryUpdate" where
  "RuleBasedProcess batch = rule_loop (lb_sourceRefs batch) [] False empty_update (lb_events batch)"

section \<open>llm\_processor.cpp\<close>

definition prompt_lines :: "string list" where
  \<open>prompt_lines =
     [''Extract structured long-term memory from the conversation events below.'',
      ''Return ONLY valid JSON with this exact schema (no markdown fences, no explanation):'',
      '''',
      ''{'',
      ''  "topicSummaries": ["brief topic summary 1", "brief topic summary 2"],'',
      ''  "profileSummaries": ["user profile insight 1"],'',
      ''  "entities": ['',
      ''    {'',
      ''      "id": "entity:unique.id.here",'',
      ''      "entityType": "preference|topic|project|task|file|user|style",'',
      ''      "name": "short name",'',
      ''      "summary": "one-line summary",'',
      ''      "confidence": 0.0-1.0,'',
      ''      "sourceRefs": ["session://session-id#event:1"]'',
      ''    }'',
      ''  ],'',
      ''  "relations": ['',
      ''    {'',
      ''      "fromEntityId": "entity:user",'',
      ''      "relationType": "prefers|works_on|mentions|related_to|supersedes|contradicts",'',
      ''      "toEntityId": "entity:...",'',
      ''      "confidence": 0.0-1.0,'',
      ''      "sourceRefs": ["session://session-id#event:1"]'',
      ''    }'',
      ''  ]'',
      ''}'',
      '''',
      ''Use "supersedes" when new information replaces an older entity.'',
      ''Use "contradicts" when information conflicts with a previous entity.'',
      ''Use "prefers" for user preferences.'',
      '''',
      ''Conversation events:'']\<close>

fun prompt_events :: "nat \<Rightarrow> string list \<Rightarrow> MemoryEvent list \<Rightarrow> string" where
  "prompt_events i refs [] = []"
| "prompt_events i refs (event # events) =
     (if i < length refs then refs ! i else ''event://'' @ to_string (int i + 1)) @ '' ['' @ ev_role event @ '']: '' @
     ev_content event @ nl @ prompt_events (i + 1) refs events"

definition BuildPrompt :: "LongTermMemoryBatch \<Rightarrow> string" where
  "BuildPrompt batch = concat (map (\<lambda>l. l @ nl) prompt_lines) @ prompt_events 0 (lb_sourceRefs batch) (lb_events batch)"

definition field_string :: "json \<Rightarrow> string \<Rightarrow> string \<Rightarrow> string" where
  "field_string item key dflt =
     (if contains item key \<and> is_string (json_at item key) then get_string (json_at item key) else dflt)"

definition field_confidence :: "json \<Rightarrow> rat" where
  "field_confidence item =
     (if contains item ''confidence'' \<and> is_number (json_at item ''confidence'')
      then f32 (get_number (json_at item ''confidence'')) else f32 (1 / 2))"

definition field_refs :: "json \<Rightarrow> string list \<Rightarrow> string list" where
  "field_refs item sourceRefs =
     (let refs = (if contains item ''sourceRefs'' \<and> is_array (json_at item ''sourceRefs'')
                  then StringVectorFromJson (json_at item ''sourceRefs'') else [])
      in if refs = [] then sourceRefs else refs)"

definition parse_strings :: "json \<Rightarrow> string \<Rightarrow> string list" where
  "parse_strings j key =
     (if contains j key \<and> is_array (json_at j key) then StringVectorFromJson (json_at j key) else [])"

fun parse_entities :: "string list \<Rightarrow> string \<Rightarrow> nat \<Rightarrow> json list \<Rightarrow> MemoryEntity list" where
  "parse_entities sourceRefs agentId n [] = []"
| "parse_entities sourceRefs agentId n (item # items) =
     (if \<not> is_object item then parse_entities sourceRefs agentId n items
      else default_entity\<lparr>
             en_id := field_string item ''id'' (''entity:llm.'' @ to_string (int n)), en_agentId := agentId,
             en_entityType := field_string item ''entityType'' ''unknown'', en_name := field_string item ''name'' [],
             en_summary := field_string item ''summary'' [], en_confidence := field_confidence item,
             en_sourceRefs := field_refs item sourceRefs\<rparr> # parse_entities sourceRefs agentId (n + 1) items)"

fun parse_relations :: "string list \<Rightarrow> string \<Rightarrow> json list \<Rightarrow> MemoryRelation list" where
  "parse_relations sourceRefs agentId [] = []"
| "parse_relations sourceRefs agentId (item # items) =
     (if \<not> is_object item then parse_relations sourceRefs agentId items
      else default_relation\<lparr>
             rel_agentId := agentId, rel_fromEntityId := field_string item ''fromEntityId'' [],
             rel_relationType := field_string item ''relationType'' ''related_to'',
             rel_toEntityId := field_string item ''toEntityId'' [], rel_confidence := field_confidence item,
             rel_sourceRefs := field_refs item sourceRefs\<rparr> # parse_relations sourceRefs agentId items)"

fun array_items :: "json \<Rightarrow> json list" where
  "array_items (JArr xs) = xs"
| "array_items _ = []"

definition ParseResponse :: "json_lib \<Rightarrow> string \<Rightarrow> string list \<Rightarrow> string \<Rightarrow> LongTermMemoryUpdate" where
  "ParseResponse J jsonStr sourceRefs agentId =
     (case jparse J jsonStr of
        Inl _ \<Rightarrow> empty_update
      | Inr j \<Rightarrow>
          (if \<not> is_object j then empty_update
           else \<lparr>lu_entities = (if contains j ''entities'' \<and> is_array (json_at j ''entities'')
                                then parse_entities sourceRefs agentId 0 (array_items (json_at j ''entities'')) else []),
                 lu_relations = (if contains j ''relations'' \<and> is_array (json_at j ''relations'')
                                 then parse_relations sourceRefs agentId (array_items (json_at j ''relations'')) else []),
                 lu_profileSummaries = parse_strings j ''profileSummaries'',
                 lu_topicSummaries = parse_strings j ''topicSummaries''\<rparr>))"

text \<open>Cutting the answer down to what lies between the first and the last brace.\<close>

definition clean_response :: "string \<Rightarrow> string" where
  "clean_response text =
     (case (find_char (CHR 0x7B) text, rfind_char (CHR 0x7D) text) of
        (Some start, Some stop) \<Rightarrow> (if stop > start then take (stop - start + 1) (drop start text) else text)
      | _ \<Rightarrow> text)"

definition LlmProcess :: "json_lib \<Rightarrow> model_client \<Rightarrow> LongTermMemoryBatch \<Rightarrow> LongTermMemoryUpdate outcome" where
  "LlmProcess J model batch =
     map_outcome_val
       (\<lambda>invokeResult.
          if \<not> invoke_ok invokeResult then empty_update
          else ParseResponse J (clean_response (inv_text invokeResult)) (lb_sourceRefs batch)
                 (case lb_events batch of [] \<Rightarrow> [] | e # _ \<Rightarrow> ev_agentId e))
       (model (BuildPrompt batch))"

section \<open>memory\_update\_writer.cpp\<close>

definition FailedWrite :: "MemoryOperationResult \<Rightarrow> MemoryUpdateWriteResult" where
  "FailedWrite op = empty_write\<lparr>mw_succeeded := False, mw_error := error_of op\<rparr>"

definition SaveSessionSummary ::
  "json_lib \<Rightarrow> string \<Rightarrow> string \<Rightarrow> string \<Rightarrow> string list \<Rightarrow> store \<Rightarrow> MemoryUpdateWriteResult outcome \<times> store" where
  "SaveSessionSummary J agentId sessionId summary sourceRefs s =
     (case tx_SaveSummary J agentId sessionId ''session'' ''conversation'' summary (f32 (1 / 2)) sourceRefs s of
        (Throw w, s1) \<Rightarrow> (Throw w, s1)
      | (Ret op, s1) \<Rightarrow>
          (Ret (if \<not> succeeded op then FailedWrite op else empty_write\<lparr>mw_savedSummaries := 1\<rparr>), s1))"

text \<open>
  The four loops of \<open>SaveUpdate\<close> share their shape: run an operation on each element, stop with the
  failure of the first that fails, count the others.
\<close>

fun write_loop ::
  "('x \<Rightarrow> store \<Rightarrow> MemoryOperationResult outcome \<times> store) \<Rightarrow> (MemoryUpdateWriteResult \<Rightarrow> MemoryUpdateWriteResult) \<Rightarrow>
   'x list \<Rightarrow> MemoryUpdateWriteResult \<Rightarrow> store \<Rightarrow> MemoryUpdateWriteResult outcome \<times> store" where
  "write_loop op bump [] result s = (Ret result, s)"
| "write_loop op bump (x # xs) result s =
     (case op x s of
        (Throw w, s1) \<Rightarrow> (Throw w, s1)
      | (Ret r, s1) \<Rightarrow>
          (if \<not> succeeded r then (Ret (FailedWrite r), s1) else write_loop op bump xs (bump result) s1))"

definition then_loop ::
  "MemoryUpdateWriteResult outcome \<times> store \<Rightarrow>
   (MemoryUpdateWriteResult \<Rightarrow> store \<Rightarrow> MemoryUpdateWriteResult outcome \<times> store) \<Rightarrow> MemoryUpdateWriteResult outcome \<times> store" where
  "then_loop r f =
     (case r of
        (Throw w, s) \<Rightarrow> (Throw w, s)
      | (Ret result, s) \<Rightarrow> (if \<not> mw_succeeded result then (Ret result, s) else f result s))"

definition save_update_entity ::
  "json_lib \<Rightarrow> string \<Rightarrow> MemoryEntity \<Rightarrow> store \<Rightarrow> MemoryOperationResult outcome \<times> store" where
  "save_update_entity J agentId entity s =
     (let e = (if en_agentId entity = [] then entity\<lparr>en_agentId := agentId\<rparr> else entity) in
      case tx_SaveEntity J e s of
        (Throw w, s1) \<Rightarrow> (Throw w, s1)
      | (Ret op, s1) \<Rightarrow>
          (if \<not> succeeded op then (Ret op, s1)
           else if en_supersededEntityId e \<noteq> [] then tx_MarkEntityObsolete (en_supersededEntityId e) (en_id e) s1
           else (Ret op, s1)))"

definition save_update_relation ::
  "json_lib \<Rightarrow> string \<Rightarrow> MemoryRelation \<Rightarrow> store \<Rightarrow> MemoryOperationResult outcome \<times> store" where
  "save_update_relation J agentId relation s =
     tx_SaveRelation J (if rel_agentId relation = [] then relation\<lparr>rel_agentId := agentId\<rparr> else relation) s"

definition bump_summaries :: "MemoryUpdateWriteResult \<Rightarrow> MemoryUpdateWriteResult" where
  "bump_summaries r = r\<lparr>mw_savedSummaries := mw_savedSummaries r + 1\<rparr>"

definition bump_entities :: "MemoryUpdateWriteResult \<Rightarrow> MemoryUpdateWriteResult" where
  "bump_entities r = r\<lparr>mw_savedEntities := mw_savedEntities r + 1\<rparr>"

definition bump_relations :: "MemoryUpdateWriteResult \<Rightarrow> MemoryUpdateWriteResult" where
  "bump_relations r = r\<lparr>mw_savedRelations := mw_savedRelations r + 1\<rparr>"

definition SaveUpdate ::
  "json_lib \<Rightarrow> string \<Rightarrow> string \<Rightarrow> LongTermMemoryUpdate \<Rightarrow> string list \<Rightarrow> store \<Rightarrow> MemoryUpdateWriteResult outcome \<times> store" where
  "SaveUpdate J agentId sessionId update sourceRefs s =
     then_loop (then_loop (then_loop
       (write_loop (\<lambda>t. tx_SaveSummary J agentId sessionId ''topic'' ''auto'' t (f32 (1 / 2)) sourceRefs)
          bump_summaries (lu_topicSummaries update) empty_write s)
       (write_loop (\<lambda>t. tx_SaveSummary J agentId sessionId ''profile'' ''user'' t (f32 (6 / 10)) sourceRefs)
          bump_summaries (lu_profileSummaries update)))
       (write_loop (save_update_entity J agentId) bump_entities (lu_entities update)))
       (write_loop (save_update_relation J agentId) bump_relations (lu_relations update))"

section \<open>consolidation\_service.cpp\<close>

definition save_cursor_op ::
  "MemoryConsolidationRequest \<Rightarrow> string \<Rightarrow> store \<Rightarrow> MemoryOperationResult outcome \<times> store" where
  "save_cursor_op request cursor s =
     (case tx_SaveConsolidationCursor (cr_agentId request) (cr_sessionId request) cursor s of
        (Throw w, s1) \<Rightarrow> (Throw w, s1)
      | (Ret cursorWrite, s1) \<Rightarrow>
          (Ret (if \<not> succeeded cursorWrite
                then (if HasError (error_of cursorWrite) then cursorWrite
                      else MemoryFailure ''cursor_save_failed'' ''failed to persist consolidation cursor'' [] False)
                else MemorySuccess), s1))"

text \<open>The callback for a batch without messages, which only moves the cursor.\<close>

definition cursor_only_work ::
  "MemoryConsolidationRequest \<Rightarrow> string \<Rightarrow> store \<Rightarrow> (MemoryOperationResult \<times> unit) outcome \<times> store" where
  "cursor_only_work request cursor s =
     (let (r, s1) = save_cursor_op request cursor s in (map_outcome_val (\<lambda>op. (op, ())) r, s1))"

definition has_update :: "LongTermMemoryUpdate \<Rightarrow> bool" where
  "has_update u =
     (lu_topicSummaries u \<noteq> [] \<or> lu_profileSummaries u \<noteq> [] \<or> lu_entities u \<noteq> [] \<or> lu_relations u \<noteq> [])"

text \<open>
  The callback of a consolidation; it captures \<open>sessionWrite\<close> and \<open>updateWrite\<close> by reference.
\<close>

definition consolidation_work ::
  "json_lib \<Rightarrow> MemoryConsolidationRequest \<Rightarrow> ConsolidationBatchBuildResult \<Rightarrow> LongTermMemoryUpdate \<Rightarrow> store \<Rightarrow>
   (MemoryOperationResult \<times> MemoryUpdateWriteResult \<times> MemoryUpdateWriteResult) outcome \<times> store" where
  "consolidation_work J request build update s =
     (case SaveSessionSummary J (cr_agentId request) (bb_sessionId build) (bb_sessionSummary build)
             (bb_sessionSourceRefs build) s of
        (Throw w, s1) \<Rightarrow> (Throw w, s1)
      | (Ret sessionWrite, s1) \<Rightarrow>
        if \<not> mw_succeeded sessionWrite
        then (Ret (MemoryFailure ''consolidation_failed'' ''failed to persist session summary''
                     (err_details (mw_error sessionWrite)) (err_retryable (mw_error sessionWrite)),
                   sessionWrite, empty_write), s1)
        else
          case (if has_update update
                then SaveUpdate J (cr_agentId request) (bb_sessionId build) update (lb_sourceRefs (bb_batch build)) s1
                else (Ret empty_write, s1)) of
            (Throw w, s2) \<Rightarrow> (Throw w, s2)
          | (Ret updateWrite, s2) \<Rightarrow>
            if \<not> mw_succeeded updateWrite
            then (Ret (MemoryFailure ''consolidation_failed'' ''failed to persist memory update''
                         (err_details (mw_error updateWrite)) (err_retryable (mw_error updateWrite)),
                       sessionWrite, updateWrite), s2)
            else if bb_nextCursor build \<noteq> []
            then (let (r, s3) = save_cursor_op request (bb_nextCursor build) s2
                  in (map_outcome_val (\<lambda>op. (op, sessionWrite, updateWrite)) r, s3))
            else (Ret (MemorySuccess, sessionWrite, updateWrite), s2))"

text \<open>Which update is written: the model's, or the fallback's when the model gives none.\<close>

definition choose_update ::
  "json_lib \<Rightarrow> model_client option \<Rightarrow> (LongTermMemoryBatch \<Rightarrow> LongTermMemoryUpdate) option \<Rightarrow> LongTermMemoryBatch \<Rightarrow>
   (bool \<times> LongTermMemoryUpdate) outcome" where
  "choose_update J model fallback batch =
     map_outcome_val
       (\<lambda>update. if has_update update then (False, update)
                  else case fallback of None \<Rightarrow> (False, update) | Some f \<Rightarrow> (True, f batch))
       (case model of None \<Rightarrow> Ret empty_update | Some m \<Rightarrow> LlmProcess J m batch)"

definition Consolidate ::
  "json_lib \<Rightarrow> (LongTermMemoryBatch \<Rightarrow> LongTermMemoryUpdate) option \<Rightarrow> MemoryConsolidationRequest \<Rightarrow> MemoryEvent list \<Rightarrow>
   model_client option \<Rightarrow> store \<Rightarrow> MemoryConsolidationResult outcome \<times> store" where
  "Consolidate J fallback request events model s =
     (let build = Build request events;
          result = default_consolidation_result\<lparr>cres_sessionId := bb_sessionId build,
                     cres_nextCursor := bb_nextCursor build,
                     cres_processedEvents := i32 (int (length (lb_events (bb_batch build))))\<rparr>
      in if lb_events (bb_batch build) = []
         then (if bb_nextCursor build = [] then (Ret (result\<lparr>cres_succeeded := True\<rparr>), s)
               else case RunInTransaction () (cursor_only_work request (bb_nextCursor build)) s of
                      (Throw w, s1) \<Rightarrow> (Throw w, s1)
                    | (Ret (operation, _), s1) \<Rightarrow>
                        (Ret (result\<lparr>cres_succeeded := succeeded operation,
                                cres_error :=
                                  (if succeeded operation then no_error
                                   else if HasError (error_of operation) then error_of operation
                                   else mk_error ''cursor_save_failed'' ''failed to persist consolidation cursor'' [] False)\<rparr>), s1))
         else
           case choose_update J model fallback (bb_batch build) of
             Throw w \<Rightarrow> (Throw w, s)
           | Ret (fallbackUsed, update) \<Rightarrow>
             (case RunInTransaction (empty_write, empty_write) (consolidation_work J request build update) s of
                (Throw w, s1) \<Rightarrow> (Throw w, s1)
              | (Ret (operation, sessionWrite, updateWrite), s1) \<Rightarrow>
                  (Ret (if succeeded operation
                        then result\<lparr>cres_fallbackUsed := fallbackUsed, cres_succeeded := True,
                               cres_savedSummaries := mw_savedSummaries sessionWrite + mw_savedSummaries updateWrite,
                               cres_savedEntities := mw_savedEntities updateWrite,
                               cres_savedRelations := mw_savedRelations updateWrite\<rparr>
                        else result\<lparr>cres_fallbackUsed := fallbackUsed, cres_succeeded := False,
                               cres_error :=
                                 (if HasError (error_of operation) then error_of operation
                                  else mk_error ''consolidation_failed'' ''failed to persist consolidation update'' [] False)\<rparr>), s1)))"

end
