(* ===== verification/Consolidation_Laws.thy ===== *)
theory Consolidation_Laws
  imports Consolidation
begin

text \<open>
  What consolidation guarantees: the batch is a limited selection of the new messages and the next
  cursor is that of the last event looked at; the callbacks of the service keep the contract of a
  transaction callback, so that a consolidation is atomic; on success the counts, the saved cursor
  and the written rows are those of the update.
\<close>

section \<open>The batch\<close>

definition batch_keeps :: "MemoryConsolidationRequest \<Rightarrow> MemoryEvent \<Rightarrow> bool" where
  "batch_keeps request e = (\<not> batch_skips request e)"

text \<open>The source references of the events taken, with the index each had in the input.\<close>

fun batch_refs :: "MemoryConsolidationRequest \<Rightarrow> string \<Rightarrow> nat \<Rightarrow> MemoryEvent list \<Rightarrow> string list" where
  "batch_refs request sid i [] = []"
| "batch_refs request sid i (e # es) =
     (if batch_keeps request e then [''session://'' @ sid @ ''#event:'' @ event_cursor i e] else []) @
     batch_refs request sid (i + 1) es"

definition message_line :: "MemoryEvent \<Rightarrow> string" where
  "message_line e = ev_role e @ '': '' @ ev_content e @ nl"

text \<open>
  A run of the loop splits the events into a prefix it consumed and the rest; \<open>c\<close> events were taken
  before it started.
\<close>

definition loop_spec ::
  "MemoryConsolidationRequest \<Rightarrow> int \<Rightarrow> nat \<Rightarrow> int \<Rightarrow> ConsolidationBatchBuildResult \<Rightarrow> MemoryEvent list \<Rightarrow>
   MemoryEvent list \<Rightarrow> MemoryEvent list \<Rightarrow> ConsolidationBatchBuildResult \<Rightarrow> bool" where
  "loop_spec request limit i c r0 events pre post r =
     (events = pre @ post \<and> bb_sessionId r = bb_sessionId r0 \<and>
      lb_events (bb_batch r) = lb_events (bb_batch r0) @ filter (batch_keeps request) pre \<and>
      lb_sourceRefs (bb_batch r) = lb_sourceRefs (bb_batch r0) @ batch_refs request (bb_sessionId r0) i pre \<and>
      bb_sessionSummary r = bb_sessionSummary r0 @ concat (map message_line (filter (batch_keeps request) pre)) \<and>
      bb_sessionSourceRefs r = bb_sessionSourceRefs r0 \<and>
      bb_nextCursor r = (if pre = [] then bb_nextCursor r0 else event_cursor (i + length pre - 1) (last pre)) \<and>
      (post \<noteq> [] \<longrightarrow> 0 < limit \<and> pre \<noteq> [] \<and> batch_keeps request (last pre) \<and>
         c + int (length (filter (batch_keeps request) pre)) = limit) \<and>
      (0 < limit \<longrightarrow> c < limit \<longrightarrow> c + int (length (filter (batch_keeps request) pre)) \<le> limit))"

lemma batch_loop_spec:
  "0 < limit \<longrightarrow> c < limit \<Longrightarrow>
   \<exists>pre post. loop_spec request limit i c r0 events pre post (batch_loop request limit i c r0 events)"
proof (induction events arbitrary: i c r0)
  case Nil
  then show ?case by (auto simp: loop_spec_def)
next
  case (Cons e es)
  let ?r1 = "r0\<lparr>bb_nextCursor := event_cursor i e\<rparr>"
  let ?r2 = "?r1\<lparr>bb_sessionSummary := bb_sessionSummary ?r1 @ ev_role e @ '': '' @ ev_content e @ nl,
     bb_batch := \<lparr>lb_events = lb_events (bb_batch ?r1) @ [e],
       lb_sourceRefs = lb_sourceRefs (bb_batch ?r1) @ [''session://'' @ bb_sessionId ?r1 @ ''#event:'' @ event_cursor i e]\<rparr>\<rparr>"
  show ?case
  proof (cases "batch_skips request e")
    case True
    obtain pre post where s: "loop_spec request limit (i + 1) c ?r1 es pre post (batch_loop request limit (i + 1) c ?r1 es)"
      using Cons.IH [OF Cons.prems] by blast
    have "loop_spec request limit i c r0 (e # es) (e # pre) post (batch_loop request limit i c r0 (e # es))"
      using s True unfolding loop_spec_def by (auto simp: batch_keeps_def)
    then show ?thesis by blast
  next
    case keep: False
    show ?thesis
    proof (cases "limit > 0 \<and> c + 1 \<ge> limit")
      case True
      then have "batch_loop request limit i c r0 (e # es) = ?r2" using keep by (simp add: Let_def)
      moreover have "loop_spec request limit i c r0 (e # es) [e] es ?r2"
        using True keep Cons.prems by (auto simp: loop_spec_def batch_keeps_def message_line_def)
      ultimately show ?thesis by metis
    next
      case False
      then have run: "batch_loop request limit i c r0 (e # es) = batch_loop request limit (i + 1) (c + 1) ?r2 es"
        using keep by (auto simp: Let_def)
      obtain pre post where s: "loop_spec request limit (i + 1) (c + 1) ?r2 es pre post
          (batch_loop request limit (i + 1) (c + 1) ?r2 es)"
        using Cons.IH [of "c + 1" "i + 1" ?r2] False by auto
      have "loop_spec request limit i c r0 (e # es) (e # pre) post (batch_loop request limit (i + 1) (c + 1) ?r2 es)"
        using s keep False unfolding loop_spec_def by (auto simp: batch_keeps_def message_line_def)
      then show ?thesis unfolding run by blast
    qed
  qed
qed

lemma Build_spec:
  fixes request :: MemoryConsolidationRequest and events :: "MemoryEvent list"
  assumes "cr_forceReprocess request \<or> 0 < cr_maxEvents request"
  defines "limit \<equiv> (if cr_forceReprocess request \<and> cr_maxEvents request \<le> 0 then i32 (int (length events))
     else cr_maxEvents request)"
  shows "\<exists>pre post r. loop_spec request limit 0 0 (empty_build (cr_sessionId request)) events pre post r \<and>
    Build request events = r\<lparr>bb_sessionSourceRefs := [''session://'' @ cr_sessionId request]\<rparr>"
proof -
  let ?r0 = "empty_build (cr_sessionId request)"
  obtain pre post where s: "loop_spec request limit 0 0 ?r0 events pre post (batch_loop request limit 0 0 ?r0 events)"
    using batch_loop_spec by blast
  have "Build request events = (batch_loop request limit 0 0 ?r0 events)\<lparr>bb_sessionSourceRefs := [''session://'' @ cr_sessionId request]\<rparr>"
    using s assms(1) unfolding loop_spec_def Build_def limit_def by (auto simp: Let_def empty_build_def)
  with s show ?thesis by blast
qed

section \<open>The callbacks keep the transaction contract\<close>

text \<open>
  Everything a callback does is a sequence of operations of the transaction object, and the only
  cursor it saves is that of the request's scope; reflexive and transitive closure makes the loops
  compose.
\<close>

inductive scope_step :: "json_lib \<Rightarrow> string \<Rightarrow> string \<Rightarrow> store \<Rightarrow> store \<Rightarrow> bool" for J aid sid where
  scope_summary: "scope_step J aid sid s (snd (tx_SaveSummary J a ss l t m c refs s))"
| scope_entity: "scope_step J aid sid s (snd (tx_SaveEntity J e s))"
| scope_relation: "scope_step J aid sid s (snd (tx_SaveRelation J r s))"
| scope_obsolete: "scope_step J aid sid s (snd (tx_MarkEntityObsolete i b s))"
| scope_cursor: "scope_step J aid sid s (snd (tx_SaveConsolidationCursor aid sid c s))"

lemma scope_steps_tx: "(scope_step J aid sid)\<^sup>*\<^sup>* s s' \<Longrightarrow> (tx_step J)\<^sup>*\<^sup>* s s'"
  by (erule rtranclp_mono [THEN predicate2D, rotated])
    (auto elim!: scope_step.cases intro: tx_step.intros)

abbreviation request_step :: "json_lib \<Rightarrow> MemoryConsolidationRequest \<Rightarrow> store \<Rightarrow> store \<Rightarrow> bool" where
  "request_step J request \<equiv> scope_step J (cr_agentId request) (cr_sessionId request)"

lemma write_loop_step:
  assumes "\<And>x s. (scope_step J aid sid)\<^sup>*\<^sup>* s (snd (op x s))"
  shows "(scope_step J aid sid)\<^sup>*\<^sup>* s (snd (write_loop op bump xs r s))"
proof (induction xs arbitrary: r s)
  case (Cons x xs)
  obtain res s1 where o: "op x s = (res, s1)" by fastforce
  have "(scope_step J aid sid)\<^sup>*\<^sup>* s s1" using assms [of s x] o by simp
  moreover have "(scope_step J aid sid)\<^sup>*\<^sup>* s1 (snd (write_loop op bump xs (bump r) s1))" by (rule Cons.IH)
  ultimately show ?case using o by (auto split: outcome.split intro: rtranclp_trans)
qed simp

lemma then_loop_step:
  assumes "(scope_step J aid sid)\<^sup>*\<^sup>* s (snd r)" "\<And>x t. (scope_step J aid sid)\<^sup>*\<^sup>* t (snd (f x t))"
  shows "(scope_step J aid sid)\<^sup>*\<^sup>* s (snd (then_loop r f))"
  using assms by (cases r) (auto simp: then_loop_def split: outcome.split intro: rtranclp_trans)

lemma save_update_entity_step: "(scope_step J aid sid)\<^sup>*\<^sup>* s (snd (save_update_entity J a e s))"
proof -
  let ?e = "if en_agentId e = [] then e\<lparr>en_agentId := a\<rparr> else e"
  obtain res s1 where o: "tx_SaveEntity J ?e s = (res, s1)" by fastforce
  have 1: "(scope_step J aid sid)\<^sup>*\<^sup>* s s1" using scope_step.scope_entity [of J aid sid s ?e] o by auto
  have 2: "(scope_step J aid sid)\<^sup>*\<^sup>* s (snd (tx_MarkEntityObsolete i b s1))" for i b
    using 1 scope_step.scope_obsolete by (rule rtranclp.rtrancl_into_rtrancl)
  show ?thesis
    unfolding save_update_entity_def Let_def o using 1 2 by (auto split: outcome.split)
qed

lemma SaveUpdate_step: "(scope_step J aid sid)\<^sup>*\<^sup>* s (snd (SaveUpdate J a ss u refs s))"
  unfolding SaveUpdate_def save_update_relation_def
  by (intro then_loop_step write_loop_step save_update_entity_step r_into_rtranclp scope_step.scope_summary scope_step.scope_relation)

lemma SaveSessionSummary_step: "(scope_step J aid sid)\<^sup>*\<^sup>* s (snd (SaveSessionSummary J a ss m refs s))"
  using scope_step.scope_summary [of J aid sid s a ss "''session''" "''conversation''" m "f32 (1 / 2)" refs]
  by (auto simp: SaveSessionSummary_def split: prod.splits outcome.split)

lemma save_cursor_op_step: "(request_step J request)\<^sup>*\<^sup>* s (snd (save_cursor_op request c s))"
  using scope_step.scope_cursor [of J "cr_agentId request" "cr_sessionId request" s c]
  by (auto simp: save_cursor_op_def split: prod.splits outcome.split)

lemma cursor_only_work_scope: "(request_step J request)\<^sup>*\<^sup>* s (snd (cursor_only_work request c s))"
  by (simp add: cursor_only_work_def case_prod_beta save_cursor_op_step)

lemma consolidation_work_scope: "(request_step J request)\<^sup>*\<^sup>* s (snd (consolidation_work J request build update s))"
proof -
  obtain r1 s1 where 1: "SaveSessionSummary J (cr_agentId request) (bb_sessionId build) (bb_sessionSummary build)
      (bb_sessionSourceRefs build) s = (r1, s1)" by fastforce
  obtain r2 s2 where 2: "(if has_update update
      then SaveUpdate J (cr_agentId request) (bb_sessionId build) update (lb_sourceRefs (bb_batch build)) s1
      else (Ret empty_write, s1)) = (r2, s2)" by fastforce
  obtain r3 s3 where 3: "save_cursor_op request (bb_nextCursor build) s2 = (r3, s3)" by fastforce
  have "(request_step J request)\<^sup>*\<^sup>* s s1" using SaveSessionSummary_step 1 by (metis snd_conv)
  moreover have "(request_step J request)\<^sup>*\<^sup>* s1 s2" using SaveUpdate_step 2 by (metis snd_conv rtranclp.rtrancl_refl)
  moreover have "(request_step J request)\<^sup>*\<^sup>* s2 s3" using save_cursor_op_step 3 by (metis snd_conv)
  ultimately have "(request_step J request)\<^sup>*\<^sup>* s s1" "(request_step J request)\<^sup>*\<^sup>* s s2" "(request_step J request)\<^sup>*\<^sup>* s s3"
    using rtranclp_trans [of "request_step J request"] by blast+
  then show ?thesis
    unfolding consolidation_work_def 1 2 3 Let_def prod.case
    by (auto split: outcome.split)
qed

lemmas cursor_only_work_step = cursor_only_work_scope [THEN scope_steps_tx]
  and consolidation_work_step = consolidation_work_scope [THEN scope_steps_tx]

interpretation cursor_only: transaction_work "cursor_only_work request cursor" for request cursor
  by (rule tx_work_transactional, rule cursor_only_work_step)

interpretation consolidating: transaction_work "consolidation_work J request build update" for J request build update
  by (rule tx_work_transactional, rule consolidation_work_step)

section \<open>What success means\<close>

lemma write_loop_success:
  assumes "write_loop op bump xs r s = (Ret r', s')" "mw_succeeded r'"
    "\<And>x. mw_succeeded (bump x) = mw_succeeded x" "mw_succeeded r"
  shows "r' = (bump ^^ length xs) r"
  using assms
proof (induction xs arbitrary: r s)
  case (Cons x xs)
  obtain res s1 where o: "op x s = (res, s1)" by fastforce
  show ?case
  proof (cases res)
    case (Throw w)
    with Cons.prems o show ?thesis by simp
  next
    case (Ret q)
    with Cons.prems o have ok: "succeeded q" by (auto simp: FailedWrite_def split: if_splits)
    then have "write_loop op bump xs (bump r) s1 = (Ret r', s')" using Cons.prems(1) o Ret by simp
    from Cons.IH [OF this Cons.prems(2,3)] Cons.prems(3,4) show ?thesis by (simp add: funpow_swap1)
  qed
qed simp

lemma bump_funpow:
  "(bump_summaries ^^ n) r = r\<lparr>mw_savedSummaries := mw_savedSummaries r + int n\<rparr>"
  "(bump_entities ^^ n) r = r\<lparr>mw_savedEntities := mw_savedEntities r + int n\<rparr>"
  "(bump_relations ^^ n) r = r\<lparr>mw_savedRelations := mw_savedRelations r + int n\<rparr>"
  by (induction n) (simp_all add: bump_summaries_def bump_entities_def bump_relations_def)

lemma bump_succeeded [simp]:
  "mw_succeeded (bump_summaries r) = mw_succeeded r" "mw_succeeded (bump_entities r) = mw_succeeded r"
  "mw_succeeded (bump_relations r) = mw_succeeded r"
  by (simp_all add: bump_summaries_def bump_entities_def bump_relations_def)

lemma then_loop_success:
  assumes "then_loop r f = (Ret r', s')" "mw_succeeded r'"
  obtains r1 s1 where "r = (Ret r1, s1)" "mw_succeeded r1" "f r1 s1 = (Ret r', s')"
  using assms by (cases r) (auto simp: then_loop_def split: outcome.splits if_splits)

lemma SaveUpdate_success:
  assumes "SaveUpdate J a ss u refs s = (Ret r, s')" "mw_succeeded r"
  shows "mw_savedSummaries r = int (length (lu_topicSummaries u) + length (lu_profileSummaries u))"
    "mw_savedEntities r = int (length (lu_entities u))" "mw_savedRelations r = int (length (lu_relations u))"
proof -
  from assms(1) [unfolded SaveUpdate_def] assms(2) obtain r3 s3 where
    3: "mw_succeeded r3" "write_loop (save_update_relation J a) bump_relations (lu_relations u) r3 s3 = (Ret r, s')"
    and e3: "then_loop (then_loop (write_loop (\<lambda>t. tx_SaveSummary J a ss ''topic'' ''auto'' t (f32 (1 / 2)) refs)
          bump_summaries (lu_topicSummaries u) empty_write s)
       (write_loop (\<lambda>t. tx_SaveSummary J a ss ''profile'' ''user'' t (f32 (6 / 10)) refs) bump_summaries (lu_profileSummaries u)))
       (write_loop (save_update_entity J a) bump_entities (lu_entities u)) = (Ret r3, s3)"
    by (rule then_loop_success)
  from e3 3(1) obtain r2 s2 where
    2: "mw_succeeded r2" "write_loop (save_update_entity J a) bump_entities (lu_entities u) r2 s2 = (Ret r3, s3)"
    and e2: "then_loop (write_loop (\<lambda>t. tx_SaveSummary J a ss ''topic'' ''auto'' t (f32 (1 / 2)) refs)
          bump_summaries (lu_topicSummaries u) empty_write s)
       (write_loop (\<lambda>t. tx_SaveSummary J a ss ''profile'' ''user'' t (f32 (6 / 10)) refs) bump_summaries (lu_profileSummaries u)) = (Ret r2, s2)"
    by (rule then_loop_success)
  from e2 2(1) obtain r1 s1 where
    1: "mw_succeeded r1" "write_loop (\<lambda>t. tx_SaveSummary J a ss ''profile'' ''user'' t (f32 (6 / 10)) refs) bump_summaries (lu_profileSummaries u) r1 s1 = (Ret r2, s2)"
    and e1: "write_loop (\<lambda>t. tx_SaveSummary J a ss ''topic'' ''auto'' t (f32 (1 / 2)) refs)
          bump_summaries (lu_topicSummaries u) empty_write s = (Ret r1, s1)"
    by (rule then_loop_success)
  have "r1 = (bump_summaries ^^ length (lu_topicSummaries u)) empty_write"
    using write_loop_success [OF e1 1(1)] by (simp add: empty_write_def)
  moreover have "r2 = (bump_summaries ^^ length (lu_profileSummaries u)) r1"
    using write_loop_success [OF 1(2) 2(1)] 1(1) by simp
  moreover have "r3 = (bump_entities ^^ length (lu_entities u)) r2"
    using write_loop_success [OF 2(2) 3(1)] 2(1) by simp
  moreover have "r = (bump_relations ^^ length (lu_relations u)) r3"
    using write_loop_success [OF 3(2) assms(2)] 3(1) by simp
  ultimately show "mw_savedSummaries r = int (length (lu_topicSummaries u) + length (lu_profileSummaries u))"
    "mw_savedEntities r = int (length (lu_entities u))" "mw_savedRelations r = int (length (lu_relations u))"
    by (simp_all add: bump_funpow empty_write_def)
qed

text \<open>A successful cursor operation leaves the new cursor in the database.\<close>

lemma save_cursor_op_success:
  assumes "save_cursor_op request c s = (Ret op, s')" "succeeded op"
  shows "\<exists>d. s_db s' = Some d \<and>
    select_cursor (c_str (cr_agentId request)) (c_str (cr_sessionId request)) d = Some (CursorToInt c)"
proof -
  let ?a = "cr_agentId request" and ?s = "cr_sessionId request"
  obtain ok s1 where u: "SaveConsolidationCursorUnlocked ?a ?s c s = (ok, s1)" by fastforce
  then have "ok" "s' = s1"
    using assms by (auto simp: save_cursor_op_def tx_SaveConsolidationCursor_def lift_ok_def SqliteFailure_def sqlite_error_def
        split: if_splits)
  with u run_stmt_db [of _ s True s1] obtain d d' where
    "s_db s' = Some d'" "upsert_cursor (s_now s) (c_str ?a) (c_str ?s) (CursorToInt c) d = Some d'"
    by (fastforce simp: SaveConsolidationCursorUnlocked_def)
  then show ?thesis using select_upsert_cursor by (intro exI [of _ d']) simp
qed

lemma consolidation_work_success:
  assumes "consolidation_work J request build update s = (Ret (op, sw, uw), s')" "succeeded op" "bb_nextCursor build \<noteq> []"
  shows "mw_savedSummaries sw = 1"
    "mw_savedSummaries uw = int (length (lu_topicSummaries update) + length (lu_profileSummaries update))"
    "mw_savedEntities uw = int (length (lu_entities update))" "mw_savedRelations uw = int (length (lu_relations update))"
    "\<exists>t. save_cursor_op request (bb_nextCursor build) t = (Ret op, s')"
proof -
  obtain r1 s1 where 1: "SaveSessionSummary J (cr_agentId request) (bb_sessionId build) (bb_sessionSummary build)
      (bb_sessionSourceRefs build) s = (r1, s1)" by fastforce
  obtain r2 s2 where 2: "(if has_update update
      then SaveUpdate J (cr_agentId request) (bb_sessionId build) update (lb_sourceRefs (bb_batch build)) s1
      else (Ret empty_write, s1)) = (r2, s2)" by fastforce
  obtain r3 s3 where 3: "save_cursor_op request (bb_nextCursor build) s2 = (r3, s3)" by fastforce
  note un = assms(1) [unfolded consolidation_work_def 1 2 3 Let_def prod.case]
  from un assms(2,3) have ok: "r1 = Ret sw" "mw_succeeded sw" "r2 = Ret uw" "mw_succeeded uw" "r3 = Ret op" "s' = s3"
    by (auto split: outcome.splits if_splits)
  from 1 ok(1,2) show "mw_savedSummaries sw = 1"
    by (auto simp: SaveSessionSummary_def FailedWrite_def split: prod.splits outcome.splits if_splits)
  have upd: "mw_savedSummaries uw = int (length (lu_topicSummaries update) + length (lu_profileSummaries update)) \<and>
      mw_savedEntities uw = int (length (lu_entities update)) \<and> mw_savedRelations uw = int (length (lu_relations update))"
  proof (cases "has_update update")
    case True
    with 2 ok SaveUpdate_success show ?thesis by simp
  next
    case False
    with 2 ok show ?thesis by (auto simp: has_update_def empty_write_def)
  qed
  then show "mw_savedSummaries uw = int (length (lu_topicSummaries update) + length (lu_profileSummaries update))"
    "mw_savedEntities uw = int (length (lu_entities update))" "mw_savedRelations uw = int (length (lu_relations update))"
    by blast+
  show "\<exists>t. save_cursor_op request (bb_nextCursor build) t = (Ret op, s')" using 3 ok by auto
qed

end
