(* ===== verification/Consolidation_Properties.thy ===== *)
theory Consolidation_Properties
  imports Consolidation_Laws Store_Properties
begin

text \<open>
  The properties of consolidation: the batch, atomicity and effect of \<open>Consolidate\<close>, the rule-based
  extraction, and the handling of a model's answer.
\<close>

section \<open>Helper lemmas\<close>

lemma event_cursor_nonempty [simp]: "event_cursor i e \<noteq> []"
  by (simp add: event_cursor_def)

lemma Consolidate_cases:
  assumes "Consolidate J fallback request events model s = (Ret res, s')"
  obtains (nothing) "bb_nextCursor (Build request events) = []" "lb_events (bb_batch (Build request events)) = []"
      "cres_succeeded res" "s' = s"
  | (moved) op where "lb_events (bb_batch (Build request events)) = []" "bb_nextCursor (Build request events) \<noteq> []"
      "RunInTransaction () (cursor_only_work request (bb_nextCursor (Build request events))) s = (Ret (op, ()), s')"
      "cres_succeeded res = succeeded op" "\<not> succeeded op \<longrightarrow> HasError (cres_error res)"
      "cres_nextCursor res = bb_nextCursor (Build request events)" "cres_processedEvents res = 0"
  | (ran) update used op sw uw where "lb_events (bb_batch (Build request events)) \<noteq> []"
      "choose_update J model fallback (bb_batch (Build request events)) = Ret (used, update)"
      "RunInTransaction (empty_write, empty_write) (consolidation_work J request (Build request events) update) s =
         (Ret (op, sw, uw), s')"
      "cres_succeeded res = succeeded op" "\<not> succeeded op \<longrightarrow> HasError (cres_error res)"
      "cres_nextCursor res = bb_nextCursor (Build request events)" "cres_fallbackUsed res = used"
      "cres_processedEvents res = i32 (int (length (lb_events (bb_batch (Build request events)))))"
      "succeeded op \<longrightarrow> cres_savedSummaries res = mw_savedSummaries sw + mw_savedSummaries uw \<and>
         cres_savedEntities res = mw_savedEntities uw \<and> cres_savedRelations res = mw_savedRelations uw"
proof -
  let ?b = "Build request events"
  show ?thesis
  proof (cases "lb_events (bb_batch ?b) = []")
    case empty: True
    show ?thesis
    proof (cases "bb_nextCursor ?b = []")
      case True
      with empty assms have "cres_succeeded res" "s' = s" by (auto simp: Consolidate_def Let_def)
      with True empty show ?thesis by (rule nothing)
    next
      case False
      obtain r s1 where run: "RunInTransaction () (cursor_only_work request (bb_nextCursor ?b)) s = (r, s1)" by fastforce
      note un = assms [unfolded Consolidate_def Let_def if_P [OF empty] if_not_P [OF False] run prod.case]
      show ?thesis
      proof (cases r)
        case (Throw w)
        with un show ?thesis by simp
      next
        case (Ret p)
        obtain op where p: "p = (op, ())" by (cases p) auto
        show ?thesis
          using un run Ret p empty False
          by (intro moved [of op]) (auto simp: i32_def default_consolidation_result_def split: if_splits)
      qed
    qed
  next
    case False
    obtain used update where c: "choose_update J model fallback (bb_batch ?b) = Ret (used, update)"
      using assms False by (cases "choose_update J model fallback (bb_batch ?b)") (auto simp: Consolidate_def Let_def)
    obtain r s1 where run: "RunInTransaction (empty_write, empty_write) (consolidation_work J request ?b update) s = (r, s1)"
      by fastforce
    note un = assms [unfolded Consolidate_def Let_def if_not_P [OF False] c outcome.case prod.case run]
    show ?thesis
    proof (cases r)
      case (Throw w)
      with un show ?thesis by simp
    next
      case (Ret p)
      obtain op sw uw where p: "p = (op, sw, uw)" by (cases p) auto
      show ?thesis
        using un run Ret p False c by (intro ran [of used update op sw uw]) (auto split: if_splits)
    qed
  qed
qed

section \<open>The batch\<close>

text \<open>
  Unless it refuses to build a batch, the batch builder looks at a prefix of the events; the
  batch holds exactly the messages of that prefix that belong to the requested session and to no
  excluded one, in order, each with its own source reference; the prefix is everything, or ends
  with the message that filled the batch up to its limit; the next cursor is that of the last event
  of the prefix.
\<close>

theorem Build_selects_messages:
  assumes "0 < cr_maxEvents request"
  shows "\<exists>pre post. events = pre @ post \<and>
    lb_events (bb_batch (Build request events)) = filter (batch_keeps request) pre \<and>
    lb_events (bb_batch (Build request events)) = take (nat (cr_maxEvents request)) (filter (batch_keeps request) events) \<and>
    lb_sourceRefs (bb_batch (Build request events)) = batch_refs request (cr_sessionId request) 0 pre \<and>
    bb_nextCursor (Build request events) = (if pre = [] then [] else event_cursor (length pre - 1) (last pre)) \<and>
    (post \<noteq> [] \<longrightarrow> pre \<noteq> [] \<and> batch_keeps request (last pre) \<and>
       int (length (lb_events (bb_batch (Build request events)))) = cr_maxEvents request)"
proof -
  let ?n = "cr_maxEvents request"
  obtain pre post r where s: "loop_spec request ?n 0 0 (empty_build (cr_sessionId request)) events pre post r"
      and b: "Build request events = r\<lparr>bb_sessionSourceRefs := [''session://'' @ cr_sessionId request]\<rparr>"
    using Build_spec [of request events] assms by auto
  have ev: "events = pre @ post" "lb_events (bb_batch r) = filter (batch_keeps request) pre"
    "int (length (filter (batch_keeps request) pre)) \<le> ?n"
    "post \<noteq> [] \<longrightarrow> pre \<noteq> [] \<and> batch_keeps request (last pre) \<and> int (length (filter (batch_keeps request) pre)) = ?n"
    using s assms unfolding loop_spec_def by (auto simp: empty_build_def)
  have rest: "lb_sourceRefs (bb_batch r) = batch_refs request (cr_sessionId request) 0 pre"
    "bb_nextCursor r = (if pre = [] then [] else event_cursor (length pre - 1) (last pre))"
    using s unfolding loop_spec_def by (auto simp: empty_build_def)
  have B: "bb_batch (Build request events) = bb_batch r" "bb_nextCursor (Build request events) = bb_nextCursor r"
    using b by simp_all
  have "filter (batch_keeps request) pre = take (nat ?n) (filter (batch_keeps request) events)"
  proof (cases "post = []")
    case True
    with ev show ?thesis by simp
  next
    case False
    with ev(4) have "length (filter (batch_keeps request) pre) = nat ?n" by linarith
    with ev(1) show ?thesis by simp
  qed
  then show ?thesis unfolding B ev(2) rest using ev(1,4) by blast
qed

definition one_message :: MemoryConsolidationRequest where
  "one_message = \<lparr>cr_agentId = ''a'', cr_sessionId = ''s'', cr_maxEvents = 1, cr_forceReprocess = False,
     cr_excludedSessionIds = [], cr_metadata = JObj []\<rparr>"

theorem Build_selects_messages_witness:
  "lb_events (bb_batch (Build one_message [stored_event hello 1, stored_event hello 2])) = [stored_event hello 1]"
proof -
  have "0 < cr_maxEvents one_message" by (simp add: one_message_def)
  from Build_selects_messages [OF this, of "[stored_event hello 1, stored_event hello 2]"]
  have "lb_events (bb_batch (Build one_message [stored_event hello 1, stored_event hello 2])) =
      take (nat (cr_maxEvents one_message)) (filter (batch_keeps one_message) [stored_event hello 1, stored_event hello 2])"
    by blast
  moreover have "batch_keeps one_message (stored_event hello 1)" by code_simp
  moreover have "nat (cr_maxEvents one_message) = Suc 0" by (simp add: one_message_def)
  ultimately show ?thesis by simp
qed

text \<open>
  A request with \<open>maxEvents\<close> not positive that does not force reprocessing consolidates nothing:
  whatever the events, the run succeeds with no event processed and the store untouched.
\<close>

theorem Consolidate_nonpositive_limit:
  assumes "cr_maxEvents request \<le> 0" "\<not> cr_forceReprocess request"
  shows "\<exists>res. Consolidate J fallback request events model s = (Ret res, s) \<and> cres_succeeded res \<and>
    cres_processedEvents res = 0 \<and> cres_nextCursor res = []"
  using assms by (simp add: Consolidate_def Build_def empty_build_def i32_def default_consolidation_result_def)

theorem Consolidate_nonpositive_limit_witness:
  "\<exists>res. Consolidate small_lib None (one_message\<lparr>cr_maxEvents := 0\<rparr>) [stored_event hello 1] None hello_store =
     (Ret res, hello_store) \<and> cres_processedEvents res = 0"
proof -
  have "cr_maxEvents (one_message\<lparr>cr_maxEvents := 0\<rparr>) \<le> 0" "\<not> cr_forceReprocess (one_message\<lparr>cr_maxEvents := 0\<rparr>)"
    by (simp_all add: one_message_def)
  from Consolidate_nonpositive_limit [OF this] show ?thesis by blast
qed

section \<open>Atomicity and effect\<close>

text \<open>
  C4: A consolidation that reports failure has an error code and left nothing behind: the summary,
  the entities, the relations and the cursor are written together or not at all.
\<close>

theorem Consolidate_failure_keeps_store:
  assumes "Consolidate J fallback request events model s = (Ret res, s')" "\<not> cres_succeeded res"
  shows "durable s' = durable s \<and> HasError (cres_error res)"
  using assms(1)
proof (cases rule: Consolidate_cases)
  case nothing
  then show ?thesis using assms(2) by simp
next
  case (moved op)
  then show ?thesis using cursor_only.failure_keeps_durable assms(2) by blast
next
  case (ran update used op sw uw)
  then show ?thesis using consolidating.failure_keeps_durable assms(2) by blast
qed

theorem Consolidate_failure_keeps_store_witness:
  "\<exists>res s'. Consolidate small_lib None one_message [stored_event (hello\<lparr>ev_sessionId := ''x''\<rparr>) 1] None
      (hello_store\<lparr>s_faults := [True, False]\<rparr>) = (Ret res, s') \<and>
    \<not> cres_succeeded res \<and> durable s' = durable (hello_store\<lparr>s_faults := [True, False]\<rparr>)"
proof -
  let ?run = "Consolidate small_lib None one_message [stored_event (hello\<lparr>ev_sessionId := ''x''\<rparr>) 1] None
      (hello_store\<lparr>s_faults := [True, False]\<rparr>)"
  have "case fst ?run of Ret res \<Rightarrow> \<not> cres_succeeded res | Throw w \<Rightarrow> False" by code_simp
  then obtain res where "fst ?run = Ret res" "\<not> cres_succeeded res" by (auto split: outcome.splits)
  then have run: "?run = (Ret res, snd ?run)" by (metis prod.collapse)
  from Consolidate_failure_keeps_store [OF run \<open>\<not> cres_succeeded res\<close>] run \<open>\<not> cres_succeeded res\<close>
  show ?thesis by blast
qed

text \<open>
  A consolidation that reports success and looked at any event has moved the saved cursor of
  the agent and session to the cursor it returns, durably; if it had messages to process, it
  reports exactly one session summary plus every summary, every entity and every relation of the
  update it chose as saved.
\<close>

theorem Consolidate_success_effect:
  assumes run: "Consolidate J fallback request events model s = (Ret res, s')" "cres_succeeded res"
    and new: "bb_nextCursor (Build request events) \<noteq> []"
  shows "select_cursor (c_str (cr_agentId request)) (c_str (cr_sessionId request)) (durable s') =
      Some (CursorToInt (cres_nextCursor res)) \<and>
    (let batch = bb_batch (Build request events) in
     lb_events batch \<noteq> [] \<longrightarrow> (\<exists>used update. choose_update J model fallback batch = Ret (used, update) \<and>
       cres_savedSummaries res = 1 + int (length (lu_topicSummaries update) + length (lu_profileSummaries update)) \<and>
       cres_savedEntities res = int (length (lu_entities update)) \<and>
       cres_savedRelations res = int (length (lu_relations update))))"
  using run(1)
proof (cases rule: Consolidate_cases)
  case nothing
  then show ?thesis using new by simp
next
  case (moved op)
  from cursor_only.success_commits [OF moved(3)] moved(4) run(2) obtain s1 s2 r0 where
    w: "cursor_only_work request (bb_nextCursor (Build request events)) s1 = (Ret (r0, ()), s2)" "succeeded r0"
      "s_db s2 = Some (durable s')" by auto
  then have "save_cursor_op request (bb_nextCursor (Build request events)) s1 = (Ret r0, s2)"
    by (cases "save_cursor_op request (bb_nextCursor (Build request events)) s1") (auto simp: cursor_only_work_def)
  from save_cursor_op_success [OF this w(2)] w(3) moved(1,6) show ?thesis by (simp add: Let_def)
next
  case (ran update used op sw uw)
  from consolidating.success_commits [OF ran(3)] ran(4) run(2) obtain s1 s2 r0 where
    w: "consolidation_work J request (Build request events) update s1 = (Ret (r0, sw, uw), s2)" "succeeded r0"
      "s_db s2 = Some (durable s')" by auto
  note c = consolidation_work_success [OF w(1,2) new]
  from c(5) save_cursor_op_success w(2,3) have
    "select_cursor (c_str (cr_agentId request)) (c_str (cr_sessionId request)) (durable s') =
      Some (CursorToInt (bb_nextCursor (Build request events)))" by fastforce
  with c ran run(2) show ?thesis by (simp add: Let_def)
qed

theorem Consolidate_success_effect_witness:
  "\<exists>res s'. Consolidate small_lib None one_message [stored_event (hello\<lparr>ev_sessionId := ''x''\<rparr>) 1] None hello_store =
     (Ret res, s') \<and> select_cursor ''a'' ''s'' (durable s') = Some 1"
proof -
  let ?ev = "[stored_event (hello\<lparr>ev_sessionId := ''x''\<rparr>) 1]"
  let ?run = "Consolidate small_lib None one_message ?ev None hello_store"
  have "case fst ?run of Ret res \<Rightarrow> cres_succeeded res \<and> cres_nextCursor res = ''1'' | Throw w \<Rightarrow> False" by code_simp
  then obtain res where r: "fst ?run = Ret res" "cres_succeeded res" "cres_nextCursor res = ''1''" by (auto split: outcome.splits)
  then have run: "?run = (Ret res, snd ?run)" by (metis prod.collapse)
  have new: "bb_nextCursor (Build one_message ?ev) \<noteq> []" by code_simp
  have n: "CursorToInt ''1'' = 1" "c_str (cr_agentId one_message) = ''a''" "c_str (cr_sessionId one_message) = ''s''" by code_simp+
  from Consolidate_success_effect [OF run r(2) new] have "select_cursor ''a'' ''s'' (durable (snd ?run)) = Some 1"
    unfolding r(3) n by blast
  with run show ?thesis by blast
qed

section \<open>The processors\<close>

definition messages :: "MemoryEvent list \<Rightarrow> MemoryEvent list" where
  "messages evs = filter (\<lambda>e. ev_type e = MESSAGE_APPENDED) evs"

definition topics_of :: "MemoryEvent list \<Rightarrow> string set" where
  "topics_of evs = {DetectTopic (ev_content e) | e. e \<in> set (messages evs)} - {[]}"

definition preference_in :: "MemoryEvent list \<Rightarrow> bool" where
  "preference_in evs =
     (\<exists>e\<in>set (messages evs). ev_role e = ''user'' \<and> ContainsPreferenceSignal (ev_content e))"

lemma topics_of_Cons:
  "topics_of (e # evs) =
   (if ev_type e = MESSAGE_APPENDED \<and> DetectTopic (ev_content e) \<noteq> [] then {DetectTopic (ev_content e)} else {}) \<union> topics_of evs"
  by (auto simp: topics_of_def messages_def)

lemma preference_in_Cons:
  "preference_in (e # evs) =
   (ev_type e = MESSAGE_APPENDED \<and> ev_role e = ''user'' \<and> ContainsPreferenceSignal (ev_content e) \<or> preference_in evs)"
  by (auto simp: preference_in_def messages_def)

lemma rule_loop_spec:
  "\<exists>ts. distinct ts \<and> set ts = topics_of evs - set seen \<and>
     lu_topicSummaries (rule_loop refs seen hp u evs) = lu_topicSummaries u @ map (\<lambda>t. ''Discussed topic: '' @ t) ts \<and>
     length (lu_entities (rule_loop refs seen hp u evs)) =
       length (lu_entities u) + length (filter (\<lambda>t. t \<noteq> ''memory_system'') ts) + (if \<not> hp \<and> preference_in evs then 1 else 0) \<and>
     length (lu_relations (rule_loop refs seen hp u evs)) =
       length (lu_relations u) + (if \<not> hp \<and> preference_in evs then 1 else 0) \<and>
     lu_profileSummaries (rule_loop refs seen hp u evs) = lu_profileSummaries u"
proof (induction evs arbitrary: seen hp u)
  case Nil
  show ?case by (rule exI [of _ "[]"]) (simp add: topics_of_def preference_in_def messages_def)
next
  case (Cons e evs)
  show ?case
  proof (cases "ev_type e = MESSAGE_APPENDED")
    case False
    then show ?thesis using Cons.IH [of seen hp u] by (simp add: topics_of_Cons preference_in_Cons)
  next
    case True
    let ?t = "DetectTopic (ev_content e)"
    let ?new = "?t \<noteq> [] \<and> ?t \<notin> set seen"
    let ?seen1 = "if ?new then ?t # seen else seen"
    let ?u1 = "if ?new then u\<lparr>lu_topicSummaries := lu_topicSummaries u @ [''Discussed topic: '' @ ?t],
        lu_entities := lu_entities u @ (if ?t \<noteq> ''memory_system'' then [topic_entity ?t (ev_agentId e) refs] else [])\<rparr> else u"
    let ?pref = "\<not> hp \<and> ev_role e = ''user'' \<and> ContainsPreferenceSignal (ev_content e)"
    let ?u2 = "if ?pref then ?u1\<lparr>lu_entities := lu_entities ?u1 @ [preference_entity (ev_agentId e) refs],
        lu_relations := lu_relations ?u1 @ [preference_relation (ev_agentId e) refs]\<rparr> else ?u1"
    have run: "rule_loop refs seen hp u (e # evs) = rule_loop refs ?seen1 (hp \<or> ?pref) ?u2 evs"
      using True by (simp only: rule_loop.simps Let_def not_True_eq_False if_False simp_thms)
    obtain ts where ts: "distinct ts" "set ts = topics_of evs - set ?seen1"
      "lu_topicSummaries (rule_loop refs ?seen1 (hp \<or> ?pref) ?u2 evs) = lu_topicSummaries ?u2 @ map (\<lambda>t. ''Discussed topic: '' @ t) ts"
      "length (lu_entities (rule_loop refs ?seen1 (hp \<or> ?pref) ?u2 evs)) =
         length (lu_entities ?u2) + length (filter (\<lambda>t. t \<noteq> ''memory_system'') ts) + (if \<not> (hp \<or> ?pref) \<and> preference_in evs then 1 else 0)"
      "length (lu_relations (rule_loop refs ?seen1 (hp \<or> ?pref) ?u2 evs)) =
         length (lu_relations ?u2) + (if \<not> (hp \<or> ?pref) \<and> preference_in evs then 1 else 0)"
      "lu_profileSummaries (rule_loop refs ?seen1 (hp \<or> ?pref) ?u2 evs) = lu_profileSummaries ?u2"
      using Cons.IH [of ?seen1 "hp \<or> ?pref" ?u2] by blast
    let ?ts = "if ?new then ?t # ts else ts"
    have "distinct ?ts \<and> set ?ts = topics_of (e # evs) - set seen"
      using ts(1,2) True by (auto simp: topics_of_Cons split: if_splits)
    moreover have "lu_topicSummaries ?u2 @ map (\<lambda>t. ''Discussed topic: '' @ t) ts =
        lu_topicSummaries u @ map (\<lambda>t. ''Discussed topic: '' @ t) ?ts" by simp
    moreover have "length (lu_entities ?u2) + length (filter (\<lambda>t. t \<noteq> ''memory_system'') ts) + (if \<not> (hp \<or> ?pref) \<and> preference_in evs then 1 else 0) =
        length (lu_entities u) + length (filter (\<lambda>t. t \<noteq> ''memory_system'') ?ts) + (if \<not> hp \<and> preference_in (e # evs) then 1 else 0)"
      using True by (simp add: preference_in_Cons)
    moreover have "length (lu_relations ?u2) + (if \<not> (hp \<or> ?pref) \<and> preference_in evs then 1 else 0) =
        length (lu_relations u) + (if \<not> hp \<and> preference_in (e # evs) then 1 else 0)"
      using True by (simp add: preference_in_Cons)
    moreover have "lu_profileSummaries ?u2 = lu_profileSummaries u" by simp
    ultimately show ?thesis unfolding run ts(3-) by metis
  qed
qed

text \<open>
  The rule-based extraction reports each topic detected in a message exactly once, makes an
  entity of every topic but \<open>memory_system\<close>, and one preference entity with one relation exactly
  when some message of the user signals a preference.
\<close>

theorem RuleBasedProcess_spec:
  "\<exists>ts. distinct ts \<and> set ts = topics_of (lb_events batch) \<and>
     lu_topicSummaries (RuleBasedProcess batch) = map (\<lambda>t. ''Discussed topic: '' @ t) ts \<and>
     length (lu_entities (RuleBasedProcess batch)) =
       length (filter (\<lambda>t. t \<noteq> ''memory_system'') ts) + (if preference_in (lb_events batch) then 1 else 0) \<and>
     length (lu_relations (RuleBasedProcess batch)) = (if preference_in (lb_events batch) then 1 else 0)"
proof -
  have e: "lu_topicSummaries empty_update = []" "lu_entities empty_update = []" "lu_relations empty_update = []"
    by (simp_all add: empty_update_def)
  obtain ts where "distinct ts" "set ts = topics_of (lb_events batch) - set []"
      "lu_topicSummaries (RuleBasedProcess batch) = lu_topicSummaries empty_update @ map (\<lambda>t. ''Discussed topic: '' @ t) ts"
      "length (lu_entities (RuleBasedProcess batch)) = length (lu_entities empty_update) +
        length (filter (\<lambda>t. t \<noteq> ''memory_system'') ts) + (if \<not> False \<and> preference_in (lb_events batch) then 1 else 0)"
      "length (lu_relations (RuleBasedProcess batch)) = length (lu_relations empty_update) +
        (if \<not> False \<and> preference_in (lb_events batch) then 1 else 0)"
    using rule_loop_spec [of "lb_events batch" "[]" "lb_sourceRefs batch" False empty_update]
    unfolding RuleBasedProcess_def by blast
  then show ?thesis by (intro exI [of _ ts]) (simp add: e)
qed

lemma field_refs_nonempty: "refs \<noteq> [] \<Longrightarrow> field_refs item refs \<noteq> []"
  by (simp add: field_refs_def Let_def)

lemma parse_entities_owned:
  "x \<in> set (parse_entities refs a n items) \<Longrightarrow> en_agentId x = a \<and> (refs \<noteq> [] \<longrightarrow> en_sourceRefs x \<noteq> [])"
  by (induction refs a n items rule: parse_entities.induct) (auto simp: field_refs_nonempty split: if_splits)

lemma parse_relations_owned:
  "x \<in> set (parse_relations refs a items) \<Longrightarrow> rel_agentId x = a \<and> (refs \<noteq> [] \<longrightarrow> rel_sourceRefs x \<noteq> [])"
  by (induction refs a items rule: parse_relations.induct) (auto simp: field_refs_nonempty split: if_splits)

lemma ParseResponse_owned:
  "x \<in> set (lu_entities (ParseResponse J t refs a)) \<Longrightarrow> en_agentId x = a \<and> (refs \<noteq> [] \<longrightarrow> en_sourceRefs x \<noteq> [])"
  "y \<in> set (lu_relations (ParseResponse J t refs a)) \<Longrightarrow> rel_agentId y = a \<and> (refs \<noteq> [] \<longrightarrow> rel_sourceRefs y \<noteq> [])"
  by (auto simp: ParseResponse_def empty_update_def parse_entities_owned parse_relations_owned
      split: sum.splits if_splits)

lemma find_char_append: "CHR 0x7B \<notin> set u \<Longrightarrow> find_char (CHR 0x7B) (u @ CHR 0x7B # v) = Some (length u)"
  by (induction u) auto

lemma rfind_char_append: "c \<notin> set v \<Longrightarrow> rfind_char c (u @ c # v) = Some (length u)"
proof -
  have *: "find_char c (w @ c # x) = Some (length w)" if "c \<notin> set w" for w x
    using that by (induction w) auto
  assume "c \<notin> set v"
  then show ?thesis using * [of "rev v" "rev u"] by (simp add: rfind_char_def)
qed

text \<open>
  A model's answer is cut down to the text from its first opening to its last closing brace, so
  that a JSON object wrapped in prose or a code fence is read as if it stood alone; every entity and
  relation taken from it belongs to the agent of the batch and has at least one source reference if
  the batch has any.
\<close>

theorem LlmProcess_reads_wrapped_object:
  assumes answer: "model (BuildPrompt batch) = Ret r" "invoke_ok r"
      "inv_text r = u @ [CHR 0x7B] @ m @ [CHR 0x7D] @ v"
    and braces: "CHR 0x7B \<notin> set u" "CHR 0x7D \<notin> set v" and events: "lb_events batch = e # es"
  shows "\<exists>update. LlmProcess J model batch = Ret update \<and>
    update = ParseResponse J ([CHR 0x7B] @ m @ [CHR 0x7D]) (lb_sourceRefs batch) (ev_agentId e) \<and>
    (\<forall>x\<in>set (lu_entities update). en_agentId x = ev_agentId e \<and> (lb_sourceRefs batch \<noteq> [] \<longrightarrow> en_sourceRefs x \<noteq> [])) \<and>
    (\<forall>x\<in>set (lu_relations update). rel_agentId x = ev_agentId e \<and> (lb_sourceRefs batch \<noteq> [] \<longrightarrow> rel_sourceRefs x \<noteq> []))"
proof -
  let ?t = "u @ [CHR 0x7B] @ m @ [CHR 0x7D] @ v"
  have "find_char (CHR 0x7B) ?t = Some (length u)" using find_char_append [OF braces(1)] by simp
  moreover have "rfind_char (CHR 0x7D) ?t = Some (length u + 1 + length m)"
    using rfind_char_append [OF braces(2), of "u @ [CHR 0x7B] @ m"] by simp
  ultimately have "clean_response ?t = [CHR 0x7B] @ m @ [CHR 0x7D]" by (simp add: clean_response_def)
  then have "LlmProcess J model batch = Ret (ParseResponse J ([CHR 0x7B] @ m @ [CHR 0x7D]) (lb_sourceRefs batch) (ev_agentId e))"
    using answer events by (simp add: LlmProcess_def)
  then show ?thesis using ParseResponse_owned by metis
qed

definition chatty_model :: model_client where
  "chatty_model prompt = Ret (default_invoke_result\<lparr>inv_text := ''Sure: {} - done''\<rparr>)"

theorem LlmProcess_reads_wrapped_object_witness:
  "LlmProcess small_lib chatty_model \<lparr>lb_events = [hello], lb_sourceRefs = []\<rparr> =
     Ret (ParseResponse small_lib ''{}'' [] ''a'')"
proof -
  let ?b = "\<lparr>lb_events = [hello], lb_sourceRefs = []\<rparr>" and ?r = "default_invoke_result\<lparr>inv_text := ''Sure: {} - done''\<rparr>"
  have "chatty_model (BuildPrompt ?b) = Ret ?r" "invoke_ok ?r"
    by (simp_all add: chatty_model_def invoke_ok_def default_invoke_result_def)
  moreover have "inv_text ?r = ''Sure: '' @ [CHR 0x7B] @ [] @ [CHR 0x7D] @ '' - done''"
    by (simp add: default_invoke_result_def)
  ultimately have "LlmProcess small_lib chatty_model ?b =
      Ret (ParseResponse small_lib ([CHR 0x7B] @ [] @ [CHR 0x7D]) (lb_sourceRefs ?b) (ev_agentId hello))"
    using LlmProcess_reads_wrapped_object [of chatty_model ?b ?r "''Sure: ''" "[]" "'' - done''" hello "[]" small_lib] by simp
  then show ?thesis by (simp add: hello_def)
qed

end
