(* ===== verification/Context.thy ===== *)
theory Context
  imports Store_Search Event_Log Utils
begin

text \<open>
  Building a context package (\<open>src/core/context_builder.cpp\<close>, \<open>src/core/payload_query.cpp\<close>): which
  sections are included, the recent messages, the selected long-term memory with its rendering and
  citations, and the offloaded payloads that match the query.
\<close>

section \<open>payload\_query.cpp\<close>

definition ContainsTerm :: "MemoryPayloadRef \<Rightarrow> string \<Rightarrow> bool" where
  "ContainsTerm payload term =
     str_contains term
       (ToLower (pay_uri payload @ nl @ pay_toolName payload @ nl @ pay_summary payload @ nl @ pay_contentType payload))"

definition ParsePayloadQuery :: "string \<Rightarrow> string list" where
  "ParsePayloadQuery query = map ToLower (words_of query)"

definition MatchesPayloadQuery :: "MemoryPayloadRef \<Rightarrow> string list \<Rightarrow> bool" where
  "MatchesPayloadQuery payload terms = (if terms = [] then True else list_all (ContainsTerm payload) terms)"

section \<open>Floating-point output\<close>

text \<open>
  \<open>stream << float\<close>: \<open>%g\<close> with six significant digits, rounded half to even on the exact value.
\<close>

definition decimal_exponent :: "rat \<Rightarrow> int" where
  "decimal_exponent x = last (- 60 # filter (\<lambda>k. 10 powi k \<le> x) (map (\<lambda>n. int n - 60) [0..<120]))"

fun strip_zeros :: "string \<Rightarrow> string" where
  "strip_zeros [] = []"
| "strip_zeros (c # cs) = (if c = CHR ''0'' then strip_zeros cs else c # cs)"

definition significant_digits :: "rat \<Rightarrow> string \<times> int" where
  "significant_digits x =
     (let e = decimal_exponent x; d = round_half_even (x * 10 powi (5 - e))
      in if d \<ge> 1000000 then (nat_digits (nat (d div 10)), e + 1) else (nat_digits (nat d), e))"

definition with_point :: "string \<Rightarrow> string \<Rightarrow> string" where
  "with_point whole frc = (let f = rev (strip_zeros (rev frc)) in if f = [] then whole else whole @ ''.'' @ f)"

definition show_float_abs :: "rat \<Rightarrow> string" where
  "show_float_abs x =
     (let (ds, e) = significant_digits x in
      if - 4 \<le> e \<and> e < 6
      then (if 0 \<le> e then with_point (take (nat e + 1) ds) (drop (nat e + 1) ds)
            else with_point ''0'' (replicate (nat (- e) - 1) (CHR ''0'') @ ds))
      else with_point (take 1 ds) (drop 1 ds) @ ''e'' @ (if e < 0 then ''-'' else ''+'') @
           (let t = nat_digits (nat \<bar>e\<bar>) in if length t < 2 then ''0'' @ t else t))"

definition show_float :: "rat \<Rightarrow> string" where
  "show_float x = (if x = 0 then ''0'' else if x < 0 then ''-'' @ show_float_abs (- x) else show_float_abs x)"

section \<open>Citations and rendering\<close>

definition AddUniqueCitation :: "string list \<Rightarrow> string \<Rightarrow> string list" where
  "AddUniqueCitation citations citation =
     (if citation \<noteq> [] \<and> citation \<notin> set citations then citations @ [citation] else citations)"

definition AddUniqueCitations :: "string list \<Rightarrow> string list \<Rightarrow> string list" where
  "AddUniqueCitations citations refs = foldl AddUniqueCitation citations refs"

definition RelationIdMatches :: "MemoryRelation \<Rightarrow> string \<Rightarrow> bool" where
  "RelationIdMatches relation resultId = (rel_id relation = resultId \<or> ''relation:'' @ rel_id relation = resultId)"

record SelectedLongTermMemory =
  sel_succeeded :: bool
  sel_snapshot :: LongTermMemorySnapshot
  sel_searchResults :: "MemorySearchHit list"
  sel_usedSearch :: bool
  sel_error :: MemoryError

definition default_selected :: SelectedLongTermMemory where
  "default_selected =
     \<lparr>sel_succeeded = True, sel_snapshot = empty_snapshot, sel_searchResults = [], sel_usedSearch = False,
      sel_error = no_error\<rparr>"

definition summary_line :: "LongTermSummaryRecord \<Rightarrow> string" where
  "summary_line r =
     ''- ['' @ ls_level r @ ''] '' @ ls_topic r @ '': '' @ ls_summary r @ '' (confidence='' @ show_float (ls_confidence r) @ '')'' @ nl"

definition entity_line :: "MemoryEntity \<Rightarrow> string" where
  "entity_line e =
     ''- '' @ en_id e @ '' ('' @ en_entityType e @ '', '' @ en_name e @ ''): '' @ en_summary e @
     '' (confidence='' @ show_float (en_confidence e) @ '')'' @ nl"

definition relation_line :: "MemoryRelation \<Rightarrow> string" where
  "relation_line r =
     ''- '' @ rel_fromEntityId r @ '' '' @ rel_relationType r @ '' '' @ rel_toEntityId r @
     '' (confidence='' @ show_float (rel_confidence r) @ '')'' @ nl"

definition FormatLongTermSnapshot :: "LongTermMemorySnapshot \<Rightarrow> string" where
  "FormatLongTermSnapshot snapshot =
     (let t1 = (if snap_summaries snapshot \<noteq> []
                then ''## Long-term Summaries'' @ nl @ concat (map summary_line (snap_summaries snapshot)) else []);
          t2 = (if snap_entities snapshot \<noteq> []
                then t1 @ (if t1 \<noteq> [] then nl else []) @ ''## Memory Entities'' @ nl @ concat (map entity_line (snap_entities snapshot))
                else t1);
          t3 = (if snap_relations snapshot \<noteq> []
                then t2 @ (if t2 \<noteq> [] then nl else []) @ ''## Memory Relations'' @ nl @ concat (map relation_line (snap_relations snapshot))
                else t2)
      in t3)"

definition FormatSearchResults :: "MemorySearchHit list \<Rightarrow> string" where
  "FormatSearchResults hits =
     (if hits = [] then []
      else ''## Relevant Long-Term Memory'' @ nl @
           concat (map (\<lambda>h. ''- ['' @ hit_type h @ ''] '' @ hit_content h @ nl) hits))"

definition CollectSnapshotCitations :: "string list \<Rightarrow> LongTermMemorySnapshot \<Rightarrow> string list" where
  "CollectSnapshotCitations citations snapshot =
     foldl (\<lambda>c r. AddUniqueCitations c (rel_sourceRefs r))
       (foldl (\<lambda>c e. AddUniqueCitations c (en_sourceRefs e))
         (foldl (\<lambda>c r. AddUniqueCitations c (ls_sourceRefs r)) citations (snap_summaries snapshot))
         (snap_entities snapshot))
       (snap_relations snapshot)"

definition CollectSearchCitations :: "string list \<Rightarrow> MemorySearchHit list \<Rightarrow> string list" where
  "CollectSearchCitations citations hits = foldl (\<lambda>c h. AddUniqueCitations c (hit_sourceRefs h)) citations hits"

definition RenderLongTermMemory :: "SelectedLongTermMemory \<Rightarrow> string list \<Rightarrow> string \<times> string list" where
  "RenderLongTermMemory selected citations =
     (if sel_usedSearch selected
      then (FormatSearchResults (sel_searchResults selected),
            CollectSearchCitations (CollectSnapshotCitations citations (sel_snapshot selected)) (sel_searchResults selected))
      else (FormatLongTermSnapshot (sel_snapshot selected), CollectSnapshotCitations citations (sel_snapshot selected)))"

section \<open>The builder\<close>

text \<open>
  The configuration and, for each of the four store interfaces, whether its pointer is set; the
  store they point to is passed along.
\<close>

record context_builder =
  cb_config :: MemoryConfig
  cb_eventStore :: bool
  cb_payloadStore :: bool
  cb_longTermStore :: bool
  cb_searchStore :: bool

definition ShouldInclude :: "MemoryContextRequest \<Rightarrow> string \<Rightarrow> bool" where
  "ShouldInclude request sec =
     (if cx_includeSections request = [] then True
      else list_ex (\<lambda>item. item = sec \<or> (sec = ''payloads'' \<and> item = ''payload'') \<or>
                           (sec = ''long_term'' \<and> item = ''long_term_memory'')) (cx_includeSections request))"

definition LongTermMemoryLimit :: "context_builder \<Rightarrow> MemoryContextRequest \<Rightarrow> int" where
  "LongTermMemoryLimit cb request =
     (let configuredLimit = MetadataInt (cx_metadata request) ''long_term_limit'' (- 1) in
      if configuredLimit \<ge> 0 then configuredLimit
      else
        let tokenBudget = (if cx_tokenBudget request > 0 then cx_tokenBudget request else cfg_tokenBudget (cb_config cb))
        in if tokenBudget \<le> 0 then 20 else max 1 (min 50 (tokenBudget div 200)))"

definition LoadMessagesForContext ::
  "json_lib \<Rightarrow> context_builder \<Rightarrow> MemoryContextRequest \<Rightarrow> store \<Rightarrow> MemoryEventsResult \<times> store" where
  "LoadMessagesForContext J cb request s =
     (if \<not> cb_eventStore cb then (success_with [], s)
      else
        let limit = max 0 (MetadataInt (cx_metadata request) ''message_limit'' 20)
        in if limit = 0 then (success_with [], s)
           else
             let (events, s1) = LoadRecentEvents J (cx_agentId request) (cx_sessionId request) limit s
             in if \<not> succeeded events then (events, s1)
                else (success_with (filter (\<lambda>e. ev_type e = MESSAGE_APPENDED) (payload_of events)), s1))"

text \<open>The loop over the loaded payloads: each reference once, matching the query, up to the limit.\<close>

fun payload_loop ::
  "string list \<Rightarrow> int \<Rightarrow> string list \<Rightarrow> MemoryPayloadRef list \<Rightarrow> MemoryPayloadRef list \<Rightarrow> MemoryPayloadRef list" where
  "payload_loop terms limit seen acc [] = acc"
| "payload_loop terms limit seen acc (p # ps) =
     (if pay_uri p \<in> set seen \<or> \<not> MatchesPayloadQuery p terms
      then payload_loop terms limit (pay_uri p # seen) acc ps
      else if limit > 0 \<and> i32 (int (length (acc @ [p]))) \<ge> limit then acc @ [p]
      else payload_loop terms limit (pay_uri p # seen) (acc @ [p]) ps)"

definition LoadPayloadsForContext ::
  "context_builder \<Rightarrow> MemoryContextRequest \<Rightarrow> store \<Rightarrow> MemoryPayloadRefsResult \<times> store" where
  "LoadPayloadsForContext cb request s =
     (let limit = max 0 (MetadataInt (cx_metadata request) ''payload_limit'' 20)
      in if limit = 0 \<or> \<not> cb_payloadStore cb then (success_with [], s)
         else
           let (payloads, s1) = LoadRecentPayloads (cx_agentId request) (cx_sessionId request) limit s
           in if \<not> succeeded payloads then (payloads, s1)
              else (success_with (payload_loop (ParsePayloadQuery (cx_query request)) limit [] [] (payload_of payloads)), s1))"

definition failed_selection :: "MemoryError \<Rightarrow> SelectedLongTermMemory \<Rightarrow> SelectedLongTermMemory" where
  "failed_selection e selected = selected\<lparr>sel_succeeded := False, sel_error := e\<rparr>"

definition search_request_of :: "MemoryContextRequest \<Rightarrow> int \<Rightarrow> MemorySearchRequest" where
  "search_request_of request limit =
     \<lparr>sr_agentId = cx_agentId request, sr_sessionId = cx_sessionId request, sr_query = cx_query request,
      sr_limit = limit, sr_includeSections = [], sr_metadata = JObj []\<rparr>"

definition pick_hits :: "MemorySearchHit list \<Rightarrow> LongTermMemorySnapshot \<Rightarrow> LongTermMemorySnapshot" where
  "pick_hits hits snapshot =
     (let entityIds = map hit_id (filter (\<lambda>h. hit_type h = ''entity'') hits);
          relationIds = map hit_id (filter (\<lambda>h. hit_type h = ''relation'') hits)
      in \<lparr>snap_summaries = [],
          snap_entities = filter (\<lambda>e. en_id e \<in> set entityIds) (snap_entities snapshot),
          snap_relations = filter (\<lambda>r. list_ex (RelationIdMatches r) relationIds) (snap_relations snapshot)\<rparr>)"

definition SelectLongTermMemory ::
  "json_lib \<Rightarrow> fts_engine \<Rightarrow> context_builder \<Rightarrow> MemoryContextRequest \<Rightarrow> int \<Rightarrow> store \<Rightarrow> SelectedLongTermMemory \<times> store" where
  "SelectLongTermMemory J fts cb request limit s =
     (if \<not> cb_longTermStore cb \<or> \<not> cb_searchStore cb \<or> limit \<le> 0 then (default_selected, s)
      else if cx_query request = []
      then (let (snapshot, s1) = LoadLongTermMemory J (cx_agentId request) limit (cx_sessionId request) s
            in if \<not> succeeded snapshot then (failed_selection (error_of snapshot) default_selected, s1)
               else (default_selected\<lparr>sel_snapshot := payload_of snapshot\<rparr>, s1))
      else
        let (searchResult, s1) = SearchLongTermMemory J fts (search_request_of request limit) s
        in if \<not> succeeded searchResult then (failed_selection (error_of searchResult) default_selected, s1)
           else
             let selected = default_selected\<lparr>sel_searchResults := payload_of searchResult, sel_usedSearch := True\<rparr>;
                 (snapshotResult, s2) = LoadLongTermMemory J (cx_agentId request) limit (cx_sessionId request) s1
             in if \<not> succeeded snapshotResult then (failed_selection (error_of snapshotResult) selected, s2)
                else (selected\<lparr>sel_snapshot := pick_hits (payload_of searchResult) (payload_of snapshotResult)\<rparr>, s2))"

definition event_message :: "MemoryEvent \<Rightarrow> MemoryMessage" where
  "event_message e =
     \<lparr>msg_role = ev_role e, msg_content = ev_content e, msg_toolCallId = ev_toolCallId e,
      msg_toolName = ev_toolName e, msg_payloadRef = ev_payloadRef e\<rparr>"

definition payload_line :: "MemoryPayloadRef \<Rightarrow> string" where
  "payload_line p =
     ''- uri: '' @ pay_uri p @ '', tool: '' @ pay_toolName p @ '', chars: '' @ to_string (pay_originalChars p) @
     '', summary: '' @ pay_summary p @ nl"

definition json_size :: "'a list \<Rightarrow> json" where
  "json_size xs = JUInt (int (length xs))"

definition set_meta :: "string \<Rightarrow> json \<Rightarrow> MemoryContextPackage \<Rightarrow> MemoryContextPackage" where
  "set_meta k v p = p\<lparr>pkg_metadata := json_set k v (pkg_metadata p)\<rparr>"

text \<open>The three parts of \<open>BuildContext\<close>: messages, long-term memory, payloads.\<close>

definition context_messages ::
  "json_lib \<Rightarrow> context_builder \<Rightarrow> MemoryContextRequest \<Rightarrow> store \<Rightarrow> (MemoryError + MemoryContextPackage) \<times> store" where
  "context_messages J cb request s =
     (let (r, s1) = (if ShouldInclude request ''messages'' then LoadMessagesForContext J cb request s else (success_with [], s))
      in if \<not> succeeded r then (Inl (error_of r), s1)
         else let p = empty_package\<lparr>pkg_messages := map event_message (payload_of r)\<rparr>
              in (Inr (set_meta ''message_count'' (json_size (pkg_messages p)) p), s1))"

definition context_long_term ::
  "json_lib \<Rightarrow> fts_engine \<Rightarrow> context_builder \<Rightarrow> MemoryContextRequest \<Rightarrow> MemoryContextPackage \<Rightarrow> store \<Rightarrow>
   (MemoryError + MemoryContextPackage) \<times> store" where
  "context_long_term J fts cb request result s =
     (let limit = LongTermMemoryLimit cb request;
          (selected, s1) =
            (if ShouldInclude request ''long_term'' \<and> cb_longTermStore cb \<and> cb_searchStore cb \<and> limit > 0
             then SelectLongTermMemory J fts cb request limit s else (default_selected, s))
      in if \<not> sel_succeeded selected then (Inl (sel_error selected), s1)
         else
           let (longTermText, citations) = RenderLongTermMemory selected [];
               p1 = result\<lparr>pkg_entities := snap_entities (sel_snapshot selected),
                           pkg_relations := snap_relations (sel_snapshot selected),
                           pkg_memoryText := pkg_memoryText result @
                             (if longTermText \<noteq> [] then (if pkg_memoryText result \<noteq> [] then nl @ nl else []) @ longTermText else [])\<rparr>;
               p2 = set_meta ''query_applied'' (JBool (cx_query request \<noteq> []))
                      (set_meta ''include_count'' (json_size (cx_includeSections request))
                        (set_meta ''long_term_limit'' (JInt limit)
                          (set_meta ''tokenBudget''
                             (JInt (if cx_tokenBudget request > 0 then cx_tokenBudget request else cfg_tokenBudget (cb_config cb)))
                            (set_meta ''sessionId'' (JStr (cx_sessionId request))
                              (set_meta ''agentId'' (JStr (cx_agentId request)) p1)))));
               p3 = (if citations \<noteq> [] then set_meta ''citation_count'' (json_size citations) (p2\<lparr>pkg_citations := citations\<rparr>) else p2)
           in (Inr (set_meta ''relation_count'' (json_size (pkg_relations p3))
                     (set_meta ''entity_count'' (json_size (pkg_entities p3)) p3)), s1))"

definition context_payloads ::
  "context_builder \<Rightarrow> MemoryContextRequest \<Rightarrow> MemoryContextPackage \<Rightarrow> store \<Rightarrow> (MemoryError + MemoryContextPackage) \<times> store" where
  "context_payloads cb request result s =
     (if \<not> ShouldInclude request ''payloads'' then (Inr result, s)
      else
        let (selected, s1) = LoadPayloadsForContext cb request s
        in if \<not> succeeded selected then (Inl (error_of selected), s1)
           else if payload_of selected \<noteq> []
           then (let p = set_meta ''payload_count'' (json_size (payload_of selected)) result
                 in (Inr (p\<lparr>pkg_memoryText := pkg_memoryText p @ (if pkg_memoryText p \<noteq> [] then nl else []) @
                              ''## Offloaded Payloads'' @ nl @ nl @ concat (map payload_line (payload_of selected)),
                            pkg_payloadRefs := payload_of selected\<rparr>), s1))
           else (Inr (set_meta ''payload_count'' (JInt 0) result), s1))"

definition BuildContext ::
  "json_lib \<Rightarrow> fts_engine \<Rightarrow> context_builder \<Rightarrow> MemoryContextRequest \<Rightarrow> store \<Rightarrow> MemoryContextResult \<times> store" where
  "BuildContext J fts cb request s =
     (case context_messages J cb request s of
        (Inl e, s1) \<Rightarrow> (failure_with empty_package e, s1)
      | (Inr p1, s1) \<Rightarrow>
        (case context_long_term J fts cb request p1 s1 of
           (Inl e, s2) \<Rightarrow> (failure_with empty_package e, s2)
         | (Inr p2, s2) \<Rightarrow>
           (case context_payloads cb request p2 s2 of
              (Inl e, s3) \<Rightarrow> (failure_with empty_package e, s3)
            | (Inr p3, s3) \<Rightarrow> (success_with p3, s3))))"

end
