(* ===== verification/Context_Properties.thy ===== *)
theory Context_Properties
  imports Context Store_Properties
begin

text \<open>
  What a context package holds: the laws of the citation list, of the payload loop and of the
  long-term snapshot, then the properties of \<open>ContextBuilder::BuildContext\<close> as a whole.
\<close>

section \<open>Citations\<close>

lemma set_AddUniqueCitation: "set (AddUniqueCitation c x) = set c \<union> ({x} - {[]})"
  by (auto simp: AddUniqueCitation_def)

lemma distinct_AddUniqueCitation: "distinct c \<Longrightarrow> distinct (AddUniqueCitation c x)"
  by (auto simp: AddUniqueCitation_def)

lemma AddUniqueCitations_law:
  "set (AddUniqueCitations c refs) = set c \<union> (set refs - {[]})"
  "distinct c \<Longrightarrow> distinct (AddUniqueCitations c refs)"
proof -
  have "set (foldl AddUniqueCitation c refs) = set c \<union> (set refs - {[]}) \<and>
      (distinct c \<longrightarrow> distinct (foldl AddUniqueCitation c refs))"
  proof (induction refs arbitrary: c)
    case (Cons x refs)
    show ?case using Cons.IH [of "AddUniqueCitation c x"] distinct_AddUniqueCitation [of c x]
      by (auto simp: set_AddUniqueCitation)
  qed simp
  then show "set (AddUniqueCitations c refs) = set c \<union> (set refs - {[]})"
    "distinct c \<Longrightarrow> distinct (AddUniqueCitations c refs)" by (simp_all add: AddUniqueCitations_def)
qed

lemma fold_citations:
  "set (foldl (\<lambda>c x. AddUniqueCitations c (f x)) c xs) = set c \<union> ((\<Union>x\<in>set xs. set (f x)) - {[]})"
  "distinct c \<Longrightarrow> distinct (foldl (\<lambda>c x. AddUniqueCitations c (f x)) c xs)"
  by (induction xs arbitrary: c) (auto simp: AddUniqueCitations_law)

lemma snapshot_citations:
  "set (CollectSnapshotCitations c snap) = set c \<union>
     ((\<Union>x\<in>set (snap_summaries snap). set (ls_sourceRefs x)) \<union> (\<Union>x\<in>set (snap_entities snap). set (en_sourceRefs x)) \<union>
      (\<Union>x\<in>set (snap_relations snap). set (rel_sourceRefs x)) - {[]})"
  "distinct c \<Longrightarrow> distinct (CollectSnapshotCitations c snap)"
  unfolding CollectSnapshotCitations_def by (auto simp: fold_citations)

lemma render_citations:
  assumes "RenderLongTermMemory sel [] = (body, cs)"
  shows "distinct cs" "[] \<notin> set cs"
    "(\<Union>x\<in>set (snap_entities (sel_snapshot sel)). set (en_sourceRefs x)) \<union>
     (\<Union>x\<in>set (snap_relations (sel_snapshot sel)). set (rel_sourceRefs x)) - {[]} \<subseteq> set cs"
    "set cs \<subseteq> (\<Union>x\<in>set (snap_summaries (sel_snapshot sel)). set (ls_sourceRefs x)) \<union>
       (\<Union>x\<in>set (snap_entities (sel_snapshot sel)). set (en_sourceRefs x)) \<union>
       (\<Union>x\<in>set (snap_relations (sel_snapshot sel)). set (rel_sourceRefs x)) \<union>
       (\<Union>x\<in>set (sel_searchResults sel). set (hit_sourceRefs x))"
  using assms snapshot_citations [of "[]" "sel_snapshot sel"]
  by (auto simp: RenderLongTermMemory_def CollectSearchCitations_def fold_citations split: if_splits)

section \<open>The payload loop\<close>

text \<open>The first element of each URI, those already seen left out.\<close>

fun first_uris :: "string list \<Rightarrow> MemoryPayloadRef list \<Rightarrow> MemoryPayloadRef list" where
  "first_uris seen [] = []"
| "first_uris seen (p # ps) =
     (if pay_uri p \<in> set seen then first_uris seen ps else p # first_uris (pay_uri p # seen) ps)"

lemma first_uris_cong: "set seen = set seen' \<Longrightarrow> first_uris seen ps = first_uris seen' ps"
proof (induction ps arbitrary: seen seen')
  case (Cons p ps)
  from Cons.prems have "set (pay_uri p # seen) = set (pay_uri p # seen')" by simp
  from Cons.IH [OF this] Cons.IH [OF Cons.prems] Cons.prems show ?case by simp
qed simp

lemma first_uris_distinct:
  "distinct (map pay_uri (first_uris seen ps)) \<and> pay_uri ` set (first_uris seen ps) \<inter> set seen = {} \<and>
   set (first_uris seen ps) \<subseteq> set ps"
proof (induction ps arbitrary: seen)
  case (Cons p ps)
  show ?case using Cons.IH [of seen] Cons.IH [of "pay_uri p # seen"] by auto
qed simp

lemma payload_loop_spec:
  assumes "int (length acc) < limit" "limit \<le> INT_MAX"
  shows "payload_loop terms limit seen acc ps =
    acc @ take (nat limit - length acc) (filter (\<lambda>p. MatchesPayloadQuery p terms) (first_uris seen ps))"
  using assms
proof (induction ps arbitrary: seen acc)
  case (Cons p ps)
  let ?sel = "\<lambda>seen. filter (\<lambda>p. MatchesPayloadQuery p terms) (first_uris seen ps)"
  have cast: "i32 (int (length (acc @ [p]))) = int (length acc) + 1"
    using Cons.prems by (subst i32_id) (auto simp: int_limits)
  consider "pay_uri p \<in> set seen" | "pay_uri p \<notin> set seen" "\<not> MatchesPayloadQuery p terms"
    | "pay_uri p \<notin> set seen" "MatchesPayloadQuery p terms" by blast
  then show ?case
  proof cases
    case 1
    then have "first_uris (pay_uri p # seen) ps = first_uris seen ps" by (intro first_uris_cong) auto
    with 1 Cons.IH [OF Cons.prems, of "pay_uri p # seen"] show ?thesis by simp
  next
    case 2
    with Cons.IH [OF Cons.prems, of "pay_uri p # seen"] show ?thesis by simp
  next
    case 3
    have step: "nat limit - length acc = Suc (nat limit - Suc (length acc))" using Cons.prems by linarith
    show ?thesis
    proof (cases "int (length acc) + 1 \<ge> limit")
      case True
      then have "nat limit - Suc (length acc) = 0" by linarith
      then show ?thesis using 3 True step cast Cons.prems by simp
    next
      case False
      then have "int (length (acc @ [p])) < limit" by simp
      from Cons.IH [OF this Cons.prems(2), of "pay_uri p # seen"] show ?thesis
        using 3 False step cast by simp
    qed
  qed
qed simp

section \<open>Limits read from the metadata\<close>

lemma parse_prefix_int_le: "parse_prefix_int lo hi str = Some v \<Longrightarrow> v \<le> hi"
  by (auto simp: parse_prefix_int_def Let_def split: if_splits option.splits list.splits)

lemma MetadataInt_le: "fb \<le> INT_MAX \<Longrightarrow> MetadataInt m k fb \<le> INT_MAX"
  by (auto simp: MetadataInt_def JsonInt_def Let_def stoi_def split: if_splits option.splits dest: parse_prefix_int_le)

lemma LongTermMemoryLimit_range: "0 \<le> LongTermMemoryLimit cb req \<and> LongTermMemoryLimit cb req \<le> INT_MAX"
  using MetadataInt_le [of "- 1" "cx_metadata req" "''long_term_limit''"]
  by (auto simp: LongTermMemoryLimit_def Let_def int_limits)

section \<open>Loading the parts\<close>

lemma snapshot_block_law:
  assumes "snapshot_block ctx rows s = ((e, rs), s')"
  shows "e = None \<longrightarrow> rs = rows" "\<forall>x. e = Some x \<longrightarrow> HasError x"
proof -
  obtain k s1 where n: "next_ok s = (k, s1)" by fastforce
  obtain k2 rs2 s2 where f: "fetch rows s1 = (k2, rs2, s2)" by (metis prod_cases3)
  from assms n f fetch_read [OF f] show "e = None \<longrightarrow> rs = rows" "\<forall>x. e = Some x \<longrightarrow> HasError x"
    by (auto simp: snapshot_block_def sqlite_error_def split: if_splits)
qed

lemma LoadLongTermMemory_law:
  assumes "LoadLongTermMemory J a n ss s = (r, s')" "s_db s = Some d"
  defines "m \<equiv> effective_limit 100 n"
  shows "succeeded r \<longrightarrow> payload_of r =
      \<lparr>snap_summaries = map (ReadSummaryRow J) (take m (select_summaries a ss d)),
       snap_entities = map (ReadEntityRow J) (take m (select_entities a d)),
       snap_relations = map (ReadRelationRow J) (take m (select_relations a d))\<rparr>"
    "\<not> succeeded r \<longrightarrow> HasError (error_of r)"
proof -
  obtain e1 rs1 s1 where b1: "snapshot_block ''LoadLongTermMemory::summaries''
      (take m (select_summaries a ss d)) s = ((e1, rs1), s1)" by (metis surj_pair)
  obtain e2 rs2 s2 where b2: "snapshot_block ''LoadLongTermMemory::entities''
      (take m (select_entities a d)) s1 = ((e2, rs2), s2)" by (metis surj_pair)
  obtain e3 rs3 s3 where b3: "snapshot_block ''LoadLongTermMemory::relations''
      (take m (select_relations a d)) s2 = ((e3, rs3), s3)" by (metis surj_pair)
  note un = assms(1) [unfolded LoadLongTermMemory_def assms(2) option.case m_def [symmetric] Let_def b1 b2 b3 prod.case]
  note law = snapshot_block_law [OF b1] snapshot_block_law [OF b2] snapshot_block_law [OF b3]
  show "succeeded r \<longrightarrow> payload_of r =
      \<lparr>snap_summaries = map (ReadSummaryRow J) (take m (select_summaries a ss d)),
       snap_entities = map (ReadEntityRow J) (take m (select_entities a d)),
       snap_relations = map (ReadRelationRow J) (take m (select_relations a d))\<rparr>"
    using un law by (cases e1; cases e2; cases e3) (auto simp: b3 empty_snapshot_def)
  show "\<not> succeeded r \<longrightarrow> HasError (error_of r)"
    using un law by (cases e1; cases e2; cases e3) (auto simp: b3)
qed

lemma store_unavailable_error [simp]: "HasError store_unavailable"
  by (simp add: store_unavailable_def)

lemma LoadLongTermMemory_error:
  assumes "LoadLongTermMemory J a n ss s = (r, s')" "\<not> succeeded r"
  shows "HasError (error_of r)"
proof (cases "s_db s")
  case (Some d)
  then show ?thesis using LoadLongTermMemory_law(2) [OF assms(1)] assms(2) by blast
qed (use assms in \<open>auto simp: LoadLongTermMemory_def\<close>)

lemma run_query_error:
  assumes "run_query ctx q f dflt s = (r, s')" "\<not> succeeded r"
  shows "HasError (error_of r)"
proof (cases "s_db s")
  case (Some d)
  obtain k s1 where n: "next_ok s = (k, s1)" by fastforce
  obtain k2 rs s2 where ft: "fetch (q d) s1 = (k2, rs, s2)" by (metis prod_cases3)
  from assms Some n ft show ?thesis
    by (auto simp: run_query_def sqlite_error_def split: if_splits)
qed (use assms in \<open>auto simp: run_query_def\<close>)

lemma SearchLongTermMemory_error:
  assumes "SearchLongTermMemory J fts req s = (r, s')" "\<not> succeeded r"
  shows "HasError (error_of r)"
proof (cases "s_db s")
  case (Some d)
  let ?n = "nat (if sr_limit req > 0 then sr_limit req else 10)"
  obtain e1 h1 s1 where 1: "SearchFts J fts req (Fts5EscapeQuery (sr_query req)) ?n d s = ((e1, h1), s1)"
    by (metis surj_pair)
  obtain e2 h2 s2 where 2: "SearchLike J req ?n d s1 = ((e2, h2), s2)" by (metis surj_pair)
  show ?thesis
    using assms Some 1 2 SearchFts_law [OF 1] SearchLike_law [OF 2]
    by (auto simp: SearchLongTermMemory_def Let_def split: if_splits option.splits)
qed (use assms in \<open>auto simp: SearchLongTermMemory_def\<close>)

section \<open>The parts of a build\<close>

text \<open>What each part promises: it only reads, and when it fails it says why.\<close>

definition part_ok :: "(MemoryError + 'a) \<times> store \<Rightarrow> store \<Rightarrow> bool" where
  "part_ok x s = (read_step s (snd x) \<and> (\<forall>e. fst x = Inl e \<longrightarrow> HasError e))"

lemma context_messages_part: "part_ok (context_messages J cb req s) s"
proof -
  let ?lim = "max 0 (MetadataInt (cx_metadata req) ''message_limit'' 20)"
  obtain r s1 where l: "LoadRecentEvents J (cx_agentId req) (cx_sessionId req) ?lim s = (r, s1)" by fastforce
  have "\<not> succeeded r \<longrightarrow> HasError (error_of r)"
    using l by (auto simp: LoadRecentEvents_def split: prod.splits if_splits dest: run_query_error)
  then show ?thesis
    using l LoadRecentEvents_read [OF l]
    by (cases "succeeded r") (auto simp: part_ok_def context_messages_def LoadMessagesForContext_def Let_def)
qed

lemma SelectLongTermMemory_law:
  assumes "SelectLongTermMemory J fts cb req n s = (sel, s')"
  shows "read_step s s'" "\<not> sel_succeeded sel \<longrightarrow> HasError (sel_error sel)"
proof -
  obtain r1 s1 where l: "LoadLongTermMemory J (cx_agentId req) n (cx_sessionId req) s = (r1, s1)" by fastforce
  obtain r2 s2 where f: "SearchLongTermMemory J fts (search_request_of req n) s = (r2, s2)" by fastforce
  obtain r3 s3 where m: "LoadLongTermMemory J (cx_agentId req) n (cx_sessionId req) s2 = (r3, s3)" by fastforce
  have "read_step s s1" "read_step s s2" "read_step s s3"
    using LoadLongTermMemory_read [OF l] SearchLongTermMemory_read [OF f] LoadLongTermMemory_read [OF m]
      read_step_trans by blast+
  then show "read_step s s'" using assms l f m
    by (auto simp: SelectLongTermMemory_def Let_def split: if_splits)
  show "\<not> sel_succeeded sel \<longrightarrow> HasError (sel_error sel)"
    using assms l f m LoadLongTermMemory_error [OF l] LoadLongTermMemory_error [OF m] SearchLongTermMemory_error [OF f]
    by (auto simp: SelectLongTermMemory_def Let_def default_selected_def failed_selection_def split: if_splits)
qed

lemma context_long_term_part: "part_ok (context_long_term J fts cb req p s) s"
proof -
  obtain sel s1 where l: "SelectLongTermMemory J fts cb req (LongTermMemoryLimit cb req) s = (sel, s1)" by fastforce
  show ?thesis
    using l SelectLongTermMemory_law [OF l]
    by (auto simp: part_ok_def context_long_term_def Let_def default_selected_def split: prod.splits)
qed

lemma context_payloads_part: "part_ok (context_payloads cb req p s) s"
proof -
  let ?lim = "max 0 (MetadataInt (cx_metadata req) ''payload_limit'' 20)"
  obtain r s1 where l: "LoadRecentPayloads (cx_agentId req) (cx_sessionId req) ?lim s = (r, s1)" by fastforce
  have "\<not> succeeded r \<longrightarrow> HasError (error_of r)"
    using l by (auto simp: LoadRecentPayloads_def dest: run_query_error)
  then show ?thesis
    using l LoadRecentPayloads_read [OF l]
    by (auto simp: part_ok_def context_payloads_def LoadPayloadsForContext_def Let_def)
qed

lemma BuildContext_success:
  assumes "BuildContext J fts cb req s = (r, s')" "succeeded r"
  obtains p1 s1 p2 s2 p3 where "context_messages J cb req s = (Inr p1, s1)"
    "context_long_term J fts cb req p1 s1 = (Inr p2, s2)" "context_payloads cb req p2 s2 = (Inr p3, s')"
    "r = success_with p3" "read_step s s1" "read_step s s2"
proof -
  obtain x1 s1 where 1: "context_messages J cb req s = (x1, s1)" by fastforce
  with assms obtain p1 where p1: "x1 = Inr p1" by (cases x1) (auto simp: BuildContext_def)
  obtain x2 s2 where 2: "context_long_term J fts cb req p1 s1 = (x2, s2)" by fastforce
  with assms 1 p1 obtain p2 where p2: "x2 = Inr p2" by (cases x2) (auto simp: BuildContext_def)
  obtain x3 s3 where 3: "context_payloads cb req p2 s2 = (x3, s3)" by fastforce
  with assms 1 p1 2 p2 obtain p3 where p3: "x3 = Inr p3" by (cases x3) (auto simp: BuildContext_def)
  have "r = success_with p3" "s3 = s'" using assms 1 p1 2 p2 3 p3 by (simp_all add: BuildContext_def)
  moreover have "read_step s s1" "read_step s s2"
    using context_messages_part [of J cb req s] context_long_term_part [of J fts cb req p1 s1] 1 2 read_step_trans
    by (auto simp: part_ok_def)
  ultimately show ?thesis using that 1 2 3 p1 p2 p3 by blast
qed

lemma context_payloads_keeps:
  assumes "context_payloads cb req p s = (Inr p', s')"
  shows "pkg_messages p' = pkg_messages p" "pkg_entities p' = pkg_entities p" "pkg_relations p' = pkg_relations p"
    "pkg_citations p' = pkg_citations p"
  using assms by (auto simp: context_payloads_def set_meta_def Let_def split: if_splits prod.splits)

lemma context_long_term_fields:
  assumes "context_long_term J fts cb req p s = (Inr p', s')"
  defines "n \<equiv> LongTermMemoryLimit cb req"
  obtains sel cs body where
    "pkg_messages p' = pkg_messages p" "pkg_payloadRefs p' = pkg_payloadRefs p"
    "pkg_entities p' = snap_entities (sel_snapshot sel)" "pkg_relations p' = snap_relations (sel_snapshot sel)"
    "RenderLongTermMemory sel [] = (body, cs)" "cs \<noteq> [] \<longrightarrow> pkg_citations p' = cs" "cs = [] \<longrightarrow> pkg_citations p' = pkg_citations p"
    "sel_succeeded sel"
    "(sel, s') = (if ShouldInclude req ''long_term'' \<and> cb_longTermStore cb \<and> cb_searchStore cb \<and> n > 0
                  then SelectLongTermMemory J fts cb req n s else (default_selected, s))"
proof -
  obtain sel s1 where l: "(if ShouldInclude req ''long_term'' \<and> cb_longTermStore cb \<and> cb_searchStore cb \<and> n > 0
                  then SelectLongTermMemory J fts cb req n s else (default_selected, s)) = (sel, s1)" by fastforce
  obtain body cs where r: "RenderLongTermMemory sel [] = (body, cs)" by fastforce
  note un = assms(1) [unfolded context_long_term_def n_def [symmetric] Let_def l prod.case r]
  have ok: "sel_succeeded sel" using un by (auto split: if_splits)
  from un ok have s: "s1 = s'" by (auto split: if_splits)
  have "pkg_messages p' = pkg_messages p" "pkg_payloadRefs p' = pkg_payloadRefs p"
    "pkg_entities p' = snap_entities (sel_snapshot sel)" "pkg_relations p' = snap_relations (sel_snapshot sel)"
    "cs \<noteq> [] \<longrightarrow> pkg_citations p' = cs" "cs = [] \<longrightarrow> pkg_citations p' = pkg_citations p"
    using un ok by (auto simp: set_meta_def split: if_splits)
  with that [of sel body cs] r ok l s show ?thesis by metis
qed

lemma context_messages_fields:
  assumes "context_messages J cb req s = (Inr p, s')"
  shows "pkg_citations p = []" "pkg_payloadRefs p = []"
  using assms by (auto simp: context_messages_def set_meta_def empty_package_def Let_def split: if_splits prod.splits)

lemma read_step_db: "read_step s s' \<Longrightarrow> s_db s' = s_db s"
  by (auto simp: read_step_def)

text \<open>A snapshot whose entities and relations are active rows of the agent, at most \<open>n\<close> of each.\<close>

definition active_snapshot :: "json_lib \<Rightarrow> string \<Rightarrow> database \<Rightarrow> int \<Rightarrow> MemoryEntity list \<Rightarrow> MemoryRelation list \<Rightarrow> bool" where
  "active_snapshot J a d n ents rels =
     ((\<forall>e\<in>set ents. \<exists>r\<in>set (t_entities d). e = ReadEntityRow J r \<and> enr_active r \<and> enr_agent r = c_str a) \<and>
      (\<forall>e\<in>set rels. \<exists>r\<in>set (t_relations d). e = ReadRelationRow J r \<and> rlr_active r \<and> rlr_agent r = c_str a) \<and>
      int (length ents) \<le> n \<and> int (length rels) \<le> n)"

lemma active_snapshot_filter:
  assumes "active_snapshot J a d n ents rels"
  shows "active_snapshot J a d n (filter P ents) (filter Q rels)"
proof -
  have "int (length (filter P ents)) \<le> n" "int (length (filter Q rels)) \<le> n"
    using assms length_filter_le [of P ents] length_filter_le [of Q rels] unfolding active_snapshot_def by linarith+
  then show ?thesis using assms unfolding active_snapshot_def by simp
qed

lemma SelectLongTermMemory_snapshot:
  assumes sel: "SelectLongTermMemory J fts cb req n s = (sel, s')" and ok: "sel_succeeded sel" and pos: "0 < n"
    and db: "s_db s = Some d"
  shows "active_snapshot J (cx_agentId req) d n (snap_entities (sel_snapshot sel)) (snap_relations (sel_snapshot sel))"
    (is "?ok (sel_snapshot sel)")
proof -
  have m: "effective_limit 100 n = nat n" using pos by (simp add: effective_limit_def)
  have load: "?ok (payload_of r)"
    if "LoadLongTermMemory J (cx_agentId req) n (cx_sessionId req) t = (r, t')" "succeeded r" "s_db t = Some d" for t r t'
    using LoadLongTermMemory_law(1) [OF that(1,3)] that(2) pos
    by (auto simp: active_snapshot_def m select_entities_def select_relations_def dest!: in_set_takeD)
  have none: "?ok empty_snapshot" using pos by (simp add: active_snapshot_def empty_snapshot_def)
  consider "\<not> cb_longTermStore cb \<or> \<not> cb_searchStore cb" | "cb_longTermStore cb" "cb_searchStore cb" "cx_query req = []"
    | "cb_longTermStore cb" "cb_searchStore cb" "cx_query req \<noteq> []" by blast
  then show ?thesis
  proof cases
    case 1
    with sel have "sel_snapshot sel = empty_snapshot" by (auto simp: SelectLongTermMemory_def default_selected_def)
    with none show ?thesis by simp
  next
    case 2
    obtain r1 s1 where l: "LoadLongTermMemory J (cx_agentId req) n (cx_sessionId req) s = (r1, s1)" by fastforce
    from sel ok 2 pos l have "succeeded r1" "sel_snapshot sel = payload_of r1"
      by (auto simp: SelectLongTermMemory_def failed_selection_def split: if_splits)
    with load [OF l _ db] show ?thesis by simp
  next
    case 3
    obtain r2 s2 where f: "SearchLongTermMemory J fts (search_request_of req n) s = (r2, s2)" by fastforce
    obtain r3 s3 where l: "LoadLongTermMemory J (cx_agentId req) n (cx_sessionId req) s2 = (r3, s3)" by fastforce
    have db2: "s_db s2 = Some d" using read_step_db [OF SearchLongTermMemory_read [OF f]] db by simp
    from sel ok 3 pos f l have "succeeded r3" "sel_snapshot sel = pick_hits (payload_of r2) (payload_of r3)"
      by (auto simp: SelectLongTermMemory_def failed_selection_def Let_def split: if_splits)
    with active_snapshot_filter [OF load [OF l _ db2]] show ?thesis by (simp add: pick_hits_def Let_def)
  qed
qed

section \<open>A concrete context\<close>

text \<open>An open database with one event, one entity with a source reference, and one payload.\<close>

definition context_store :: store where
  "context_store = hello_store\<lparr>s_db := map_option (\<lambda>d. d\<lparr>
     t_entities := [\<lparr>enr_rowid = 1, enr_id = ''e1'', enr_agent = ''a'', enr_type = ''tool'', enr_name = ''hi'', enr_summary = [],
        enr_confidence = 0, enr_source_refs_json = ''[m1]'', enr_metadata_json = [], enr_active = True,
        enr_superseded_by = None, enr_updated_at = []\<rparr>],
     t_payloads := [\<lparr>pyr_id = 1, pyr_agent = ''a'', pyr_session = ''s'', pyr_ref = ''memory://1'', pyr_content_type = [],
        pyr_tool_name = ''Grep'', pyr_summary = ''hits'', pyr_original_chars = 3, pyr_created_at = []\<rparr>]\<rparr>) (s_db hello_store)\<rparr>"

definition refs_lib :: json_lib where
  "refs_lib = table_lib [(JObj [], ''{}''), (JArr [JStr ''m1''], ''[m1]'')]"

definition context_request :: MemoryContextRequest where
  "context_request = \<lparr>cx_agentId = ''a'', cx_sessionId = ''s'', cx_query = [], cx_tokenBudget = 0,
     cx_includeSections = [], cx_metadata = JObj []\<rparr>"

definition full_builder :: context_builder where
  "full_builder = \<lparr>cb_config = default_config, cb_eventStore = True, cb_payloadStore = True, cb_longTermStore = True, cb_searchStore = True\<rparr>"

definition built :: "MemoryContextResult \<times> store" where
  "built = BuildContext refs_lib (\<lambda>_ _. None) full_builder context_request context_store"

lemma built_eq: "BuildContext refs_lib (\<lambda>_ _. None) full_builder context_request context_store = (fst built, snd built)"
  by (simp add: built_def)

lemma built_ok: "succeeded (fst built)" "s_db context_store = Some (the (s_db context_store))"
  by code_simp+

section \<open>Properties\<close>

lemma BuildContext_reads:
  assumes "BuildContext J fts cb req s = (r, s')"
  shows "read_step s s' \<and> (succeeded r \<longrightarrow> error_of r = no_error) \<and>
      (\<not> succeeded r \<longrightarrow> payload_of r = empty_package \<and> HasError (error_of r))"
proof -
  obtain x1 s1 where 1: "context_messages J cb req s = (x1, s1)" by fastforce
  have step1: "read_step s s1" "\<forall>e. x1 = Inl e \<longrightarrow> HasError e"
    using context_messages_part [of J cb req s] 1 by (auto simp: part_ok_def)
  show ?thesis
  proof (cases x1)
    case (Inl e)
    then show ?thesis using assms 1 step1 by (auto simp: BuildContext_def)
  next
    case p1: (Inr p1)
    obtain x2 s2 where 2: "context_long_term J fts cb req p1 s1 = (x2, s2)" by fastforce
    have step2: "read_step s1 s2" "\<forall>e. x2 = Inl e \<longrightarrow> HasError e"
      using context_long_term_part [of J fts cb req p1 s1] 2 by (auto simp: part_ok_def)
    show ?thesis
    proof (cases x2)
      case (Inl e)
      then show ?thesis using assms 1 2 p1 step2 read_step_trans [OF step1(1) step2(1)] by (auto simp: BuildContext_def)
    next
      case p2: (Inr p2)
      obtain x3 s3 where 3: "context_payloads cb req p2 s2 = (x3, s3)" by fastforce
      have step3: "read_step s2 s3" "\<forall>e. x3 = Inl e \<longrightarrow> HasError e"
        using context_payloads_part [of cb req p2 s2] 3 by (auto simp: part_ok_def)
      then show ?thesis
        using assms 1 2 3 p1 p2 read_step_trans [OF read_step_trans [OF step1(1) step2(1)] step3(1)]
        by (cases x3) (auto simp: BuildContext_def)
    qed
  qed
qed



lemma messages_of_context:
  assumes "store_inv s" "BuildContext J fts cb req s = (r, s')" "succeeded r"
    and "s_db s = Some d" "cb_eventStore cb" "ShouldInclude req ''messages''"
  shows "pkg_messages (payload_of r) =
    map event_message (filter (\<lambda>e. ev_type e = MESSAGE_APPENDED)
      (last_n (nat (MetadataInt (cx_metadata req) ''message_limit'' 20))
        (filter (event_in_scope (cx_agentId req) (cx_sessionId req)) (event_log J d))))"
proof -
  let ?n = "max 0 (MetadataInt (cx_metadata req) ''message_limit'' 20)"
  obtain p1 s1 p2 s2 p3 where b: "context_messages J cb req s = (Inr p1, s1)"
    "context_long_term J fts cb req p1 s1 = (Inr p2, s2)" "context_payloads cb req p2 s2 = (Inr p3, s')"
    "r = success_with p3" by (rule BuildContext_success [OF assms(2,3)])
  have m: "pkg_messages (payload_of r) = pkg_messages p1"
    using b(4) context_payloads_keeps(1) [OF b(3)] by (simp, metis context_long_term_fields [OF b(2)])
  show ?thesis
  proof (cases "?n = 0")
    case True
    then have "pkg_messages p1 = []"
      using b(1) by (auto simp: context_messages_def LoadMessagesForContext_def set_meta_def empty_package_def split: if_splits)
    with m True show ?thesis by (simp add: last_n_def)
  next
    case False
    obtain r0 s0 where l: "LoadRecentEvents J (cx_agentId req) (cx_sessionId req) ?n s = (r0, s0)" by fastforce
    have p1: "succeeded r0" "pkg_messages p1 = map event_message (filter (\<lambda>e. ev_type e = MESSAGE_APPENDED) (payload_of r0))"
      using b(1) l False assms(5,6)
      by (auto simp: context_messages_def LoadMessagesForContext_def set_meta_def Let_def split: if_splits)
    show ?thesis
      using LoadRecentEvents_success [OF l p1(1) assms(1)] False assms(4) p1(2) m by (simp add: effective_limit_def max_def split: if_splits)
  qed
qed

text \<open>
  The messages of a context are the message events among the most recent \<open>message_limit\<close>
  events (20 by default) of the agent and session, oldest first: the limit counts events of every
  type, so events that are not messages take places away from messages.
\<close>

theorem BuildContext_messages:
  assumes "store_inv s" "BuildContext J fts cb req s = (r, s')" "succeeded r"
    and "s_db s = Some d" "cb_eventStore cb" "ShouldInclude req ''messages''"
  shows "pkg_messages (payload_of r) =
    map event_message (filter (\<lambda>e. ev_type e = MESSAGE_APPENDED)
      (last_n (nat (MetadataInt (cx_metadata req) ''message_limit'' 20))
        (filter (event_in_scope (cx_agentId req) (cx_sessionId req)) (event_log J d))))"
  using assms by (rule messages_of_context)

theorem BuildContext_messages_witness:
  "\<exists>d r s'. s_db hello_store = Some d \<and>
     BuildContext small_lib (\<lambda>_ _. None) full_builder context_request hello_store = (r, s') \<and>
     map msg_content (pkg_messages (payload_of r)) = [''hi''] \<and>
     pkg_messages (payload_of r) = map event_message (filter (\<lambda>e. ev_type e = MESSAGE_APPENDED)
       (last_n 20 (filter (event_in_scope ''a'' ''s'') (event_log small_lib d))))"
proof -
  let ?run = "BuildContext small_lib (\<lambda>_ _. None) full_builder context_request hello_store"
  have pre: "s_db hello_store = Some (the (s_db hello_store))" "succeeded (fst ?run)" "cb_eventStore full_builder"
    "ShouldInclude context_request ''messages''" "map msg_content (pkg_messages (payload_of (fst ?run))) = [''hi'']"
    "nat (MetadataInt (cx_metadata context_request) ''message_limit'' 20) = 20"
    "cx_agentId context_request = ''a''" "cx_sessionId context_request = ''s''" by code_simp+
  have run: "?run = (fst ?run, snd ?run)" by simp
  show ?thesis
    by (intro exI conjI, rule pre(1), rule run, rule pre(5))
      (use BuildContext_messages [OF hello_store_inv run pre(2,1,3,4)] in \<open>simp only: pre(6-8)\<close>)
qed

text \<open>
  The long-term part of a context holds entities and relations of the requesting agent only,
  all active, at most \<open>LongTermMemoryLimit\<close> of each; and the citations are distinct, not empty and
  complete: every source reference of a returned entity or relation is cited.
\<close>

theorem BuildContext_long_term:
  assumes "BuildContext J fts cb req s = (r, s')" "succeeded r" "s_db s = Some d"
  shows "active_snapshot J (cx_agentId req) d (LongTermMemoryLimit cb req) (pkg_entities (payload_of r)) (pkg_relations (payload_of r)) \<and>
    distinct (pkg_citations (payload_of r)) \<and> [] \<notin> set (pkg_citations (payload_of r)) \<and>
    (\<Union>e\<in>set (pkg_entities (payload_of r)). set (en_sourceRefs e)) \<union>
    (\<Union>e\<in>set (pkg_relations (payload_of r)). set (rel_sourceRefs e)) - {[]} \<subseteq> set (pkg_citations (payload_of r))"
proof -
  let ?n = "LongTermMemoryLimit cb req"
  obtain p1 s1 p2 s2 p3 where b: "context_messages J cb req s = (Inr p1, s1)"
    "context_long_term J fts cb req p1 s1 = (Inr p2, s2)" "context_payloads cb req p2 s2 = (Inr p3, s')"
    "r = success_with p3" "read_step s s1" by (rule BuildContext_success [OF assms(1,2)])
  obtain sel cs body where l: "pkg_entities p2 = snap_entities (sel_snapshot sel)"
    "pkg_relations p2 = snap_relations (sel_snapshot sel)" "RenderLongTermMemory sel [] = (body, cs)"
    "cs \<noteq> [] \<longrightarrow> pkg_citations p2 = cs" "cs = [] \<longrightarrow> pkg_citations p2 = pkg_citations p1" "sel_succeeded sel"
    "(sel, s2) = (if ShouldInclude req ''long_term'' \<and> cb_longTermStore cb \<and> cb_searchStore cb \<and> ?n > 0
                  then SelectLongTermMemory J fts cb req ?n s1 else (default_selected, s1))"
    using context_long_term_fields [OF b(2)] by metis
  have db: "s_db s1 = Some d" using read_step_db [OF b(5)] assms(3) by simp
  have "active_snapshot J (cx_agentId req) d ?n (snap_entities (sel_snapshot sel)) (snap_relations (sel_snapshot sel))"
  proof (cases "ShouldInclude req ''long_term'' \<and> cb_longTermStore cb \<and> cb_searchStore cb \<and> ?n > 0")
    case True
    then show ?thesis using l(6,7) SelectLongTermMemory_snapshot [OF _ _ _ db, of J fts cb req ?n sel s2] by simp
  next
    case False
    have "sel = default_selected" using l(7) unfolding if_not_P [OF False] by simp
    then show ?thesis using LongTermMemoryLimit_range [of cb req]
      by (simp add: active_snapshot_def default_selected_def empty_snapshot_def)
  qed
  moreover have "pkg_citations p2 = cs" using l(4,5) context_messages_fields(1) [OF b(1)] by auto
  ultimately show ?thesis
    using b(4) context_payloads_keeps [OF b(3)] l(1,2) render_citations(1-3) [OF l(3)] by simp
qed

theorem BuildContext_long_term_witness:
  "pkg_entities (payload_of (fst built)) \<noteq> [] \<and> ''m1'' \<in> set (pkg_citations (payload_of (fst built)))"
proof -
  have "''m1'' \<in> (\<Union>e\<in>set (pkg_entities (payload_of (fst built))). set (en_sourceRefs e))"
    "pkg_entities (payload_of (fst built)) \<noteq> []" by code_simp+
  then show ?thesis using BuildContext_long_term [OF built_eq built_ok] by blast
qed

text \<open>
  The payload references of a context are offloaded payloads of the agent and session, each URI
  once, at most \<open>payload_limit\<close> of them (20 by default), and every word of the query occurs in each,
  letter case ignored.
\<close>

theorem BuildContext_payloads:
  assumes "BuildContext J fts cb req s = (r, s')" "succeeded r" "s_db s = Some d"
  shows "distinct (map pay_uri (pkg_payloadRefs (payload_of r))) \<and>
    int (length (pkg_payloadRefs (payload_of r))) \<le> max 0 (MetadataInt (cx_metadata req) ''payload_limit'' 20) \<and>
    (\<forall>p\<in>set (pkg_payloadRefs (payload_of r)).
       (\<exists>row\<in>set (t_payloads d). p = ReadPayloadRow row \<and> in_scope (cx_agentId req) (cx_sessionId req) (pyr_agent row) (pyr_session row)) \<and>
       list_all (ContainsTerm p) (ParsePayloadQuery (cx_query req)))"
proof -
  let ?n = "max 0 (MetadataInt (cx_metadata req) ''payload_limit'' 20)"
  obtain p1 s1 p2 s2 p3 where b: "context_messages J cb req s = (Inr p1, s1)"
    "context_long_term J fts cb req p1 s1 = (Inr p2, s2)" "context_payloads cb req p2 s2 = (Inr p3, s')"
    "r = success_with p3" "read_step s s2" by (rule BuildContext_success [OF assms(1,2)])
  have none: "pkg_payloadRefs p2 = []"
    using context_long_term_fields [OF b(2)] context_messages_fields(2) [OF b(1)] by metis
  obtain r0 s0 where l: "LoadRecentPayloads (cx_agentId req) (cx_sessionId req) ?n s2 = (r0, s0)" by fastforce
  have "pkg_payloadRefs p3 = [] \<or> succeeded r0 \<and> 0 < ?n \<and>
      pkg_payloadRefs p3 = payload_loop (ParsePayloadQuery (cx_query req)) ?n [] [] (payload_of r0)"
    using b(3) l none
    by (cases "?n = 0"; cases "succeeded r0")
      (auto simp: context_payloads_def LoadPayloadsForContext_def set_meta_def Let_def split: if_splits)
  then show ?thesis
  proof
    assume "pkg_payloadRefs p3 = []"
    then show ?thesis using b(4) by simp
  next
    assume a: "succeeded r0 \<and> 0 < ?n \<and> pkg_payloadRefs p3 = payload_loop (ParsePayloadQuery (cx_query req)) ?n [] [] (payload_of r0)"
    have max: "?n \<le> INT_MAX" using MetadataInt_le [of 20 "cx_metadata req" "''payload_limit''"] by (auto simp: int_limits)
    let ?f = "filter (\<lambda>p. MatchesPayloadQuery p (ParsePayloadQuery (cx_query req))) (first_uris [] (payload_of r0))"
    have refs: "pkg_payloadRefs (payload_of r) = take (nat ?n) ?f"
      using a b(4) payload_loop_spec [of "[]" ?n] max by simp
    obtain d' where "s_db s2 = Some d'" "r0 = success_with (map ReadPayloadRow (take (effective_limit 20 ?n)
          (order_desc (\<lambda>r. (pyr_created_at r, pyr_id r))
            (filter (\<lambda>r. in_scope (cx_agentId req) (cx_sessionId req) (pyr_agent r) (pyr_session r)) (t_payloads d')))))"
      using run_query_read(2) [OF l [unfolded LoadRecentPayloads_def]] a by blast
    moreover have "d' = d" using calculation(1) read_step_db [OF b(5)] assms(3) by simp
    ultimately have rows: "\<forall>p\<in>set (payload_of r0). \<exists>row\<in>set (t_payloads d). p = ReadPayloadRow row \<and>
        in_scope (cx_agentId req) (cx_sessionId req) (pyr_agent row) (pyr_session row)"
      by (auto dest!: in_set_takeD)
    have "distinct (map pay_uri ?f)"
      using first_uris_distinct [of "[]" "payload_of r0"] by (simp add: distinct_map_filter)
    then have "distinct (map pay_uri (take (nat ?n) ?f))" by (simp add: take_map [symmetric])
    moreover have "set (take (nat ?n) ?f) \<subseteq> set ?f" by (rule set_take_subset)
    moreover have "set ?f \<subseteq> set (payload_of r0)" using first_uris_distinct [of "[]" "payload_of r0"] by auto
    moreover have "\<forall>p\<in>set ?f. list_all (ContainsTerm p) (ParsePayloadQuery (cx_query req))"
      by (simp add: MatchesPayloadQuery_def)
    moreover have "int (length (take (nat ?n) ?f)) \<le> ?n" by simp
    ultimately show ?thesis unfolding refs using rows by blast
  qed
qed


theorem BuildContext_payloads_witness:
  "map pay_uri (pkg_payloadRefs (payload_of (fst built))) = [''memory://1''] \<and>
   length (pkg_payloadRefs (payload_of (fst built))) \<le> 20"
proof -
  have "map pay_uri (pkg_payloadRefs (payload_of (fst built))) = [''memory://1'']"
    "max 0 (MetadataInt (cx_metadata context_request) ''payload_limit'' 20) = 20" by code_simp+
  then show ?thesis using BuildContext_payloads [OF built_eq built_ok] by simp
qed

end
