(* ===== verification/Codec.thy ===== *)
theory Codec
  imports Memory_Types
begin

text \<open>
  The JSON codec (\<open>src/serialization/json_memory_codec.cpp\<close>): one encoder and one decoder per
  public struct, the schema tables, and the diagnostics a decoder reports.
\<close>

section \<open>Schema envelope\<close>

definition kSchemaVersion :: int where
  "kSchemaVersion = 1"

definition JsonMemorySchemaVersion :: int where
  "JsonMemorySchemaVersion = kSchemaVersion"

definition WithSchema :: "json \<Rightarrow> json" where [codec_defs]:
  "WithSchema j = (if is_object j then json_set ''schemaVersion'' (JInt kSchemaVersion) j else j)"

definition ErrorToJson :: "MemoryError \<Rightarrow> json" where [codec_defs]:
  "ErrorToJson e =
     (if ErrorIsEmpty e then JObj []
      else jobj [(''code'', JStr (err_code e)), (''message'', JStr (err_message e)),
                 (''details'', JStr (err_details e)), (''retryable'', JBool (err_retryable e))])"

definition ErrorFromJson :: "json \<Rightarrow> MemoryError" where [codec_defs]:
  "ErrorFromJson j =
     (if \<not> is_object j then no_error
      else \<lparr>err_code = JsonString j ''code'' [], err_message = JsonString j ''message'' [],
            err_details = JsonString j ''details'' [], err_retryable = JsonBool j ''retryable'' False\<rparr>)"

definition WithEnvelope :: "bool \<Rightarrow> json \<Rightarrow> MemoryError \<Rightarrow> json" where [codec_defs]:
  "WithEnvelope ok data e =
     WithSchema (if ok then json_set ''data'' data (jobj [(''ok'', JBool ok)])
                 else json_set ''error'' (ErrorToJson e) (jobj [(''ok'', JBool ok)]))"

definition SuccessEnvelope :: "json \<Rightarrow> json" where [codec_defs]:
  "SuccessEnvelope data = WithEnvelope True data no_error"

definition ErrorEnvelope :: "MemoryError \<Rightarrow> json" where [codec_defs]:
  "ErrorEnvelope e = WithEnvelope False (JObj []) e"

definition OperationResultToJson :: "MemoryOperationResult \<Rightarrow> json" where [codec_defs]:
  "OperationResultToJson r = WithSchema (jobj [(''succeeded'', JBool (succeeded r)), (''error'', ErrorToJson (error_of r))])"

section \<open>Field rules and diagnostics\<close>

datatype FieldType = FString | FInteger | FFloat | FBoolean | FArray | FObject

type_synonym FieldRule = "string \<times> FieldType"

fun MatchesType :: "json \<Rightarrow> FieldType \<Rightarrow> bool" where
  "MatchesType v FString = is_string v"
| "MatchesType v FInteger = (is_number_integer v \<or> is_number_unsigned v)"
| "MatchesType v FFloat = is_number v"
| "MatchesType v FBoolean = is_boolean v"
| "MatchesType v FArray = is_array v"
| "MatchesType v FObject = is_object v"

fun FieldTypeName :: "FieldType \<Rightarrow> string" where
  "FieldTypeName FString = ''string''"
| "FieldTypeName FInteger = ''integer''"
| "FieldTypeName FFloat = ''number''"
| "FieldTypeName FBoolean = ''boolean''"
| "FieldTypeName FArray = ''array''"
| "FieldTypeName FObject = ''object''"

definition schema_table :: "(string \<times> FieldRule list) list" where
  "schema_table =
    [(''message'', [(''role'', FString), (''content'', FString), (''toolCallId'', FString), (''toolName'', FString),
        (''payloadRef'', FString)]),
     (''payloadRef'', [(''uri'', FString), (''contentType'', FString), (''summary'', FString), (''toolName'', FString),
        (''originalChars'', FInteger), (''metadata'', FObject), (''createdAt'', FString)]),
     (''entity'', [(''id'', FString), (''entityType'', FString), (''name'', FString), (''summary'', FString),
        (''confidence'', FFloat), (''sourceRefs'', FArray), (''metadata'', FObject), (''createdAt'', FString),
        (''updatedAt'', FString)]),
     (''relation'', [(''id'', FString), (''fromEntityId'', FString), (''relationType'', FString), (''toEntityId'', FString),
        (''confidence'', FFloat), (''sourceRefs'', FArray), (''metadata'', FObject), (''createdAt'', FString),
        (''updatedAt'', FString)]),
     (''event'', [(''type'', FInteger), (''agentId'', FString), (''sessionId'', FString), (''role'', FString),
        (''content'', FString), (''toolCallId'', FString), (''toolName'', FString), (''payloadRef'', FString),
        (''metadata'', FObject), (''timestamp'', FString)]),
     (''contextRequest'', [(''agentId'', FString), (''sessionId'', FString), (''query'', FString), (''tokenBudget'', FInteger),
        (''includeSections'', FArray), (''metadata'', FObject)]),
     (''contextPackage'', [(''messages'', FArray), (''memoryText'', FString), (''entities'', FArray), (''relations'', FArray),
        (''payloadRefs'', FArray), (''citations'', FArray), (''metadata'', FObject)]),
     (''payloadWriteRequest'', [(''agentId'', FString), (''sessionId'', FString), (''content'', FString),
        (''contentType'', FString), (''toolCallId'', FString), (''toolName'', FString), (''metadata'', FObject)]),
     (''payloadWriteResult'', [(''offloaded'', FBoolean), (''replacementContent'', FString), (''payload'', FObject)]),
     (''consolidationRequest'', [(''agentId'', FString), (''sessionId'', FString), (''maxEvents'', FInteger),
        (''forceReprocess'', FBoolean), (''metadata'', FObject)]),
     (''consolidationResult'', [(''succeeded'', FBoolean), (''fallbackUsed'', FBoolean), (''processedEvents'', FInteger),
        (''savedSummaries'', FInteger), (''savedEntities'', FInteger), (''savedRelations'', FInteger),
        (''nextCursor'', FString), (''sessionId'', FString), (''error'', FString)]),
     (''searchRequest'', [(''agentId'', FString), (''sessionId'', FString), (''query'', FString), (''limit'', FInteger),
        (''includeSections'', FArray), (''metadata'', FObject)]),
     (''searchResponse'', [(''ok'', FBoolean), (''results'', FArray)]),
     (''stats'', [(''events'', FInteger), (''payloads'', FInteger), (''summaries'', FInteger), (''entities'', FInteger),
        (''relations'', FInteger), (''metadata'', FObject)])]"

definition SchemaRules :: "string \<Rightarrow> FieldRule list" where
  "SchemaRules schemaName = (case map_of schema_table schemaName of Some rules \<Rightarrow> rules | None \<Rightarrow> [])"

type_synonym JsonDecodeIssue = "string \<times> string"

record JsonDecodeDiagnostics =
  dg_warnings :: "JsonDecodeIssue list"
  dg_errors :: "JsonDecodeIssue list"

definition diagnostics_ok :: "JsonDecodeDiagnostics \<Rightarrow> bool" where
  "diagnostics_ok d = (dg_errors d = [])"

definition no_issues :: JsonDecodeDiagnostics where
  "no_issues = \<lparr>dg_warnings = [], dg_errors = []\<rparr>"

definition version_warnings :: "json \<Rightarrow> JsonDecodeIssue list" where
  "version_warnings j =
     (if contains j ''schemaVersion'' \<and> \<not> is_number_integer (json_at j ''schemaVersion'')
      then [(''$.schemaVersion'', ''expected integer, got '' @ type_name (json_at j ''schemaVersion''))]
      else if JsonInt j ''schemaVersion'' kSchemaVersion > kSchemaVersion
      then [(''$.schemaVersion'', ''newer schema version'')] else [])"

definition rule_warnings :: "json \<Rightarrow> FieldRule list \<Rightarrow> JsonDecodeIssue list" where
  "rule_warnings j rules =
     concat (map (\<lambda>(name, ty).
       if \<not> contains j name \<or> MatchesType (json_at j name) ty then []
       else [(''$.'' @ name, ''expected '' @ FieldTypeName ty @ '', got '' @ type_name (json_at j name))]) rules)"

definition JsonDecodeDiagnosticsFor :: "json \<Rightarrow> string \<Rightarrow> JsonDecodeDiagnostics" where
  "JsonDecodeDiagnosticsFor j schemaName =
     (if \<not> is_object j
      then \<lparr>dg_warnings = [], dg_errors = [(''$'', ''expected object, got '' @ type_name j)]\<rparr>
      else
        let rules = SchemaRules schemaName in
        if rules = [] \<and> schemaName \<noteq> []
        then \<lparr>dg_warnings = version_warnings j @ [(''$'', ''unknown schema name: '' @ schemaName)], dg_errors = []\<rparr>
        else \<lparr>dg_warnings = version_warnings j @ rule_warnings j rules,
              dg_errors = (if schemaName = ''searchResponse'' \<and> \<not> is_array (JsonFieldValue j ''results'')
                           then [(''$.results'', ''expected array'')] else [])\<rparr>)"

definition issue_to_json :: "JsonDecodeIssue \<Rightarrow> json" where
  "issue_to_json i = jobj [(''path'', JStr (fst i)), (''message'', JStr (snd i))]"

definition DecodeDiagnosticsToJson :: "JsonDecodeDiagnostics \<Rightarrow> json" where
  "DecodeDiagnosticsToJson d =
     WithSchema (jobj [(''ok'', JBool (diagnostics_ok d)), (''warnings'', JArr (map issue_to_json (dg_warnings d))),
                       (''errors'', JArr (map issue_to_json (dg_errors d)))])"

text \<open>
  \<open>Decode...\<close>: the flag says whether the caller passed a diagnostics object. The result is what
  the function returns, the decoded value, and the diagnostics it stored.
\<close>

definition DecodeWithDiagnostics ::
  "string \<Rightarrow> (json \<Rightarrow> 'a) \<Rightarrow> json \<Rightarrow> bool \<Rightarrow> bool \<times> 'a \<times> JsonDecodeDiagnostics option" where
  "DecodeWithDiagnostics schemaName decode j wanted =
     (let diagnostics = (if wanted then Some (JsonDecodeDiagnosticsFor j schemaName) else None)
      in (case diagnostics of None \<Rightarrow> True | Some d \<Rightarrow> diagnostics_ok d, decode j, diagnostics))"

section \<open>Messages, payloads, entities, relations\<close>

definition MessageToJson :: "MemoryMessage \<Rightarrow> json" where [codec_defs]:
  "MessageToJson m =
     jobj [(''role'', JStr (msg_role m)), (''content'', JStr (msg_content m)), (''toolCallId'', JStr (msg_toolCallId m)),
           (''toolName'', JStr (msg_toolName m)), (''payloadRef'', JStr (msg_payloadRef m))]"

definition MessageFromJson :: "json \<Rightarrow> MemoryMessage" where [codec_defs]:
  "MessageFromJson j =
     \<lparr>msg_role = JsonString j ''role'' [], msg_content = JsonString j ''content'' [],
      msg_toolCallId = JsonString j ''toolCallId'' [], msg_toolName = JsonString j ''toolName'' [],
      msg_payloadRef = JsonString j ''payloadRef'' []\<rparr>"

definition PayloadRefToJson :: "MemoryPayloadRef \<Rightarrow> json" where [codec_defs]:
  "PayloadRefToJson p =
     jobj [(''agentId'', JStr (pay_agentId p)), (''sessionId'', JStr (pay_sessionId p)), (''uri'', JStr (pay_uri p)),
           (''contentType'', JStr (pay_contentType p)), (''summary'', JStr (pay_summary p)),
           (''toolName'', JStr (pay_toolName p)), (''originalChars'', JInt (pay_originalChars p)),
           (''metadata'', JsonObject (pay_metadata p)), (''createdAt'', JStr (pay_createdAt p))]"

definition PayloadRefFromJson :: "json \<Rightarrow> MemoryPayloadRef" where [codec_defs]:
  "PayloadRefFromJson j =
     \<lparr>pay_agentId = JsonString j ''agentId'' [], pay_sessionId = JsonString j ''sessionId'' [],
      pay_uri = JsonString j ''uri'' [], pay_contentType = JsonString j ''contentType'' [],
      pay_summary = JsonString j ''summary'' [], pay_toolName = JsonString j ''toolName'' [],
      pay_originalChars = JsonInt j ''originalChars'' 0, pay_metadata = JsonObject (JsonFieldValue j ''metadata''),
      pay_createdAt = JsonString j ''createdAt'' []\<rparr>"

definition EntityToJson :: "MemoryEntity \<Rightarrow> json" where [codec_defs]:
  "EntityToJson e =
     jobj [(''id'', JStr (en_id e)), (''entityType'', JStr (en_entityType e)), (''name'', JStr (en_name e)),
           (''summary'', JStr (en_summary e)), (''confidence'', JFloat (en_confidence e)),
           (''sourceRefs'', string_array (en_sourceRefs e)), (''metadata'', JsonObject (en_metadata e)),
           (''createdAt'', JStr (en_createdAt e)), (''updatedAt'', JStr (en_updatedAt e))]"

definition EntityFromJson :: "json \<Rightarrow> MemoryEntity" where [codec_defs]:
  "EntityFromJson j =
     default_entity\<lparr>en_id := JsonString j ''id'' [], en_entityType := JsonString j ''entityType'' [],
       en_name := JsonString j ''name'' [], en_summary := JsonString j ''summary'' [],
       en_confidence := JsonFloat j ''confidence'' 0,
       en_sourceRefs := StringVectorFromJson (JsonFieldValue j ''sourceRefs''),
       en_metadata := JsonObject (JsonFieldValue j ''metadata''),
       en_createdAt := JsonString j ''createdAt'' [], en_updatedAt := JsonString j ''updatedAt'' []\<rparr>"

definition RelationToJson :: "MemoryRelation \<Rightarrow> json" where [codec_defs]:
  "RelationToJson r =
     jobj [(''id'', JStr (rel_id r)), (''fromEntityId'', JStr (rel_fromEntityId r)),
           (''relationType'', JStr (rel_relationType r)), (''toEntityId'', JStr (rel_toEntityId r)),
           (''confidence'', JFloat (rel_confidence r)), (''sourceRefs'', string_array (rel_sourceRefs r)),
           (''metadata'', JsonObject (rel_metadata r)), (''createdAt'', JStr (rel_createdAt r)),
           (''updatedAt'', JStr (rel_updatedAt r))]"

definition RelationFromJson :: "json \<Rightarrow> MemoryRelation" where [codec_defs]:
  "RelationFromJson j =
     default_relation\<lparr>rel_id := JsonString j ''id'' [], rel_fromEntityId := JsonString j ''fromEntityId'' [],
       rel_relationType := JsonString j ''relationType'' [], rel_toEntityId := JsonString j ''toEntityId'' [],
       rel_confidence := JsonFloat j ''confidence'' 0,
       rel_sourceRefs := StringVectorFromJson (JsonFieldValue j ''sourceRefs''),
       rel_metadata := JsonObject (JsonFieldValue j ''metadata''),
       rel_createdAt := JsonString j ''createdAt'' [], rel_updatedAt := JsonString j ''updatedAt'' []\<rparr>"

section \<open>Statistics, context packages and requests\<close>

definition StatsToJson :: "MemoryStats \<Rightarrow> json" where [codec_defs]:
  "StatsToJson st =
     WithSchema (jobj [(''events'', JInt (st_events st)), (''payloads'', JInt (st_payloads st)),
       (''summaries'', JInt (st_summaries st)), (''entities'', JInt (st_entities st)),
       (''relations'', JInt (st_relations st)), (''metadata'', JsonObject (st_metadata st))])"

definition StatsFromJson :: "json \<Rightarrow> MemoryStats" where [codec_defs]:
  "StatsFromJson j =
     \<lparr>st_events = JsonInt j ''events'' 0, st_payloads = JsonInt j ''payloads'' 0, st_summaries = JsonInt j ''summaries'' 0,
      st_entities = JsonInt j ''entities'' 0, st_relations = JsonInt j ''relations'' 0,
      st_metadata = JsonObject (JsonFieldValue j ''metadata'')\<rparr>"

text \<open>The objects of an array value, each decoded; anything else in it is skipped.\<close>

definition decode_items :: "(json \<Rightarrow> 'a) \<Rightarrow> json \<Rightarrow> 'a list" where [codec_defs]:
  "decode_items decode v = (case v of JArr items \<Rightarrow> map decode (filter is_object items) | _ \<Rightarrow> [])"

definition ContextPackageToJson :: "MemoryContextPackage \<Rightarrow> json" where [codec_defs]:
  "ContextPackageToJson p =
     WithSchema (jobj [(''messages'', JArr (map MessageToJson (pkg_messages p))), (''memoryText'', JStr (pkg_memoryText p)),
       (''entities'', JArr (map EntityToJson (pkg_entities p))), (''relations'', JArr (map RelationToJson (pkg_relations p))),
       (''payloadRefs'', JArr (map PayloadRefToJson (pkg_payloadRefs p))), (''citations'', string_array (pkg_citations p)),
       (''metadata'', JsonObject (pkg_metadata p))])"

definition ContextPackageFromJson :: "json \<Rightarrow> MemoryContextPackage" where [codec_defs]:
  "ContextPackageFromJson j =
     \<lparr>pkg_messages = decode_items MessageFromJson (JsonFieldValue j ''messages''),
      pkg_memoryText = JsonString j ''memoryText'' [],
      pkg_entities = decode_items EntityFromJson (JsonFieldValue j ''entities''),
      pkg_relations = decode_items RelationFromJson (JsonFieldValue j ''relations''),
      pkg_payloadRefs = decode_items PayloadRefFromJson (JsonFieldValue j ''payloadRefs''),
      pkg_citations = StringVectorFromJson (JsonFieldValue j ''citations''),
      pkg_metadata = JsonObject (JsonFieldValue j ''metadata'')\<rparr>"

definition ContextRequestToJson :: "MemoryContextRequest \<Rightarrow> json" where [codec_defs]:
  "ContextRequestToJson r =
     WithSchema (jobj [(''agentId'', JStr (cx_agentId r)), (''sessionId'', JStr (cx_sessionId r)), (''query'', JStr (cx_query r)),
       (''tokenBudget'', JInt (cx_tokenBudget r)), (''includeSections'', string_array (cx_includeSections r)),
       (''metadata'', JsonObject (cx_metadata r))])"

definition ContextRequestFromJson :: "json \<Rightarrow> MemoryContextRequest" where [codec_defs]:
  "ContextRequestFromJson j =
     \<lparr>cx_agentId = JsonString j ''agentId'' [], cx_sessionId = JsonString j ''sessionId'' [],
      cx_query = JsonString j ''query'' [], cx_tokenBudget = JsonInt j ''tokenBudget'' 4096,
      cx_includeSections = StringVectorFromJson (JsonFieldValue j ''includeSections''),
      cx_metadata = JsonObject (JsonFieldValue j ''metadata'')\<rparr>"

section \<open>Events and payload writes\<close>

definition EventTypeFromJson :: "json \<Rightarrow> MemoryEventType" where [codec_defs]:
  "EventTypeFromJson j =
     (let type = JsonInt j ''type'' (event_type_to_int SESSION_STARTED)
      in if 0 \<le> type \<and> type \<le> 7 then event_type_of_int type else SESSION_STARTED)"

definition EventToJson :: "MemoryEvent \<Rightarrow> json" where [codec_defs]:
  "EventToJson e =
     WithSchema (jobj [(''type'', JInt (event_type_to_int (ev_type e))), (''agentId'', JStr (ev_agentId e)),
       (''sessionId'', JStr (ev_sessionId e)), (''role'', JStr (ev_role e)), (''content'', JStr (ev_content e)),
       (''toolCallId'', JStr (ev_toolCallId e)), (''toolName'', JStr (ev_toolName e)), (''payloadRef'', JStr (ev_payloadRef e)),
       (''metadata'', JsonObject (ev_metadata e)), (''timestamp'', JStr (ev_timestamp e))])"

definition EventFromJson :: "json \<Rightarrow> MemoryEvent" where [codec_defs]:
  "EventFromJson j =
     \<lparr>ev_type = EventTypeFromJson j, ev_agentId = JsonString j ''agentId'' [], ev_sessionId = JsonString j ''sessionId'' [],
      ev_role = JsonString j ''role'' [], ev_content = JsonString j ''content'' [],
      ev_toolCallId = JsonString j ''toolCallId'' [], ev_toolName = JsonString j ''toolName'' [],
      ev_payloadRef = JsonString j ''payloadRef'' [], ev_storeCursor = [],
      ev_metadata = JsonObject (JsonFieldValue j ''metadata''), ev_timestamp = JsonString j ''timestamp'' []\<rparr>"

definition PayloadWriteRequestToJson :: "MemoryPayloadWriteRequest \<Rightarrow> json" where [codec_defs]:
  "PayloadWriteRequestToJson r =
     WithSchema (jobj [(''agentId'', JStr (pw_agentId r)), (''sessionId'', JStr (pw_sessionId r)), (''content'', JStr (pw_content r)),
       (''contentType'', JStr (pw_contentType r)), (''toolCallId'', JStr (pw_toolCallId r)),
       (''toolName'', JStr (pw_toolName r)), (''metadata'', JsonObject (pw_metadata r))])"

definition PayloadWriteRequestFromJson :: "json \<Rightarrow> MemoryPayloadWriteRequest" where [codec_defs]:
  "PayloadWriteRequestFromJson j =
     \<lparr>pw_agentId = JsonString j ''agentId'' [], pw_sessionId = JsonString j ''sessionId'' [],
      pw_content = JsonString j ''content'' [], pw_contentType = JsonString j ''contentType'' [],
      pw_toolCallId = JsonString j ''toolCallId'' [], pw_toolName = JsonString j ''toolName'' [],
      pw_metadata = JsonObject (JsonFieldValue j ''metadata'')\<rparr>"

definition PayloadWriteResultToJson :: "MemoryPayloadWriteResult \<Rightarrow> json" where [codec_defs]:
  "PayloadWriteResultToJson r =
     WithSchema (jobj [(''succeeded'', JBool (pwr_succeeded r)), (''offloaded'', JBool (pwr_offloaded r)),
       (''replacementContent'', JStr (pwr_replacementContent r)), (''payload'', PayloadRefToJson (pwr_payload r)),
       (''error'', ErrorToJson (pwr_error r))])"

definition PayloadWriteResultFromJson :: "string \<Rightarrow> json \<Rightarrow> MemoryPayloadWriteResult" where [codec_defs]:
  "PayloadWriteResultFromJson defaultReplacementContent j =
     \<lparr>pwr_succeeded = JsonBool j ''succeeded'' False, pwr_offloaded = JsonBool j ''offloaded'' False,
      pwr_payload = (if is_object (JsonFieldValue j ''payload'') then PayloadRefFromJson (json_at j ''payload'')
                     else empty_payload_ref),
      pwr_replacementContent = JsonString j ''replacementContent'' defaultReplacementContent,
      pwr_error = ErrorFromJson (JsonFieldValue j ''error'')\<rparr>"

section \<open>Consolidation and search\<close>

definition ConsolidationRequestToJson :: "MemoryConsolidationRequest \<Rightarrow> json" where [codec_defs]:
  "ConsolidationRequestToJson r =
     json_set ''excludedSessionIds'' (string_array (cr_excludedSessionIds r))
       (WithSchema (jobj [(''agentId'', JStr (cr_agentId r)), (''sessionId'', JStr (cr_sessionId r)),
         (''maxEvents'', JInt (cr_maxEvents r)), (''forceReprocess'', JBool (cr_forceReprocess r)),
         (''metadata'', JsonObject (cr_metadata r))]))"

definition ConsolidationRequestFromJson :: "json \<Rightarrow> MemoryConsolidationRequest" where [codec_defs]:
  "ConsolidationRequestFromJson j =
     \<lparr>cr_agentId = JsonString j ''agentId'' [], cr_sessionId = JsonString j ''sessionId'' [],
      cr_maxEvents = JsonInt j ''maxEvents'' 100, cr_forceReprocess = JsonBool j ''forceReprocess'' False,
      cr_excludedSessionIds = StringVectorFromJson (JsonFieldValue j ''excludedSessionIds''),
      cr_metadata = JsonObject (JsonFieldValue j ''metadata'')\<rparr>"

definition ConsolidationResultToJson :: "MemoryConsolidationResult \<Rightarrow> json" where [codec_defs]:
  "ConsolidationResultToJson r =
     WithSchema (jobj [(''succeeded'', JBool (cres_succeeded r)), (''fallbackUsed'', JBool (cres_fallbackUsed r)),
       (''processedEvents'', JInt (cres_processedEvents r)), (''savedSummaries'', JInt (cres_savedSummaries r)),
       (''savedEntities'', JInt (cres_savedEntities r)), (''savedRelations'', JInt (cres_savedRelations r)),
       (''nextCursor'', JStr (cres_nextCursor r)), (''sessionId'', JStr (cres_sessionId r)),
       (''error'', ErrorToJson (cres_error r))])"

definition ConsolidationResultFromJson :: "json \<Rightarrow> MemoryConsolidationResult" where [codec_defs]:
  "ConsolidationResultFromJson j =
     \<lparr>cres_succeeded = JsonBool j ''succeeded'' False, cres_fallbackUsed = JsonBool j ''fallbackUsed'' False,
      cres_processedEvents = JsonInt j ''processedEvents'' 0, cres_savedSummaries = JsonInt j ''savedSummaries'' 0,
      cres_savedEntities = JsonInt j ''savedEntities'' 0, cres_savedRelations = JsonInt j ''savedRelations'' 0,
      cres_nextCursor = JsonString j ''nextCursor'' [], cres_sessionId = JsonString j ''sessionId'' [],
      cres_error = ErrorFromJson (JsonFieldValue j ''error'')\<rparr>"

definition SearchRequestToJson :: "MemorySearchRequest \<Rightarrow> json" where [codec_defs]:
  "SearchRequestToJson r =
     WithSchema (jobj [(''agentId'', JStr (sr_agentId r)), (''sessionId'', JStr (sr_sessionId r)), (''query'', JStr (sr_query r)),
       (''limit'', JInt (sr_limit r)), (''includeSections'', string_array (sr_includeSections r)),
       (''metadata'', JsonObject (sr_metadata r))])"

definition SearchRequestFromJson :: "json \<Rightarrow> MemorySearchRequest" where [codec_defs]:
  "SearchRequestFromJson j =
     \<lparr>sr_agentId = JsonString j ''agentId'' [], sr_sessionId = JsonString j ''sessionId'' [],
      sr_query = JsonString j ''query'' [], sr_limit = JsonInt j ''limit'' 10,
      sr_includeSections = StringVectorFromJson (JsonFieldValue j ''includeSections''),
      sr_metadata = JsonObject (JsonFieldValue j ''metadata'')\<rparr>"

definition hit_to_json :: "MemorySearchHit \<Rightarrow> json" where [codec_defs]:
  "hit_to_json h =
     jobj [(''id'', JStr (hit_id h)), (''type'', JStr (hit_type h)), (''content'', JStr (hit_content h)),
           (''score'', JFloat (hit_score h)), (''sourceRefs'', string_array (hit_sourceRefs h)),
           (''metadata'', JsonObject (hit_metadata h))]"

definition SearchResultsArrayToJson :: "MemorySearchHit list \<Rightarrow> json" where [codec_defs]:
  "SearchResultsArrayToJson hits = JArr (map hit_to_json hits)"

definition SearchResponseToJson :: "bool \<Rightarrow> MemorySearchHit list \<Rightarrow> json" where [codec_defs]:
  "SearchResponseToJson ok hits = WithSchema (jobj [(''ok'', JBool ok), (''results'', SearchResultsArrayToJson hits)])"

definition hit_of_json :: "json \<Rightarrow> MemorySearchHit" where [codec_defs]:
  "hit_of_json item =
     \<lparr>hit_id = JsonString item ''id'' [], hit_type = JsonString item ''type'' [], hit_content = JsonString item ''content'' [],
      hit_score = JsonFloat item ''score'' 0, hit_sourceRefs = StringVectorFromJson (JsonFieldValue item ''sourceRefs''),
      hit_metadata = JsonObject (JsonFieldValue item ''metadata'')\<rparr>"

definition SearchResultsFromJson :: "json \<Rightarrow> MemorySearchHit list" where [codec_defs]:
  "SearchResultsFromJson j = (if \<not> is_object j then [] else decode_items hit_of_json (JsonFieldValue j ''results''))"

section \<open>Decoders with diagnostics\<close>

type_synonym 'a decoded = "bool \<times> 'a \<times> JsonDecodeDiagnostics option"

definition DecodeMessage :: "json \<Rightarrow> bool \<Rightarrow> MemoryMessage decoded" where
  "DecodeMessage = DecodeWithDiagnostics ''message'' MessageFromJson"

definition DecodePayloadRef :: "json \<Rightarrow> bool \<Rightarrow> MemoryPayloadRef decoded" where
  "DecodePayloadRef = DecodeWithDiagnostics ''payloadRef'' PayloadRefFromJson"

definition DecodeEntity :: "json \<Rightarrow> bool \<Rightarrow> MemoryEntity decoded" where
  "DecodeEntity = DecodeWithDiagnostics ''entity'' EntityFromJson"

definition DecodeRelation :: "json \<Rightarrow> bool \<Rightarrow> MemoryRelation decoded" where
  "DecodeRelation = DecodeWithDiagnostics ''relation'' RelationFromJson"

definition DecodeEvent :: "json \<Rightarrow> bool \<Rightarrow> MemoryEvent decoded" where
  "DecodeEvent = DecodeWithDiagnostics ''event'' EventFromJson"

definition DecodeContextPackage :: "json \<Rightarrow> bool \<Rightarrow> MemoryContextPackage decoded" where
  "DecodeContextPackage = DecodeWithDiagnostics ''contextPackage'' ContextPackageFromJson"

definition DecodeContextRequest :: "json \<Rightarrow> bool \<Rightarrow> MemoryContextRequest decoded" where
  "DecodeContextRequest = DecodeWithDiagnostics ''contextRequest'' ContextRequestFromJson"

definition DecodePayloadWriteRequest :: "json \<Rightarrow> bool \<Rightarrow> MemoryPayloadWriteRequest decoded" where
  "DecodePayloadWriteRequest = DecodeWithDiagnostics ''payloadWriteRequest'' PayloadWriteRequestFromJson"

definition DecodePayloadWriteResult :: "json \<Rightarrow> bool \<Rightarrow> MemoryPayloadWriteResult decoded" where
  "DecodePayloadWriteResult j wanted =
     (let diagnostics = (if wanted then Some (JsonDecodeDiagnosticsFor j ''payloadWriteResult'') else None)
      in (case diagnostics of None \<Rightarrow> True | Some d \<Rightarrow> diagnostics_ok d, PayloadWriteResultFromJson [] j, diagnostics))"

definition DecodeConsolidationRequest :: "json \<Rightarrow> bool \<Rightarrow> MemoryConsolidationRequest decoded" where
  "DecodeConsolidationRequest = DecodeWithDiagnostics ''consolidationRequest'' ConsolidationRequestFromJson"

definition DecodeConsolidationResult :: "json \<Rightarrow> bool \<Rightarrow> MemoryConsolidationResult decoded" where
  "DecodeConsolidationResult = DecodeWithDiagnostics ''consolidationResult'' ConsolidationResultFromJson"

definition DecodeSearchRequest :: "json \<Rightarrow> bool \<Rightarrow> MemorySearchRequest decoded" where
  "DecodeSearchRequest = DecodeWithDiagnostics ''searchRequest'' SearchRequestFromJson"

definition DecodeSearchHits :: "json \<Rightarrow> bool \<Rightarrow> MemorySearchHit list decoded" where
  "DecodeSearchHits j wanted =
     (let diagnostics = (if wanted then Some (JsonDecodeDiagnosticsFor j ''searchResponse'') else None)
      in (case diagnostics of None \<Rightarrow> True | Some d \<Rightarrow> diagnostics_ok d, SearchResultsFromJson j, diagnostics))"

definition DecodeStats :: "json \<Rightarrow> bool \<Rightarrow> MemoryStats decoded" where
  "DecodeStats = DecodeWithDiagnostics ''stats'' StatsFromJson"

end
