(* ===== verification/Codec_Laws.thy ===== *)
theory Codec_Laws
  imports Codec
begin

text \<open>
  Round trips of the codec. The interface \<open>json_codec\<close> is what a user of an encoder and a decoder
  relies on: the encoding is an object, and decoding it after it went through JSON text gives back
  the value, up to \<open>kept\<close> (the part of the value the encoding carries). It is interpreted on every
  encoder and decoder pair of the codec; \<open>schema_codec\<close> adds that the diagnostics of an encoded
  value are silent.
\<close>

section \<open>Looking up fields\<close>

lemma contains_jnorm [simp]: "contains (jnorm j) k = contains j k"
proof (cases j)
  case (JObj m)
  have "map_of (map (\<lambda>kv. (fst kv, jnorm (snd kv))) m) k = map_option jnorm (map_of m k)" by (induction m) auto
  with JObj show ?thesis by simp
qed auto

lemma json_at_jnorm [simp]: "json_at (jnorm j) k = jnorm (json_at j k)"
proof (cases j)
  case (JObj m)
  have "map_of (map (\<lambda>kv. (fst kv, jnorm (snd kv))) m) k = map_option jnorm (map_of m k)" by (induction m) auto
  with JObj show ?thesis by (auto split: option.splits)
qed auto

lemma jnorm_jnorm [simp]: "jnorm (jnorm j) = jnorm j"
  by (induction j rule: jnorm.induct) auto

lemma jnorm_JsonObject: "jnorm (JsonObject v) = JsonObject (jnorm v)"
  by (simp add: JsonObject_def)

lemma JsonObject_JsonObject [simp]: "JsonObject (JsonObject v) = JsonObject v"
  by (simp add: JsonObject_def)

lemma jnorm_kind [simp]:
  "is_string (jnorm j) = is_string j" "is_boolean (jnorm j) = is_boolean j" "is_array (jnorm j) = is_array j"
  "is_number (jnorm j) = is_number j" "is_number_integer (jnorm j) = is_number_integer j"
  "get_string (jnorm j) = get_string j" "get_bool (jnorm j) = get_bool j"
  by (cases j; simp)+

text \<open>The value bound to \<open>k\<close> in an initialiser list.\<close>

definition field :: "(string \<times> json) list \<Rightarrow> string \<Rightarrow> json option" where
  "field kvs k = map_of (rev kvs) k"

lemma foldl_upd_map_of: "foldl (\<lambda>f kv. f(fst kv \<mapsto> snd kv)) f0 kvs k = (case map_of (rev kvs) k of Some v \<Rightarrow> Some v | None \<Rightarrow> f0 k)"
  by (induction kvs arbitrary: f0) (auto simp: map_add_def split: option.splits)

lemma contains_jobj_field: "contains (jobj kvs) k = (field kvs k \<noteq> None)"
  by (simp add: contains_jobj foldl_upd_map_of field_def split: option.splits)

lemma json_at_jobj_field: "json_at (jobj kvs) k = (case field kvs k of Some v \<Rightarrow> v | None \<Rightarrow> JNull)"
  by (simp add: json_at_jobj foldl_upd_map_of field_def split: option.splits)

lemma is_object_WithSchema [simp]: "is_object (WithSchema j) = is_object j"
  by (cases j) (simp_all add: WithSchema_def)

lemma WithSchema_lookup [simp]:
  assumes "is_object j"
  shows "contains (WithSchema j) k = (k = ''schemaVersion'' \<or> contains j k)"
    "json_at (WithSchema j) k = (if k = ''schemaVersion'' then JInt kSchemaVersion else json_at j k)"
  using assms by (simp_all add: WithSchema_def)

text \<open>Reading one field of an encoded value, before or after it went through text.\<close>

lemma read_field:
  assumes "is_object j" "contains j k"
  shows "json_at j k = JStr v \<Longrightarrow> JsonString (jnorm j) k d = v"
    "json_at j k = JBool b \<Longrightarrow> JsonBool (jnorm j) k c = b"
    "json_at j k = JFloat x \<Longrightarrow> JsonFloat (jnorm j) k y = f32 x"
    "json_at j k = JInt n \<Longrightarrow> INT_MIN \<le> n \<Longrightarrow> n \<le> INT_MAX \<Longrightarrow> JsonInt (jnorm j) k e = n"
    "JsonFieldValue (jnorm j) k = jnorm (json_at j k)"
  using assms by (auto simp: json_defs int_limits i64_id)

lemma string_array_text [simp]: "StringVectorFromJson (jnorm (string_array ss)) = ss"
  by simp

lemma decode_items_map:
  assumes "\<And>x. x \<in> set xs \<Longrightarrow> is_object (enc x)" "\<And>x. x \<in> set xs \<Longrightarrow> dec (jnorm (enc x)) = f x"
  shows "decode_items dec (jnorm (JArr (map enc xs))) = map f xs"
  using assms by (induction xs) (auto simp: decode_items_def)

section \<open>The interface of a codec\<close>

locale json_codec =
  fixes enc :: "'a \<Rightarrow> json" and dec :: "json \<Rightarrow> 'a" and fits :: "'a \<Rightarrow> bool" and kept :: "'a \<Rightarrow> 'a"
  assumes enc_object: "is_object (enc x)"
    and enc_dec: "fits x \<Longrightarrow> dec (jnorm (enc x)) = kept x"
begin

lemma text_roundtrip:
  assumes "json_text_ok J" "jdump J (enc x) = Inr t" "fits x"
  shows "\<exists>j. jparse J t = Inr j \<and> dec j = kept x"
  using json_text_okD(3) [OF assms(1,2)] enc_dec [OF assms(3)] by blast

lemma list_roundtrip: "list_all fits xs \<Longrightarrow> decode_items dec (jnorm (JArr (map enc xs))) = map kept xs"
  by (rule decode_items_map) (auto simp: enc_object enc_dec list_all_iff)

end

locale schema_codec = json_codec +
  fixes schema :: string
  assumes silent: "JsonDecodeDiagnosticsFor (jnorm (enc x)) schema = no_issues"
begin

lemma decode_reports_nothing:
  assumes "json_text_ok J" "jdump J (enc x) = Inr t" "fits x"
  shows "\<exists>j. jparse J t = Inr j \<and> DecodeWithDiagnostics schema dec j True = (True, kept x, Some no_issues)"
  using json_text_okD(3) [OF assms(1,2)] enc_dec [OF assms(3)] silent
  by (auto simp: DecodeWithDiagnostics_def Let_def diagnostics_ok_def no_issues_def)

end

section \<open>Silent diagnostics\<close>

lemma version_warnings_schema:
  assumes "contains j ''schemaVersion'' \<longrightarrow> json_at j ''schemaVersion'' = JInt kSchemaVersion"
  shows "version_warnings (jnorm j) = []"
  using assms by (auto simp: version_warnings_def json_defs kSchemaVersion_def i64_id int_limits)

lemma silentI:
  assumes "is_object j" "contains j ''schemaVersion'' \<longrightarrow> json_at j ''schemaVersion'' = JInt kSchemaVersion"
    "SchemaRules schema \<noteq> []"
    "list_all (\<lambda>(name, ty). contains j name \<longrightarrow> MatchesType (jnorm (json_at j name)) ty) (SchemaRules schema)"
    "schema = ''searchResponse'' \<longrightarrow> is_array (JsonFieldValue j ''results'')"
  shows "JsonDecodeDiagnosticsFor (jnorm j) schema = no_issues"
proof -
  have "rule_warnings (jnorm j) (SchemaRules schema) = []"
    using assms(4) by (auto simp: rule_warnings_def list_all_iff)
  moreover have "JsonFieldValue (jnorm j) ''results'' = jnorm (JsonFieldValue j ''results'')"
    by (simp add: JsonFieldValue_def)
  ultimately show ?thesis
    using assms version_warnings_schema [OF assms(2)]
    by (simp add: JsonDecodeDiagnosticsFor_def Let_def no_issues_def)
qed

section \<open>The codecs of the program\<close>

definition int_ok :: "int \<Rightarrow> bool" where
  "int_ok n = (INT_MIN \<le> n \<and> n \<le> INT_MAX)"

text \<open>Lookups in an encoding, down to the value bound there.\<close>

lemma JsonString_norm: "is_object j \<Longrightarrow> JsonString (jnorm j) k d = (if contains j k \<and> is_string (json_at j k) then get_string (json_at j k) else d)"
  by (simp add: JsonString_def)

lemma JsonBool_norm: "is_object j \<Longrightarrow> JsonBool (jnorm j) k d = (if contains j k \<and> is_boolean (json_at j k) then get_bool (json_at j k) else d)"
  by (simp add: JsonBool_def)

lemma JsonFloat_norm: "is_object j \<Longrightarrow> JsonFloat (jnorm j) k d = (if contains j k \<and> is_number (json_at j k) then f32 (get_number (jnorm (json_at j k))) else d)"
  by (simp add: JsonFloat_def)

lemma JsonInt_norm:
  "is_object j \<Longrightarrow> contains j k \<Longrightarrow> json_at j k = JInt n \<Longrightarrow> int_ok n \<Longrightarrow> JsonInt (jnorm j) k d = n"
  by (simp add: read_field(4) int_ok_def)

lemma JsonFieldValue_norm: "is_object j \<Longrightarrow> contains j k \<Longrightarrow> JsonFieldValue (jnorm j) k = jnorm (json_at j k)"
  by (rule read_field)

lemmas lookups = JsonString_norm JsonBool_norm JsonFloat_norm JsonInt_norm JsonFieldValue_norm
  contains_jobj_field json_at_jobj_field field_def jnorm_JsonObject

definition message_fits :: "MemoryMessage \<Rightarrow> bool" where
  "message_fits m = True"

interpretation message_codec: json_codec MessageToJson MessageFromJson message_fits id
  by unfold_locales (simp_all add: MessageToJson_def MessageFromJson_def lookups)

definition payload_ref_fits :: "MemoryPayloadRef \<Rightarrow> bool" where
  "payload_ref_fits p = int_ok (pay_originalChars p)"

definition payload_ref_kept :: "MemoryPayloadRef \<Rightarrow> MemoryPayloadRef" where
  "payload_ref_kept p = p\<lparr>pay_metadata := JsonObject (jnorm (pay_metadata p))\<rparr>"

interpretation payload_codec: json_codec PayloadRefToJson PayloadRefFromJson payload_ref_fits payload_ref_kept
  by unfold_locales (simp_all add: PayloadRefToJson_def PayloadRefFromJson_def payload_ref_fits_def payload_ref_kept_def lookups)

definition entity_fits :: "MemoryEntity \<Rightarrow> bool" where
  "entity_fits e = is_f32 (en_confidence e)"

text \<open>The agent, the active flag and the supersession links are not encoded.\<close>

definition entity_kept :: "MemoryEntity \<Rightarrow> MemoryEntity" where
  "entity_kept e = e\<lparr>en_agentId := [], en_isActive := True, en_supersededByEntityId := [], en_supersededEntityId := [],
     en_metadata := JsonObject (jnorm (en_metadata e))\<rparr>"

interpretation entity_codec: json_codec EntityToJson EntityFromJson entity_fits entity_kept
  by unfold_locales (simp_all add: EntityToJson_def EntityFromJson_def entity_fits_def entity_kept_def default_entity_def is_f32_def lookups)

definition relation_fits :: "MemoryRelation \<Rightarrow> bool" where
  "relation_fits r = is_f32 (rel_confidence r)"

definition relation_kept :: "MemoryRelation \<Rightarrow> MemoryRelation" where
  "relation_kept r = r\<lparr>rel_agentId := [], rel_metadata := JsonObject (jnorm (rel_metadata r))\<rparr>"

interpretation relation_codec: json_codec RelationToJson RelationFromJson relation_fits relation_kept
  by unfold_locales
    (simp_all add: RelationToJson_def RelationFromJson_def relation_fits_def relation_kept_def default_relation_def is_f32_def lookups)

definition stats_fits :: "MemoryStats \<Rightarrow> bool" where
  "stats_fits st = (int_ok (st_events st) \<and> int_ok (st_payloads st) \<and> int_ok (st_summaries st) \<and>
     int_ok (st_entities st) \<and> int_ok (st_relations st))"

definition stats_kept :: "MemoryStats \<Rightarrow> MemoryStats" where
  "stats_kept st = st\<lparr>st_metadata := JsonObject (jnorm (st_metadata st))\<rparr>"

interpretation stats_codec: json_codec StatsToJson StatsFromJson stats_fits stats_kept
  by unfold_locales (simp_all add: StatsToJson_def StatsFromJson_def stats_fits_def stats_kept_def lookups)

definition package_fits :: "MemoryContextPackage \<Rightarrow> bool" where
  "package_fits p = (list_all message_fits (pkg_messages p) \<and> list_all entity_fits (pkg_entities p) \<and>
     list_all relation_fits (pkg_relations p) \<and> list_all payload_ref_fits (pkg_payloadRefs p))"

definition package_kept :: "MemoryContextPackage \<Rightarrow> MemoryContextPackage" where
  "package_kept p = p\<lparr>pkg_entities := map entity_kept (pkg_entities p), pkg_relations := map relation_kept (pkg_relations p),
     pkg_payloadRefs := map payload_ref_kept (pkg_payloadRefs p), pkg_metadata := JsonObject (jnorm (pkg_metadata p))\<rparr>"

lemmas item_lists = message_codec.list_roundtrip entity_codec.list_roundtrip relation_codec.list_roundtrip
  payload_codec.list_roundtrip

interpretation package_codec: json_codec ContextPackageToJson ContextPackageFromJson package_fits package_kept
  by unfold_locales
    (simp_all add: ContextPackageToJson_def ContextPackageFromJson_def package_fits_def package_kept_def lookups item_lists
      del: jnorm.simps(2))

definition context_request_kept :: "MemoryContextRequest \<Rightarrow> MemoryContextRequest" where
  "context_request_kept r = r\<lparr>cx_metadata := JsonObject (jnorm (cx_metadata r))\<rparr>"

definition context_request_fits :: "MemoryContextRequest \<Rightarrow> bool" where
  "context_request_fits r = int_ok (cx_tokenBudget r)"

interpretation context_request_codec: json_codec ContextRequestToJson ContextRequestFromJson context_request_fits context_request_kept
  by unfold_locales
    (simp_all add: ContextRequestToJson_def ContextRequestFromJson_def context_request_fits_def context_request_kept_def lookups)

text \<open>An event of one of the named types; the cursor the store assigned is not encoded.\<close>

definition event_fits :: "MemoryEvent \<Rightarrow> bool" where
  "event_fits e = (0 \<le> event_type_to_int (ev_type e) \<and> event_type_to_int (ev_type e) \<le> 7 \<and> valid_event_type (ev_type e))"

definition event_kept :: "MemoryEvent \<Rightarrow> MemoryEvent" where
  "event_kept e = e\<lparr>ev_storeCursor := [], ev_metadata := JsonObject (jnorm (ev_metadata e))\<rparr>"

interpretation event_codec: json_codec EventToJson EventFromJson event_fits event_kept
proof
  show "is_object (EventToJson e)" for e by (simp add: EventToJson_def)
  show "EventFromJson (jnorm (EventToJson e)) = event_kept e" if "event_fits e" for e
  proof -
    have "int_ok (event_type_to_int (ev_type e))" using that by (simp add: event_fits_def int_ok_def int_limits)
    then have "EventTypeFromJson (jnorm (EventToJson e)) = ev_type e"
      using that by (simp add: EventToJson_def EventTypeFromJson_def event_fits_def lookups Let_def)
    then show ?thesis by (simp add: EventFromJson_def event_kept_def) (simp add: EventToJson_def lookups)
  qed
qed

definition payload_write_request_fits :: "MemoryPayloadWriteRequest \<Rightarrow> bool" where
  "payload_write_request_fits r = True"

definition payload_write_request_kept :: "MemoryPayloadWriteRequest \<Rightarrow> MemoryPayloadWriteRequest" where
  "payload_write_request_kept r = r\<lparr>pw_metadata := JsonObject (jnorm (pw_metadata r))\<rparr>"

interpretation payload_write_request_codec: json_codec PayloadWriteRequestToJson PayloadWriteRequestFromJson
    payload_write_request_fits payload_write_request_kept
  by unfold_locales
    (simp_all add: PayloadWriteRequestToJson_def PayloadWriteRequestFromJson_def payload_write_request_kept_def lookups)

text \<open>An error is encoded with all its fields when its code is set, as the empty object otherwise.\<close>

definition error_kept :: "MemoryError \<Rightarrow> MemoryError" where
  "error_kept e = (if err_code e = [] then no_error else e)"

definition error_fits :: "MemoryError \<Rightarrow> bool" where
  "error_fits e = True"

interpretation error_codec: json_codec ErrorToJson ErrorFromJson error_fits error_kept
proof
  show "is_object (ErrorToJson e)" for e by (simp add: ErrorToJson_def)
  show "ErrorFromJson (jnorm (ErrorToJson e)) = error_kept e" for e
  proof (cases "err_code e = []")
    case True
    then show ?thesis
      by (simp add: ErrorToJson_def ErrorFromJson_def ErrorIsEmpty_def error_kept_def no_error_def json_defs)
  next
    case False
    then have "ErrorFromJson (jnorm (ErrorToJson e)) = e"
      by (simp add: ErrorToJson_def ErrorFromJson_def ErrorIsEmpty_def lookups)
    with False show ?thesis by (simp add: error_kept_def)
  qed
qed

definition payload_write_result_fits :: "MemoryPayloadWriteResult \<Rightarrow> bool" where
  "payload_write_result_fits r = payload_ref_fits (pwr_payload r)"

definition payload_write_result_kept :: "MemoryPayloadWriteResult \<Rightarrow> MemoryPayloadWriteResult" where
  "payload_write_result_kept r =
     r\<lparr>pwr_payload := payload_ref_kept (pwr_payload r), pwr_error := error_kept (pwr_error r)\<rparr>"

lemma error_enc_dec [simp]: "ErrorFromJson (jnorm (ErrorToJson e)) = error_kept e"
  by (rule error_codec.enc_dec) (simp add: error_fits_def)

interpretation payload_write_result_codec: json_codec PayloadWriteResultToJson "PayloadWriteResultFromJson d"
    payload_write_result_fits payload_write_result_kept for d
  by unfold_locales
    (simp_all add: PayloadWriteResultToJson_def PayloadWriteResultFromJson_def payload_write_result_kept_def
      payload_write_result_fits_def payload_codec.enc_object payload_codec.enc_dec lookups)

definition consolidation_request_fits :: "MemoryConsolidationRequest \<Rightarrow> bool" where
  "consolidation_request_fits r = int_ok (cr_maxEvents r)"

definition consolidation_request_kept :: "MemoryConsolidationRequest \<Rightarrow> MemoryConsolidationRequest" where
  "consolidation_request_kept r = r\<lparr>cr_metadata := JsonObject (jnorm (cr_metadata r))\<rparr>"

interpretation consolidation_request_codec: json_codec ConsolidationRequestToJson ConsolidationRequestFromJson
    consolidation_request_fits consolidation_request_kept
  by unfold_locales
    (simp_all add: ConsolidationRequestToJson_def ConsolidationRequestFromJson_def consolidation_request_fits_def
      consolidation_request_kept_def lookups)

definition consolidation_result_fits :: "MemoryConsolidationResult \<Rightarrow> bool" where
  "consolidation_result_fits r = (int_ok (cres_processedEvents r) \<and> int_ok (cres_savedSummaries r) \<and>
     int_ok (cres_savedEntities r) \<and> int_ok (cres_savedRelations r))"

definition consolidation_result_kept :: "MemoryConsolidationResult \<Rightarrow> MemoryConsolidationResult" where
  "consolidation_result_kept r = r\<lparr>cres_error := error_kept (cres_error r)\<rparr>"

interpretation consolidation_result_codec: json_codec ConsolidationResultToJson ConsolidationResultFromJson
    consolidation_result_fits consolidation_result_kept
  by unfold_locales
    (simp_all add: ConsolidationResultToJson_def ConsolidationResultFromJson_def consolidation_result_fits_def
      consolidation_result_kept_def lookups)

definition search_request_fits :: "MemorySearchRequest \<Rightarrow> bool" where
  "search_request_fits r = int_ok (sr_limit r)"

definition search_request_kept :: "MemorySearchRequest \<Rightarrow> MemorySearchRequest" where
  "search_request_kept r = r\<lparr>sr_metadata := JsonObject (jnorm (sr_metadata r))\<rparr>"

interpretation search_request_codec: json_codec SearchRequestToJson SearchRequestFromJson search_request_fits search_request_kept
  by unfold_locales
    (simp_all add: SearchRequestToJson_def SearchRequestFromJson_def search_request_fits_def search_request_kept_def lookups)

definition hit_fits :: "MemorySearchHit \<Rightarrow> bool" where
  "hit_fits h = is_f32 (hit_score h)"

definition hit_kept :: "MemorySearchHit \<Rightarrow> MemorySearchHit" where
  "hit_kept h = h\<lparr>hit_metadata := JsonObject (jnorm (hit_metadata h))\<rparr>"

interpretation hit_codec: json_codec hit_to_json hit_of_json hit_fits hit_kept
  by unfold_locales (simp_all add: hit_to_json_def hit_of_json_def hit_fits_def hit_kept_def is_f32_def lookups)

interpretation search_response_codec: json_codec "SearchResponseToJson ok" SearchResultsFromJson "list_all hit_fits" "map hit_kept" for ok
  by unfold_locales
    (simp_all add: SearchResponseToJson_def SearchResultsFromJson_def SearchResultsArrayToJson_def lookups hit_codec.list_roundtrip
      del: jnorm.simps(2))

section \<open>Which encodings the schema accepts without a word\<close>

lemmas schema_defs = SchemaRules_def schema_table_def lookups string_array_def

interpretation message_schema: schema_codec MessageToJson MessageFromJson message_fits id "''message''"
  by unfold_locales (rule silentI; simp add: MessageToJson_def schema_defs)

interpretation entity_schema: schema_codec EntityToJson EntityFromJson entity_fits entity_kept "''entity''"
  by unfold_locales (rule silentI; simp add: EntityToJson_def schema_defs)

interpretation payload_schema: schema_codec PayloadRefToJson PayloadRefFromJson payload_ref_fits payload_ref_kept "''payloadRef''"
  by unfold_locales (rule silentI; simp add: PayloadRefToJson_def schema_defs)

interpretation relation_schema: schema_codec RelationToJson RelationFromJson relation_fits relation_kept "''relation''"
  by unfold_locales (rule silentI; simp add: RelationToJson_def schema_defs)

interpretation stats_schema: schema_codec StatsToJson StatsFromJson stats_fits stats_kept "''stats''"
  by unfold_locales (rule silentI; simp add: StatsToJson_def schema_defs)

interpretation package_schema: schema_codec ContextPackageToJson ContextPackageFromJson package_fits package_kept "''contextPackage''"
  by unfold_locales (rule silentI; simp add: ContextPackageToJson_def schema_defs)

interpretation context_request_schema: schema_codec ContextRequestToJson ContextRequestFromJson context_request_fits context_request_kept "''contextRequest''"
  by unfold_locales (rule silentI; simp add: ContextRequestToJson_def schema_defs)

interpretation event_schema: schema_codec EventToJson EventFromJson event_fits event_kept "''event''"
  by unfold_locales (rule silentI; simp add: EventToJson_def schema_defs)

interpretation payload_write_request_schema: schema_codec PayloadWriteRequestToJson PayloadWriteRequestFromJson payload_write_request_fits payload_write_request_kept "''payloadWriteRequest''"
  by unfold_locales (rule silentI; simp add: PayloadWriteRequestToJson_def schema_defs)

interpretation payload_write_result_schema: schema_codec PayloadWriteResultToJson "PayloadWriteResultFromJson []" payload_write_result_fits payload_write_result_kept "''payloadWriteResult''"
  by unfold_locales (rule silentI; simp add: PayloadWriteResultToJson_def payload_codec.enc_object schema_defs)

interpretation consolidation_request_schema: schema_codec ConsolidationRequestToJson ConsolidationRequestFromJson consolidation_request_fits consolidation_request_kept "''consolidationRequest''"
  by unfold_locales (rule silentI; simp add: ConsolidationRequestToJson_def schema_defs)

interpretation search_request_schema: schema_codec SearchRequestToJson SearchRequestFromJson search_request_fits search_request_kept "''searchRequest''"
  by unfold_locales (rule silentI; simp add: SearchRequestToJson_def schema_defs)

interpretation search_response_schema: schema_codec "SearchResponseToJson ok" SearchResultsFromJson "list_all hit_fits" "map hit_kept" "''searchResponse''" for ok
  by unfold_locales (rule silentI; simp add: SearchResponseToJson_def SearchResultsArrayToJson_def JsonFieldValue_def schema_defs)

end
