(* ===== verification/Codec_Properties.thy ===== *)
theory Codec_Properties
  imports Codec_Laws
begin

text \<open>Properties of the JSON codec, from the interpretations of \<open>json_codec\<close> and \<open>schema_codec\<close>.\<close>

text \<open>
  C30: An event of a named type that is encoded, written as JSON text and read back decodes without
  any diagnostic to the event it was, apart from the cursor of the store, which is not encoded
  (non-negative integers of the metadata come back as unsigned).
\<close>

theorem Event_text_roundtrip:
  assumes "json_text_ok J" "jdump J (EventToJson e) = Inr t" "event_fits e"
  shows "\<exists>j. jparse J t = Inr j \<and> DecodeEvent j True =
    (True, e\<lparr>ev_storeCursor := [], ev_metadata := JsonObject (jnorm (ev_metadata e))\<rparr>, Some no_issues)"
  using event_schema.decode_reports_nothing [OF assms] by (simp add: DecodeEvent_def event_kept_def)

definition codec_event :: MemoryEvent where
  "codec_event = \<lparr>ev_type = MESSAGE_APPENDED, ev_agentId = ''a'', ev_sessionId = ''s'', ev_role = ''user'',
     ev_content = ''hi'', ev_toolCallId = [], ev_toolName = [], ev_payloadRef = [], ev_storeCursor = ''7'',
     ev_metadata = JObj [(''n'', JInt 3)], ev_timestamp = []\<rparr>"

definition event_lib :: json_lib where
  "event_lib = table_lib [(EventToJson codec_event, ''event'')]"

theorem Event_text_roundtrip_witness:
  "\<exists>j. jparse event_lib ''event'' = Inr j \<and> DecodeEvent j True =
     (True, codec_event\<lparr>ev_storeCursor := [], ev_metadata := JObj [(''n'', JUInt 3)]\<rparr>, Some no_issues)"
proof -
  have "json_text_ok event_lib"
    unfolding event_lib_def by (rule table_lib_ok) (simp_all add: nul_free_def)
  moreover have "jdump event_lib (EventToJson codec_event) = Inr ''event''" by (simp add: event_lib_def table_lib_def)
  moreover have "event_fits codec_event" by (simp add: event_fits_def codec_event_def)
  moreover have "JsonObject (jnorm (ev_metadata codec_event)) = JObj [(''n'', JUInt 3)]"
    by (simp add: codec_event_def JsonObject_def)
  ultimately show ?thesis using Event_text_roundtrip [of event_lib codec_event "''event''"] by simp
qed

text \<open>
  A context package whose counts fit \<open>int\<close> and whose confidences are \<open>float\<close> values comes back
  from its JSON text without any diagnostic: messages, text, citations and payloads whole, entities
  and relations without the agent, the active flag and the supersession links, which the encoding
  leaves out.
\<close>

theorem ContextPackage_text_roundtrip:
  assumes "json_text_ok J" "jdump J (ContextPackageToJson p) = Inr t" "package_fits p"
  shows "\<exists>j. jparse J t = Inr j \<and> DecodeContextPackage j True = (True, package_kept p, Some no_issues)"
  using package_schema.decode_reports_nothing [OF assms] by (simp add: DecodeContextPackage_def)

definition codec_package :: MemoryContextPackage where
  "codec_package = empty_package\<lparr>pkg_memoryText := ''notes'',
     pkg_entities := [default_entity\<lparr>en_id := ''e'', en_agentId := ''a''\<rparr>]\<rparr>"

definition package_lib :: json_lib where
  "package_lib = table_lib [(ContextPackageToJson codec_package, ''package'')]"

theorem ContextPackage_text_roundtrip_witness:
  "\<exists>j. jparse package_lib ''package'' = Inr j \<and> DecodeContextPackage j True =
     (True, codec_package\<lparr>pkg_entities := [default_entity\<lparr>en_id := ''e''\<rparr>]\<rparr>, Some no_issues)"
proof -
  have "json_text_ok package_lib"
    unfolding package_lib_def by (rule table_lib_ok) (simp_all add: nul_free_def)
  moreover have "jdump package_lib (ContextPackageToJson codec_package) = Inr ''package''" by (simp add: package_lib_def table_lib_def)
  moreover have "package_fits codec_package"
    by (simp add: package_fits_def codec_package_def empty_package_def entity_fits_def default_entity_def is_f32_def)
  moreover have "package_kept codec_package = codec_package\<lparr>pkg_entities := [default_entity\<lparr>en_id := ''e''\<rparr>]\<rparr>"
    by (simp add: package_kept_def codec_package_def empty_package_def entity_kept_def default_entity_def JsonObject_def)
  ultimately show ?thesis using ContextPackage_text_roundtrip [of package_lib codec_package "''package''"] by simp
qed

text \<open>
  The same holds for a consolidation request: whatever reaches the server from a client that
  encodes with this codec is the request the client had.
\<close>

theorem ConsolidationRequest_text_roundtrip:
  assumes "json_text_ok J" "jdump J (ConsolidationRequestToJson r) = Inr t" "int_ok (cr_maxEvents r)"
  shows "\<exists>j. jparse J t = Inr j \<and> DecodeConsolidationRequest j True =
    (True, r\<lparr>cr_metadata := JsonObject (jnorm (cr_metadata r))\<rparr>, Some no_issues)"
  using consolidation_request_schema.decode_reports_nothing [OF assms(1,2)] assms(3)
  by (simp add: DecodeConsolidationRequest_def consolidation_request_kept_def consolidation_request_fits_def)

definition codec_request :: MemoryConsolidationRequest where
  "codec_request = \<lparr>cr_agentId = ''a'', cr_sessionId = [], cr_maxEvents = 50, cr_forceReprocess = True,
     cr_excludedSessionIds = [''x''], cr_metadata = JObj []\<rparr>"

definition request_lib :: json_lib where
  "request_lib = table_lib [(ConsolidationRequestToJson codec_request, ''request'')]"

theorem ConsolidationRequest_text_roundtrip_witness:
  "\<exists>j. jparse request_lib ''request'' = Inr j \<and> DecodeConsolidationRequest j True = (True, codec_request, Some no_issues)"
proof -
  have "json_text_ok request_lib"
    unfolding request_lib_def by (rule table_lib_ok) (simp_all add: nul_free_def)
  moreover have "jdump request_lib (ConsolidationRequestToJson codec_request) = Inr ''request''"
    by (simp add: request_lib_def table_lib_def)
  moreover have "int_ok (cr_maxEvents codec_request)" by (simp add: codec_request_def int_ok_def int_limits)
  moreover have "codec_request\<lparr>cr_metadata := JsonObject (jnorm (cr_metadata codec_request))\<rparr> = codec_request"
    by (simp add: codec_request_def JsonObject_def)
  ultimately show ?thesis using ConsolidationRequest_text_roundtrip [of request_lib codec_request "''request''"] by simp
qed

text \<open>
  Decoding the codec's own encoding of a consolidation result always reports the warning that
  \<open>error\<close> should be a string: the schema table disagrees with the encoder, which writes an object.
\<close>

theorem ConsolidationResult_schema_mismatch:
  "(''$.error'', ''expected string, got object'') \<in>
     set (dg_warnings (JsonDecodeDiagnosticsFor (ConsolidationResultToJson r) ''consolidationResult''))"
proof -
  let ?j = "ConsolidationResultToJson r"
  have j: "is_object ?j" "contains ?j ''error''" "json_at ?j ''error'' = ErrorToJson (cres_error r)"
    by (simp_all add: ConsolidationResultToJson_def contains_jobj_field json_at_jobj_field field_def)
  have e: "is_object (ErrorToJson (cres_error r))" by (rule error_codec.enc_object)
  then have t: "type_name (ErrorToJson (cres_error r)) = ''object''" "\<not> is_string (ErrorToJson (cres_error r))"
    by (cases "ErrorToJson (cres_error r)"; simp)+
  have "(''error'', FString) \<in> set (SchemaRules ''consolidationResult'')" by (simp add: SchemaRules_def schema_table_def)
  then have "(''$.error'', ''expected string, got object'') \<in> set (rule_warnings ?j (SchemaRules ''consolidationResult''))"
    using j t unfolding rule_warnings_def by (force simp: j t)
  then show ?thesis using j(1) by (auto simp: JsonDecodeDiagnosticsFor_def Let_def SchemaRules_def schema_table_def)
qed

text \<open>
  A decoder accepts any object: the diagnostics hold an error exactly when the value is not an
  object or, for a search response, when its results are not an array; a member of the wrong type
  is only a warning, exactly one for each such field of the schema.
\<close>

theorem JsonDecodeDiagnosticsFor_spec:
  "(diagnostics_ok (JsonDecodeDiagnosticsFor j schema) \<longleftrightarrow>
     is_object j \<and> (schema = ''searchResponse'' \<longrightarrow> is_array (JsonFieldValue j ''results''))) \<and>
   (is_object j \<and> SchemaRules schema \<noteq> [] \<longrightarrow>
     map fst (dg_warnings (JsonDecodeDiagnosticsFor j schema)) =
     map fst (version_warnings j) @ map (\<lambda>r. ''$.'' @ fst r)
       (filter (\<lambda>r. contains j (fst r) \<and> \<not> MatchesType (json_at j (fst r)) (snd r)) (SchemaRules schema)))"
proof -
  have "SchemaRules ''searchResponse'' \<noteq> []" by (simp add: SchemaRules_def schema_table_def)
  moreover have "map fst (rule_warnings j rules) = map (\<lambda>r. ''$.'' @ fst r)
       (filter (\<lambda>r. contains j (fst r) \<and> \<not> MatchesType (json_at j (fst r)) (snd r)) rules)" for rules
    by (induction rules) (auto simp: rule_warnings_def)
  ultimately show ?thesis
    by (auto simp: JsonDecodeDiagnosticsFor_def diagnostics_ok_def Let_def)
qed

theorem JsonDecodeDiagnosticsFor_spec_witness:
  "let j = JObj [(''limit'', JStr ''5''), (''query'', JStr ''q'')] in
   diagnostics_ok (JsonDecodeDiagnosticsFor j ''searchRequest'') \<and>
   map fst (dg_warnings (JsonDecodeDiagnosticsFor j ''searchRequest'')) = [''$.limit'']"
proof -
  let ?j = "JObj [(''limit'', JStr ''5''), (''query'', JStr ''q'')]"
  have "SchemaRules ''searchRequest'' \<noteq> []" by (simp add: SchemaRules_def schema_table_def)
  moreover have "map fst (version_warnings ?j) @ map (\<lambda>r. ''$.'' @ fst r)
       (filter (\<lambda>r. contains ?j (fst r) \<and> \<not> MatchesType (json_at ?j (fst r)) (snd r)) (SchemaRules ''searchRequest'')) = [''$.limit'']"
    by code_simp
  ultimately show ?thesis using JsonDecodeDiagnosticsFor_spec [of ?j "''searchRequest''"] by simp
qed

text \<open>
  An unsigned JSON number decodes to itself when it fits \<open>int\<close> and to the fallback otherwise,
  except in the top \<open>2 ^ 31\<close> values of the 64-bit range: those are read through \<open>long long\<close> first and come
  out as negative numbers.
\<close>

theorem JsonInt_unsigned:
  assumes "is_object j" "contains j k" "json_at j k = JUInt n" "0 \<le> n" "n < 18446744073709551616"
  shows "JsonInt j k fallback =
    (if n \<le> INT_MAX then n else if 18446744073709551616 + INT_MIN \<le> n then n - 18446744073709551616 else fallback)"
proof -
  have wrap: "i64 n = (if n \<le> LLONG_MAX then n else n - 18446744073709551616)"
  proof (cases "n \<le> LLONG_MAX")
    case True
    with assms(4) show ?thesis by (simp add: i64_id int_limits)
  next
    case False
    then have "(n - 9223372036854775808 + 18446744073709551616) mod 18446744073709551616 = n - 9223372036854775808"
      using assms(5) by (subst mod_add_self2) (simp add: int_limits)
    with False show ?thesis by (simp add: i64_def add.commute)
  qed
  show ?thesis using assms by (auto simp: JsonInt_def Let_def wrap int_limits)
qed

theorem JsonInt_unsigned_witness:
  "JsonInt (JObj [(''limit'', JUInt 18446744073709551615)]) ''limit'' 10 = - 1 \<and>
   JsonInt (JObj [(''limit'', JUInt 4294967296)]) ''limit'' 10 = 10"
  using JsonInt_unsigned [of "JObj [(''limit'', JUInt 18446744073709551615)]" "''limit''" 18446744073709551615 10]
    JsonInt_unsigned [of "JObj [(''limit'', JUInt 4294967296)]" "''limit''" 4294967296 10]
  by (simp add: int_limits)

end
