(* ===== verification/Filesystem.thy ===== *)
theory Filesystem
  imports Memory_Types "HOL-Library.AList"
begin

text \<open>
  The parts of \<open>std::filesystem\<close> and of file streams the program uses, over a POSIX file system
  with directories, regular files and symbolic links, followed by the two helpers built on them,
  \<open>src/utils/path_util.cpp\<close> and \<open>src/utils/file_util.cpp\<close>.
\<close>

section \<open>Paths\<close>

text \<open>
  A path is absolute or relative and has a list of elements; a last element that is empty stands
  for a trailing slash.
\<close>

type_synonym path = "bool \<times> string list"

fun segments :: "string \<Rightarrow> string list" where
  "segments [] = [[]]"
| "segments (c # cs) =
     (if c = CHR ''/'' then [] # segments cs
      else case segments cs of s # ss \<Rightarrow> (c # s) # ss | [] \<Rightarrow> [[c]])"

fun join_slash :: "string list \<Rightarrow> string" where
  "join_slash [] = []"
| "join_slash [s] = s"
| "join_slash (s # ss) = s @ CHR ''/'' # join_slash ss"

definition path_of :: "string \<Rightarrow> path" where
  "path_of s =
     (let names = filter (\<lambda>x. x \<noteq> []) (segments s)
      in (s \<noteq> [] \<and> hd s = CHR ''/'', names @ (if names \<noteq> [] \<and> last s = CHR ''/'' then [[]] else [])))"

definition path_string :: "path \<Rightarrow> string" where
  "path_string p = (if fst p then CHR ''/'' # join_slash (snd p) else join_slash (snd p))"

text \<open>\<open>a / b\<close> on the texts of two paths.\<close>

definition path_append :: "string \<Rightarrow> string \<Rightarrow> string" where
  "path_append a b =
     (if b \<noteq> [] \<and> hd b = CHR ''/'' then b
      else if a = [] then b
      else if last a = CHR ''/'' then a @ b else a @ CHR ''/'' # b)"

definition dot :: string where "dot = ''.''"
definition dotdot :: string where "dotdot = ''..''"

fun normal_step :: "bool \<Rightarrow> string list \<Rightarrow> string \<Rightarrow> string list" where
  "normal_step ab out c =
     (if c = [] \<or> c = dot then out
      else if c = dotdot
      then (if out \<noteq> [] \<and> last out \<noteq> dotdot then butlast out else if ab then out else out @ [dotdot])
      else out @ [c])"

definition lexically_normal :: "path \<Rightarrow> path" where
  "lexically_normal p =
     (let out = foldl (normal_step (fst p)) [] (snd p)
      in if out = [] then (if fst p \<or> snd p = [] then (fst p, []) else (False, [dot]))
         else if last (snd p) \<in> {[], dot, dotdot} \<and> last out \<noteq> dotdot then (fst p, out @ [[]])
         else (fst p, out))"

section \<open>The file system\<close>

text \<open>
  A node is a directory, a regular file with its content and last write time, or a symbolic link.
  A location lists the names from the root. \<open>fs_io\<close> is the schedule of the outcomes of system calls
  that may fail (exhausted means success), \<open>fs_message\<close> the text of such an error, \<open>fs_partial\<close> how
  much of a file is on disk when writing it fails, \<open>fs_dir_read\<close> what reading a directory as a
  file does, which depends on the kind of file system: end of it, or an exception.
\<close>

datatype node = Dir | File string int | Link string

record filesys =
  fs_nodes :: "(string list \<times> node) list"
  fs_cwd :: "string list"
  fs_now :: int
  fs_io :: "bool list"
  fs_message :: string
  fs_partial :: nat
  fs_dir_read :: "string option"

definition node :: "filesys \<Rightarrow> string list \<Rightarrow> node option" where
  "node F loc = (if loc = [] then Some Dir else map_of (fs_nodes F) loc)"

definition put_node :: "string list \<Rightarrow> node \<Rightarrow> filesys \<Rightarrow> filesys" where
  "put_node loc n F = F\<lparr>fs_nodes := AList.update loc n (fs_nodes F)\<rparr>"

definition del_node :: "string list \<Rightarrow> filesys \<Rightarrow> filesys" where
  "del_node loc F = F\<lparr>fs_nodes := AList.delete loc (fs_nodes F)\<rparr>"

definition next_io :: "filesys \<Rightarrow> bool \<times> filesys" where
  "next_io F = (case fs_io F of [] \<Rightarrow> (True, F) | b # bs \<Rightarrow> (b, F\<lparr>fs_io := bs\<rparr>))"

text \<open>
  Path resolution: \<open>walk N n cur cs\<close> resolves the elements \<open>cs\<close> from the location \<open>cur\<close>, following
  at most \<open>n\<close> symbolic links (Linux gives up after 40). \<open>Missing dir name rest\<close> is the first element
  that does not exist.
\<close>

datatype walked = Found "string list" | Missing "string list" string "string list" | NotDir | TooManyLinks

function walk :: "(string list \<Rightarrow> node option) \<Rightarrow> nat \<Rightarrow> string list \<Rightarrow> string list \<Rightarrow> walked" where
  "walk N n cur [] = Found cur"
| "walk N n cur (c # cs) =
     (if N cur \<noteq> Some Dir then NotDir
      else if c = [] \<or> c = dot then walk N n cur cs
      else if c = dotdot then walk N n (butlast cur) cs
      else case N (cur @ [c]) of
             None \<Rightarrow> Missing cur c cs
           | Some (Link t) \<Rightarrow>
               (case n of 0 \<Rightarrow> TooManyLinks
                | Suc m \<Rightarrow> walk N m (if fst (path_of t) then [] else cur) (snd (path_of t) @ cs))
           | Some _ \<Rightarrow> walk N n (cur @ [c]) cs)"
  by pat_completeness auto
termination
  by (relation "measures [\<lambda>(N, n, cur, cs). n, \<lambda>(N, n, cur, cs). length cs]") auto

definition MAX_LINKS :: nat where "MAX_LINKS = 40"

text \<open>A system call sees the text of the path up to its first NUL byte; an empty text is not found.\<close>

definition sys_walk :: "filesys \<Rightarrow> path \<Rightarrow> walked" where
  "sys_walk F p =
     (let q = path_of (c_str (path_string p))
      in if \<not> fst q \<and> snd q = [] then NotDir
         else walk (node F) MAX_LINKS (if fst q then [] else fs_cwd F) (snd q))"

definition exists_path :: "filesys \<Rightarrow> path \<Rightarrow> bool" where
  "exists_path F p = (case sys_walk F p of Found loc \<Rightarrow> True | _ \<Rightarrow> False)"

section \<open>weakly\_canonical\<close>

text \<open>The leading elements that exist, and the rest; \<open>None\<close> when a status cannot be determined.\<close>

fun leading :: "filesys \<Rightarrow> path \<Rightarrow> string list \<Rightarrow> (path \<times> string list) option" where
  "leading F done [] = Some (done, [])"
| "leading F done (c # cs) =
     (case sys_walk F (fst done, snd done @ [c]) of
        Found loc \<Rightarrow> leading F (fst done, snd done @ [c]) cs
      | TooManyLinks \<Rightarrow> None
      | _ \<Rightarrow> Some (done, c # cs))"

definition weakly_canonical :: "filesys \<Rightarrow> path \<Rightarrow> path option" where
  "weakly_canonical F p =
     (case sys_walk F p of
        Found loc \<Rightarrow> Some (True, loc)
      | TooManyLinks \<Rightarrow> None
      | _ \<Rightarrow>
        (case leading F (fst p, []) (snd p) of
           None \<Rightarrow> None
         | Some (done, rest) \<Rightarrow>
             if \<not> fst done \<and> snd done = [] then Some (lexically_normal (False, rest))
             else (case sys_walk F done of
                     Found loc \<Rightarrow> Some (lexically_normal (True, loc @ rest))
                   | _ \<Rightarrow> None)))"

section \<open>Changing the file system\<close>

text \<open>The directory entry a path names, its last element not followed.\<close>

definition entry_of :: "filesys \<Rightarrow> path \<Rightarrow> string list option" where
  "entry_of F p =
     (let q = path_of (c_str (path_string p)) in
      if snd q = [] then None
      else case walk (node F) MAX_LINKS (if fst q then [] else fs_cwd F) (butlast (snd q)) of
             Found d \<Rightarrow> (if node F d = Some Dir then Some (d @ [last (snd q)]) else None)
           | _ \<Rightarrow> None)"

fun make_dirs :: "path \<Rightarrow> string list \<Rightarrow> filesys \<Rightarrow> bool \<times> filesys" where
  "make_dirs done [] F = (True, F)"
| "make_dirs done (c # cs) F =
     (let p = (fst done, snd done @ [c]) in
      case sys_walk F p of
        Found loc \<Rightarrow> (if node F loc = Some Dir then make_dirs p cs F else (False, F))
      | Missing d name rest \<Rightarrow>
          (case entry_of F p of
             Some e \<Rightarrow>
               (if node F e \<noteq> None then (False, F)
                else let (ok, F1) = next_io F in
                     if ok then make_dirs p cs (put_node e Dir F1) else (False, F1))
           | None \<Rightarrow> (False, F))
      | _ \<Rightarrow> (False, F))"

definition create_directories :: "path \<Rightarrow> filesys \<Rightarrow> bool \<times> filesys" where
  "create_directories p F = make_dirs (fst p, []) (filter (\<lambda>c. c \<noteq> []) (snd p)) F"

text \<open>\<open>std::ofstream(p, binary | trunc)\<close>: the location of the file that is now open and empty.\<close>

definition open_trunc :: "path \<Rightarrow> filesys \<Rightarrow> string list option \<times> filesys" where
  "open_trunc p F =
     (let (ok, F1) = next_io F in
      if \<not> ok then (None, F1)
      else case sys_walk F1 p of
             Found loc \<Rightarrow>
               (case node F1 loc of
                  Some (File c t) \<Rightarrow> (Some loc, put_node loc (File [] (fs_now F1)) F1)
                | _ \<Rightarrow> (None, F1))
           | Missing d name rest \<Rightarrow>
               (if rest = [] then (Some (d @ [name]), put_node (d @ [name]) (File [] (fs_now F1)) F1) else (None, F1))
           | _ \<Rightarrow> (None, F1))"

text \<open>Writing the content and closing the stream.\<close>

definition write_close :: "string list \<Rightarrow> string \<Rightarrow> filesys \<Rightarrow> bool \<times> filesys" where
  "write_close loc content F =
     (let (ok, F1) = next_io F in
      if ok then (True, put_node loc (File content (fs_now F1)) F1)
      else (False, put_node loc (File (take (fs_partial F1) content) (fs_now F1)) F1))"

definition children :: "filesys \<Rightarrow> string list \<Rightarrow> string list list" where
  "children F d = remdups (filter (\<lambda>loc. loc \<noteq> [] \<and> butlast loc = d) (map fst (fs_nodes F)))"

definition rename_path :: "path \<Rightarrow> path \<Rightarrow> filesys \<Rightarrow> bool \<times> filesys" where
  "rename_path old new F =
     (let (ok, F1) = next_io F in
      if \<not> ok then (False, F1)
      else case (entry_of F1 old, entry_of F1 new) of
             (Some a, Some b) \<Rightarrow>
               (case (node F1 a, node F1 b) of
                  (Some n, m) \<Rightarrow>
                    (if n = Dir \<or> m = Some Dir then (False, F1)
                     else (True, put_node b n (del_node a F1)))
                | _ \<Rightarrow> (False, F1))
           | _ \<Rightarrow> (False, F1))"

text \<open>\<open>fs::remove(p, ec)\<close>: whether an error is reported; removing what does not exist is none.\<close>

definition remove_path :: "path \<Rightarrow> filesys \<Rightarrow> bool \<times> filesys" where
  "remove_path p F =
     (let (ok, F1) = next_io F in
      if \<not> ok then (False, F1)
      else case entry_of F1 p of
             None \<Rightarrow> (True, F1)
           | Some e \<Rightarrow>
               (case node F1 e of
                  None \<Rightarrow> (True, F1)
                | Some Dir \<Rightarrow> (if children F1 e = [] then (True, del_node e F1) else (False, F1))
                | Some _ \<Rightarrow> (True, del_node e F1)))"

section \<open>path\_util.cpp and file\_util.cpp\<close>

definition CanonicalPath :: "filesys \<Rightarrow> string \<Rightarrow> string" where
  "CanonicalPath F p = (case weakly_canonical F (path_of p) of None \<Rightarrow> [] | Some q \<Rightarrow> path_string q)"

text \<open>The elements as the iterators of the two paths see them: an absolute path starts with \<open>/\<close>.\<close>

definition elements :: "path \<Rightarrow> string list" where
  "elements p = (if fst p then [CHR ''/''] # snd p else snd p)"

fun dir_matches :: "string list \<Rightarrow> string list \<Rightarrow> bool" where
  "dir_matches [] ps = True"
| "dir_matches (d # ds) [] = False"
| "dir_matches (d # ds) (p # ps) = (if d \<noteq> p then False else dir_matches ds ps)"

definition IsPathInsideDirectory :: "filesys \<Rightarrow> string \<Rightarrow> string \<Rightarrow> bool" where
  "IsPathInsideDirectory F p directory =
     (case weakly_canonical F (path_of p) of
        None \<Rightarrow> False
      | Some canonicalPath \<Rightarrow>
        (case weakly_canonical F (path_of directory) of
           None \<Rightarrow> False
         | Some canonicalDirectory \<Rightarrow>
             if canonicalPath = canonicalDirectory then False
             else dir_matches (elements canonicalDirectory) (elements canonicalPath)))"

text \<open>\<open>None\<close> is \<open>std::nullopt\<close>; an error while reading leaves the stream buffer as an exception.\<close>

definition LoadTextFile :: "string \<Rightarrow> filesys \<Rightarrow> string option outcome \<times> filesys" where
  "LoadTextFile p F =
     (let (ok, F1) = next_io F in
      if \<not> ok then (Ret None, F1)
      else case sys_walk F1 (path_of p) of
             Found loc \<Rightarrow>
               (case node F1 loc of
                  Some (File c t) \<Rightarrow>
                    (let (ok2, F2) = next_io F1 in if ok2 then (Ret (Some c), F2) else (Throw (fs_message F2), F2))
                | _ \<Rightarrow> (case fs_dir_read F1 of None \<Rightarrow> (Ret None, F1) | Some m \<Rightarrow> (Throw m, F1)))
           | _ \<Rightarrow> (Ret None, F1))"

end
