(* ===== verification/Payload.thy ===== *)
theory Payload
  imports Filesystem Store_Laws
begin

text \<open>
  \<open>PayloadService\<close> (\<open>src/core/payload_service.cpp\<close>): offloading large tool results to files, reading
  them back, and the background removal of stale temporary files. The file system and the store are
  passed along; the numbers drawn from the random generators are arguments.
\<close>

section \<open>The service\<close>

record payload_service =
  ps_config :: MemoryConfig
  ps_dataPath :: string
  ps_canonicalPayloadDirectory :: string
  ps_store :: bool

definition payload_directory :: "string \<Rightarrow> string" where
  "payload_directory dataPath = path_append (path_append dataPath ''memory_runtime'') ''payloads''"

definition PayloadDirectory :: "payload_service \<Rightarrow> string" where
  "PayloadDirectory ps = payload_directory (ps_dataPath ps)"

definition new_PayloadService :: "MemoryConfig \<Rightarrow> string \<Rightarrow> bool \<Rightarrow> filesys \<Rightarrow> payload_service" where
  "new_PayloadService config dataPath hasStore F =
     \<lparr>ps_config = config, ps_dataPath = dataPath,
      ps_canonicalPayloadDirectory = CanonicalPath F (payload_directory dataPath), ps_store = hasStore\<rparr>"

section \<open>Names\<close>

definition hex_char :: "nat \<Rightarrow> char" where
  "hex_char d = (if d < 10 then char_of (48 + d) else char_of (87 + d))"

fun hex_digits :: "nat \<Rightarrow> string" where
  "hex_digits n = (if n < 16 then [hex_char n] else hex_digits (n div 16) @ [hex_char (n mod 16)])"

declare hex_digits.simps [simp del]

text \<open>The four 64-bit numbers one write draws: two for the reference, two for the temporary name.\<close>

type_synonym draws = "nat \<times> nat \<times> nat \<times> nat"

definition RandomHexSuffix :: "draws \<Rightarrow> string" where
  "RandomHexSuffix rnd = (case rnd of (a, b, c, d) \<Rightarrow> hex_digits c @ hex_digits d)"

definition ref_char :: "char \<Rightarrow> char" where
  "ref_char ch = (if \<not> isalnum ch \<and> ch \<noteq> CHR ''_'' \<and> ch \<noteq> CHR ''-'' then CHR ''_'' else ch)"

definition BuildPayloadRef :: "draws \<Rightarrow> MemoryPayloadWriteRequest \<Rightarrow> string" where
  "BuildPayloadRef rnd request =
     (case rnd of (a, b, c, d) \<Rightarrow>
        map ref_char ((if pw_sessionId request = [] then ''default'' else pw_sessionId request) @ ''_'' @
                      (if pw_toolCallId request = [] then ''payload'' else pw_toolCallId request) @ ''_'' @
                      hex_digits a @ hex_digits b))"

definition BuildPayloadSummary :: "MemoryPayloadWriteRequest \<Rightarrow> string" where
  "BuildPayloadSummary request =
     ''Tool result offloaded'' @ (if pw_toolName request \<noteq> [] then '' from '' @ pw_toolName request else []) @
     '', original chars: '' @ nat_digits (length (pw_content request)) @ ''.''"

section \<open>Writing\<close>

definition write_error :: "string \<Rightarrow> string \<Rightarrow> MemoryError" where
  "write_error msg details = mk_error ''payload_write_failed'' msg details False"

text \<open>\<open>None\<close> when the file is in place, otherwise the error stored in the result.\<close>

definition WritePayloadFileAtomically ::
  "draws \<Rightarrow> string \<Rightarrow> string \<Rightarrow> string \<Rightarrow> filesys \<Rightarrow> MemoryError option \<times> filesys" where
  "WritePayloadFileAtomically rnd directory name content F =
     (let payloadPath = path_of (path_append directory name);
          (made, F1) = create_directories (path_of directory) F
      in if \<not> made then (Some (write_error ''failed to create payload directory'' (fs_message F1)), F1)
         else if exists_path F1 payloadPath then (Some (write_error ''payload file already exists'' []), F1)
         else
           let tempPath = path_of (path_append directory (name @ ''.tmp.'' @ RandomHexSuffix rnd))
           in if exists_path F1 tempPath then (Some (write_error ''payload temp file already exists'' []), F1)
              else case open_trunc tempPath F1 of
                (None, F2) \<Rightarrow> (Some (write_error ''failed to open payload temp file for write'' []), F2)
              | (Some loc, F2) \<Rightarrow>
                let (written, F3) = write_close loc content F2
                in if \<not> written
                   then (let (ok, F4) = remove_path tempPath F3
                         in (Some (write_error ''failed to write payload temp file'' []), F4))
                   else
                     let (renamed, F4) = rename_path tempPath payloadPath F3
                     in if \<not> renamed
                        then (let (ok, F5) = remove_path tempPath F4
                              in (Some (write_error ''failed to finalize payload file'' (fs_message F4)), F5))
                        else (None, F4))"

definition inline_result :: "MemoryPayloadWriteRequest \<Rightarrow> MemoryPayloadWriteResult" where
  "inline_result request =
     \<lparr>pwr_succeeded = True, pwr_offloaded = False, pwr_payload = empty_payload_ref,
      pwr_replacementContent = pw_content request, pwr_error = no_error\<rparr>"

definition failed_write :: "MemoryError \<Rightarrow> MemoryPayloadRef \<Rightarrow> MemoryPayloadWriteRequest \<Rightarrow> MemoryPayloadWriteResult" where
  "failed_write e payload request =
     \<lparr>pwr_succeeded = False, pwr_offloaded = False, pwr_payload = payload,
      pwr_replacementContent = pw_content request, pwr_error = e\<rparr>"

definition offloaded_ref :: "MemoryPayloadWriteRequest \<Rightarrow> string \<Rightarrow> MemoryPayloadRef" where
  "offloaded_ref request pathText =
     empty_payload_ref\<lparr>pay_agentId := pw_agentId request, pay_sessionId := pw_sessionId request,
       pay_uri := ''file://'' @ pathText, pay_contentType := pw_contentType request,
       pay_summary := BuildPayloadSummary request, pay_toolName := pw_toolName request,
       pay_originalChars := i32 (int (length (pw_content request)))\<rparr>"

text \<open>
  \<open>SavePayload\<close> does not throw (\<open>SavePayload_returns\<close> below), so the exception branch is dead; the
  thread that \<open>ScheduleTempFileCleanup\<close> starts runs at some later time, as \<open>TempFileCleanup\<close>.
\<close>

definition WritePayload ::
  "payload_service \<Rightarrow> draws \<Rightarrow> MemoryPayloadWriteRequest \<Rightarrow> filesys \<Rightarrow> store \<Rightarrow>
   MemoryPayloadWriteResult outcome \<times> filesys \<times> store" where
  "WritePayload ps rnd request F s =
     (if \<not> cfg_enablePayloadOffload (ps_config ps) \<or> pw_content request = [] then (Ret (inline_result request), F, s)
      else if i32 (int (length (pw_content request))) < cfg_offloadThresholdChars (ps_config ps)
      then (Ret (inline_result request), F, s)
      else if \<not> ps_store ps
      then (Ret (failed_write (mk_error ''payload_store_unavailable''
                   ''payload offload requires a persistent store for metadata'' [] False) empty_payload_ref request), F, s)
      else
        let name = BuildPayloadRef rnd request @ ''.txt'';
            pathText = path_append (PayloadDirectory ps) name
        in case WritePayloadFileAtomically rnd (PayloadDirectory ps) name (pw_content request) F of
             (Some e, F1) \<Rightarrow> (Ret (failed_write e empty_payload_ref request), F1, s)
           | (None, F1) \<Rightarrow>
             let payload = offloaded_ref request pathText
             in case SavePayload payload s of
                  (Throw w, s1) \<Rightarrow> (Throw w, F1, s1)
                | (Ret saveResult, s1) \<Rightarrow>
                  if succeeded saveResult
                  then (Ret \<lparr>pwr_succeeded = True, pwr_offloaded = True, pwr_payload = payload,
                             pwr_replacementContent = ''[memory-ref: '' @ pay_uri payload @ '']'' @ [CHR 10] @ pay_summary payload,
                             pwr_error = no_error\<rparr>, F1, s1)
                  else
                    let (removed, F2) = remove_path (path_of pathText) F1;
                        e = (if HasError (error_of saveResult) then error_of saveResult
                             else write_error ''failed to persist payload metadata'' []);
                        details = (if err_details e \<noteq> [] then err_details e @ ''; '' else []) @
                                  ''orphan payload file remaining: '' @ pathText @ '', remove error: '' @ fs_message F2
                    in (Ret (failed_write (if removed then e else e\<lparr>err_details := details\<rparr>) payload request), F2, s1))"

section \<open>Reading\<close>

definition read_error :: "string \<Rightarrow> MemoryPayloadReadResult" where
  "read_error msg = failure_with [] (mk_error ''payload_read_failed'' msg [] False)"

definition ReadPayload :: "payload_service \<Rightarrow> string \<Rightarrow> filesys \<Rightarrow> MemoryPayloadReadResult outcome \<times> filesys" where
  "ReadPayload ps ref F =
     (if \<not> starts_with ''file://'' ref then (Ret (read_error ''unsupported payload ref scheme''), F)
      else
        let payloadPath = drop 7 ref in
        if ps_canonicalPayloadDirectory ps = [] then (Ret (read_error ''payload directory path is not resolved''), F)
        else if \<not> IsPathInsideDirectory F payloadPath (ps_canonicalPayloadDirectory ps)
        then (Ret (read_error ''payload path outside configured payload directory''), F)
        else case LoadTextFile (CanonicalPath F payloadPath) F of
               (Throw w, F1) \<Rightarrow> (Throw w, F1)
             | (Ret None, F1) \<Rightarrow> (Ret (read_error ''payload file is unreadable or does not exist''), F1)
             | (Ret (Some content), F1) \<Rightarrow>
                 (if content = [] then (Ret (read_error ''payload file is empty''), F1)
                  else (Ret (success_with content), F1)))"

section \<open>Removing stale temporary files\<close>

definition kTempFileCleanupTtl :: int where
  "kTempFileCleanupTtl = 86400000000000"

text \<open>An entry is a regular file when it is one or a link that leads to one.\<close>

definition regular_file :: "filesys \<Rightarrow> string list \<Rightarrow> int option" where
  "regular_file F loc =
     (case walk (node F) MAX_LINKS [] loc of
        Found l \<Rightarrow> (case node F l of Some (File c t) \<Rightarrow> Some t | _ \<Rightarrow> None)
      | _ \<Rightarrow> None)"

definition cleanup_candidate :: "filesys \<Rightarrow> string list \<Rightarrow> bool" where
  "cleanup_candidate F loc =
     (case regular_file F loc of
        None \<Rightarrow> False
      | Some writeTime \<Rightarrow> str_contains ''.txt.tmp.'' (last loc) \<and> fs_now F - writeTime > kTempFileCleanupTtl)"

fun cleanup_entries :: "string list list \<Rightarrow> filesys \<Rightarrow> filesys" where
  "cleanup_entries [] F = F"
| "cleanup_entries (loc # locs) F =
     (if \<not> cleanup_candidate F loc then cleanup_entries locs F
      else let (ok, F1) = next_io F in cleanup_entries locs (if ok then del_node loc F1 else F1))"

definition TempFileCleanup :: "payload_service \<Rightarrow> filesys \<Rightarrow> filesys" where
  "TempFileCleanup ps F =
     (case sys_walk F (path_of (PayloadDirectory ps)) of
        Found d \<Rightarrow> (if node F d = Some Dir then cleanup_entries (children F d) F else F)
      | _ \<Rightarrow> F)"

end
