(* ===== verification/Filesystem_Laws.thy ===== *)
theory Filesystem_Laws
  imports Filesystem
begin

text \<open>
  Laws of the file-system model: paths and their texts, path resolution (prefixes, real locations,
  regions without links), and what \<open>weakly_canonical\<close> returns.
\<close>

section \<open>Paths and their texts\<close>

lemma segments_nonempty [simp]: "segments s \<noteq> []"
  by (induction s) (auto split: list.splits)

lemma segments_append_slash: "segments (a @ CHR ''/'' # b) = segments a @ segments b"
  by (induction a) (auto split: list.splits)

lemma segments_plain: "CHR ''/'' \<notin> set s \<Longrightarrow> segments s = [s]"
  by (induction s) auto

lemma segments_no_slash: "x \<in> set (segments s) \<Longrightarrow> CHR ''/'' \<notin> set x"
  by (induction s arbitrary: x) (auto split: if_splits list.splits)

lemma segments_chars: "x \<in> set (segments s) \<Longrightarrow> set x \<subseteq> set s"
  by (induction s arbitrary: x) (auto split: if_splits list.splits, blast+)

lemma segments_join:
  "cs \<noteq> [] \<Longrightarrow> \<forall>c\<in>set cs. CHR ''/'' \<notin> set c \<Longrightarrow> segments (join_slash cs) = cs"
  by (induction cs rule: join_slash.induct) (auto simp: segments_plain segments_append_slash)

lemma join_slash_snoc: "cs \<noteq> [] \<Longrightarrow> join_slash (cs @ [c]) = join_slash cs @ CHR ''/'' # c"
  by (induction cs rule: join_slash.induct) auto

lemma set_join_slash: "set (join_slash cs) \<subseteq> insert (CHR ''/'') (\<Union>c\<in>set cs. set c)"
  by (induction cs rule: join_slash.induct) auto

text \<open>A name of a directory entry.\<close>

definition proper :: "string \<Rightarrow> bool" where
  "proper c = (c \<noteq> [] \<and> c \<noteq> dot \<and> c \<noteq> dotdot \<and> CHR ''/'' \<notin> set c \<and> nul_free c)"

text \<open>Elements a parsed path can have: none empty but a last one after others, no slash, no NUL.\<close>

definition wf_path :: "path \<Rightarrow> bool" where
  "wf_path p =
     ((\<forall>c\<in>set (snd p). CHR ''/'' \<notin> set c \<and> nul_free c) \<and> (\<forall>c\<in>set (butlast (snd p)). c \<noteq> []) \<and>
      (snd p \<noteq> [] \<and> last (snd p) = [] \<longrightarrow> 2 \<le> length (snd p)))"

lemma wf_path_plain: "\<forall>c\<in>set cs. c \<noteq> [] \<and> CHR ''/'' \<notin> set c \<and> nul_free c \<Longrightarrow> wf_path (ab, cs)"
  unfolding wf_path_def by (auto dest: in_set_butlastD last_in_set)

lemma join_slash_first:
  "cs \<noteq> [] \<Longrightarrow> hd cs \<noteq> [] \<Longrightarrow> join_slash cs \<noteq> [] \<and> hd (join_slash cs) = hd (hd cs)"
  by (cases cs rule: join_slash.cases) auto

lemma join_slash_last:
  "cs \<noteq> [] \<Longrightarrow> last cs \<noteq> [] \<Longrightarrow> join_slash cs \<noteq> [] \<and> last (join_slash cs) = last (last cs)"
  by (induction cs rule: join_slash.induct) auto

lemma path_of_string_plain:
  assumes "\<forall>c\<in>set cs. c \<noteq> [] \<and> CHR ''/'' \<notin> set c"
  shows "path_of (path_string (ab, cs)) = (ab, cs)"
proof (cases "cs = []")
  case True
  then show ?thesis by (auto simp: path_of_def path_string_def Let_def)
next
  case False
  let ?t = "join_slash cs"
  have names: "filter (\<lambda>x. x \<noteq> []) cs = cs" using assms by (simp add: filter_id_conv)
  have seg: "segments ?t = cs" using False assms by (intro segments_join) auto
  have first: "?t \<noteq> []" "hd ?t \<noteq> CHR ''/''"
    using join_slash_first [OF False] assms False by (metis hd_in_set)+
  have last: "last ?t \<noteq> CHR ''/''"
    using join_slash_last [OF False] assms False by (metis last_in_set)
  show ?thesis using names seg first last by (cases ab) (simp_all add: path_of_def path_string_def Let_def)
qed

lemma in_set_butlast_or_last: "x \<in> set xs \<Longrightarrow> x \<in> set (butlast xs) \<or> xs \<noteq> [] \<and> x = last xs"
  by (induction xs) auto

lemma path_of_string:
  assumes "wf_path p"
  shows "path_of (path_string p) = p"
proof (cases "snd p \<noteq> [] \<and> last (snd p) = []")
  case False
  have "c \<noteq> [] \<and> CHR ''/'' \<notin> set c" if "c \<in> set (snd p)" for c
    using in_set_butlast_or_last [OF that] False assms that unfolding wf_path_def by metis
  then have "\<forall>c\<in>set (snd p). c \<noteq> [] \<and> CHR ''/'' \<notin> set c" by blast
  from path_of_string_plain [OF this, of "fst p"] show ?thesis by simp
next
  case True
  define ds where "ds = butlast (snd p)"
  have p: "snd p = ds @ [[]]" using True by (metis append_butlast_last_id ds_def)
  then have ds: "ds \<noteq> []" "\<forall>c\<in>set ds. c \<noteq> [] \<and> CHR ''/'' \<notin> set c" using assms by (auto simp: wf_path_def)
  have names: "filter (\<lambda>x. x \<noteq> []) ds = ds" using ds by (simp add: filter_id_conv)
  have t: "join_slash (snd p) = join_slash ds @ [CHR ''/'']" using ds p by (simp add: join_slash_snoc)
  have seg: "segments (join_slash (snd p)) = ds @ [[]]"
    using segments_join [of ds] ds t by (simp add: segments_append_slash)
  have first: "join_slash ds \<noteq> []" "hd (join_slash ds) \<noteq> CHR ''/''"
    using join_slash_first [OF ds(1)] ds by (metis hd_in_set)+
  show ?thesis
    using names seg first t ds p by (cases p; cases "fst p") (simp_all add: path_of_def path_string_def Let_def)
qed

lemma wf_path_of:
  assumes "nul_free s"
  shows "wf_path (path_of s)"
proof -
  define ns where "ns = filter (\<lambda>x. x \<noteq> []) (segments s)"
  have ns: "\<forall>c\<in>set ns. c \<noteq> [] \<and> CHR ''/'' \<notin> set c \<and> nul_free c"
    using assms segments_no_slash segments_chars by (force simp: nul_free_def ns_def)
  have p: "snd (path_of s) = ns \<or> ns \<noteq> [] \<and> snd (path_of s) = ns @ [[]]"
    by (auto simp: path_of_def Let_def ns_def)
  then show ?thesis
  proof
    assume "snd (path_of s) = ns"
    then show ?thesis using wf_path_plain [OF ns, of "fst (path_of s)"] by (metis prod.collapse)
  next
    assume "ns \<noteq> [] \<and> snd (path_of s) = ns @ [[]]"
    then show ?thesis using ns by (cases ns) (auto simp: wf_path_def nul_free_def)
  qed
qed

lemma nul_free_path_string: "wf_path p \<Longrightarrow> nul_free (path_string p)"
  using set_join_slash [of "snd p"] by (auto simp: wf_path_def path_string_def nul_free_def)

lemma sys_path_id: "wf_path p \<Longrightarrow> path_of (c_str (path_string p)) = p"
  by (simp add: c_str_nul_free nul_free_path_string path_of_string)

lemma path_of_append:
  assumes "s \<noteq> []" "last s \<noteq> CHR ''/''" "name \<noteq> []" "CHR ''/'' \<notin> set name"
  shows "path_of (path_append s name) = (fst (path_of s), snd (path_of s) @ [name])"
proof -
  have "hd name \<noteq> CHR ''/''" "last name \<noteq> CHR ''/''" using assms by (metis hd_in_set, metis last_in_set)
  then show ?thesis
    using assms by (simp add: path_of_def path_append_def Let_def segments_append_slash segments_plain)
qed

section \<open>Path resolution\<close>

text \<open>Every node but the root has a proper name and its parent is a directory.\<close>

definition tree :: "(string list \<Rightarrow> node option) \<Rightarrow> bool" where
  "tree N = (N [] = Some Dir \<and>
     (\<forall>loc n. N loc = Some n \<longrightarrow> loc = [] \<or> proper (last loc) \<and> N (butlast loc) = Some Dir))"

text \<open>A location that exists and is not a link: what resolution ends at.\<close>

definition real_loc :: "(string list \<Rightarrow> node option) \<Rightarrow> string list \<Rightarrow> bool" where
  "real_loc N loc = (\<exists>x. N loc = Some x \<and> (\<forall>t. x \<noteq> Link t))"

definition fs_ok :: "filesys \<Rightarrow> bool" where
  "fs_ok F = (tree (node F) \<and> node F (fs_cwd F) = Some Dir)"

lemma tree_prefix: "tree N \<Longrightarrow> N (pre @ c # suf) = Some x \<Longrightarrow> N pre = Some Dir \<and> proper c"
proof (induction suf arbitrary: x rule: rev_induct)
  case Nil
  then show ?case unfolding tree_def by (metis append_is_Nil_conv butlast_snoc last_snoc not_Cons_self2)
next
  case (snoc s suf)
  from snoc.prems(2) have "N ((pre @ c # suf) @ [s]) = Some x" by simp
  with snoc.prems(1) have "N (pre @ c # suf) = Some Dir"
    unfolding tree_def by (metis append_is_Nil_conv butlast_snoc not_Cons_self2)
  with snoc show ?case by blast
qed

lemma tree_names: "tree N \<Longrightarrow> N loc = Some x \<Longrightarrow> \<forall>c\<in>set loc. proper c"
  by (metis split_list tree_prefix)

lemma tree_butlast: "tree N \<Longrightarrow> N loc = Some x \<Longrightarrow> N (butlast loc) = Some Dir"
  by (cases "loc = []") (auto simp: tree_def)

lemma walk_Found_real:
  "walk N n cur cs = Found loc \<Longrightarrow> tree N \<Longrightarrow> real_loc N cur \<Longrightarrow> real_loc N loc"
proof (induction N n cur cs rule: walk.induct)
  case (2 N n cur c cs)
  then have dir: "N cur = Some Dir" by (auto split: if_splits)
  consider "c = [] \<or> c = dot" | "\<not> (c = [] \<or> c = dot)" "c = dotdot"
    | "\<not> (c = [] \<or> c = dot)" "c \<noteq> dotdot" by blast
  then show ?case
  proof cases
    case 1
    with 2 dir show ?thesis by auto
  next
    case two: 2
    have "real_loc N (butlast cur)" using tree_butlast [OF "2.prems"(2) dir] by (simp add: real_loc_def)
    with 2 two dir show ?thesis by (auto simp: dot_def dotdot_def)
  next
    case 3
    show ?thesis
    proof (cases "N (cur @ [c])")
      case None
      with 2 3 dir show ?thesis by auto
    next
      case (Some x)
      show ?thesis
      proof (cases x)
        case (Link t)
        have "real_loc N []" "real_loc N cur" using "2.prems" by (simp_all add: tree_def real_loc_def)
        with 2 3 dir Some Link show ?thesis by (cases n) (auto split: if_splits)
      next
        case Dir
        then have "real_loc N (cur @ [c])" using Some by (simp add: real_loc_def)
        with 2 3 dir Some Dir show ?thesis by auto
      next
        case (File a b)
        then have "real_loc N (cur @ [c])" using Some by (simp add: real_loc_def)
        with 2 3 dir Some File show ?thesis by auto
      qed
    qed
  qed
qed auto

lemma walk_append:
  "walk N n cur xs = Found mid \<Longrightarrow> \<exists>m. \<forall>ys. walk N n cur (xs @ ys) = walk N m mid ys"
proof (induction N n cur xs rule: walk.induct)
  case (2 N n cur c cs)
  then have dir: "N cur = Some Dir" by (auto split: if_splits)
  show ?case
  proof (cases "c = [] \<or> c = dot \<or> c = dotdot")
    case True
    then show ?thesis using 2 dir by (auto simp: dot_def dotdot_def)
  next
    case False
    then obtain x where x: "N (cur @ [c]) = Some x" using 2 dir by (auto split: option.splits)
    show ?thesis using 2 False dir x by (cases x; cases n) auto
  qed
qed auto

lemma walk_prefix: "walk N n cur (xs @ ys) = Found loc \<Longrightarrow> \<exists>mid. walk N n cur xs = Found mid"
proof (induction N n cur xs rule: walk.induct)
  case (2 N n cur c cs)
  then have dir: "N cur = Some Dir" by (auto split: if_splits)
  show ?case
  proof (cases "c = [] \<or> c = dot \<or> c = dotdot")
    case True
    then show ?thesis using 2 dir by (auto simp: dot_def dotdot_def)
  next
    case False
    then obtain x where x: "N (cur @ [c]) = Some x" using 2 dir by (auto split: option.splits)
    show ?thesis using 2 False dir x by (cases x; cases n) auto
  qed
qed auto

lemma walk_real:
  assumes "tree N" "real_loc N (pre @ suf)"
  shows "walk N n pre (suf @ ys) = walk N n (pre @ suf) ys"
  using assms(2)
proof (induction suf arbitrary: pre)
  case (Cons c suf)
  obtain x where x: "N (pre @ c # suf) = Some x" using Cons.prems by (auto simp: real_loc_def)
  have dir: "N pre = Some Dir" and c: "c \<noteq> []" "c \<noteq> dot" "c \<noteq> dotdot"
    using tree_prefix [OF assms(1) x] by (auto simp: proper_def)
  have "real_loc N (pre @ [c])"
  proof (cases suf)
    case Nil
    then show ?thesis using Cons.prems by simp
  next
    case (Cons d ds)
    then have "N (pre @ [c]) = Some Dir" using tree_prefix [OF assms(1), of "pre @ [c]" d ds x] x by simp
    then show ?thesis by (simp add: real_loc_def)
  qed
  then obtain y where y: "N (pre @ [c]) = Some y" "\<forall>t. y \<noteq> Link t" by (auto simp: real_loc_def)
  have "walk N n pre ((c # suf) @ ys) = walk N n (pre @ [c]) (suf @ ys)"
    using dir c y by (cases y) auto
  also have "\<dots> = walk N n ((pre @ [c]) @ suf) ys" using Cons.IH [of "pre @ [c]"] Cons.prems by simp
  finally show ?case by simp
qed simp

lemma walk_real_self: "tree N \<Longrightarrow> real_loc N loc \<Longrightarrow> walk N n [] loc = Found loc"
  using walk_real [of N "[]" loc n "[]"] by simp

lemma walk_mono:
  "walk N n cur cs = Found loc \<Longrightarrow> (\<And>l x. N l = Some x \<Longrightarrow> N' l = Some x) \<Longrightarrow> walk N' n cur cs = Found loc"
proof (induction N n cur cs rule: walk.induct)
  case (2 N n cur c cs)
  then have dir: "N cur = Some Dir" "N' cur = Some Dir" by (auto split: if_splits)
  show ?case
  proof (cases "c = [] \<or> c = dot \<or> c = dotdot")
    case True
    then show ?thesis using 2 dir by (auto simp: dot_def dotdot_def)
  next
    case False
    then obtain x where x: "N (cur @ [c]) = Some x" "N' (cur @ [c]) = Some x" using 2 dir by (auto split: option.splits)
    show ?thesis using 2 False dir x by (cases x; cases n) auto
  qed
qed simp

lemma walk_below:
  assumes "\<And>suf t. suf \<noteq> [] \<Longrightarrow> N (d @ suf) \<noteq> Some (Link t)" "dotdot \<notin> set cs"
  shows "walk N n (d @ pre) cs = Found loc \<Longrightarrow> \<exists>suf. loc = d @ pre @ suf"
  using assms(2)
proof (induction cs arbitrary: pre)
  case (Cons c cs)
  then have dir: "N (d @ pre) = Some Dir" by (auto split: if_splits)
  show ?case
  proof (cases "c = [] \<or> c = dot")
    case True
    with Cons dir show ?thesis by auto
  next
    case False
    with Cons.prems dir obtain x where x: "N (d @ pre @ [c]) = Some x" by (auto split: option.splits)
    with assms(1) [of "pre @ [c]"] have "\<forall>t. x \<noteq> Link t" by auto
    with Cons.prems False dir x have "walk N n (d @ (pre @ [c])) cs = Found loc" by (cases x) auto
    with Cons show ?thesis by fastforce
  qed
qed auto

section \<open>Nodes\<close>

lemma node_put [simp]: "loc \<noteq> [] \<Longrightarrow> node (put_node loc n F) l = (if l = loc then Some n else node F l)"
  by (simp add: node_def put_node_def update_conv')

lemma node_del [simp]: "loc \<noteq> [] \<Longrightarrow> node (del_node loc F) l = (if l = loc then None else node F l)"
  by (simp add: node_def del_node_def delete_conv')

lemma fs_fields [simp]:
  "fs_cwd (put_node loc n F) = fs_cwd F" "fs_cwd (del_node loc F) = fs_cwd F" "fs_now (put_node loc n F) = fs_now F"
  "fs_io (put_node loc n F) = fs_io F" "fs_io (del_node loc F) = fs_io F" "fs_now (del_node loc F) = fs_now F"
  by (simp_all add: put_node_def del_node_def)

lemma next_io_nodes:
  assumes "next_io F = (ok, F1)"
  shows "node F1 = node F" "fs_cwd F1 = fs_cwd F" "fs_now F1 = fs_now F"
  using assms by (auto simp: next_io_def node_def fun_eq_iff split: list.splits)

lemma sys_walk_cong: "node F = node F' \<Longrightarrow> fs_cwd F = fs_cwd F' \<Longrightarrow> sys_walk F p = sys_walk F' p"
  by (simp add: sys_walk_def Let_def)

definition start_of :: "filesys \<Rightarrow> path \<Rightarrow> string list" where
  "start_of F p = (if fst p then [] else fs_cwd F)"

lemma sys_walk_wf:
  assumes "wf_path p"
  shows "sys_walk F p = (if \<not> fst p \<and> snd p = [] then NotDir else walk (node F) MAX_LINKS (start_of F p) (snd p))"
  by (simp add: sys_walk_def sys_path_id [OF assms] start_of_def Let_def)

lemma real_start: "fs_ok F \<Longrightarrow> real_loc (node F) (start_of F p)"
  by (auto simp: fs_ok_def tree_def real_loc_def start_of_def)

lemma sys_walk_real: "fs_ok F \<Longrightarrow> wf_path p \<Longrightarrow> sys_walk F p = Found loc \<Longrightarrow> real_loc (node F) loc"
  using walk_Found_real [of "node F" MAX_LINKS "start_of F p" "snd p" loc] real_start [of F p]
  by (auto simp: sys_walk_wf fs_ok_def split: if_splits)

lemma proper_wf: "\<forall>c\<in>set cs. proper c \<Longrightarrow> wf_path (ab, cs)"
  by (rule wf_path_plain) (auto simp: proper_def)

lemma real_names: "fs_ok F \<Longrightarrow> real_loc (node F) loc \<Longrightarrow> \<forall>c\<in>set loc. proper c"
  unfolding real_loc_def fs_ok_def using tree_names by blast

lemma sys_walk_self:
  assumes "fs_ok F" "real_loc (node F) loc"
  shows "sys_walk F (True, loc) = Found loc"
proof -
  have "wf_path (True, loc)" by (rule proper_wf) (rule real_names [OF assms])
  then show ?thesis using walk_real_self [of "node F" loc MAX_LINKS] assms
    by (simp add: sys_walk_wf start_of_def fs_ok_def)
qed

section \<open>weakly\_canonical\<close>

lemma normal_fold:
  assumes "\<forall>c\<in>set cs. CHR ''/'' \<notin> set c \<and> nul_free c" "\<forall>c\<in>set out. c \<noteq> [] \<and> CHR ''/'' \<notin> set c \<and> nul_free c"
  shows "(\<forall>c\<in>set (foldl (normal_step ab) out cs). c \<noteq> [] \<and> CHR ''/'' \<notin> set c \<and> nul_free c) \<and>
    (ab \<longrightarrow> dotdot \<notin> set out \<longrightarrow> dotdot \<notin> set (foldl (normal_step ab) out cs))"
  using assms
proof (induction cs arbitrary: out)
  case (Cons c cs)
  have step: "\<forall>x\<in>set (normal_step ab out c). x \<noteq> [] \<and> CHR ''/'' \<notin> set x \<and> nul_free x"
    using Cons.prems by (auto simp: dotdot_def nul_free_def dest: in_set_butlastD)
  have up: "ab \<longrightarrow> dotdot \<notin> set out \<longrightarrow> dotdot \<notin> set (normal_step ab out c)"
    by (simp, blast dest: in_set_butlastD)
  have "\<forall>c\<in>set cs. CHR ''/'' \<notin> set c \<and> nul_free c" using Cons.prems(1) by simp
  from Cons.IH [OF this step] up show ?case unfolding foldl_Cons by blast
qed simp

lemma lexically_normal_wf:
  assumes "\<forall>c\<in>set (snd p). CHR ''/'' \<notin> set c \<and> nul_free c"
  shows "wf_path (lexically_normal p) \<and> (fst (lexically_normal p) \<longrightarrow> dotdot \<notin> set (snd (lexically_normal p)))"
proof -
  let ?out = "foldl (normal_step (fst p)) [] (snd p)"
  have out: "\<forall>c\<in>set ?out. c \<noteq> [] \<and> CHR ''/'' \<notin> set c \<and> nul_free c" "fst p \<longrightarrow> dotdot \<notin> set ?out"
    using normal_fold [OF assms, of "[]" "fst p"] by simp_all
  have cases: "lexically_normal p \<in> {(fst p, []), (False, [dot]), (fst p, ?out)} \<or>
      ?out \<noteq> [] \<and> lexically_normal p = (fst p, ?out @ [[]])"
    by (auto simp: lexically_normal_def Let_def)
  have "wf_path (fst p, ?out)" by (rule wf_path_plain) (rule out(1))
  moreover have "?out \<noteq> [] \<Longrightarrow> wf_path (fst p, ?out @ [[]])"
    using out(1) by (cases ?out) (auto simp: wf_path_def nul_free_def)
  moreover have "wf_path (fst p, [])" "wf_path (False, [dot])" by (auto simp: wf_path_def dot_def nul_free_def)
  ultimately show ?thesis using cases out(2) by (auto simp: dotdot_def)
qed

lemma leading_split:
  "leading F d cs = Some (e, rest) \<Longrightarrow> \<exists>xs. cs = xs @ rest \<and> e = (fst d, snd d @ xs)"
proof (induction cs arbitrary: d)
  case (Cons c cs)
  show ?case
  proof (cases "sys_walk F (fst d, snd d @ [c])")
    case (Found loc)
    with Cons obtain xs where "cs = xs @ rest" "e = (fst d, (snd d @ [c]) @ xs)" by fastforce
    then show ?thesis by (intro exI [of _ "c # xs"]) simp
  qed (use Cons.prems in auto)
qed simp

lemma wf_path_take: "wf_path (ab, xs @ ys) \<Longrightarrow> ys \<noteq> [] \<Longrightarrow> wf_path (ab, xs)"
  by (rule wf_path_plain) (auto simp: wf_path_def butlast_append)

lemma weakly_canonical_wf:
  assumes "fs_ok F" "wf_path p" "weakly_canonical F p = Some q"
  shows "wf_path q" "fst q \<longrightarrow> dotdot \<notin> set (snd q)"
proof -
  have *: "wf_path q \<and> (fst q \<longrightarrow> dotdot \<notin> set (snd q))"
  proof (cases "\<exists>loc. sys_walk F p = Found loc")
    case True
    then obtain loc where loc: "sys_walk F p = Found loc" by blast
    then have names: "\<forall>c\<in>set loc. proper c" using real_names [OF assms(1) sys_walk_real [OF assms(1,2)]] by blast
    then have "dotdot \<notin> set loc" unfolding proper_def by blast
    moreover have "q = (True, loc)" using assms(3) loc by (simp add: weakly_canonical_def)
    ultimately show ?thesis using proper_wf [OF names, of True] by simp
  next
    case False
    then obtain e rest where l: "leading F (fst p, []) (snd p) = Some (e, rest)"
      and q: "(\<not> fst e \<and> snd e = [] \<and> q = lexically_normal (False, rest)) \<or>
        (\<exists>loc. sys_walk F e = Found loc \<and> q = lexically_normal (True, loc @ rest))"
      using assms(3) by (auto simp: weakly_canonical_def split: walked.splits option.splits if_splits)
    obtain xs where xs: "snd p = xs @ rest" "e = (fst p, xs)" using leading_split [OF l] by auto
    have rest: "\<forall>c\<in>set rest. CHR ''/'' \<notin> set c \<and> nul_free c" using assms(2) xs by (auto simp: wf_path_def)
    have "wf_path e" using xs assms(2) wf_path_take [of "fst p" xs rest] by (cases p; cases "rest = []") auto
    then have "\<And>loc. sys_walk F e = Found loc \<Longrightarrow> \<forall>c\<in>set loc. proper c"
      using real_names [OF assms(1) sys_walk_real [OF assms(1)]] by blast
    then have "\<And>loc. sys_walk F e = Found loc \<Longrightarrow> \<forall>c\<in>set (loc @ rest). CHR ''/'' \<notin> set c \<and> nul_free c"
      using rest by (auto simp: proper_def)
    then show ?thesis using q lexically_normal_wf [of "(False, rest)"] rest lexically_normal_wf [of "(True, _ @ rest)"] by auto
  qed
  then show "wf_path q" "fst q \<longrightarrow> dotdot \<notin> set (snd q)" by blast+
qed

lemma dir_matches_prefix: "dir_matches ds ps = prefix ds ps"
  by (induction ds ps rule: dir_matches.induct) auto

end
