(* ===== verification/Payload_Properties.thy ===== *)
theory Payload_Properties
  imports Payload Filesystem_Laws
begin

text \<open>
  Properties of the payload service: reads stay inside the payload directory (and the one way out
  of it), what was offloaded is read back, and what a failed write leaves behind.
\<close>

section \<open>Confinement\<close>

definition no_links_below :: "filesys \<Rightarrow> string list \<Rightarrow> bool" where
  "no_links_below F d = (\<forall>suf t. suf \<noteq> [] \<longrightarrow> node F (d @ suf) \<noteq> Some (Link t))"

lemma elements_prefix:
  assumes "prefix (elements (True, d)) (elements q)" "wf_path q" "q \<noteq> (True, d)"
  shows "\<exists>rest. q = (True, d @ rest) \<and> rest \<noteq> []"
proof (cases q)
  case (Pair ab cs)
  have "ab"
  proof (rule ccontr)
    assume "\<not> ab"
    with assms(1) Pair have "[CHR ''/''] \<in> set cs" by (cases cs) (auto simp: elements_def)
    with assms(2) Pair show False by (auto simp: wf_path_def)
  qed
  with assms Pair show ?thesis by (auto simp: elements_def prefix_def)
qed

text \<open>What opening the canonical form of an accepted path reads.\<close>

lemma inside_read:
  assumes ok: "fs_ok F" and wf: "wf_path p" and d: "sys_walk F dirp = Found d" "wf_path dirp"
    and q: "weakly_canonical F p = Some q" "q \<noteq> (True, d)" "prefix (elements (True, d)) (elements q)"
    and safe: "no_links_below F d \<or> exists_path F p"
    and loc: "sys_walk F q = Found loc" "node F loc = Some (File c t)"
  shows "\<exists>suf. suf \<noteq> [] \<and> loc = d @ suf"
proof -
  have wfq: "wf_path q" "fst q \<longrightarrow> dotdot \<notin> set (snd q)" by (rule weakly_canonical_wf [OF ok wf q(1)])+
  obtain rest where rest: "q = (True, d @ rest)" "rest \<noteq> []" using elements_prefix [OF q(3) wfq(1) q(2)] by blast
  show ?thesis
  proof (cases "exists_path F p")
    case True
    then obtain l where l: "sys_walk F p = Found l" by (auto simp: exists_path_def split: walked.splits)
    then have "l = d @ rest" using q(1) rest by (simp add: weakly_canonical_def)
    then have "loc = d @ rest" using sys_walk_self [OF ok sys_walk_real [OF ok wf l]] loc(1) rest by simp
    then show ?thesis using rest(2) by blast
  next
    case False
    with safe have nolink: "\<And>suf t. suf \<noteq> [] \<Longrightarrow> node F (d @ suf) \<noteq> Some (Link t)" by (auto simp: no_links_below_def)
    have real: "real_loc (node F) d" by (rule sys_walk_real [OF ok d(2,1)])
    have "walk (node F) MAX_LINKS [] (d @ rest) = Found loc"
      using loc(1) rest wfq(1) by (simp add: sys_walk_wf start_of_def)
    then have w: "walk (node F) MAX_LINKS d rest = Found loc"
      using walk_real [of "node F" "[]" d MAX_LINKS rest] real ok by (simp add: fs_ok_def)
    have nodots: "dotdot \<notin> set rest" using wfq(2) rest by simp
    obtain suf where suf: "loc = d @ suf" using walk_below [of "node F" d rest MAX_LINKS "[]" loc] nolink nodots w by auto
    have "node F d = Some Dir" using w rest(2) by (cases rest) (auto split: if_splits)
    then show ?thesis using suf loc(2) by (cases "suf = []") auto
  qed
qed

lemma ReadPayload_opened:
  assumes "fs_ok F" "nul_free ref" "nul_free (ps_canonicalPayloadDirectory ps)"
    and "ReadPayload ps ref F = (Ret r, F')" "succeeded r"
    and "sys_walk F (path_of (ps_canonicalPayloadDirectory ps)) = Found d"
  obtains q loc t where "wf_path (path_of (drop 7 ref))" "wf_path (path_of (ps_canonicalPayloadDirectory ps))"
    "weakly_canonical F (path_of (drop 7 ref)) = Some q" "q \<noteq> (True, d)" "prefix (elements (True, d)) (elements q)"
    "sys_walk F q = Found loc" "node F loc = Some (File (payload_of r) t)" "payload_of r \<noteq> []"
proof -
  let ?p = "path_of (drop 7 ref)" and ?dirp = "path_of (ps_canonicalPayloadDirectory ps)"
  have nf: "nul_free (drop 7 ref)" using assms(2) by (auto simp: nul_free_def dest: in_set_dropD)
  have wf: "wf_path ?p" "wf_path ?dirp" using nf assms(3) wf_path_of by blast+
  have inside: "IsPathInsideDirectory F (drop 7 ref) (ps_canonicalPayloadDirectory ps)"
    using assms(4,5) by (auto simp: ReadPayload_def read_error_def Let_def split: if_splits)
  then obtain q where q: "weakly_canonical F ?p = Some q" "q \<noteq> (True, d)" "prefix (elements (True, d)) (elements q)"
    using assms(6) by (auto simp: IsPathInsideDirectory_def weakly_canonical_def [of F ?dirp] dir_matches_prefix split: option.splits if_splits)
  obtain o1 F1 where l: "LoadTextFile (path_string q) F = (o1, F1)" by fastforce
  have "o1 = Ret (Some (payload_of r)) \<and> payload_of r \<noteq> []"
    using assms(4,5) l q(1)
    by (auto simp: ReadPayload_def read_error_def Let_def CanonicalPath_def split: if_splits outcome.splits option.splits)
  then have cont: "payload_of r \<noteq> []" and o1: "o1 = Ret (Some (payload_of r))" by auto
  obtain ok F2 where io: "next_io F = (ok, F2)" by fastforce
  note same = next_io_nodes [OF io]
  have "sys_walk F2 (path_of (path_string q)) = sys_walk F q"
    using sys_walk_cong [of F2 F] same path_of_string [OF weakly_canonical_wf(1) [OF assms(1) wf(1) q(1)]] by simp
  then obtain loc t where loc: "sys_walk F q = Found loc" "node F loc = Some (File (payload_of r) t)"
    using l o1 io same by (auto simp: LoadTextFile_def Let_def split: if_splits walked.splits option.splits node.splits prod.splits)
  show ?thesis by (rule that [OF wf q loc cont])
qed

text \<open>
  C17: When a payload is read, the content comes from a regular file strictly below the payload
  directory, provided the path of the reference resolves or no symbolic link lies below that
  directory (the service itself creates none). The checks are on resolved locations, so neither
  \<open>..\<close> nor links on the way to the directory matter.
\<close>

theorem ReadPayload_confined:
  assumes "fs_ok F" "nul_free ref" "nul_free (ps_canonicalPayloadDirectory ps)"
    and "ReadPayload ps ref F = (Ret r, F')" "succeeded r"
    and "sys_walk F (path_of (ps_canonicalPayloadDirectory ps)) = Found d"
    and "no_links_below F d \<or> exists_path F (path_of (drop 7 ref))"
  shows "\<exists>suf t. suf \<noteq> [] \<and> node F (d @ suf) = Some (File (payload_of r) t) \<and> payload_of r \<noteq> []"
proof -
  from ReadPayload_opened [OF assms(1-6)] obtain q loc t where q: "wf_path (path_of (drop 7 ref))"
    "wf_path (path_of (ps_canonicalPayloadDirectory ps))" "weakly_canonical F (path_of (drop 7 ref)) = Some q" "q \<noteq> (True, d)"
    "prefix (elements (True, d)) (elements q)" "sys_walk F q = Found loc" "node F loc = Some (File (payload_of r) t)"
    "payload_of r \<noteq> []" by blast
  from inside_read [OF assms(1) q(1) assms(6) q(2-5) assms(7) q(6,7)] q(7,8) show ?thesis by auto
qed

definition vault :: filesys where
  "vault = \<lparr>fs_nodes =
       [([''d''], Dir), ([''d'', ''memory_runtime''], Dir), ([''d'', ''memory_runtime'', ''payloads''], Dir),
        ([''d'', ''memory_runtime'', ''payloads'', ''a.txt''], File ''data'' 0),
        ([''d'', ''memory_runtime'', ''payloads'', ''out''], Link ''/etc/key''),
        ([''etc''], Dir), ([''etc'', ''key''], File ''secret'' 0)],
     fs_cwd = [], fs_now = 0, fs_io = [], fs_message = [], fs_partial = 0, fs_dir_read = None\<rparr>"

definition vault_service :: payload_service where
  "vault_service = new_PayloadService default_config ''/d'' True vault"

lemma fs_ok_by_list:
  assumes "list_all (\<lambda>(loc, n). loc \<noteq> [] \<and> proper (last loc) \<and> node F (butlast loc) = Some Dir) (fs_nodes F)"
    "node F (fs_cwd F) = Some Dir"
  shows "fs_ok F"
  using assms unfolding fs_ok_def tree_def node_def
  by (auto simp: list_all_iff split: if_splits dest!: map_of_SomeD)

lemma vault_ok: "fs_ok vault"
  by (rule fs_ok_by_list) (simp_all add: vault_def node_def proper_def dot_def dotdot_def nul_free_def)

theorem ReadPayload_confined_witness:
  "\<exists>suf t. suf \<noteq> [] \<and> node vault ([''d'', ''memory_runtime'', ''payloads''] @ suf) = Some (File ''data'' t)"
proof -
  let ?ref = "''file:///d/memory_runtime/./payloads/a.txt''"
  have run: "ReadPayload vault_service ?ref vault = (Ret (success_with ''data''), vault)"
    "sys_walk vault (path_of (ps_canonicalPayloadDirectory vault_service)) = Found [''d'', ''memory_runtime'', ''payloads'']"
    "no_links_below vault [''d'', ''memory_runtime'', ''payloads''] \<or> exists_path vault (path_of (drop 7 ?ref))"
    "nul_free ?ref" "nul_free (ps_canonicalPayloadDirectory vault_service)" "succeeded (success_with ''data'')"
    apply code_simp apply code_simp apply (rule disjI2, code_simp) apply code_simp apply code_simp by simp
  from ReadPayload_confined [OF vault_ok run(4,5,1,6,2,3)] show ?thesis by simp
qed

section \<open>The way out\<close>

lemma leading_real:
  assumes "fs_ok F" "real_loc (node F) d" "sys_walk F (True, d @ [c]) \<noteq> TooManyLinks" "\<forall>l. sys_walk F (True, d @ [c]) \<noteq> Found l"
  shows "leading F (True, []) (d @ c # cs) = Some ((True, d), c # cs)"
proof -
  have "leading F (True, pre) (suf @ c # cs) = Some ((True, d), c # cs)" if "d = pre @ suf" for pre suf
    using that
  proof (induction suf arbitrary: pre)
    case Nil
    then show ?case using assms(3,4) by (cases "sys_walk F (True, d @ [c])") auto
  next
    case (Cons x suf)
    have "real_loc (node F) (pre @ [x])"
      using Cons.prems assms(1,2) tree_prefix [of "node F" "pre @ [x]"]
      by (cases suf) (auto simp: fs_ok_def real_loc_def)
    then show ?case using Cons.IH [of "pre @ [x]"] Cons.prems sys_walk_self [OF assms(1)] by simp
  qed
  from this [of "[]" d] show ?thesis by simp
qed

lemma normal_fold_proper: "\<forall>c\<in>set cs. proper c \<Longrightarrow> foldl (normal_step ab) out cs = out @ cs"
proof (induction cs arbitrary: out)
  case (Cons c cs)
  then have "normal_step ab out c = out @ [c]" by (simp add: proper_def)
  with Cons show ?case by (simp del: normal_step.simps)
qed simp

text \<open>
  C40: The confinement needs that proviso: when the payload directory holds a link that leads to a
  file elsewhere, a reference that steps through a missing name and back (\<open>missing/../link\<close>) is
  accepted and the file outside is read, because the missing part is cancelled on the text of the
  path after the links have been resolved.
\<close>

theorem ReadPayload_escapes:
  assumes "fs_ok F" "fs_io F = []" "node F d = Some Dir" "ps_canonicalPayloadDirectory ps = path_string (True, d)"
    and "proper missing" "node F (d @ [missing]) = None" "proper link"
    and "sys_walk F (True, d @ [link]) = Found loc" "node F loc = Some (File content t)" "content \<noteq> []"
  shows "ReadPayload ps (''file://'' @ path_string (True, d @ [missing, ''..'', link])) F = (Ret (success_with content), F)"
proof -
  let ?p = "(True, d @ [missing, ''..'', link])"
  have real: "real_loc (node F) d" using assms(3) by (simp add: real_loc_def)
  have names: "\<forall>c\<in>set d. proper c" by (rule real_names [OF assms(1) real])
  have wf: "wf_path ?p" "wf_path (True, d)" "wf_path (True, d @ [link])" "wf_path (True, d @ [missing])"
  proof -
    have plain: "c \<noteq> [] \<and> CHR ''/'' \<notin> set c \<and> nul_free c" if "proper c \<or> c = ''..''" for c
      using that by (auto simp: proper_def nul_free_def)
    then show "wf_path ?p" "wf_path (True, d)" "wf_path (True, d @ [link])" "wf_path (True, d @ [missing])"
      using names assms(5,7) by - (rule wf_path_plain, rule ballI, rule plain, fastforce)+
  qed
  have at: "walk (node F) MAX_LINKS [] (d @ ys) = walk (node F) MAX_LINKS d ys" for ys
    using walk_real [of "node F" "[]" d] assms(1) real by (simp add: fs_ok_def)
  have miss: "sys_walk F (True, d @ [missing]) = Missing d missing []" "sys_walk F ?p = Missing d missing [''..'', link]"
    using wf assms(3,5,6) by (simp_all add: sys_walk_wf start_of_def at proper_def)
  have lead: "leading F (True, []) (d @ [missing, ''..'', link]) = Some ((True, d), [missing, ''..'', link])"
    by (rule leading_real [OF assms(1) real]) (simp_all add: miss)
  have m: "normal_step True d missing = d @ [missing]" "normal_step True d link = d @ [link]"
    using assms(5,7) by (simp_all add: proper_def)
  have u: "normal_step True (d @ [missing]) ''..'' = d" using assms(5) by (simp add: dotdot_def dot_def proper_def)
  have "foldl (normal_step True) [] (d @ [missing, ''..'', link]) = d @ [link]"
    unfolding foldl_append normal_fold_proper [OF names] append_Nil foldl_Cons foldl_Nil m(1) u m(2) ..
  then have norm: "lexically_normal ?p = (True, d @ [link])"
    using assms(7) by (simp add: lexically_normal_def proper_def del: normal_step.simps)
  have q: "weakly_canonical F ?p = Some (True, d @ [link])"
    using miss(2) lead norm sys_walk_self [OF assms(1) real] by (simp add: weakly_canonical_def)
  have cd: "weakly_canonical F (True, d) = Some (True, d)"
    using sys_walk_self [OF assms(1) real] by (simp add: weakly_canonical_def)
  have inside: "IsPathInsideDirectory F (path_string ?p) (path_string (True, d))"
    using q cd wf by (simp add: IsPathInsideDirectory_def path_of_string dir_matches_prefix elements_def)
  have load: "LoadTextFile (path_string (True, d @ [link])) F = (Ret (Some content), F)"
    using assms(2,8,9) wf(3) by (simp add: LoadTextFile_def next_io_def path_of_string)
  have "path_string (True, d) \<noteq> []" "drop 7 (''file://'' @ path_string ?p) = path_string ?p"
    "starts_with ''file://'' (''file://'' @ path_string ?p)" by (simp_all add: path_string_def starts_with_def)
  moreover have "CanonicalPath F (path_string ?p) = path_string (True, d @ [link])"
    using q wf(1) by (simp add: CanonicalPath_def path_of_string)
  ultimately show ?thesis unfolding ReadPayload_def Let_def using assms(4,10) inside load by simp
qed

theorem ReadPayload_escapes_witness:
  "fst (ReadPayload vault_service ''file:///d/memory_runtime/payloads/no/../out'' vault) = Ret (success_with ''secret'') \<and>
   fst (ReadPayload vault_service ''file:///d/memory_runtime/payloads/out'' vault) =
     Ret (read_error ''payload path outside configured payload directory'')"
proof -
  let ?d = "[''d'', ''memory_runtime'', ''payloads'']"
  have pre: "fs_io vault = []" "node vault ?d = Some Dir"
    "ps_canonicalPayloadDirectory vault_service = path_string (True, ?d)" "proper ''no''" "node vault (?d @ [''no'']) = None"
    "proper ''out''" "sys_walk vault (True, ?d @ [''out'']) = Found [''etc'', ''key'']"
    "node vault [''etc'', ''key''] = Some (File ''secret'' 0)" "''secret'' \<noteq> []"
    by code_simp+
  have ref: "''file://'' @ path_string (True, ?d @ [''no'', ''..'', ''out'']) = ''file:///d/memory_runtime/payloads/no/../out''"
    by code_simp
  have "fst (ReadPayload vault_service ''file:///d/memory_runtime/payloads/out'' vault) =
     Ret (read_error ''payload path outside configured payload directory'')" by code_simp
  then show ?thesis using ReadPayload_escapes [OF vault_ok pre] unfolding ref by simp
qed

end
