(* ===== verification/Payload_Store.thy ===== *)
theory Payload_Store
  imports Payload_Properties Store_Properties
begin

text \<open>
  Writing payloads: the invariant of a service on its file system, the effect of an atomic write
  and of the background cleanup, and the round trip from \<open>WritePayload\<close> to \<open>ReadPayload\<close>.
\<close>

section \<open>A service and its directory\<close>

text \<open>
  The directory \<open>memory_runtime\<close> is there (the store was opened in it), \<open>payloads\<close> in it is a
  directory or not created yet, no link lies below, and the canonical text the service computed
  when it was made still names that place.
\<close>

definition service_ok :: "payload_service \<Rightarrow> filesys \<Rightarrow> string list \<Rightarrow> bool" where
  "service_ok ps F P =
     (fs_ok F \<and> nul_free (ps_dataPath ps) \<and>
      sys_walk F (path_of (path_append (ps_dataPath ps) ''memory_runtime'')) = Found P \<and> node F P = Some Dir \<and>
      (node F (P @ [''payloads'']) = None \<or> node F (P @ [''payloads'']) = Some Dir) \<and>
      no_links_below F (P @ [''payloads'']) \<and>
      ps_canonicalPayloadDirectory ps = path_string (True, P @ [''payloads'']))"

lemma path_append_end:
  assumes "b \<noteq> []" "hd b \<noteq> CHR ''/''"
  shows "path_append a b \<noteq> []" "last (path_append a b) = last b" "nul_free a \<Longrightarrow> nul_free b \<Longrightarrow> nul_free (path_append a b)"
  using assms by (auto simp: path_append_def nul_free_def)

abbreviation runtime_path :: "payload_service \<Rightarrow> path" where
  "runtime_path ps \<equiv> path_of (path_append (ps_dataPath ps) ''memory_runtime'')"

lemma directory_path: "path_of (PayloadDirectory ps) = (fst (runtime_path ps), snd (runtime_path ps) @ [''payloads''])"
  unfolding PayloadDirectory_def payload_directory_def
  by (rule path_of_append) (simp_all add: path_append_end)

lemma payload_path:
  assumes "proper name"
  shows "path_of (path_append (PayloadDirectory ps) name) = (fst (runtime_path ps), snd (runtime_path ps) @ [''payloads'', name])"
proof -
  have "path_of (path_append (PayloadDirectory ps) name) = (fst (path_of (PayloadDirectory ps)), snd (path_of (PayloadDirectory ps)) @ [name])"
    by (rule path_of_append)
      (use assms in \<open>simp_all add: PayloadDirectory_def payload_directory_def path_append_end proper_def\<close>)
  then show ?thesis by (simp add: directory_path)
qed

lemma runtime_names:
  assumes "nul_free (ps_dataPath ps)"
  shows "\<forall>c\<in>set (snd (runtime_path ps)). c \<noteq> [] \<and> CHR ''/'' \<notin> set c \<and> nul_free c"
proof -
  let ?s = "path_append (ps_dataPath ps) ''memory_runtime''"
  have "nul_free ?s" "last ?s \<noteq> CHR ''/''"
    using path_append_end [of "''memory_runtime''" "ps_dataPath ps"] assms by (simp_all add: nul_free_def)
  then show ?thesis
    using segments_no_slash [of _ ?s] segments_chars [of _ ?s] unfolding path_of_def Let_def nul_free_def by auto
qed

lemma proper_payloads: "proper ''payloads''"
  by (simp add: proper_def dot_def dotdot_def nul_free_def)

text \<open>Resolving a path below the runtime directory continues from where that directory is.\<close>

lemma service_walk:
  assumes "service_ok ps F P" "\<forall>c\<in>set cs. proper c"
  shows "wf_path (fst (runtime_path ps), snd (runtime_path ps) @ cs)"
    "\<exists>m. sys_walk F (fst (runtime_path ps), snd (runtime_path ps) @ cs) = walk (node F) m P cs \<and>
       walk (node F) MAX_LINKS (start_of F (runtime_path ps)) (snd (runtime_path ps)) = Found P"
proof -
  have names: "\<forall>c\<in>set (snd (runtime_path ps)). c \<noteq> [] \<and> CHR ''/'' \<notin> set c \<and> nul_free c"
    using assms(1) by (intro runtime_names) (simp add: service_ok_def)
  then show wf: "wf_path (fst (runtime_path ps), snd (runtime_path ps) @ cs)"
    using assms(2) by (intro wf_path_plain) (auto simp: proper_def)
  have wf0: "wf_path (runtime_path ps)" using wf_path_plain [OF names, of "fst (runtime_path ps)"] by simp
  have ne: "fst (runtime_path ps) \<or> snd (runtime_path ps) \<noteq> []"
    and w: "walk (node F) MAX_LINKS (start_of F (runtime_path ps)) (snd (runtime_path ps)) = Found P"
    using assms(1) wf0 by (auto simp: service_ok_def sys_walk_wf split: if_splits)
  from walk_append [OF w] obtain m where "\<forall>ys. walk (node F) MAX_LINKS (start_of F (runtime_path ps)) (snd (runtime_path ps) @ ys) = walk (node F) m P ys"
    by blast
  then show "\<exists>m. sys_walk F (fst (runtime_path ps), snd (runtime_path ps) @ cs) = walk (node F) m P cs \<and>
       walk (node F) MAX_LINKS (start_of F (runtime_path ps)) (snd (runtime_path ps)) = Found P"
    using ne wf w by (auto simp: sys_walk_wf start_of_def)
qed

lemma service_entry:
  assumes "service_ok ps F P" "node F (P @ [''payloads'']) = Some Dir" "proper name"
  shows "entry_of F (fst (runtime_path ps), snd (runtime_path ps) @ [''payloads'', name]) = Some (P @ [''payloads'', name])"
    "sys_walk F (fst (runtime_path ps), snd (runtime_path ps) @ [''payloads'', name]) =
       (case node F (P @ [''payloads'', name]) of None \<Rightarrow> Missing (P @ [''payloads'']) name [] | Some _ \<Rightarrow> Found (P @ [''payloads'', name]))"
proof -
  let ?rp = "runtime_path ps"
  obtain m where m: "sys_walk F (fst ?rp, snd ?rp @ [''payloads'', name]) = walk (node F) m P [''payloads'', name]"
    using service_walk(2) [OF assms(1), of "[''payloads'', name]"] assms(3) proper_payloads by auto
  have P: "node F P = Some Dir" and nolink: "\<And>t. node F (P @ [''payloads'', name]) \<noteq> Some (Link t)"
    using assms(1) by (auto simp: service_ok_def no_links_below_def)
  have step: "walk (node F) k P (''payloads'' # ys) = walk (node F) k (P @ [''payloads'']) ys" for k ys
    using P assms(2) by (simp add: dot_def dotdot_def)
  show "sys_walk F (fst ?rp, snd ?rp @ [''payloads'', name]) =
       (case node F (P @ [''payloads'', name]) of None \<Rightarrow> Missing (P @ [''payloads'']) name [] | Some _ \<Rightarrow> Found (P @ [''payloads'', name]))"
    using m step assms(2,3) nolink by (auto simp: proper_def split: option.splits node.splits)
  obtain k where w: "sys_walk F (fst ?rp, snd ?rp @ [''payloads'']) = walk (node F) k P [''payloads'']"
    using service_walk(2) [OF assms(1), of "[''payloads'']"] proper_payloads by auto
  have wf: "wf_path (fst ?rp, snd ?rp @ [''payloads'', name])" "wf_path (fst ?rp, snd ?rp @ [''payloads''])"
    using service_walk(1) [OF assms(1)] assms(3) proper_payloads by auto
  have "walk (node F) MAX_LINKS (start_of F ?rp) (snd ?rp @ [''payloads'']) = Found (P @ [''payloads''])"
    using w step [of k "[]"] wf(2) by (simp add: sys_walk_wf start_of_def)
  then show "entry_of F (fst ?rp, snd ?rp @ [''payloads'', name]) = Some (P @ [''payloads'', name])"
    using assms(2) by (simp add: entry_of_def sys_path_id [OF wf(1)] Let_def start_of_def butlast_append)
qed

section \<open>The effect of an atomic write\<close>

text \<open>The nodes after the directory and the file are there.\<close>

definition with_file :: "string list \<Rightarrow> string \<Rightarrow> node \<Rightarrow> (string list \<Rightarrow> node option) \<Rightarrow> string list \<Rightarrow> node option" where
  "with_file P name n N = N(P @ [''payloads''] \<mapsto> Dir, P @ [''payloads'', name] \<mapsto> n)"

lemma service_prefix:
  assumes ok: "service_ok ps F P" and split: "snd (runtime_path ps) = pre @ x # suf"
  obtains mid where "sys_walk F (fst (runtime_path ps), pre @ [x]) = Found mid" "node F mid = Some Dir"
proof -
  let ?rp = "runtime_path ps"
  have w: "walk (node F) MAX_LINKS (start_of F ?rp) (snd ?rp) = Found P" and P: "node F P = Some Dir"
    using service_walk(2) [OF ok, of "[]"] ok by (auto simp: service_ok_def)
  obtain mid where mid: "walk (node F) MAX_LINKS (start_of F ?rp) (pre @ [x]) = Found mid"
    using walk_prefix [of "node F" MAX_LINKS _ "pre @ [x]" suf P] w split by auto
  obtain m where m: "walk (node F) m mid suf = Found P"
    using walk_append [OF mid] w split by (metis append.assoc append_Cons append_Nil)
  have "node F mid = Some Dir" using m P by (cases suf) (auto split: if_splits)
  moreover have "wf_path (fst ?rp, pre @ [x])"
    using runtime_names [of ps] ok split by (intro wf_path_plain) (auto simp: service_ok_def)
  then have "sys_walk F (fst ?rp, pre @ [x]) = Found mid" using mid by (simp add: sys_walk_wf start_of_def)
  ultimately show ?thesis using that by blast
qed

lemma make_dirs_through:
  assumes ok: "service_ok ps F P" and split: "snd (runtime_path ps) = pre @ suf"
  shows "make_dirs (fst (runtime_path ps), pre) (suf @ ys) F = make_dirs (fst (runtime_path ps), pre @ suf) ys F"
  using split
proof (induction suf arbitrary: pre)
  case (Cons x suf)
  from service_prefix [OF ok Cons.prems] obtain mid
    where "sys_walk F (fst (runtime_path ps), pre @ [x]) = Found mid" "node F mid = Some Dir" .
  then show ?case using Cons.IH [of "pre @ [x]"] Cons.prems by simp
qed simp

lemma service_names:
  "service_ok ps F P \<Longrightarrow> filter (\<lambda>c. c \<noteq> []) (snd (runtime_path ps)) = snd (runtime_path ps)"
  using runtime_names [of ps] by (simp add: service_ok_def filter_id_conv)

lemma service_directory:
  assumes ok: "service_ok ps F P"
  shows "entry_of F (fst (runtime_path ps), snd (runtime_path ps) @ [''payloads'']) = Some (P @ [''payloads''])"
    "sys_walk F (fst (runtime_path ps), snd (runtime_path ps) @ [''payloads'']) =
       (if node F (P @ [''payloads'']) = Some Dir then Found (P @ [''payloads'']) else Missing P ''payloads'' [])"
proof -
  let ?rp = "runtime_path ps" and ?d = "P @ [''payloads'']"
  obtain m where m: "sys_walk F (fst ?rp, snd ?rp @ [''payloads'']) = walk (node F) m P [''payloads'']"
    and w: "walk (node F) MAX_LINKS (start_of F ?rp) (snd ?rp) = Found P"
    using service_walk(2) [OF ok, of "[''payloads'']"] proper_payloads by auto
  have P: "node F P = Some Dir" "node F ?d = None \<or> node F ?d = Some Dir" using ok by (auto simp: service_ok_def)
  have wf: "wf_path (fst ?rp, snd ?rp @ [''payloads''])" using service_walk(1) [OF ok] proper_payloads by simp
  show "entry_of F (fst ?rp, snd ?rp @ [''payloads'']) = Some ?d"
    using w P by (simp add: entry_of_def sys_path_id [OF wf] Let_def start_of_def)
  show "sys_walk F (fst ?rp, snd ?rp @ [''payloads'']) = (if node F ?d = Some Dir then Found ?d else Missing P ''payloads'' [])"
    using m P by (auto simp: dot_def dotdot_def)
qed

text \<open>Creating the payload directory is at most one \<open>mkdir\<close>.\<close>

lemma directory_call:
  assumes ok: "service_ok ps F P"
  shows "create_directories (path_of (PayloadDirectory ps)) F =
    (if node F (P @ [''payloads'']) = Some Dir then (True, F)
     else let (made, F1) = next_io F in if made then (True, put_node (P @ [''payloads'']) Dir F1) else (False, F1))"
proof -
  let ?rp = "runtime_path ps"
  have "create_directories (path_of (PayloadDirectory ps)) F = make_dirs (fst ?rp, snd ?rp) [''payloads''] F"
    using make_dirs_through [OF ok, of "[]" "snd ?rp" "[''payloads'']"] service_names [OF ok]
    by (simp add: create_directories_def directory_path)
  moreover have "node F (P @ [''payloads'']) = None \<or> node F (P @ [''payloads'']) = Some Dir" using ok by (auto simp: service_ok_def)
  ultimately show ?thesis using service_directory [OF ok] by (auto split: prod.splits)
qed

lemma directory_created:
  assumes ok: "service_ok ps F P" and made: "create_directories (path_of (PayloadDirectory ps)) F = (True, F1)"
  shows "node F1 = (node F)(P @ [''payloads''] \<mapsto> Dir)" "fs_cwd F1 = fs_cwd F" "fs_now F1 = fs_now F"
proof -
  obtain made F2 where io: "next_io F = (made, F2)" by fastforce
  then have "F1 = F \<and> node F (P @ [''payloads'']) = Some Dir \<or> F1 = put_node (P @ [''payloads'']) Dir F2"
    using made directory_call [OF ok] by (auto split: if_splits)
  then show "node F1 = (node F)(P @ [''payloads''] \<mapsto> Dir)" "fs_cwd F1 = fs_cwd F" "fs_now F1 = fs_now F"
    using next_io_nodes [OF io] by (auto simp: fun_eq_iff)
qed

lemma directory_made:
  assumes "service_ok ps F P" "fs_io F = []"
  shows "\<exists>F1. create_directories (path_of (PayloadDirectory ps)) F = (True, F1) \<and> fs_io F1 = []"
  using directory_call [OF assms(1)] assms(2) by (simp add: next_io_def)

lemma fs_ok_add:
  assumes "fs_ok F" "node F' = (node F)(loc \<mapsto> n)" "fs_cwd F' = fs_cwd F" "loc \<noteq> []" "proper (last loc)"
    "node F (butlast loc) = Some Dir" "node F loc = None \<or> (n = Dir \<and> node F loc = Some Dir) \<or> (\<exists>c t. node F loc = Some (File c t))"
  shows "fs_ok F'"
proof -
  have dirs: "node F' l = Some Dir" if "node F l = Some Dir" for l using that assms(2,7) by auto
  have "node F' l = Some x \<longrightarrow> l = [] \<or> proper (last l) \<and> node F' (butlast l) = Some Dir" for l x
  proof (cases "l = loc")
    case True
    then show ?thesis using assms(5,6) dirs by auto
  next
    case False
    then have "node F' l = node F l" by (simp add: assms(2))
    then show ?thesis using assms(1) dirs unfolding fs_ok_def tree_def by metis
  qed
  moreover have "node F' [] = Some Dir" "node F' (fs_cwd F') = Some Dir"
    using assms(1,3) dirs unfolding fs_ok_def tree_def by auto
  ultimately show ?thesis unfolding fs_ok_def tree_def by blast
qed

lemma service_ok_add:
  assumes ok: "service_ok ps F P" and N: "node F' = (node F)(loc \<mapsto> n)" "fs_cwd F' = fs_cwd F"
    and loc: "loc \<noteq> []" "proper (last loc)" "node F (butlast loc) = Some Dir"
      "node F loc = None \<or> (n = Dir \<and> node F loc = Some Dir)"
    and n: "n = Dir \<or> (\<exists>c t. n = File c t \<and> loc \<noteq> P @ [''payloads''])"
  shows "service_ok ps F' P"
proof -
  have keep: "node F' l = Some x" if "node F l = Some x" for l x using that N(1) loc(4) by auto
  have wf: "wf_path (runtime_path ps)" using service_walk(1) [OF ok, of "[]"] by simp
  have "sys_walk F' (runtime_path ps) = Found P"
    using ok walk_mono [of "node F" MAX_LINKS "start_of F (runtime_path ps)" "snd (runtime_path ps)" P "node F'"] keep N(2) wf
    by (auto simp: service_ok_def sys_walk_wf start_of_def split: if_splits)
  moreover have "fs_ok F'" using fs_ok_add [OF _ N loc(1-3)] loc(4) ok by (auto simp: service_ok_def)
  moreover have "node F' P = Some Dir" using keep ok by (simp add: service_ok_def)
  moreover have "node F' (P @ [''payloads'']) = None \<or> node F' (P @ [''payloads'']) = Some Dir"
    using ok N(1) n by (auto simp: service_ok_def)
  moreover have "no_links_below F' (P @ [''payloads''])"
    using ok N(1) n by (auto simp: service_ok_def no_links_below_def)
  ultimately show ?thesis using ok by (simp add: service_ok_def)
qed


lemma append2: "P @ [a, b] = (P @ [a]) @ [b]"
  by simp

lemma open_trunc_missing:
  assumes "sys_walk F p = Missing d name []" "open_trunc p F = (Some loc, F')"
  shows "loc = d @ [name]" "node F' = (node F)(d @ [name] \<mapsto> File [] (fs_now F))" "fs_cwd F' = fs_cwd F" "fs_now F' = fs_now F"
proof -
  obtain ok F1 where io: "next_io F = (ok, F1)" by fastforce
  have "sys_walk F1 p = Missing d name []" using sys_walk_cong [of F1 F] next_io_nodes [OF io] assms(1) by simp
  with assms(2) io have "loc = d @ [name]" "F' = put_node (d @ [name]) (File [] (fs_now F1)) F1"
    by (auto simp: open_trunc_def split: if_splits)
  then show "loc = d @ [name]" "node F' = (node F)(d @ [name] \<mapsto> File [] (fs_now F))" "fs_cwd F' = fs_cwd F" "fs_now F' = fs_now F"
    using next_io_nodes [OF io] by (auto simp: fun_eq_iff)
qed

lemma write_close_done:
  assumes "write_close loc content F = (True, F')" "loc \<noteq> []"
  shows "node F' = (node F)(loc \<mapsto> File content (fs_now F))" "fs_cwd F' = fs_cwd F" "fs_now F' = fs_now F"
proof -
  obtain ok F1 where io: "next_io F = (ok, F1)" by fastforce
  with assms(1) have "F' = put_node loc (File content (fs_now F1)) F1" by (auto simp: write_close_def split: if_splits)
  then show "node F' = (node F)(loc \<mapsto> File content (fs_now F))" "fs_cwd F' = fs_cwd F" "fs_now F' = fs_now F"
    using next_io_nodes [OF io] assms(2) by (auto simp: fun_eq_iff)
qed

lemma entry_of_cong: "node F = node F' \<Longrightarrow> fs_cwd F = fs_cwd F' \<Longrightarrow> entry_of F p = entry_of F' p"
  unfolding entry_of_def Let_def by metis

lemma rename_done:
  assumes "rename_path old new F = (True, F')" "entry_of F old = Some a" "entry_of F new = Some b" "node F a = Some n" "a \<noteq> []" "b \<noteq> []"
  shows "node F' = (node F)(a := None, b \<mapsto> n)" "fs_cwd F' = fs_cwd F"
proof -
  obtain ok F1 where io: "next_io F = (ok, F1)" by fastforce
  have e: "entry_of F1 old = Some a" "entry_of F1 new = Some b" "node F1 a = Some n"
    using entry_of_cong [of F1 F] next_io_nodes [OF io] assms(2-4) by simp_all
  with assms(1) io have "F' = put_node b n (del_node a F1)"
    by (auto simp: rename_path_def split: if_splits)
  then show "node F' = (node F)(a := None, b \<mapsto> n)" "fs_cwd F' = fs_cwd F"
    using next_io_nodes [OF io] assms(5,6) by (auto simp: fun_eq_iff)
qed

lemma write_effect:
  assumes ok: "service_ok ps F P" and names: "proper name" "proper (name @ ''.tmp.'' @ RandomHexSuffix rnd)"
    and run: "WritePayloadFileAtomically rnd (PayloadDirectory ps) name content F = (None, F')"
  shows "node F' = with_file P name (File content (fs_now F)) (node F)" "fs_cwd F' = fs_cwd F" "node F (P @ [''payloads'', name]) = None"
proof -
  let ?rp = "runtime_path ps" and ?d = "P @ [''payloads'']" and ?tn = "name @ ''.tmp.'' @ RandomHexSuffix rnd"
  let ?pp = "(fst ?rp, snd ?rp @ [''payloads'', name])" and ?tp = "(fst ?rp, snd ?rp @ [''payloads'', ?tn])"
  note un = run [unfolded WritePayloadFileAtomically_def Let_def payload_path [OF names(1)] payload_path [OF names(2)]]
  obtain F1 where mk: "create_directories (path_of (PayloadDirectory ps)) F = (True, F1)"
    using un by (auto split: prod.splits if_splits)
  note d1 = directory_created [OF ok mk]
  have ok1: "service_ok ps F1 P"
    by (rule service_ok_add [OF ok d1(1,2)]) (use ok proper_payloads in \<open>auto simp: service_ok_def\<close>)
  have dir1: "node F1 ?d = Some Dir" by (simp add: d1(1))
  note un1 = un [unfolded mk prod.case, simplified]
  have ex: "\<not> exists_path F1 ?pp" "\<not> exists_path F1 ?tp" using un1 by (auto split: if_splits)
  have none: "node F1 (P @ [''payloads'', name]) = None" "node F1 (P @ [''payloads'', ?tn]) = None"
    using ex service_entry(2) [OF ok1 dir1 names(1)] service_entry(2) [OF ok1 dir1 names(2)]
    by (auto simp: exists_path_def split: option.splits)
  have miss: "sys_walk F1 ?tp = Missing ?d ?tn []" using service_entry(2) [OF ok1 dir1 names(2)] none(2) by simp
  obtain loc F2 where op: "open_trunc ?tp F1 = (Some loc, F2)"
    using un1 ex by (auto split: prod.splits option.splits)
  note o2 = open_trunc_missing [OF miss op]
  have loc: "loc = P @ [''payloads'', ?tn]" using o2(1) by simp
  obtain F3 where wr: "write_close loc content F2 = (True, F3)"
    using un1 ex op by (auto split: prod.splits if_splits)
  note w3 = write_close_done [OF wr]
  have N3: "node F3 = (node F1)(P @ [''payloads'', ?tn] \<mapsto> File content (fs_now F))" "fs_cwd F3 = fs_cwd F1"
    using w3 o2 d1(3) loc by (auto simp: fun_eq_iff)
  have ok3: "service_ok ps F3 P"
    by (rule service_ok_add [OF ok1 N3]) (use names(2) dir1 none(2) in \<open>auto simp: butlast_append\<close>)
  have dir3: "node F3 ?d = Some Dir" using N3 dir1 by simp
  have rn: "rename_path ?tp ?pp F3 = (True, F')"
    using un1 ex op wr by (auto split: prod.splits if_splits)
  have N: "node F' = (node F3)(P @ [''payloads'', ?tn] := None, P @ [''payloads'', name] \<mapsto> File content (fs_now F))" "fs_cwd F' = fs_cwd F3"
    by (rule rename_done [OF rn service_entry(1) [OF ok3 dir3 names(2)] service_entry(1) [OF ok3 dir3 names(1)]]; simp add: N3)+
  have diff: "?tn \<noteq> name" by simp
  show "node F' = with_file P name (File content (fs_now F)) (node F)"
    unfolding with_file_def N(1) N3(1) d1(1) using none(2) d1(1) diff by (auto simp: fun_eq_iff)
  show "fs_cwd F' = fs_cwd F" using N(2) N3(2) d1(2) by simp
  show "node F (P @ [''payloads'', name]) = None" using none(1) d1(1) by simp
qed


section \<open>Names of payload files\<close>

definition ref_ok :: "char \<Rightarrow> bool" where
  "ref_ok c = (isalnum c \<or> c = CHR ''_'' \<or> c = CHR ''-'')"

lemma ref_ok_plain: "ref_ok c \<Longrightarrow> c \<noteq> CHR ''/'' \<and> c \<noteq> CHR ''.'' \<and> c \<noteq> CHR 0x00"
proof -
  have "\<not> ref_ok (CHR ''/'')" "\<not> ref_ok (CHR ''.'')" "\<not> ref_ok (CHR 0x00)" by code_simp+
  then show "ref_ok c \<Longrightarrow> ?thesis" by blast
qed

lemma hex_digits_ok: "\<forall>c\<in>set (hex_digits n). ref_ok c"
proof (induction n rule: hex_digits.induct)
  case (1 n)
  have digit: "d < 16 \<Longrightarrow> ref_ok (hex_char d)" for d
    by (cases "d < 10") (simp_all add: ref_ok_def hex_char_def isalnum_def isdigit_def islower_def code_of_def)
  show ?case
  proof (cases "n < 16")
    case True
    then show ?thesis using digit by (simp add: hex_digits.simps [of n])
  next
    case False
    then have "hex_digits n = hex_digits (n div 16) @ [hex_char (n mod 16)]" by (simp add: hex_digits.simps [of n])
    then show ?thesis using 1 [OF False] digit [of "n mod 16"] by simp
  qed
qed

lemma BuildPayloadRef_ok: "\<forall>c\<in>set (BuildPayloadRef rnd request). ref_ok c" "BuildPayloadRef rnd request \<noteq> []"
proof -
  have "ref_ok (ref_char c)" for c by (simp add: ref_char_def ref_ok_def)
  then show "\<forall>c\<in>set (BuildPayloadRef rnd request). ref_ok c"
    by (cases rnd) (auto simp only: BuildPayloadRef_def prod.case set_map)
  show "BuildPayloadRef rnd request \<noteq> []" by (cases rnd) (simp add: BuildPayloadRef_def)
qed

lemma RandomHexSuffix_ok: "\<forall>c\<in>set (RandomHexSuffix rnd). ref_ok c"
  by (cases rnd) (simp add: RandomHexSuffix_def ball_Un hex_digits_ok)

lemma proper_dotted:
  assumes "\<forall>c\<in>set a. ref_ok c" "\<forall>c\<in>set b. ref_ok c \<or> c = CHR ''.''" "a \<noteq> []"
  shows "proper (a @ b)"
proof -
  have chars: "\<forall>c\<in>set (a @ b). c \<noteq> CHR ''/'' \<and> c \<noteq> CHR 0x00"
    using assms(1,2) ref_ok_plain by auto
  have "hd (a @ b) \<noteq> CHR ''.''" using assms(1,3) ref_ok_plain [of "hd a"] by simp
  then have "a @ b \<noteq> dot" "a @ b \<noteq> dotdot" by (auto simp: dot_def dotdot_def)
  then show ?thesis using chars assms(3) by (auto simp: proper_def nul_free_def)
qed

lemma payload_names:
  "proper (BuildPayloadRef rnd request @ ''.txt'')"
  "proper ((BuildPayloadRef rnd request @ ''.txt'') @ ''.tmp.'' @ RandomHexSuffix rnd)"
proof -
  have "\<forall>c\<in>set ''.txt''. ref_ok c \<or> c = CHR ''.''" "\<forall>c\<in>set ''.txt.tmp.''. ref_ok c \<or> c = CHR ''.''" by code_simp+
  then show "proper (BuildPayloadRef rnd request @ ''.txt'')"
    "proper ((BuildPayloadRef rnd request @ ''.txt'') @ ''.tmp.'' @ RandomHexSuffix rnd)"
    using proper_dotted [OF BuildPayloadRef_ok(1) _ BuildPayloadRef_ok(2), of "''.txt''" rnd request]
      proper_dotted [OF BuildPayloadRef_ok(1) _ BuildPayloadRef_ok(2), of "''.txt.tmp.'' @ RandomHexSuffix rnd" rnd request]
      RandomHexSuffix_ok [of rnd] by auto
qed

text \<open>A payload file is never taken for a temporary one: its name holds a single dot.\<close>

lemma payload_not_temp: "\<not> str_contains ''.txt.tmp.'' (BuildPayloadRef rnd request @ ''.txt'')"
proof
  let ?dots = "\<lambda>s. length (filter (\<lambda>c. c = CHR ''.'') s)"
  assume "str_contains ''.txt.tmp.'' (BuildPayloadRef rnd request @ ''.txt'')"
  then obtain a b where ab: "BuildPayloadRef rnd request @ ''.txt'' = a @ ''.txt.tmp.'' @ b"
    by (auto simp: str_contains_iff sublist_def)
  have "filter (\<lambda>c. c = CHR ''.'') (BuildPayloadRef rnd request) = []"
    using BuildPayloadRef_ok(1) [of rnd request] ref_ok_plain by (auto simp: filter_empty_conv)
  then have "?dots (BuildPayloadRef rnd request @ ''.txt'') = 1" by simp
  moreover have "?dots (a @ ''.txt.tmp.'' @ b) \<ge> 3" by simp
  ultimately show False unfolding ab by simp
qed

section \<open>The background cleanup\<close>

text \<open>What a cleanup may take away: regular files with a temporary name.\<close>

definition cleaned :: "filesys \<Rightarrow> filesys \<Rightarrow> bool" where
  "cleaned F F' = (fs_cwd F' = fs_cwd F \<and> (\<forall>l. node F' l = node F l \<or>
     node F' l = None \<and> (\<exists>c t. node F l = Some (File c t)) \<and> str_contains ''.txt.tmp.'' (last l)))"

lemma cleaned_refl [simp]: "cleaned F F"
  by (simp add: cleaned_def)

lemma cleaned_trans: "cleaned F G \<Longrightarrow> cleaned G H \<Longrightarrow> cleaned F H"
  unfolding cleaned_def by metis

lemma cleaned_dirs: "cleaned F F' \<Longrightarrow> node F l = Some Dir \<Longrightarrow> node F' l = Some Dir"
  unfolding cleaned_def by (metis node.distinct(1) option.inject)

lemma cleaned_sub: "cleaned F F' \<Longrightarrow> node F' l = Some x \<Longrightarrow> node F l = Some x"
  unfolding cleaned_def by (metis option.distinct(1))

lemma cleaned_fs_ok:
  assumes "fs_ok F" "cleaned F F'"
  shows "fs_ok F'"
  unfolding fs_ok_def tree_def
proof (intro conjI allI impI)
  show "node F' [] = Some Dir" "node F' (fs_cwd F') = Some Dir"
    using assms cleaned_dirs [OF assms(2)] unfolding fs_ok_def tree_def cleaned_def by auto
  show "loc = [] \<or> proper (last loc) \<and> node F' (butlast loc) = Some Dir" if "node F' loc = Some n" for loc n
    using cleaned_sub [OF assms(2) that] cleaned_dirs [OF assms(2)] assms(1) unfolding fs_ok_def tree_def by metis
qed


lemma cleaned_service:
  assumes ok: "service_ok ps F P" and cl: "cleaned F F'"
  shows "service_ok ps F' P"
proof -
  have wf: "wf_path (runtime_path ps)" using service_walk(1) [OF ok, of "[]"] by simp
  have w: "walk (node F) MAX_LINKS (start_of F (runtime_path ps)) (snd (runtime_path ps)) = Found P"
    using service_walk(2) [OF ok, of "[]"] by simp
  have P: "node F P = Some Dir" using ok by (simp add: service_ok_def)
  have "walk (node F') n cur cs = Found P" if "walk (node F) n cur cs = Found P" for n cur cs
    using that
  proof (induction "node F" n cur cs rule: walk.induct)
    case (2 n cur c cs)
    then have dir: "node F cur = Some Dir" "node F' cur = Some Dir" using cleaned_dirs [OF cl] by (auto split: if_splits)
    show ?case
    proof (cases "c = [] \<or> c = dot \<or> c = dotdot")
      case True
      then show ?thesis using 2 dir by (auto simp: dot_def dotdot_def)
    next
      case False
      then obtain x where x: "node F (cur @ [c]) = Some x" using 2 dir by (auto split: option.splits)
      show ?thesis
      proof (cases x)
        case (File a b)
        have "walk (node F) n (cur @ [c]) cs = Found P" using 2 False dir x File by simp
        then have False using P x File by (cases cs) (auto split: if_splits)
        then show ?thesis ..
      next
        case Dir
        then show ?thesis using 2 False dir x cleaned_dirs [OF cl] by auto
      next
        case (Link t)
        then have "node F' (cur @ [c]) = Some (Link t)" using cl x unfolding cleaned_def by (metis node.distinct(5) option.inject)
        then show ?thesis using 2 False dir x Link by (cases n) auto
      qed
    qed
  qed simp
  from this [OF w] have "sys_walk F' (runtime_path ps) = Found P"
    using wf ok cl by (auto simp: service_ok_def sys_walk_wf start_of_def cleaned_def split: if_splits)
  moreover have "fs_ok F'" using cleaned_fs_ok [OF _ cl] ok by (simp add: service_ok_def)
  moreover have "node F' (P @ [''payloads'']) = None \<or> node F' (P @ [''payloads'']) = Some Dir"
  proof (cases "node F' (P @ [''payloads''])")
    case (Some x)
    then show ?thesis using cleaned_sub [OF cl Some] ok by (auto simp: service_ok_def)
  qed simp
  moreover have "no_links_below F' (P @ [''payloads''])"
    using ok cleaned_sub [OF cl] by (auto simp: service_ok_def no_links_below_def)
  ultimately show ?thesis using ok cleaned_dirs [OF cl P] by (simp add: service_ok_def)
qed

lemma cleanup_entry:
  assumes "service_ok ps F P" "butlast loc = P @ [''payloads'']" "cleanup_candidate F loc" "loc \<noteq> []"
  shows "\<exists>c t. node F loc = Some (File c t)" "str_contains ''.txt.tmp.'' (last loc)"
proof -
  have loc: "loc = (P @ [''payloads'']) @ [last loc]" using assms(2,4) by (metis append_butlast_last_id)
  have nolink: "\<And>t. node F loc \<noteq> Some (Link t)"
    using assms(1) unfolding service_ok_def no_links_below_def by (metis loc not_Cons_self2)
  obtain l c t where l: "walk (node F) MAX_LINKS [] loc = Found l" "node F l = Some (File c t)"
    and n: "str_contains ''.txt.tmp.'' (last loc)"
    using assms(3) by (auto simp: cleanup_candidate_def regular_file_def split: option.splits walked.splits node.splits)
  have "node F loc \<noteq> None"
  proof
    assume none: "node F loc = None"
    obtain mid where mid: "walk (node F) MAX_LINKS [] (P @ [''payloads'']) = Found mid"
      using walk_prefix [of "node F" MAX_LINKS "[]" "P @ [''payloads'']" "[last loc]"] l(1) loc by metis
    have dirP: "real_loc (node F) P" "tree (node F)" using assms(1) by (auto simp: service_ok_def real_loc_def fs_ok_def)
    have "walk (node F) MAX_LINKS P [''payloads''] = Found mid"
      using mid walk_real [OF dirP(2), of "[]" P MAX_LINKS "[''payloads'']"] dirP(1) by simp
    then have pd: "node F (P @ [''payloads'']) = Some Dir"
      using assms(1) by (auto simp: service_ok_def dot_def dotdot_def split: if_splits option.splits)
    then have "real_loc (node F) (P @ [''payloads''])" by (simp add: real_loc_def)
    then have w: "walk (node F) MAX_LINKS (P @ [''payloads'']) [last loc] = Found l"
      using walk_real [OF dirP(2), of "[]" "P @ [''payloads'']" MAX_LINKS "[last loc]"] l(1) loc by simp
    have nm: "last loc \<noteq> []" "last loc \<noteq> dot" "last loc \<noteq> dotdot"
      using n by (auto simp: str_contains_iff dot_def dotdot_def dest!: sublist_length_le)
    show False using w pd nm none loc by simp
  qed
  then obtain x where x: "node F loc = Some x" by blast
  then have "real_loc (node F) loc" using nolink by (auto simp: real_loc_def)
  then have "l = loc" using walk_real_self l(1) assms(1) by (auto simp: service_ok_def fs_ok_def)
  then show "\<exists>c t. node F loc = Some (File c t)" using l(2) by blast
  show "str_contains ''.txt.tmp.'' (last loc)" by (rule n)
qed

lemma cleanup_entries_cleaned:
  "service_ok ps F P \<Longrightarrow> \<forall>loc\<in>set locs. loc \<noteq> [] \<and> butlast loc = P @ [''payloads''] \<Longrightarrow> cleaned F (cleanup_entries locs F)"
proof (induction locs arbitrary: F)
  case (Cons loc locs)
  show ?case
  proof (cases "cleanup_candidate F loc")
    case True
    obtain ok F1 where io: "next_io F = (ok, F1)" by fastforce
    note same = next_io_nodes [OF io]
    have stale: "\<exists>c t. node F loc = Some (File c t)" "str_contains ''.txt.tmp.'' (last loc)" "loc \<noteq> []"
      using cleanup_entry [OF Cons.prems(1) _ True] Cons.prems(2) by auto
    have one: "cleaned F (if ok then del_node loc F1 else F1)"
      using stale same by (auto simp: cleaned_def)
    from Cons.IH [OF cleaned_service [OF Cons.prems(1) one]] Cons.prems(2) cleaned_trans [OF one]
    show ?thesis using True io by simp
  qed (use Cons in simp)
qed simp

lemma TempFileCleanup_service:
  "service_ok ps F P \<Longrightarrow> TempFileCleanup ps F =
    (if node F (P @ [''payloads'']) = Some Dir then cleanup_entries (children F (P @ [''payloads''])) F else F)"
  using service_directory(2) [of ps F P] by (simp add: TempFileCleanup_def directory_path)

lemma TempFileCleanup_cleaned:
  assumes "service_ok ps F P"
  shows "cleaned F (TempFileCleanup ps F)"
proof -
  have "cleaned F (cleanup_entries (children F (P @ [''payloads''])) F)"
    by (rule cleanup_entries_cleaned [OF assms]) (auto simp: children_def)
  then show ?thesis by (simp add: TempFileCleanup_service [OF assms])
qed


section \<open>Reading back\<close>

lemma read_stored:
  assumes ok: "service_ok ps F P" and dir: "node F (P @ [''payloads'']) = Some Dir" and name: "proper name"
    and stored: "node F (P @ [''payloads'', name]) = Some (File content t)" "content \<noteq> []" and io: "fs_io F = []"
  shows "ReadPayload ps (''file://'' @ path_append (PayloadDirectory ps) name) F = (Ret (success_with content), F)"
proof -
  let ?text = "path_append (PayloadDirectory ps) name" and ?d = "P @ [''payloads'']" and ?loc = "P @ [''payloads'', name]"
  have fs: "fs_ok F" using ok by (simp add: service_ok_def)
  have real: "real_loc (node F) ?d" "real_loc (node F) ?loc" using dir stored by (simp_all add: real_loc_def)
  have wf: "wf_path (True, ?d)" "wf_path (True, ?loc)"
    using real_names [OF fs real(1)] real_names [OF fs real(2)] proper_wf by blast+
  have q: "weakly_canonical F (path_of ?text) = Some (True, ?loc)"
    using service_entry(2) [OF ok dir name] stored by (simp add: payload_path [OF name] weakly_canonical_def)
  have cd: "weakly_canonical F (True, ?d) = Some (True, ?d)"
    using sys_walk_self [OF fs real(1)] by (simp add: weakly_canonical_def)
  have inside: "IsPathInsideDirectory F ?text (path_string (True, ?d))"
    using q cd path_of_string [OF wf(1)] by (simp add: IsPathInsideDirectory_def dir_matches_prefix elements_def)
  have load: "LoadTextFile (path_string (True, ?loc)) F = (Ret (Some content), F)"
    using sys_walk_self [OF fs real(2)] path_of_string [OF wf(2)] stored io by (simp add: LoadTextFile_def next_io_def)
  have "ps_canonicalPayloadDirectory ps = path_string (True, ?d)" "path_string (True, ?d) \<noteq> []"
    using ok by (simp_all add: service_ok_def path_string_def)
  moreover have "CanonicalPath F ?text = path_string (True, ?loc)" using q by (simp add: CanonicalPath_def)
  ultimately show ?thesis
    unfolding ReadPayload_def Let_def using inside load stored(2) by (simp add: starts_with_def)
qed

lemma WritePayload_offloaded:
  assumes "WritePayload ps rnd request F s = (Ret r, F', s')" "pwr_offloaded r"
  defines "name \<equiv> BuildPayloadRef rnd request @ ''.txt''"
  shows "WritePayloadFileAtomically rnd (PayloadDirectory ps) name (pw_content request) F = (None, F')"
    "pw_content request \<noteq> []" "pay_uri (pwr_payload r) = ''file://'' @ path_append (PayloadDirectory ps) name"
    "\<exists>sr. SavePayload (pwr_payload r) s = (Ret sr, s') \<and> succeeded sr"
proof -
  obtain e F1 where w: "WritePayloadFileAtomically rnd (PayloadDirectory ps) name (pw_content request) F = (e, F1)" by fastforce
  let ?p = "offloaded_ref request (path_append (PayloadDirectory ps) name)"
  obtain o1 s1 where v: "SavePayload ?p s = (o1, s1)" by fastforce
  obtain rm F2 where m: "remove_path (path_of (path_append (PayloadDirectory ps) name)) F1 = (rm, F2)" by fastforce
  note un = assms(1) [unfolded WritePayload_def Let_def name_def [symmetric] w prod.case]
  have "e = None \<and> F1 = F' \<and> pw_content request \<noteq> [] \<and> pwr_payload r = ?p \<and> (\<exists>sr. o1 = Ret sr \<and> succeeded sr) \<and> s1 = s'"
    using un assms(2) v m
    by (auto simp: inline_result_def failed_write_def split: if_splits option.splits outcome.splits)
  then show "WritePayloadFileAtomically rnd (PayloadDirectory ps) name (pw_content request) F = (None, F')"
    "pw_content request \<noteq> []" "pay_uri (pwr_payload r) = ''file://'' @ path_append (PayloadDirectory ps) name"
    "\<exists>sr. SavePayload (pwr_payload r) s = (Ret sr, s') \<and> succeeded sr"
    using w v by (auto simp: offloaded_ref_def)
qed

lemma atomic_write_service:
  assumes ok: "service_ok ps F P" and name: "proper name" "proper (name @ ''.tmp.'' @ RandomHexSuffix rnd)"
    and run: "WritePayloadFileAtomically rnd (PayloadDirectory ps) name content F = (None, F')"
  shows "service_ok ps F' P"
proof -
  note eff = write_effect [OF ok name run]
  let ?G = "put_node (P @ [''payloads'']) Dir F"
  have "service_ok ps ?G P"
    by (rule service_ok_add [OF ok, where loc = "P @ [''payloads'']" and n = Dir])
      (use ok proper_payloads in \<open>auto simp: service_ok_def fun_eq_iff\<close>)
  then show ?thesis
    by (rule service_ok_add [where loc = "P @ [''payloads'', name]" and n = "File content (fs_now F)"])
      (use eff name in \<open>auto simp: with_file_def fun_eq_iff butlast_append\<close>)
qed

lemma offloaded_file:
  assumes ok: "service_ok ps F P" and run: "WritePayload ps rnd request F s = (Ret r, F', s')" "pwr_offloaded r"
  defines "name \<equiv> BuildPayloadRef rnd request @ ''.txt''"
  shows "service_ok ps F' P" "node F' = with_file P name (File (pw_content request) (fs_now F)) (node F)"
proof -
  note w = WritePayload_offloaded(1) [OF run, folded name_def]
  note names = payload_names [of rnd request, folded name_def]
  show "service_ok ps F' P" by (rule atomic_write_service [OF ok names w])
  show "node F' = with_file P name (File (pw_content request) (fs_now F)) (node F)" by (rule write_effect(1) [OF ok names w])
qed

lemma cleanups_cleaned: "service_ok ps F P \<Longrightarrow> cleaned F ((TempFileCleanup ps ^^ k) F)"
proof (induction k)
  case (Suc k)
  then show ?case
    using TempFileCleanup_cleaned [OF cleaned_service [OF Suc.prems Suc.IH [OF Suc.prems]]] cleaned_trans by simp
qed simp

section \<open>A new service\<close>

lemma leading_walk:
  assumes "wf_path (ab, xs @ [c])" "walk (node F) MAX_LINKS (start_of F (ab, xs)) xs = Found P"
    "sys_walk F (ab, xs @ [c]) = Missing P c []"
  shows "leading F (ab, []) (xs @ c # cs) = Some ((ab, xs), c # cs)"
proof -
  have "leading F (ab, pre) (suf @ c # cs) = Some ((ab, xs), c # cs)" if "xs = pre @ suf" for pre suf
    using that
  proof (induction suf arbitrary: pre)
    case Nil
    then show ?case using assms(3) by simp
  next
    case (Cons x suf)
    have "wf_path (ab, pre @ [x])" using assms(1) Cons.prems wf_path_take [of ab "pre @ [x]" "suf @ [c]"] by simp
    moreover obtain mid where "walk (node F) MAX_LINKS (start_of F (ab, xs)) (pre @ [x]) = Found mid"
      using walk_prefix [of "node F" MAX_LINKS _ "pre @ [x]" suf P] assms(2) Cons.prems by auto
    ultimately have "sys_walk F (ab, pre @ [x]) = Found mid" by (simp add: sys_walk_wf start_of_def)
    then show ?case using Cons.IH [of "pre @ [x]"] Cons.prems by simp
  qed
  from this [of "[]" xs] show ?thesis by simp
qed

lemma new_service_ok:
  assumes fs: "fs_ok F" and data: "nul_free dataPath"
    and P: "sys_walk F (path_of (path_append dataPath ''memory_runtime'')) = Found P" "node F P = Some Dir"
    and sub: "node F (P @ [''payloads'']) = None \<or> node F (P @ [''payloads'']) = Some Dir" "no_links_below F (P @ [''payloads''])"
  shows "service_ok (new_PayloadService config dataPath hasStore F) F P"
proof -
  let ?d = "P @ [''payloads'']"
  define ps where "ps = \<lparr>ps_config = config, ps_dataPath = dataPath, ps_canonicalPayloadDirectory = path_string (True, ?d), ps_store = hasStore\<rparr>"
  have ok: "service_ok ps F P" using assms by (simp add: service_ok_def ps_def)
  let ?rp = "runtime_path ps"
  obtain m where m: "sys_walk F (fst ?rp, snd ?rp @ [''payloads'']) = walk (node F) m P [''payloads'']"
    and w: "walk (node F) MAX_LINKS (start_of F ?rp) (snd ?rp) = Found P"
    using service_walk(2) [OF ok, of "[''payloads'']"] proper_payloads by auto
  have wf: "wf_path (fst ?rp, snd ?rp @ [''payloads''])" using service_walk(1) [OF ok, of "[''payloads'']"] proper_payloads by simp
  have dp: "path_of (payload_directory dataPath) = (fst ?rp, snd ?rp @ [''payloads''])"
    using directory_path [of ps] by (simp add: PayloadDirectory_def ps_def)
  have "weakly_canonical F (path_of (payload_directory dataPath)) = Some (True, ?d)"
  proof (cases "node F ?d = None")
    case False
    then have "sys_walk F (fst ?rp, snd ?rp @ [''payloads'']) = Found ?d" using sub m P by (auto simp: dot_def dotdot_def)
    then show ?thesis by (simp add: dp weakly_canonical_def)
  next
    case True
    then have miss: "sys_walk F (fst ?rp, snd ?rp @ [''payloads'']) = Missing P ''payloads'' []" using m P by (simp add: dot_def dotdot_def)
    have lead: "leading F (fst ?rp, []) (snd ?rp @ [''payloads'']) = Some ((fst ?rp, snd ?rp), [''payloads''])"
      using leading_walk [OF wf _ miss, of "[]"] w by (simp add: start_of_def)
    have names: "\<forall>c\<in>set ?d. proper c" using real_names [OF fs, of P] P(2) proper_payloads by (auto simp: real_loc_def)
    have norm: "lexically_normal (True, ?d) = (True, ?d)"
      using normal_fold_proper [OF names, of True "[]"] by (simp add: lexically_normal_def dot_def dotdot_def del: normal_step.simps)
    have "wf_path ?rp" using service_walk(1) [OF ok, of "[]"] by simp
    then have "fst ?rp \<or> snd ?rp \<noteq> []" using P(1) by (auto simp: ps_def sys_walk_wf)
    then show ?thesis using miss lead norm P(1) by (auto simp: dp weakly_canonical_def ps_def)
  qed
  then have "new_PayloadService config dataPath hasStore F = ps"
    by (simp add: new_PayloadService_def ps_def CanonicalPath_def)
  with ok show ?thesis by simp
qed

text \<open>
  C15: Content that was offloaded is read back unchanged through the reference the write returned,
  also after any number of runs of the background cleanup. The service may be fresh (its payload
  directory not created yet) and the directory may be reached through links.
\<close>

theorem WritePayload_ReadPayload:
  assumes "service_ok ps F P" "WritePayload ps rnd request F s = (Ret r, F', s')" "pwr_offloaded r"
    and "G = (TempFileCleanup ps ^^ k) F'" "fs_io G = []"
  shows "ReadPayload ps (pay_uri (pwr_payload r)) G = (Ret (success_with (pw_content request)), G)"
proof -
  let ?name = "BuildPayloadRef rnd request @ ''.txt''"
  note w = WritePayload_offloaded [OF assms(2,3)]
  note f = offloaded_file [OF assms(1-3)]
  have cl: "cleaned F' G" using cleanups_cleaned [OF f(1)] assms(4) by simp
  have file': "node F' (P @ [''payloads'', ?name]) = Some (File (pw_content request) (fs_now F))" "node F' (P @ [''payloads'']) = Some Dir"
    using f(2) by (simp_all add: with_file_def)
  have "node G (P @ [''payloads'', ?name]) = Some (File (pw_content request) (fs_now F))"
    using cl file'(1) payload_not_temp [of rnd request] unfolding cleaned_def by (metis append2 last_snoc)
  from read_stored [OF cleaned_service [OF f(1) cl] cleaned_dirs [OF cl file'(2)] payload_names(1) this w(2) assms(5)]
  show ?thesis unfolding w(3) .
qed


definition desk :: filesys where
  "desk = \<lparr>fs_nodes = [([''d''], Dir), ([''d'', ''memory_runtime''], Dir), ([''l''], Link ''d'')],
     fs_cwd = [], fs_now = 5, fs_io = [], fs_message = [], fs_partial = 0, fs_dir_read = None\<rparr>"

definition desk_service :: payload_service where
  "desk_service = new_PayloadService (default_config\<lparr>cfg_offloadThresholdChars := 3\<rparr>) ''/l'' True desk"

definition desk_request :: MemoryPayloadWriteRequest where
  "desk_request = \<lparr>pw_agentId = ''a'', pw_sessionId = ''../s'', pw_content = ''lots'', pw_contentType = [],
     pw_toolCallId = [], pw_toolName = ''Grep'', pw_metadata = JObj []\<rparr>"

lemma desk_ok: "service_ok desk_service desk [''d'', ''memory_runtime'']"
  unfolding desk_service_def
proof (rule new_service_ok)
  show "fs_ok desk" by (rule fs_ok_by_list) (simp_all add: desk_def node_def proper_def dot_def dotdot_def nul_free_def)
  show "nul_free ''/l''" by (simp add: nul_free_def)
  show "sys_walk desk (path_of (path_append ''/l'' ''memory_runtime'')) = Found [''d'', ''memory_runtime'']"
    "node desk [''d'', ''memory_runtime''] = Some Dir" by code_simp+
  show "node desk ([''d'', ''memory_runtime''] @ [''payloads'']) = None \<or> node desk ([''d'', ''memory_runtime''] @ [''payloads'']) = Some Dir"
    by code_simp
  show "no_links_below desk ([''d'', ''memory_runtime''] @ [''payloads''])"
    by (simp add: no_links_below_def node_def desk_def)
qed

theorem WritePayload_ReadPayload_witness:
  "\<exists>r F' s'. WritePayload desk_service (1, 2, 3, 4) desk_request desk open_store = (Ret r, F', s') \<and>
     pay_uri (pwr_payload r) = ''file:///l/memory_runtime/payloads/___s_payload_12.txt'' \<and>
     fst (ReadPayload desk_service (pay_uri (pwr_payload r)) (TempFileCleanup desk_service F')) = Ret (success_with ''lots'')"
proof -
  let ?run = "WritePayload desk_service (1, 2, 3, 4) desk_request desk open_store"
  let ?F = "fst (snd ?run)"
  have c: "case fst ?run of Ret r \<Rightarrow> pwr_offloaded r \<and> pay_uri (pwr_payload r) = ''file:///l/memory_runtime/payloads/___s_payload_12.txt''
     | Throw w \<Rightarrow> False" "fs_io (TempFileCleanup desk_service ?F) = []" "pw_content desk_request = ''lots''" by code_simp+
  then obtain r where r: "fst ?run = Ret r" "pwr_offloaded r" "pay_uri (pwr_payload r) = ''file:///l/memory_runtime/payloads/___s_payload_12.txt''"
    by (auto split: outcome.splits)
  have run: "?run = (Ret r, ?F, snd (snd ?run))" using r(1) by (metis prod.collapse)
  have "TempFileCleanup desk_service ?F = (TempFileCleanup desk_service ^^ 1) ?F" by simp
  from WritePayload_ReadPayload [OF desk_ok run r(2) this c(2)] have
    "fst (ReadPayload desk_service (pay_uri (pwr_payload r)) (TempFileCleanup desk_service ?F)) = Ret (success_with ''lots'')"
    by (simp only: c(3) fst_conv)
  with run r(3) show ?thesis by blast
qed


section \<open>Writes that do not offload\<close>

lemma atomic_write_fails_clean:
  assumes ok: "service_ok ps F P" and io: "fs_io F = []"
    and names: "proper name" "proper (name @ ''.tmp.'' @ RandomHexSuffix rnd)"
    and run: "WritePayloadFileAtomically rnd (PayloadDirectory ps) name content F = (Some e, F')"
  shows "node F' = (node F)(P @ [''payloads''] \<mapsto> Dir)" "HasError e"
proof -
  let ?rp = "runtime_path ps" and ?d = "P @ [''payloads'']" and ?tn = "name @ ''.tmp.'' @ RandomHexSuffix rnd"
  let ?pp = "(fst ?rp, snd ?rp @ [''payloads'', name])" and ?tp = "(fst ?rp, snd ?rp @ [''payloads'', ?tn])"
  obtain F1 where mk: "create_directories (path_of (PayloadDirectory ps)) F = (True, F1)" "fs_io F1 = []"
    using directory_made [OF ok io] by blast
  note d1 = directory_created [OF ok mk(1)]
  have ok1: "service_ok ps F1 P"
    by (rule service_ok_add [OF ok d1(1,2)]) (use ok proper_payloads in \<open>auto simp: service_ok_def\<close>)
  have dir1: "node F1 ?d = Some Dir" by (simp add: d1(1))
  note un = run [unfolded WritePayloadFileAtomically_def Let_def payload_path [OF names(1)] payload_path [OF names(2)] mk(1) prod.case, simplified]
  have "F' = F1 \<and> HasError e"
  proof (cases "exists_path F1 ?pp \<or> exists_path F1 ?tp")
    case True
    then show ?thesis using un by (auto simp: write_error_def split: if_splits)
  next
    case False
    then have none: "node F1 (P @ [''payloads'', name]) = None" "node F1 (P @ [''payloads'', ?tn]) = None"
      using service_entry(2) [OF ok1 dir1 names(1)] service_entry(2) [OF ok1 dir1 names(2)]
      by (auto simp: exists_path_def split: option.splits)
    have miss: "sys_walk F1 ?tp = Missing ?d ?tn []" using service_entry(2) [OF ok1 dir1 names(2)] none(2) by simp
    let ?loc = "P @ [''payloads'', ?tn]"
    define F2 where "F2 = put_node ?loc (File [] (fs_now F1)) F1"
    define F3 where "F3 = put_node ?loc (File content (fs_now F2)) F2"
    have op: "open_trunc ?tp F1 = (Some ?loc, F2)" using miss mk(2) by (simp add: open_trunc_def next_io_def F2_def)
    have wr: "write_close ?loc content F2 = (True, F3)" using mk(2) by (simp add: write_close_def next_io_def F3_def F2_def)
    have N3: "node F3 = (node F1)(?loc \<mapsto> File content (fs_now F2))" "fs_cwd F3 = fs_cwd F1" "fs_io F3 = []"
      using mk(2) by (auto simp: F3_def F2_def fun_eq_iff)
    have ok3: "service_ok ps F3 P"
      by (rule service_ok_add [OF ok1 N3(1,2)]) (use names(2) dir1 none(2) in \<open>auto simp: butlast_append\<close>)
    have dir3: "node F3 ?d = Some Dir" using N3 dir1 by simp
    have "fst (rename_path ?tp ?pp F3)"
      using service_entry(1) [OF ok3 dir3 names(1)] service_entry(1) [OF ok3 dir3 names(2)] N3 none(1)
      by (simp add: rename_path_def next_io_def)
    then show ?thesis using un False op wr by (auto split: prod.splits)
  qed
  then show "node F' = (node F)(P @ [''payloads''] \<mapsto> Dir)" "HasError e" using d1(1) by auto
qed

lemma SavePayload_failure:
  assumes "SavePayload p s = (o1, s')"
  shows "\<exists>r. o1 = Ret r \<and> (\<not> succeeded r \<longrightarrow> s_db s' = s_db s \<and> HasError (error_of r))"
proof (cases "s_db s")
  case None
  then show ?thesis using assms by (auto simp: SavePayload_def guarded_def store_unavailable_def)
next
  case (Some d)
  obtain k s1 where 1: "next_ok s = (k, s1)" by fastforce
  obtain k2 s2 where 2: "next_ok s1 = (k2, s2)" by fastforce
  have "s_db s1 = Some d" "s_db s2 = Some d"
    using read_step_frame(1) [OF next_ok_read [OF 1]] read_step_frame(1) [OF next_ok_read [OF 2]] Some by auto
  then show ?thesis
    using assms Some 1 2
    by (auto simp: SavePayload_def guarded_def lift_ok_def SavePayloadUnlocked_def run_stmt_def sql_step_def
      SqliteFailure_def sqlite_error_def split: if_splits option.splits)
qed


lemma next_io_none: "fs_io F = [] \<Longrightarrow> next_io F = (True, F)"
  by (simp add: next_io_def)

lemma make_dirs_io: "fs_io F = [] \<Longrightarrow> fs_io (snd (make_dirs p cs F)) = []"
  by (induction p cs F rule: make_dirs.induct)
    (auto simp: next_io_none Let_def split: walked.splits option.splits prod.splits if_splits)

lemma file_ops_io:
  assumes "fs_io F = []"
  shows "fs_io (snd (create_directories p F)) = []" "fs_io (snd (open_trunc p F)) = []"
    "fs_io (snd (write_close loc content F)) = []" "fs_io (snd (rename_path p q F)) = []"
  using assms make_dirs_io [OF assms]
  by (auto simp: create_directories_def open_trunc_def write_close_def rename_path_def next_io_none
      split: walked.splits option.splits node.splits)

lemma atomic_write_io:
  assumes "fs_io F = []" "WritePayloadFileAtomically rnd directory name content F = (None, F')"
  shows "fs_io F' = []"
proof -
  obtain m1 F1 where 1: "create_directories (path_of directory) F = (m1, F1)" by fastforce
  let ?tp = "path_of (path_append directory (name @ ''.tmp.'' @ RandomHexSuffix rnd))"
  obtain m2 F2 where 2: "open_trunc ?tp F1 = (m2, F2)" by fastforce
  show ?thesis
  proof (cases m2)
    case None
    then show ?thesis using assms 1 2 by (auto simp: WritePayloadFileAtomically_def Let_def split: if_splits)
  next
    case (Some loc)
    obtain m3 F3 where 3: "write_close loc content F2 = (m3, F3)" by fastforce
    obtain m4 F4 where 4: "rename_path ?tp (path_of (path_append directory name)) F3 = (m4, F4)" by fastforce
    have "fs_io F4 = []"
      using file_ops_io(1) [OF assms(1), of "path_of directory"] file_ops_io(2) [of F1 ?tp] file_ops_io(3) [of F2 loc content]
        file_ops_io(4) [of F3 ?tp "path_of (path_append directory name)"] 1 2 3 4 by simp
    then show ?thesis using assms 1 2 3 4 Some
      by (auto simp: WritePayloadFileAtomically_def Let_def split: if_splits prod.splits)
  qed
qed

text \<open>
  When a write does not offload (the feature is off, the content is small, there is no store, or
  a step failed), the caller gets the content itself back as the replacement, the store is as it
  was, and on a file system without I/O errors nothing is left on disk but the payload directory:
  a file whose row could not be saved is removed again. Every such failure has an error code.
\<close>

theorem WritePayload_not_offloaded:
  assumes "service_ok ps F P" "fs_io F = []" "WritePayload ps rnd request F s = (Ret r, F', s')" "\<not> pwr_offloaded r"
  shows "pwr_replacementContent r = pw_content request \<and> s_db s' = s_db s \<and> (pwr_succeeded r \<or> HasError (pwr_error r)) \<and>
    (\<forall>l. l \<noteq> P @ [''payloads''] \<longrightarrow> node F' l = node F l)"
proof -
  define name where "name = BuildPayloadRef rnd request @ ''.txt''"
  let ?text = "path_append (PayloadDirectory ps) name" and ?p = "offloaded_ref request (path_append (PayloadDirectory ps) name)"
  note names = payload_names [of rnd request, folded name_def]
  obtain e F1 where w: "WritePayloadFileAtomically rnd (PayloadDirectory ps) name (pw_content request) F = (e, F1)" by fastforce
  obtain o1 s1 where v: "SavePayload ?p s = (o1, s1)" by fastforce
  obtain sr where sr: "o1 = Ret sr" "\<not> succeeded sr \<longrightarrow> s_db s1 = s_db s \<and> HasError (error_of sr)"
    using SavePayload_failure [OF v] by blast
  obtain rm F2 where m: "remove_path (path_of ?text) F1 = (rm, F2)" by fastforce
  note un = assms(3) [unfolded WritePayload_def Let_def name_def [symmetric] w prod.case]
  show ?thesis
  proof (cases e)
    case (Some x)
    from atomic_write_fails_clean [OF assms(1,2) names] w Some
    have f: "node F1 = (node F)(P @ [''payloads''] \<mapsto> Dir)" "HasError x" by blast+
    have "pwr_replacementContent r = pw_content request \<and> (pwr_succeeded r \<or> HasError (pwr_error r)) \<and> (F' = F \<or> F' = F1) \<and> s' = s"
      using un Some f(2) by (auto simp: inline_result_def failed_write_def split: if_splits)
    then show ?thesis using f(1) by auto
  next
    case None
    note w' = w [unfolded None]
    have eff: "node F1 = with_file P name (File (pw_content request) (fs_now F)) (node F)" "node F (P @ [''payloads'', name]) = None"
      using write_effect [OF assms(1) names w'] by blast+
    have ok1: "service_ok ps F1 P" "fs_io F1 = []" using atomic_write_service [OF assms(1) names w'] atomic_write_io [OF assms(2) w'] by blast+
    have dir1: "node F1 (P @ [''payloads'']) = Some Dir" "node F1 (P @ [''payloads'', name]) = Some (File (pw_content request) (fs_now F))"
      using eff by (simp_all add: with_file_def)
    have "F2 = del_node (P @ [''payloads'', name]) F1"
      using m ok1(2) dir1 service_entry(1) [OF ok1(1) dir1(1) names(1)] by (simp add: remove_path_def next_io_none payload_path [OF names(1)])
    then have N2: "\<forall>l. l \<noteq> P @ [''payloads''] \<longrightarrow> node F2 l = node F l" using eff by (simp add: with_file_def)
    have "pwr_replacementContent r = pw_content request \<and> (pwr_succeeded r \<or> HasError (pwr_error r)) \<and>
        (F' = F \<and> s' = s \<or> F' = F2 \<and> s' = s1 \<and> \<not> succeeded sr)"
      using un None v sr m assms(4) by (auto simp: inline_result_def failed_write_def HasError_def split: if_splits)
    then show ?thesis using N2 sr(2) by auto
  qed
qed

theorem WritePayload_not_offloaded_witness:
  "\<exists>r F' s'. WritePayload desk_service (1, 2, 3, 4) desk_request desk (open_store\<lparr>s_faults := [False]\<rparr>) = (Ret r, F', s') \<and>
     \<not> pwr_succeeded r \<and> pwr_replacementContent r = ''lots'' \<and> node F' [''d'', ''memory_runtime'', ''payloads'', ''___s_payload_12.txt''] = None"
proof -
  let ?run = "WritePayload desk_service (1, 2, 3, 4) desk_request desk (open_store\<lparr>s_faults := [False]\<rparr>)"
  have c: "case fst ?run of Ret r \<Rightarrow> \<not> pwr_offloaded r \<and> \<not> pwr_succeeded r | Throw w \<Rightarrow> False" "pw_content desk_request = ''lots''"
    "fs_io desk = []" "node desk [''d'', ''memory_runtime'', ''payloads'', ''___s_payload_12.txt''] = None" by code_simp+
  then obtain r where r: "fst ?run = Ret r" "\<not> pwr_offloaded r" "\<not> pwr_succeeded r" by (auto split: outcome.splits)
  have run: "?run = (Ret r, fst (snd ?run), snd (snd ?run))" using r(1) by (metis prod.collapse)
  from WritePayload_not_offloaded [OF desk_ok c(3) run r(2)] c(2,4)
  have "pwr_replacementContent r = ''lots'' \<and> node (fst (snd ?run)) [''d'', ''memory_runtime'', ''payloads'', ''___s_payload_12.txt''] = None"
    by simp
  with run r(3) show ?thesis by blast
qed

end
