(* ===== verification/Payload_Access.thy ===== *)
theory Payload_Access
  imports Payload_Properties
begin

text \<open>
  References without \<open>..\<close>: resolving them cannot cancel a missing element, so what is read lies below
  the payload directory without any proviso about links. The HTTP transport only lets such references
  through.
\<close>

section \<open>Resolution and the bound on links\<close>

text \<open>Two bounds give the same result unless one of them is too small.\<close>

lemma walk_determ:
  "walk N n cur cs = walk N m cur cs \<or> walk N n cur cs = TooManyLinks \<or> walk N m cur cs = TooManyLinks"
proof (induction N n cur cs arbitrary: m rule: walk.induct)
  case (2 N n cur c cs)
  show ?case
  proof (cases "N cur = Some Dir")
    case dir: True
    show ?thesis
    proof (cases "c = [] \<or> c = dot \<or> c = dotdot")
      case True
      then show ?thesis using 2 dir by (auto simp: dot_def dotdot_def)
    next
      case False
      show ?thesis
      proof (cases "N (cur @ [c])")
        case (Some x)
        then show ?thesis using 2 dir False by (cases x; cases n; cases m) auto
      qed (use dir False in simp)
    qed
  qed simp
qed simp

lemma leading_stops:
  "leading F d cs = Some (e, c # rest) \<Longrightarrow>
   (\<forall>l. sys_walk F (fst e, snd e @ [c]) \<noteq> Found l) \<and> sys_walk F (fst e, snd e @ [c]) \<noteq> TooManyLinks"
proof (induction cs arbitrary: d)
  case (Cons x cs)
  then show ?case by (cases "sys_walk F (fst d, snd d @ [x])") auto
qed simp

lemma leading_all: "leading F d cs = Some (e, []) \<Longrightarrow> cs \<noteq> [] \<Longrightarrow> \<exists>l. sys_walk F (fst d, snd d @ cs) = Found l"
proof (induction cs arbitrary: d)
  case (Cons x cs)
  then obtain l where l: "sys_walk F (fst d, snd d @ [x]) = Found l"
    by (cases "sys_walk F (fst d, snd d @ [x])") auto
  show ?case
  proof (cases "cs = []")
    case False
    with Cons l show ?thesis using Cons.IH [of "(fst d, snd d @ [x])"] by simp
  qed (use l in simp)
qed simp

section \<open>Paths without dots\<close>

lemma segments_sublist: "x \<in> set (segments s) \<Longrightarrow> sublist x s \<and> prefix (hd (segments s)) s"
proof (induction s arbitrary: x)
  case (Cons c cs)
  obtain y ys where y: "segments cs = y # ys" by (cases "segments cs") auto
  have IH: "prefix y cs" "\<And>x. x \<in> set (y # ys) \<Longrightarrow> sublist x cs" using Cons.IH [of y] Cons.IH y by auto
  then show ?case using Cons.prems y
    by (auto split: if_splits intro: sublist_Cons_right [THEN iffD2] prefix_imp_sublist)
qed simp

lemma path_of_no_dots:
  assumes "\<not> str_contains ''..'' s"
  shows "dotdot \<notin> set (snd (path_of s))"
proof
  assume "dotdot \<in> set (snd (path_of s))"
  then have "dotdot \<in> set (segments s)" by (auto simp: path_of_def Let_def dotdot_def split: if_splits)
  then have "sublist dotdot s" using segments_sublist by blast
  with assms show False by (simp add: str_contains_iff dotdot_def)
qed

lemma normal_no_dots:
  "dotdot \<notin> set cs \<Longrightarrow> foldl (normal_step ab) out cs = out @ filter (\<lambda>c. c \<noteq> [] \<and> c \<noteq> dot) cs"
proof (induction cs arbitrary: out)
  case (Cons c cs)
  then have "normal_step ab out c = (if c = [] \<or> c = dot then out else out @ [c])" by auto
  with Cons show ?case by (auto simp del: normal_step.simps)
qed simp

lemma lexically_normal_tail:
  assumes "\<forall>c\<in>set l0. proper c" "dotdot \<notin> set rest" "rest \<noteq> []"
  defines "kept \<equiv> filter (\<lambda>c. c \<noteq> [] \<and> c \<noteq> dot) rest"
  shows "lexically_normal (True, l0 @ rest) = (True, l0 @ kept) \<and> (l0 = [] \<or> kept \<noteq> []) \<or>
    lexically_normal (True, l0 @ rest) = (True, l0 @ kept @ [[]])"
proof -
  have out: "foldl (normal_step True) [] (l0 @ rest) = l0 @ kept"
    using normal_fold_proper [OF assms(1), of True "[]"] normal_no_dots [OF assms(2), of True l0] by (simp add: kept_def)
  have names: "dotdot \<notin> set (l0 @ kept)" using assms(1,2) by (auto simp: kept_def proper_def)
  have "last rest \<in> {[], dot}" if "kept = []"
    using that assms(3) last_in_set [OF assms(3)] unfolding kept_def filter_empty_conv by auto
  moreover have "l0 @ kept \<noteq> [] \<Longrightarrow> last (l0 @ kept) \<noteq> dotdot" using names last_in_set by metis
  ultimately show ?thesis
    unfolding lexically_normal_def fst_conv snd_conv out Let_def using assms(3) by auto
qed

text \<open>What cannot be resolved cannot be opened through its canonical form either.\<close>

lemma no_dots_exists:
  assumes ok: "fs_ok F" and wf: "wf_path p" and nd: "dotdot \<notin> set (snd p)"
    and q: "weakly_canonical F p = Some q" "fst q" and loc: "sys_walk F q = Found loc"
  shows "exists_path F p"
proof (rule ccontr)
  assume "\<not> exists_path F p"
  then have none: "\<And>l. sys_walk F p \<noteq> Found l" by (auto simp: exists_path_def)
  have rel: "\<not> fst (lexically_normal (False, rest))" for rest by (simp add: lexically_normal_def Let_def)
  obtain e rest l0 where l: "leading F (fst p, []) (snd p) = Some (e, rest)"
    and l0: "sys_walk F e = Found l0" and qn: "q = lexically_normal (True, l0 @ rest)"
    using q none rel by (fastforce simp: weakly_canonical_def split: walked.splits option.splits if_splits)
  obtain xs where xs: "snd p = xs @ rest" "e = (fst p, xs)" using leading_split [OF l] by auto
  have "rest \<noteq> []"
    using leading_all [of F "(fst p, [])" "snd p" e] l none [of l0] l0 xs by (cases p) auto
  then obtain c cs where rest: "rest = c # cs" by (cases rest) auto
  have wfe: "wf_path e" "wf_path (fst p, xs @ [c])"
    using wf xs rest wf_path_take [of "fst p" xs rest] wf_path_take [of "fst p" "xs @ [c]" cs] by (cases p; cases cs; simp)+
  have real: "real_loc (node F) l0" by (rule sys_walk_real [OF ok wfe(1) l0])
  let ?N = "node F"
  obtain m where m: "walk ?N MAX_LINKS (start_of F p) (xs @ [c]) = walk ?N m l0 [c]"
    using l0 xs walk_append [of ?N MAX_LINKS "start_of F p" xs l0] wfe(1) by (auto simp: sys_walk_wf start_of_def split: if_splits)
  have stop: "\<And>l. walk ?N m l0 [c] \<noteq> Found l" "walk ?N m l0 [c] \<noteq> TooManyLinks"
    using leading_stops [OF l [unfolded rest]] wfe(2) xs m by (auto simp: sys_walk_wf start_of_def)
  obtain kept where kept: "kept = filter (\<lambda>c. c \<noteq> [] \<and> c \<noteq> dot) rest" by blast
  have tail: "q = (True, l0 @ kept) \<and> (l0 = [] \<or> kept \<noteq> []) \<or> q = (True, l0 @ kept @ [[]])"
    using lexically_normal_tail [OF real_names [OF ok real], of rest] nd xs qn kept rest by simp
  have "wf_path q" by (rule weakly_canonical_wf(1) [OF ok wf q(1)])
  with loc tail obtain ys where ys: "walk ?N MAX_LINKS l0 ys = Found loc" "ys = kept \<and> (l0 = [] \<or> kept \<noteq> []) \<or> ys = kept @ [[]]"
    using walk_real [of ?N "[]" l0 MAX_LINKS] real ok by (auto simp: sys_walk_wf start_of_def fs_ok_def)
  show False
  proof (cases "?N l0 = Some Dir")
    case False
    then have "l0 \<noteq> []" by (auto simp: node_def)
    with ys False show False by (cases ys) auto
  next
    case True
    have c: "c \<noteq> []" "c \<noteq> dot" using stop(1) [of l0] True by auto
    then have "\<exists>zs. ys = [c] @ zs" using ys(2) kept rest by auto
    then obtain mid where "walk ?N MAX_LINKS l0 [c] = Found mid" using ys(1) walk_prefix by metis
    then show False using walk_determ [of ?N MAX_LINKS l0 "[c]" m] stop by (metis walked.distinct(5))
  qed
qed

section \<open>Reading a reference without dots\<close>

lemma ReadPayload_no_dots:
  assumes ok: "fs_ok F" "nul_free ref" "nul_free (ps_canonicalPayloadDirectory ps)"
    and read: "ReadPayload ps ref F = (Ret r, F')" "succeeded r"
    and d: "sys_walk F (path_of (ps_canonicalPayloadDirectory ps)) = Found d"
    and dots: "\<not> str_contains ''..'' (drop 7 ref)"
  shows "\<exists>suf t. suf \<noteq> [] \<and> node F (d @ suf) = Some (File (payload_of r) t)"
proof -
  from ReadPayload_opened [OF ok read d] obtain q loc t where q: "wf_path (path_of (drop 7 ref))"
    "wf_path (path_of (ps_canonicalPayloadDirectory ps))" "weakly_canonical F (path_of (drop 7 ref)) = Some q" "q \<noteq> (True, d)"
    "prefix (elements (True, d)) (elements q)" "sys_walk F q = Found loc" "node F loc = Some (File (payload_of r) t)" by blast
  have "fst q" using elements_prefix [OF q(5) weakly_canonical_wf(1) [OF ok(1) q(1,3)] q(4)] by auto
  then have "exists_path F (path_of (drop 7 ref))"
    by (rule no_dots_exists [OF ok(1) q(1) path_of_no_dots [OF dots] q(3) _ q(6)])
  with inside_read [OF ok(1) q(1) d q(2-5) _ q(6,7)] q(7) show ?thesis by auto
qed

end
