(* ===== verification/Payload_Crash.thy ===== *)
theory Payload_Crash
  imports Payload_Store
begin

text \<open>
  What an offload leaves behind when the process is killed in the middle of it. The write of
  \<open>Payload\<close> is listed system call by system call: every file system between two of them, the
  content of the temporary file growing byte by byte, and every store between the calls into it.
  The lists end in what \<open>WritePayloadFileAtomically\<close> and \<open>WritePayload\<close> return.
\<close>

section \<open>The states between the system calls\<close>

text \<open>The file systems after each \<open>mkdir\<close> of \<open>create_directories\<close>.\<close>

fun dir_states :: "path \<Rightarrow> string list \<Rightarrow> filesys \<Rightarrow> filesys list" where
  "dir_states made [] F = []"
| "dir_states made (c # cs) F =
     (let p = (fst made, snd made @ [c]) in
      case sys_walk F p of
        Found loc \<Rightarrow> (if node F loc = Some Dir then dir_states p cs F else [])
      | Missing d name rest \<Rightarrow>
          (case entry_of F p of
             Some e \<Rightarrow>
               (if node F e \<noteq> None then []
                else let (ok, F1) = next_io F in
                     if ok then put_node e Dir F1 # dir_states p cs (put_node e Dir F1) else [F1])
           | None \<Rightarrow> [])
      | _ \<Rightarrow> [])"

text \<open>Opening, writing, closing and renaming the temporary file, or removing it again.\<close>

definition temp_states :: "path \<Rightarrow> path \<Rightarrow> string \<Rightarrow> filesys \<Rightarrow> filesys list" where
  "temp_states tempPath payloadPath content F =
     (case open_trunc tempPath F of
        (None, F2) \<Rightarrow> [F2]
      | (Some loc, F2) \<Rightarrow>
          F2 # map (\<lambda>k. put_node loc (File (take k content) (fs_now F2)) F2) [0..<Suc (length content)] @
          (let (written, F3) = write_close loc content F2
           in if \<not> written then [F3, snd (remove_path tempPath F3)]
              else let (renamed, F4) = rename_path tempPath payloadPath F3
                   in if \<not> renamed then [F3, F4, snd (remove_path tempPath F4)] else [F3, F4]))"

definition write_states :: "draws \<Rightarrow> string \<Rightarrow> string \<Rightarrow> string \<Rightarrow> filesys \<Rightarrow> filesys list" where
  "write_states rnd directory name content F =
     F # dir_states (fst (path_of directory), []) (filter (\<lambda>c. c \<noteq> []) (snd (path_of directory))) F @
     (let payloadPath = path_of (path_append directory name);
          (made, F1) = create_directories (path_of directory) F
      in F1 #
        (if \<not> made \<or> exists_path F1 payloadPath then []
         else let tempPath = path_of (path_append directory (name @ ''.tmp.'' @ RandomHexSuffix rnd))
              in if exists_path F1 tempPath then [] else temp_states tempPath payloadPath content F1))"

text \<open>The states of \<open>WritePayload\<close>: of the file, then of the row, then of the removal of the file.\<close>

definition offload_states ::
  "payload_service \<Rightarrow> draws \<Rightarrow> MemoryPayloadWriteRequest \<Rightarrow> filesys \<Rightarrow> store \<Rightarrow> (filesys \<times> store) list" where
  "offload_states ps rnd request F s =
     (if \<not> cfg_enablePayloadOffload (ps_config ps) \<or> pw_content request = [] \<or>
         i32 (int (length (pw_content request))) < cfg_offloadThresholdChars (ps_config ps) \<or> \<not> ps_store ps
      then [(F, s)]
      else
        let name = BuildPayloadRef rnd request @ ''.txt'';
            pathText = path_append (PayloadDirectory ps) name
        in map (\<lambda>G. (G, s)) (write_states rnd (PayloadDirectory ps) name (pw_content request) F) @
           (case WritePayloadFileAtomically rnd (PayloadDirectory ps) name (pw_content request) F of
              (Some e, F1) \<Rightarrow> []
            | (None, F1) \<Rightarrow>
                (case SavePayload (offloaded_ref request pathText) s of
                   (Throw w, s1) \<Rightarrow> [(F1, s1)]
                 | (Ret saveResult, s1) \<Rightarrow>
                     (F1, s1) # (if succeeded saveResult then [] else [(snd (remove_path (path_of pathText) F1), s1)]))))"

text \<open>The last state is the one the operation returns.\<close>

lemma write_states_end:
  "last (write_states rnd directory name content F) = snd (WritePayloadFileAtomically rnd directory name content F)"
  by (auto simp: write_states_def temp_states_def WritePayloadFileAtomically_def Let_def
      split: prod.splits option.splits)

lemma offload_states_end: "last (offload_states ps rnd request F s) = snd (WritePayload ps rnd request F s)"
proof -
  have "write_states r d n c G \<noteq> []" for r d n c G by (simp add: write_states_def)
  then show ?thesis
    unfolding offload_states_def WritePayload_def Let_def
    by (auto simp: last_map write_states_end split: prod.splits option.splits outcome.splits)
qed

section \<open>What each call can leave\<close>

definition same_tree :: "filesys \<Rightarrow> filesys \<Rightarrow> bool" where
  "same_tree F G = (node G = node F \<and> fs_cwd G = fs_cwd F \<and> fs_now G = fs_now F)"

lemma next_io_same: "next_io F = (ok, F1) \<Longrightarrow> same_tree F F1"
  by (simp add: same_tree_def next_io_nodes)

lemma open_failed: "open_trunc p F = (None, G) \<Longrightarrow> same_tree F G"
  by (auto simp: open_trunc_def dest!: next_io_same split: prod.splits if_splits walked.splits option.splits node.splits)

lemma rename_failed: "rename_path p q F = (False, G) \<Longrightarrow> same_tree F G"
  by (auto simp: rename_path_def dest!: next_io_same split: prod.splits if_splits option.splits)

lemma write_failed:
  assumes "write_close loc content F = (False, G)" "loc \<noteq> []"
  shows "\<exists>k. same_tree (put_node loc (File (take k content) (fs_now F)) F) G"
proof -
  obtain ok F1 where io: "next_io F = (ok, F1)" by fastforce
  with assms(1) have "G = put_node loc (File (take (fs_partial F1) content) (fs_now F1)) F1"
    by (auto simp: write_close_def split: if_splits)
  then show ?thesis using next_io_nodes [OF io] assms(2) by (auto simp: same_tree_def fun_eq_iff)
qed

lemma remove_tried:
  assumes "entry_of F p = Some e" "node F e = Some (File c t)" "e \<noteq> []"
  shows "same_tree F (snd (remove_path p F)) \<or> same_tree (del_node e F) (snd (remove_path p F))"
proof -
  obtain ok F1 where io: "next_io F = (ok, F1)" by fastforce
  have "entry_of F1 p = Some e" "node F1 e = Some (File c t)"
    using entry_of_cong [of F1 F] next_io_nodes [OF io] assms(1,2) by simp_all
  then have "snd (remove_path p F) = (if ok then del_node e F1 else F1)" using io by (simp add: remove_path_def)
  then show ?thesis using next_io_nodes [OF io] assms(3) by (auto simp: same_tree_def fun_eq_iff)
qed

text \<open>
  The stages of the file: no temporary file, a temporary file that holds a beginning of the
  content, or the payload file with all of it.
\<close>

definition part_written :: "string list \<Rightarrow> string \<Rightarrow> filesys \<Rightarrow> filesys \<Rightarrow> bool" where
  "part_written loc content F G =
     (fs_cwd G = fs_cwd F \<and> fs_now G = fs_now F \<and> (\<exists>k. node G = (node F)(loc \<mapsto> File (take k content) (fs_now F))))"

definition file_stage :: "string list \<Rightarrow> string \<Rightarrow> string \<Rightarrow> string \<Rightarrow> filesys \<Rightarrow> filesys \<Rightarrow> bool" where
  "file_stage d name temp content F G =
     (same_tree F G \<or> part_written (d @ [temp]) content F G \<or>
      fs_cwd G = fs_cwd F \<and> fs_now G = fs_now F \<and> node G = (node F)(d @ [name] \<mapsto> File content (fs_now F)))"

lemma part_written_same: "part_written loc content F G \<Longrightarrow> same_tree G H \<Longrightarrow> part_written loc content F H"
  by (simp add: part_written_def same_tree_def)

lemma part_written_put:
  assumes "node F2 = (node F)(loc \<mapsto> n)" "fs_cwd F2 = fs_cwd F" "fs_now F2 = fs_now F" "loc \<noteq> []"
  shows "part_written loc content F (put_node loc (File (take k content) (fs_now F2)) F2)"
  using assms unfolding part_written_def by (auto simp: fun_eq_iff intro!: exI [of _ k])

lemma part_written_service:
  assumes ok: "service_ok ps F P" and dir: "node F (P @ [''payloads'']) = Some Dir" and temp: "proper temp"
    and free: "node F (P @ [''payloads'', temp]) = None" and part: "part_written (P @ [''payloads'', temp]) content F G"
  shows "service_ok ps G P" "node G (P @ [''payloads'']) = Some Dir" "\<exists>c. node G (P @ [''payloads'', temp]) = Some (File c (fs_now F))"
proof -
  obtain k where N: "node G = (node F)(P @ [''payloads'', temp] \<mapsto> File (take k content) (fs_now F))" "fs_cwd G = fs_cwd F"
    using part by (auto simp: part_written_def)
  show "service_ok ps G P"
    by (rule service_ok_add [OF ok N]) (use temp dir free in \<open>auto simp: butlast_append\<close>)
  show "node G (P @ [''payloads'']) = Some Dir" "\<exists>c. node G (P @ [''payloads'', temp]) = Some (File c (fs_now F))"
    using N dir by auto
qed

lemma part_written_removed:
  assumes ok: "service_ok ps F P" and dir: "node F (P @ [''payloads'']) = Some Dir" and temp: "proper temp"
    and free: "node F (P @ [''payloads'', temp]) = None" and part: "part_written (P @ [''payloads'', temp]) content F G"
  shows "file_stage (P @ [''payloads'']) name temp content F
    (snd (remove_path (fst (runtime_path ps), snd (runtime_path ps) @ [''payloads'', temp]) G))" (is "file_stage _ _ _ _ _ ?H")
proof -
  note G = part_written_service [OF ok dir temp free part]
  have gone: "same_tree F (del_node (P @ [''payloads'', temp]) G)"
    using part free by (auto simp: part_written_def same_tree_def fun_eq_iff)
  obtain c where c: "node G (P @ [''payloads'', temp]) = Some (File c (fs_now F))" using G(3) by blast
  from remove_tried [OF service_entry(1) [OF G(1,2) temp] c]
  consider "same_tree G ?H" | "same_tree (del_node (P @ [''payloads'', temp]) G) ?H" by auto
  then show ?thesis
  proof cases
    case 1
    then show ?thesis using part_written_same [OF part] by (simp add: file_stage_def)
  next
    case 2
    then show ?thesis using gone by (simp add: file_stage_def same_tree_def)
  qed
qed

lemma renamed_stage:
  assumes ok: "service_ok ps F P" and dir: "node F (P @ [''payloads'']) = Some Dir" and names: "proper name" "proper temp"
    and free: "node F (P @ [''payloads'', temp]) = None" and diff: "temp \<noteq> name"
    and part: "part_written (P @ [''payloads'', temp]) content F G"
    and whole: "node G = (node F)(P @ [''payloads'', temp] \<mapsto> File content (fs_now F))"
    and rn: "rename_path (fst (runtime_path ps), snd (runtime_path ps) @ [''payloads'', temp])
      (fst (runtime_path ps), snd (runtime_path ps) @ [''payloads'', name]) G = (True, H)"
  shows "file_stage (P @ [''payloads'']) name temp content F H"
proof -
  note G = part_written_service [OF ok dir names(2) free part]
  have "node H = (node G)(P @ [''payloads'', temp] := None, P @ [''payloads'', name] \<mapsto> File content (fs_now F))" "fs_cwd H = fs_cwd G"
    by (rule rename_done [OF rn service_entry(1) [OF G(1,2) names(2)] service_entry(1) [OF G(1,2) names(1)]]; simp add: whole)+
  moreover have "fs_now H = fs_now G"
    using rn by (auto simp: rename_path_def dest!: next_io_nodes(3) split: prod.splits if_splits option.splits)
  moreover have "fs_cwd G = fs_cwd F" "fs_now G = fs_now F" using part by (auto simp: part_written_def)
  ultimately show ?thesis using whole free diff by (auto simp: file_stage_def fun_eq_iff)
qed

lemma service_ok_cong:
  assumes "service_ok ps F P" "node G = node F" "fs_cwd G = fs_cwd F"
  shows "service_ok ps G P"
  using assms sys_walk_cong [of G F] by (simp add: service_ok_def fs_ok_def no_links_below_def)

lemma file_stage_service:
  assumes ok: "service_ok ps F P" and dir: "node F (P @ [''payloads'']) = Some Dir" and names: "proper name" "proper temp"
    and free: "node F (P @ [''payloads'', name]) = None" "node F (P @ [''payloads'', temp]) = None"
    and stage: "file_stage (P @ [''payloads'']) name temp content F G"
  shows "service_ok ps G P"
proof -
  consider "same_tree F G" | "part_written (P @ [''payloads'', temp]) content F G"
    | "fs_cwd G = fs_cwd F" "node G = (node F)(P @ [''payloads'', name] \<mapsto> File content (fs_now F))"
    using stage by (auto simp: file_stage_def)
  then show ?thesis
  proof cases
    case 1
    then show ?thesis using service_ok_cong [OF ok] by (simp add: same_tree_def)
  next
    case 2
    then show ?thesis using part_written_service(1) [OF ok dir names(2) free(2)] by blast
  next
    case 3
    show ?thesis by (rule service_ok_add [OF ok 3(2,1)]) (use names(1) dir free(1) in \<open>auto simp: butlast_append\<close>)
  qed
qed

lemma temp_file_stages:
  assumes ok: "service_ok ps F P" and dir: "node F (P @ [''payloads'']) = Some Dir"
    and names: "proper name" "proper temp"
    and free: "node F (P @ [''payloads'', name]) = None" "node F (P @ [''payloads'', temp]) = None" and diff: "temp \<noteq> name"
    and G: "G \<in> set (temp_states (fst (runtime_path ps), snd (runtime_path ps) @ [''payloads'', temp])
      (fst (runtime_path ps), snd (runtime_path ps) @ [''payloads'', name]) content F)" (is "G \<in> set (temp_states ?tp ?pp content F)")
  shows "file_stage (P @ [''payloads'']) name temp content F G" (is "?stage G")
proof -
  let ?d = "P @ [''payloads'']" and ?l = "P @ [''payloads'', temp]"
  note removed = part_written_removed [OF ok dir names(2) free(2), of content _ name]
  have partly: "?stage H" if "part_written ?l content F H" for H using that by (simp add: file_stage_def)
  have miss: "sys_walk F ?tp = Missing ?d temp []" using service_entry(2) [OF ok dir names(2)] free(2) by simp
  obtain o1 F2 where op: "open_trunc ?tp F = (o1, F2)" by fastforce
  show ?thesis
  proof (cases o1)
    case None
    then show ?thesis using G op open_failed [of ?tp F F2] by (auto simp: temp_states_def file_stage_def)
  next
    case (Some loc)
    note o2 = open_trunc_missing [OF miss op [unfolded Some]]
    have loc: "loc = ?l" using o2(1) by simp
    note put = part_written_put [OF o2(2-4), of content]
    obtain written F3 where wr: "write_close ?l content F2 = (written, F3)" by fastforce
    obtain renamed F4 where rn: "rename_path ?tp ?pp F3 = (renamed, F4)" by fastforce
    have 2: "part_written ?l content F F2" using o2 by (auto simp: part_written_def intro!: exI [of _ 0])
    have k: "part_written ?l content F (put_node ?l (File (take k content) (fs_now F2)) F2)" for k using put [of k] by simp
    have 3: "part_written ?l content F F3"
    proof (cases written)
      case True
      then show ?thesis using write_close_done [of ?l content F2 F3] wr o2 by (auto simp: part_written_def intro!: exI [of _ "length content"])
    next
      case False
      then show ?thesis using write_failed [of ?l content F2 F3] wr by (auto intro: part_written_same [OF k])
    qed
    have 4: "?stage F4 \<and> (\<not> renamed \<longrightarrow> part_written ?l content F F4)" if written
    proof (cases renamed)
      case True
      have "node F3 = (node F)(?l \<mapsto> File content (fs_now F))"
        using write_close_done(1) [of ?l content F2 F3] wr o2 that by auto
      from renamed_stage [OF ok dir names free(2) diff 3 this] rn True show ?thesis by simp
    next
      case False
      then have "part_written ?l content F F4" using part_written_same [OF 3 rename_failed [of ?tp ?pp]] rn by simp
      then show ?thesis using partly by simp
    qed
    from G op wr rn loc Some consider "G = F2" | k where "G = put_node ?l (File (take k content) (fs_now F2)) F2" | "G = F3"
      | "\<not> written" "G = snd (remove_path ?tp F3)" | written "G = F4" | written "\<not> renamed" "G = snd (remove_path ?tp F4)"
      by (auto simp: temp_states_def simp del: upt_Suc split: if_splits)
    then show ?thesis by cases (use 2 k 3 4 partly removed in blast)+
  qed
qed

section \<open>A write that is killed\<close>

text \<open>What may have changed: the directory is there, the temporary file is partly written, or the payload file is complete.\<close>

definition interrupted :: "string list \<Rightarrow> string \<Rightarrow> string \<Rightarrow> string \<Rightarrow> filesys \<Rightarrow> filesys \<Rightarrow> bool" where
  "interrupted d name temp content F G =
     (fs_cwd G = fs_cwd F \<and> fs_now G = fs_now F \<and>
      (\<forall>l. l \<noteq> d \<and> l \<noteq> d @ [temp] \<and> l \<noteq> d @ [name] \<longrightarrow> node G l = node F l) \<and>
      (node G d = node F d \<or> node G d = Some Dir) \<and>
      (node G (d @ [temp]) = node F (d @ [temp]) \<or>
       node F (d @ [temp]) = None \<and> (\<exists>k. node G (d @ [temp]) = Some (File (take k content) (fs_now F)))) \<and>
      (node G (d @ [name]) = node F (d @ [name]) \<or>
       node F (d @ [name]) = None \<and> node G (d @ [name]) = Some (File content (fs_now F))))"

lemma interrupted_frame:
  "interrupted d name temp content F G \<Longrightarrow> l \<noteq> d \<Longrightarrow> l \<noteq> d @ [temp] \<Longrightarrow> l \<noteq> d @ [name] \<Longrightarrow> node G l = node F l"
  unfolding interrupted_def by blast

definition directory_there :: "string list \<Rightarrow> filesys \<Rightarrow> filesys \<Rightarrow> bool" where
  "directory_there d F G = (fs_cwd G = fs_cwd F \<and> fs_now G = fs_now F \<and> (node G = node F \<or> node G = (node F)(d \<mapsto> Dir)))"

lemma directory_there_interrupted: "directory_there d F G \<Longrightarrow> interrupted d name temp content F G"
  by (auto simp: directory_there_def interrupted_def)

lemma file_stage_interrupted:
  assumes "directory_there d F F1" "file_stage d name temp content F1 G"
    "node F1 (d @ [name]) = None" "node F1 (d @ [temp]) = None" "temp \<noteq> name"
  shows "interrupted d name temp content F G"
  using assms by (auto simp: directory_there_def file_stage_def same_tree_def part_written_def interrupted_def)

lemma directory_there_service:
  assumes "service_ok ps F P" "directory_there (P @ [''payloads'']) F G"
  shows "service_ok ps G P"
proof (cases "node G = node F")
  case True
  then show ?thesis using service_ok_cong [OF assms(1)] assms(2) by (simp add: directory_there_def)
next
  case False
  then have N: "node G = (node F)(P @ [''payloads''] \<mapsto> Dir)" "fs_cwd G = fs_cwd F" using assms(2) by (auto simp: directory_there_def)
  show ?thesis by (rule service_ok_add [OF assms(1) N]) (use assms(1) proper_payloads in \<open>auto simp: service_ok_def\<close>)
qed

lemma dir_states_through:
  assumes ok: "service_ok ps F P" and split: "snd (runtime_path ps) = pre @ suf"
  shows "dir_states (fst (runtime_path ps), pre) (suf @ ys) F = dir_states (fst (runtime_path ps), pre @ suf) ys F"
  using split
proof (induction suf arbitrary: pre)
  case (Cons x suf)
  from service_prefix [OF ok Cons.prems] obtain mid
    where "sys_walk F (fst (runtime_path ps), pre @ [x]) = Found mid" "node F mid = Some Dir" .
  then show ?case using Cons.IH [of "pre @ [x]"] Cons.prems by simp
qed simp

lemma directory_states:
  assumes ok: "service_ok ps F P"
    and G: "G \<in> set (dir_states (fst (path_of (PayloadDirectory ps)), []) (filter (\<lambda>c. c \<noteq> []) (snd (path_of (PayloadDirectory ps)))) F) \<or>
      G = snd (create_directories (path_of (PayloadDirectory ps)) F)"
  shows "directory_there (P @ [''payloads'']) F G"
proof -
  let ?rp = "runtime_path ps"
  obtain io F1 where io: "next_io F = (io, F1)" by fastforce
  have states: "dir_states (fst ?rp, []) (snd ?rp @ [''payloads'']) F = dir_states (fst ?rp, snd ?rp) [''payloads''] F"
    using dir_states_through [OF ok, of "[]" "snd ?rp" "[''payloads'']"] by simp
  have "G \<in> set (dir_states (fst ?rp, snd ?rp) [''payloads''] F) \<or> G = snd (create_directories (path_of (PayloadDirectory ps)) F)"
    using G states service_names [OF ok] by (simp add: directory_path)
  then have "G = F \<or> G = F1 \<or> G = put_node (P @ [''payloads'']) Dir F1"
    using service_directory [OF ok] io directory_call [OF ok] by (auto split: if_splits)
  then show ?thesis using next_io_nodes [OF io] by (auto simp: directory_there_def fun_eq_iff)
qed

lemma write_states_interrupted:
  assumes ok: "service_ok ps F P" and names: "proper name" "proper (name @ ''.tmp.'' @ RandomHexSuffix rnd)"
    and G: "G \<in> set (write_states rnd (PayloadDirectory ps) name content F)"
  shows "interrupted (P @ [''payloads'']) name (name @ ''.tmp.'' @ RandomHexSuffix rnd) content F G \<and> service_ok ps G P"
proof -
  let ?rp = "runtime_path ps" and ?d = "P @ [''payloads'']" and ?tn = "name @ ''.tmp.'' @ RandomHexSuffix rnd"
  let ?pp = "(fst ?rp, snd ?rp @ [''payloads'', name])" and ?tp = "(fst ?rp, snd ?rp @ [''payloads'', ?tn])"
  obtain made F1 where mk: "create_directories (path_of (PayloadDirectory ps)) F = (made, F1)" by fastforce
  note dirs = directory_states [OF ok]
  have F1: "directory_there ?d F F1" using dirs [of F1] mk by simp
  have F: "directory_there ?d F F" by (simp add: directory_there_def)
  from G consider "directory_there ?d F G"
    | made "\<not> exists_path F1 ?pp" "\<not> exists_path F1 ?tp" "G \<in> set (temp_states ?tp ?pp content F1)"
    using dirs [of G] F F1 mk payload_path [OF names(1)] payload_path [OF names(2)]
    by (auto simp: write_states_def Let_def split: if_splits)
  then show ?thesis
  proof cases
    case 1
    then show ?thesis using directory_there_interrupted directory_there_service [OF ok] by blast
  next
    case 2
    have ok1: "service_ok ps F1 P" by (rule directory_there_service [OF ok F1])
    have dir1: "node F1 ?d = Some Dir" using directory_created(1) [OF ok] mk 2(1) by simp
    have none: "node F1 (P @ [''payloads'', name]) = None" "node F1 (P @ [''payloads'', ?tn]) = None"
      using 2(2,3) service_entry(2) [OF ok1 dir1 names(1)] service_entry(2) [OF ok1 dir1 names(2)]
      by (auto simp: exists_path_def split: option.splits)
    have diff: "?tn \<noteq> name" by simp
    have stage: "file_stage ?d name ?tn content F1 G" by (rule temp_file_stages [OF ok1 dir1 names none diff 2(4)])
    have "interrupted ?d name ?tn content F G" by (rule file_stage_interrupted [OF F1 stage]) (use none in simp_all)
    then show ?thesis using file_stage_service [OF ok1 dir1 names none stage] by blast
  qed
qed

section \<open>The metadata row\<close>

lemma SavePayload_durable:
  assumes "SavePayload p s = (o1, s')" "s_db s' = s_db s"
  shows "durable s' = durable s"
proof -
  have fr: "s_file s' = s_file s" "s_saved s' = s_saved s" using save_payload.keeps [of s p] assms(1) by (auto simp: write_step_def frame_def)
  show ?thesis unfolding durable_def fr assms(2) ..
qed

lemma written_interrupted:
  assumes ok: "service_ok ps F P" and names: "proper name" "proper (name @ ''.tmp.'' @ RandomHexSuffix rnd)"
    and run: "WritePayloadFileAtomically rnd (PayloadDirectory ps) name content F = (None, F1)"
  defines "F2 \<equiv> snd (remove_path (path_of (path_append (PayloadDirectory ps) name)) F1)"
  shows "interrupted (P @ [''payloads'']) name (name @ ''.tmp.'' @ RandomHexSuffix rnd) content F F1 \<and> service_ok ps F1 P"
    "node F1 (P @ [''payloads'', name]) = Some (File content (fs_now F))"
    "interrupted (P @ [''payloads'']) name (name @ ''.tmp.'' @ RandomHexSuffix rnd) content F F2 \<and> service_ok ps F2 P"
proof -
  let ?tn = "name @ ''.tmp.'' @ RandomHexSuffix rnd" and ?d = "P @ [''payloads'']"
  have "write_states rnd (PayloadDirectory ps) name content F \<noteq> []" by (simp add: write_states_def)
  then have "F1 \<in> set (write_states rnd (PayloadDirectory ps) name content F)"
    using last_in_set write_states_end run by (metis snd_conv)
  then show 1: "interrupted ?d name ?tn content F F1 \<and> service_ok ps F1 P" by (rule write_states_interrupted [OF ok names])
  note eff = write_effect [OF ok names run]
  show 2: "node F1 (P @ [''payloads'', name]) = Some (File content (fs_now F))" using eff(1) by (simp add: with_file_def)
  have dir: "node F1 ?d = Some Dir" using eff(1) by (simp add: with_file_def)
  have "same_tree F1 F2 \<or> same_tree (del_node (P @ [''payloads'', name]) F1) F2"
    using remove_tried [OF service_entry(1) [OF _ dir names(1)] 2] 1 unfolding F2_def payload_path [OF names(1)] by simp
  then show "interrupted ?d name ?tn content F F2 \<and> service_ok ps F2 P"
  proof
    assume "same_tree F1 F2"
    then show ?thesis using 1 service_ok_cong [of ps F1 P F2] by (simp add: same_tree_def interrupted_def)
  next
    assume "same_tree (del_node (P @ [''payloads'', name]) F1) F2"
    moreover have "fs_now F1 = fs_now F" using 1 by (simp add: interrupted_def)
    ultimately have "directory_there ?d F F2"
      using eff by (auto simp: same_tree_def directory_there_def with_file_def fun_eq_iff)
    then show ?thesis using directory_there_interrupted directory_there_service [OF ok] by blast
  qed
qed

lemma offload_interrupted:
  assumes ok: "service_ok ps F P" and G: "(G, s') \<in> set (offload_states ps rnd request F s)"
  defines "name \<equiv> BuildPayloadRef rnd request @ ''.txt''"
  shows "interrupted (P @ [''payloads'']) name (name @ ''.tmp.'' @ RandomHexSuffix rnd) (pw_content request) F G \<and> service_ok ps G P \<and>
    (s_db s' = s_db s \<and> durable s' = durable s \<or> node G (P @ [''payloads'', name]) = Some (File (pw_content request) (fs_now F)))"
proof -
  let ?text = "path_append (PayloadDirectory ps) name" and ?d = "P @ [''payloads'']" and ?tn = "name @ ''.tmp.'' @ RandomHexSuffix rnd"
  note names = payload_names [of rnd request, folded name_def]
  obtain e F1 where w: "WritePayloadFileAtomically rnd (PayloadDirectory ps) name (pw_content request) F = (e, F1)" by fastforce
  obtain o1 s1 where v: "SavePayload (offloaded_ref request ?text) s = (o1, s1)" by fastforce
  obtain sr where sr: "o1 = Ret sr" "\<not> succeeded sr \<longrightarrow> s_db s1 = s_db s"
    using SavePayload_failure [OF v] by blast
  have F: "interrupted ?d name ?tn (pw_content request) F F" by (simp add: interrupted_def)
  from G consider "G = F" "s' = s" | "G \<in> set (write_states rnd (PayloadDirectory ps) name (pw_content request) F)" "s' = s"
    | "e = None" "G = F1" | "e = None" "G = snd (remove_path (path_of ?text) F1)" "s' = s1" "\<not> succeeded sr"
    unfolding offload_states_def Let_def name_def [symmetric] w prod.case v sr(1)
    by (auto split: if_splits option.splits)
  then show ?thesis
  proof cases
    case 1
    then show ?thesis using F ok by simp
  next
    case 2
    then show ?thesis using write_states_interrupted [OF ok names] by simp
  next
    case 3
    then show ?thesis using written_interrupted(1,2) [OF ok names] w by simp
  next
    case 4
    then have "s_db s' = s_db s" "durable s' = durable s" using sr(2) SavePayload_durable [OF v] by simp_all
    then show ?thesis using written_interrupted(3) [OF ok names] w 4(1,2) by simp
  qed
qed

section \<open>The cleanup after a restart\<close>

lemma stale_candidate:
  assumes "service_ok ps F P" "loc \<noteq> []" "node F loc = Some (File c t)" "str_contains ''.txt.tmp.'' (last loc)"
    "fs_now F - t > kTempFileCleanupTtl"
  shows "cleanup_candidate F loc"
proof -
  have "real_loc (node F) loc" "fs_ok F" using assms(1,3) by (auto simp: real_loc_def service_ok_def)
  then have "walk (node F) MAX_LINKS [] loc = Found loc" using walk_real_self by (auto simp: fs_ok_def)
  then show ?thesis using assms(3-5) by (simp add: cleanup_candidate_def regular_file_def)
qed

lemma cleanup_entries_removes:
  assumes "service_ok ps F P" "fs_io F = []" "\<forall>loc\<in>set locs. loc \<noteq> [] \<and> butlast loc = P @ [''payloads'']" "l \<in> set locs"
    and "node F l = None \<or> (\<exists>c t. node F l = Some (File c t) \<and> fs_now F - t > kTempFileCleanupTtl)"
    and name: "str_contains ''.txt.tmp.'' (last l)"
  shows "node (cleanup_entries locs F) l = None"
  using assms(1-5)
proof (induction locs arbitrary: F)
  case (Cons loc locs)
  define F' where "F' = (if cleanup_candidate F loc then del_node loc F else F)"
  have loc: "loc \<noteq> []" "butlast loc = P @ [''payloads'']" using Cons.prems(3) by auto
  have run: "cleanup_entries (loc # locs) F = cleanup_entries locs F'"
    using Cons.prems(2) by (simp add: F'_def next_io_none)
  have "cleaned F (cleanup_entries [loc] F)" using cleanup_entries_cleaned [OF Cons.prems(1), of "[loc]"] loc by simp
  then have cl: "cleaned F F'" using Cons.prems(2) by (simp add: F'_def next_io_none split: if_splits)
  have ok': "service_ok ps F' P" by (rule cleaned_service [OF Cons.prems(1) cl])
  have io': "fs_io F' = []" "fs_now F' = fs_now F" using Cons.prems(2) by (simp_all add: F'_def)
  have l': "node F' l = None \<or> (\<exists>c t. node F' l = Some (File c t) \<and> fs_now F' - t > kTempFileCleanupTtl)"
    using Cons.prems(5) loc(1) io'(2) by (auto simp: F'_def)
  show ?case
  proof (cases "l \<in> set locs")
    case True
    then show ?thesis using Cons.IH [OF ok' io'(1) _ True l'] Cons.prems(3) run by simp
  next
    case False
    then have "l = loc" using Cons.prems(4) by simp
    then have "node F' l = None"
      using Cons.prems(5) stale_candidate [OF Cons.prems(1) loc(1) _ _] name loc(1) by (auto simp: F'_def)
    moreover have "cleaned F' (cleanup_entries locs F')" by (rule cleanup_entries_cleaned [OF ok']) (use Cons.prems(3) in simp)
    ultimately have "node (cleanup_entries locs F') l = None" by (cases "node (cleanup_entries locs F') l") (auto dest: cleaned_sub)
    then show ?thesis using run by simp
  qed
qed simp

lemma TempFileCleanup_removes:
  assumes ok: "service_ok ps F P" and io: "fs_io F = []" and name: "str_contains ''.txt.tmp.'' n"
    and f: "node F (P @ [''payloads'', n]) = None \<or> (\<exists>c t. node F (P @ [''payloads'', n]) = Some (File c t) \<and> fs_now F - t > kTempFileCleanupTtl)"
  shows "node (TempFileCleanup ps F) (P @ [''payloads'', n]) = None"
proof (cases "node F (P @ [''payloads'', n])")
  case None
  then show ?thesis using cleaned_sub [OF TempFileCleanup_cleaned [OF ok]] by (metis option.exhaust)
next
  case (Some x)
  let ?l = "P @ [''payloads'', n]"
  have "tree (node F)" using ok by (simp add: service_ok_def fs_ok_def)
  with Some have dir: "node F (P @ [''payloads'']) = Some Dir" unfolding tree_def by (metis append2 append_is_Nil_conv butlast_snoc not_Cons_self2)
  have "?l \<in> set (children F (P @ [''payloads'']))"
    using Some by (auto simp: children_def node_def butlast_append dest!: map_of_SomeD intro!: image_eqI [of _ fst "(?l, x)"] split: if_splits)
  from cleanup_entries_removes [OF ok io _ this f] name show ?thesis
    by (simp add: TempFileCleanup_service [OF ok] dir children_def)
qed

lemma temp_name_contains: "str_contains ''.txt.tmp.'' ((b @ ''.txt'') @ ''.tmp.'' @ r)"
proof -
  have "(b @ ''.txt'') @ ''.tmp.'' @ r = b @ ''.txt.tmp.'' @ r" by simp
  then show ?thesis unfolding str_contains_iff sublist_def by blast
qed

text \<open>
  C16: When the process is killed anywhere in the middle of an offload, between two system calls
  or in the middle of writing the file, every file is as it was, except that the payload
  directory may be there, the temporary file may hold a beginning of the content, and the payload file
  may hold all of it, never a part. The database differs from before, or would differ after a
  restart, only when the payload file is complete: no row refers to a missing or partial file. And
  a cleanup more than a day later removes the temporary file. The states end in what the
  operation returns.
\<close>

theorem killed_offload_never_dangles:
  assumes "service_ok ps F P" "(G, s') \<in> set (offload_states ps rnd request F s)"
    and "name = BuildPayloadRef rnd request @ ''.txt''" "temp = name @ ''.tmp.'' @ RandomHexSuffix rnd"
    and "node F (P @ [''payloads'', name]) = None" "node F (P @ [''payloads'', temp]) = None"
  shows "(\<forall>l. l \<noteq> P @ [''payloads''] \<and> l \<noteq> P @ [''payloads'', temp] \<and> l \<noteq> P @ [''payloads'', name] \<longrightarrow> node G l = node F l) \<and>
    node G (P @ [''payloads'', name]) \<in> {None, Some (File (pw_content request) (fs_now F))} \<and>
    (s_db s' \<noteq> s_db s \<or> durable s' \<noteq> durable s \<longrightarrow>
       node G (P @ [''payloads'', name]) = Some (File (pw_content request) (fs_now F))) \<and>
    (later - fs_now F > kTempFileCleanupTtl \<longrightarrow>
       node (TempFileCleanup ps (G\<lparr>fs_now := later, fs_io := []\<rparr>)) (P @ [''payloads'', temp]) = None) \<and>
    last (offload_states ps rnd request F s) = snd (WritePayload ps rnd request F s)"
proof -
  let ?H = "G\<lparr>fs_now := later, fs_io := []\<rparr>" and ?t = "P @ [''payloads'', temp]"
  have i: "interrupted (P @ [''payloads'']) name temp (pw_content request) F G" "service_ok ps G P"
    and row: "s_db s' = s_db s \<and> durable s' = durable s \<or> node G (P @ [''payloads'', name]) = Some (File (pw_content request) (fs_now F))"
    using offload_interrupted [OF assms(1,2)] unfolding assms(3,4) by blast+
  have N: "node ?H = node G" by (simp add: node_def fun_eq_iff)
  have H: "service_ok ps ?H P" by (rule service_ok_cong [of ps G]) (use i(2) N in simp_all)
  have t: "node G ?t = None \<or> (\<exists>c. node G ?t = Some (File c (fs_now F)))" using i(1) assms(6) by (auto simp: interrupted_def)
  show ?thesis
  proof (intro conjI allI impI)
    show "node G l = node F l" if "l \<noteq> P @ [''payloads''] \<and> l \<noteq> ?t \<and> l \<noteq> P @ [''payloads'', name]" for l
      by (rule interrupted_frame [OF i(1)]) (use that in simp_all)
    show "node G (P @ [''payloads'', name]) \<in> {None, Some (File (pw_content request) (fs_now F))}"
      using i(1) assms(5) by (simp add: interrupted_def)
    show "node G (P @ [''payloads'', name]) = Some (File (pw_content request) (fs_now F))"
      if "s_db s' \<noteq> s_db s \<or> durable s' \<noteq> durable s" using row that by blast
    show "node (TempFileCleanup ps ?H) ?t = None" if "later - fs_now F > kTempFileCleanupTtl"
      by (rule TempFileCleanup_removes [OF H]) (use t that N assms(3,4) temp_name_contains in auto)
    show "last (offload_states ps rnd request F s) = snd (WritePayload ps rnd request F s)" by (rule offload_states_end)
  qed
qed

theorem killed_offload_never_dangles_witness:
  "length (offload_states desk_service (1, 2, 3, 4) desk_request desk open_store) = 12 \<and>
   (case offload_states desk_service (1, 2, 3, 4) desk_request desk open_store ! 7 of (G, s) \<Rightarrow>
      node G [''d'', ''memory_runtime'', ''payloads'', ''___s_payload_12.txt.tmp.34''] = Some (File ''lot'' 5) \<and>
      node G [''d'', ''memory_runtime'', ''payloads'', ''___s_payload_12.txt''] \<in> {None, Some (File ''lots'' 5)} \<and>
      node (TempFileCleanup desk_service (G\<lparr>fs_now := 86400000000006, fs_io := []\<rparr>))
        [''d'', ''memory_runtime'', ''payloads'', ''___s_payload_12.txt.tmp.34''] = None)"
proof -
  let ?states = "offload_states desk_service (1, 2, 3, 4) desk_request desk open_store" and ?P = "[''d'', ''memory_runtime'']"
  have n: "length ?states = 12" by code_simp
  have c: "''___s_payload_12.txt'' = BuildPayloadRef (1, 2, 3, 4) desk_request @ ''.txt''"
    "''___s_payload_12.txt.tmp.34'' = ''___s_payload_12.txt'' @ ''.tmp.'' @ RandomHexSuffix (1, 2, 3, 4)"
    "node desk (?P @ [''payloads'', ''___s_payload_12.txt'']) = None" "node desk (?P @ [''payloads'', ''___s_payload_12.txt.tmp.34'']) = None"
    "node (fst (?states ! 7)) [''d'', ''memory_runtime'', ''payloads'', ''___s_payload_12.txt.tmp.34''] = Some (File ''lot'' 5)"
    "pw_content desk_request = ''lots''" "fs_now desk = 5" "86400000000006 - fs_now desk > kTempFileCleanupTtl" by code_simp+
  have "(fst (?states ! 7), snd (?states ! 7)) \<in> set ?states" using n by simp
  from killed_offload_never_dangles [OF desk_ok this c(1-4), of 86400000000006] c(5-8) n
  show ?thesis by (simp add: case_prod_beta)
qed

end
