(* ===== verification/Model_Client.thy ===== *)
theory Model_Client
  imports Consolidation Filesystem
begin

text \<open>
  The model clients (\<open>src/model\<close>) and the HTTP client below them (\<open>src/utils/curl_client.cpp\<close>):
  reading and validating a model configuration, the requests the two providers send, how they read
  an answer, and the retry loop around libcurl. libcurl itself is the parameter \<open>libcurl\<close>; a
  transport is any function from requests to responses.
\<close>

section \<open>curl\_client.cpp\<close>

record CurlResponse =
  hr_status :: int
  hr_body :: string
  hr_curlCode :: int
  hr_errorMessage :: string

definition default_response :: CurlResponse where
  "default_response = \<lparr>hr_status = 0, hr_body = [], hr_curlCode = 0, hr_errorMessage = []\<rparr>"

definition response_Ok :: "CurlResponse \<Rightarrow> bool" where
  "response_Ok r = (hr_curlCode r = 0 \<and> 200 \<le> hr_status r \<and> hr_status r < 300)"

record CurlRequestOptions =
  co_timeoutSeconds :: int
  co_connectTimeoutSeconds :: int
  co_followRedirects :: bool
  co_maxRetries :: int

definition default_curl_options :: CurlRequestOptions where
  "default_curl_options =
     \<lparr>co_timeoutSeconds = 10, co_connectTimeoutSeconds = 5, co_followRedirects = True, co_maxRetries = 0\<rparr>"

type_synonym headers = "(string \<times> string) list"

text \<open>The options set on an easy handle; a request is a POST when it has a body.\<close>

record curl_call =
  cc_url :: string
  cc_headers :: "string list"
  cc_timeout :: int
  cc_connectTimeout :: int
  cc_follow :: bool
  cc_post :: "string option"

text \<open>
  libcurl: whether \<open>curl_easy_init\<close> gives a handle at an attempt, and what \<open>curl_easy_perform\<close>
  does with a call there: the code (0 is \<open>CURLE_OK\<close>), the status, the body received and the text
  left in the error buffer.
\<close>

record libcurl =
  lc_init :: "nat \<Rightarrow> bool"
  lc_perform :: "nat \<Rightarrow> curl_call \<Rightarrow> CurlResponse"

definition CURLE_FAILED_INIT :: int where "CURLE_FAILED_INIT = 2"

definition BuildSlist :: "headers \<Rightarrow> string list" where
  "BuildSlist hs = map (\<lambda>h. c_str (fst h @ '': '' @ snd h)) hs"

definition HasContentType :: "headers \<Rightarrow> bool" where
  "HasContentType hs = list_ex (\<lambda>h. length (fst h) = 12 \<and> EqualsIgnoreCase (fst h) ''content-type'') hs"

definition curl_call_of :: "string \<Rightarrow> headers \<Rightarrow> CurlRequestOptions \<Rightarrow> string option \<Rightarrow> curl_call" where
  "curl_call_of url hs options post =
     \<lparr>cc_url = c_str url,
      cc_headers = BuildSlist hs @
        (if post \<noteq> None \<and> \<not> HasContentType hs then [''Content-Type: application/json''] else []),
      cc_timeout = co_timeoutSeconds options,
      cc_connectTimeout = min (co_connectTimeoutSeconds options) (co_timeoutSeconds options),
      cc_follow = co_followRedirects options, cc_post = post\<rparr>"

definition attempt_response :: "libcurl \<Rightarrow> curl_call \<Rightarrow> nat \<Rightarrow> CurlResponse" where
  "attempt_response C call k =
     (let a = lc_perform C k call in
      default_response\<lparr>hr_body := hr_body a, hr_curlCode := hr_curlCode a,
        hr_status := (if hr_curlCode a = 0 then hr_status a else 0),
        hr_errorMessage := (if hr_curlCode a = 0 then [] else hr_errorMessage a)\<rparr>)"

text \<open>The condition that ends the retries.\<close>

definition conclusive :: "CurlResponse \<Rightarrow> bool" where
  "conclusive r = (hr_curlCode r = 0 \<and> 200 \<le> hr_status r \<and> hr_status r < 500 \<and> hr_status r \<noteq> 429)"

text \<open>
  The loop from attempt \<open>k\<close> on, with \<open>n\<close> attempts left and the response so far; the pauses between
  attempts are left out.
\<close>

fun curl_attempts :: "libcurl \<Rightarrow> curl_call \<Rightarrow> nat \<Rightarrow> nat \<Rightarrow> CurlResponse \<Rightarrow> CurlResponse" where
  "curl_attempts C call 0 k response = response"
| "curl_attempts C call (Suc n) k response =
     (if \<not> lc_init C k then default_response\<lparr>hr_curlCode := CURLE_FAILED_INIT\<rparr>
      else let r = attempt_response C call k
           in if conclusive r then r else curl_attempts C call n (k + 1) r)"

definition DoRequest ::
  "libcurl \<Rightarrow> string \<Rightarrow> headers \<Rightarrow> CurlRequestOptions \<Rightarrow> string option \<Rightarrow> CurlResponse" where
  "DoRequest C url hs options post =
     curl_attempts C (curl_call_of url hs options post) (nat (1 + co_maxRetries options)) 0 default_response"

definition CurlGet :: "libcurl \<Rightarrow> string \<Rightarrow> headers \<Rightarrow> CurlRequestOptions \<Rightarrow> CurlResponse" where
  "CurlGet C url hs options = DoRequest C url hs options None"

definition CurlPost :: "libcurl \<Rightarrow> string \<Rightarrow> string \<Rightarrow> headers \<Rightarrow> CurlRequestOptions \<Rightarrow> CurlResponse" where
  "CurlPost C url body extraHeaders options = DoRequest C url extraHeaders options (Some body)"

section \<open>model\_http\_client.cpp\<close>

record JsonPostRequest =
  jp_url :: string
  jp_body :: string
  jp_timeoutSeconds :: int
  jp_headers :: headers

type_synonym transport = "JsonPostRequest \<Rightarrow> CurlResponse"

definition DefaultPostJson :: "libcurl \<Rightarrow> transport" where
  "DefaultPostJson C request =
     CurlPost C (jp_url request) (jp_body request) (jp_headers request)
       (default_curl_options\<lparr>co_timeoutSeconds := jp_timeoutSeconds request\<rparr>)"

text \<open>A \<open>ModelHttpClient\<close> made from an empty \<open>std::function\<close> uses the default transport.\<close>

definition PostJson :: "libcurl \<Rightarrow> transport option \<Rightarrow> transport" where
  "PostJson C t = (case t of None \<Rightarrow> DefaultPostJson C | Some f \<Rightarrow> f)"

section \<open>Configurations (model\_config.cpp)\<close>

record ModelConfig =
  mo_baseUrl :: string
  mo_apiKey :: string
  mo_modelName :: string
  mo_timeoutSeconds :: int
  mo_temperature :: rat
  mo_maxTokens :: int
  mo_headers :: headers
  mo_extraParams :: json

record OpenAiModelConfig = ModelConfig +
  mo_organization :: string

record AnthropicModelConfig = ModelConfig +
  mo_anthropicVersion :: string

definition extra_params_of :: "json \<Rightarrow> json" where
  "extra_params_of j =
     (if contains j ''extraParams'' \<and> is_object (json_at j ''extraParams'') then json_at j ''extraParams'' else JObj [])"

definition LoadModelConfig :: "json \<Rightarrow> int \<Rightarrow> ModelConfig" where
  "LoadModelConfig j defaultMaxTokens =
     \<lparr>mo_baseUrl = JsonString j ''baseUrl'' [], mo_apiKey = JsonString j ''apiKey'' [],
      mo_modelName = JsonString j ''modelName'' [], mo_timeoutSeconds = JsonInt j ''timeoutSeconds'' 60,
      mo_temperature = JsonDouble j ''temperature'' 0,
      mo_maxTokens = JsonInt j ''maxTokens'' (JsonInt j ''max_tokens'' defaultMaxTokens),
      mo_headers = JsonStringMap j ''headers'', mo_extraParams = extra_params_of j\<rparr>"

section \<open>The OpenAI provider\<close>

definition strip_slashes :: "string \<Rightarrow> string" where
  "strip_slashes url = rev (dropWhile (\<lambda>c. c = CHR ''/'') (rev url))"

definition ends_with :: "string \<Rightarrow> string \<Rightarrow> bool" where
  "ends_with suf s = (length s \<ge> length suf \<and> drop (length s - length suf) s = suf)"

definition OpenAiEndpoint :: "'a ModelConfig_scheme \<Rightarrow> string" where
  "OpenAiEndpoint c =
     (let url = strip_slashes (mo_baseUrl c) in
      if ends_with ''/chat/completions'' url then url else url @ ''/chat/completions'')"

definition system_prompt :: string where
  "system_prompt = ''You are a memory extraction assistant. Output ONLY valid JSON.''"

definition chat_message :: "string \<Rightarrow> string \<Rightarrow> json" where
  "chat_message role content = jobj [(''role'', JStr role), (''content'', JStr content)]"

definition openai_body :: "'a ModelConfig_scheme \<Rightarrow> string \<Rightarrow> json" where
  "openai_body c prompt =
     (let body = JsonObject (mo_extraParams c);
          body1 = json_set ''temperature'' (JFloat (mo_temperature c)) (json_set ''model'' (JStr (mo_modelName c)) body);
          body2 = (if mo_maxTokens c > 0 then json_set ''max_tokens'' (JInt (mo_maxTokens c)) body1 else body1)
      in json_set ''messages'' (JArr [chat_message ''system'' system_prompt, chat_message ''user'' prompt]) body2)"

fun of_sum :: "string + 'a \<Rightarrow> 'a outcome" where
  "of_sum (Inl w) = Throw w"
| "of_sum (Inr x) = Ret x"

definition OpenAiBuildRequestBody :: "json_lib \<Rightarrow> 'a ModelConfig_scheme \<Rightarrow> string \<Rightarrow> string outcome" where
  "OpenAiBuildRequestBody J c prompt = of_sum (jdump J (openai_body c prompt))"

text \<open>The first element of a non-empty array, and \<open>null\<close> otherwise.\<close>

fun first_item :: "json \<Rightarrow> json" where
  "first_item (JArr (x # xs)) = x"
| "first_item _ = JNull"

definition OpenAiParseResponseBody :: "json_lib \<Rightarrow> string \<Rightarrow> string outcome" where
  "OpenAiParseResponseBody J body =
     (case jparse J body of
        Inl _ \<Rightarrow> Ret []
      | Inr j \<Rightarrow>
        (if \<not> is_object j then Ret []
         else if contains j ''error'' then Ret []
         else if \<not> contains j ''choices'' \<or> \<not> is_array (json_at j ''choices'') \<or> json_empty (json_at j ''choices'') then Ret []
         else
           let choice = first_item (json_at j ''choices'') in
           if contains choice ''message'' \<and> is_object (json_at choice ''message'')
           then value_string (json_at choice ''message'') ''content'' []
           else if contains choice ''text'' \<and> is_string (json_at choice ''text'')
           then Ret (get_string (json_at choice ''text''))
           else Ret []))"

text \<open>\<open>headers[key] = value\<close> on the unordered map.\<close>

definition put_header :: "string \<Rightarrow> string \<Rightarrow> headers \<Rightarrow> headers" where
  "put_header k v hs = filter (\<lambda>h. fst h \<noteq> k) hs @ [(k, v)]"

definition invoke_error :: "int \<Rightarrow> string \<Rightarrow> string \<Rightarrow> string \<Rightarrow> ModelInvokeResult" where
  "invoke_error status code msg provider =
     default_invoke_result\<lparr>inv_httpStatus := status, inv_errorCode := code, inv_errorMessage := msg,
       inv_providerError := provider\<rparr>"

text \<open>
  The tail both providers share: the status must be 2xx, the text must not be empty. The status is
  stored into an \<open>int\<close>.
\<close>

definition invoke_answer :: "string \<Rightarrow> (string \<Rightarrow> string outcome) \<Rightarrow> CurlResponse \<Rightarrow> ModelInvokeResult outcome" where
  "invoke_answer name parse response =
     (if hr_status response < 200 \<or> hr_status response \<ge> 300
      then Ret (invoke_error (i32 (hr_status response)) ''http_error'' (name @ '' model request failed'') (hr_body response))
      else map_outcome_val
        (\<lambda>text. if text = []
                then invoke_error (i32 (hr_status response)) ''parse_error''
                       (name @ '' model response did not contain memory update text'') (hr_body response)
                else default_invoke_result\<lparr>inv_httpStatus := i32 (hr_status response), inv_text := text\<rparr>)
        (parse (hr_body response)))"

definition openai_headers :: "OpenAiModelConfig \<Rightarrow> headers" where
  "openai_headers c =
     (let h1 = (if mo_apiKey c \<noteq> [] then put_header ''Authorization'' (''Bearer '' @ mo_apiKey c) (mo_headers c) else mo_headers c)
      in if mo_organization c \<noteq> [] then put_header ''OpenAI-Organization'' (mo_organization c) h1 else h1)"

definition OpenAiGenerate :: "json_lib \<Rightarrow> transport \<Rightarrow> OpenAiModelConfig \<Rightarrow> model_client" where
  "OpenAiGenerate J post c prompt =
     (if mo_baseUrl c = [] \<or> mo_modelName c = []
      then Ret (invoke_error 0 ''invalid_config'' ''OpenAI model config requires baseUrl and modelName'' [])
      else case OpenAiBuildRequestBody J c prompt of
             Throw w \<Rightarrow> Throw w
           | Ret body \<Rightarrow>
               invoke_answer ''OpenAI'' (OpenAiParseResponseBody J)
                 (post \<lparr>jp_url = OpenAiEndpoint c, jp_body = body, jp_timeoutSeconds = mo_timeoutSeconds c,
                        jp_headers = openai_headers c\<rparr>))"

section \<open>The Anthropic provider\<close>

definition AnthropicEndpoint :: "'a ModelConfig_scheme \<Rightarrow> string" where
  "AnthropicEndpoint c =
     (let url = strip_slashes (mo_baseUrl c) in
      if ends_with ''/v1/messages'' url then url
      else if ends_with ''/v1'' url then url @ ''/messages''
      else url @ ''/v1/messages'')"

definition anthropic_body :: "'a ModelConfig_scheme \<Rightarrow> string \<Rightarrow> json" where
  "anthropic_body c prompt =
     json_set ''messages'' (JArr [chat_message ''user'' prompt])
       (json_set ''system'' (JStr system_prompt)
         (json_set ''temperature'' (JFloat (mo_temperature c))
           (json_set ''max_tokens'' (JInt (if mo_maxTokens c > 0 then mo_maxTokens c else 4096))
             (json_set ''model'' (JStr (mo_modelName c)) (JsonObject (mo_extraParams c))))))"

definition AnthropicBuildRequestBody :: "json_lib \<Rightarrow> 'a ModelConfig_scheme \<Rightarrow> string \<Rightarrow> string outcome" where
  "AnthropicBuildRequestBody J c prompt = of_sum (jdump J (anthropic_body c prompt))"

text \<open>The loop over the content blocks, appending to \<open>text\<close>.\<close>

fun text_blocks :: "string \<Rightarrow> json list \<Rightarrow> string outcome" where
  "text_blocks text [] = Ret text"
| "text_blocks text (b # bs) =
     (if \<not> is_object b then text_blocks text bs
      else case value_string b ''type'' [] of
             Throw w \<Rightarrow> Throw w
           | Ret t \<Rightarrow>
               (if t = ''text'' \<and> contains b ''text'' \<and> is_string (json_at b ''text'')
                then text_blocks (text @ get_string (json_at b ''text'')) bs
                else text_blocks text bs))"

definition AnthropicParseResponseBody :: "json_lib \<Rightarrow> string \<Rightarrow> string outcome" where
  "AnthropicParseResponseBody J body =
     (case jparse J body of
        Inl _ \<Rightarrow> Ret []
      | Inr j \<Rightarrow>
        (if \<not> is_object j then Ret []
         else if contains j ''error'' then Ret []
         else case json_at j ''content'' of JArr bs \<Rightarrow> text_blocks [] bs | _ \<Rightarrow> Ret []))"

definition anthropic_headers :: "AnthropicModelConfig \<Rightarrow> headers" where
  "anthropic_headers c =
     (let h1 = (if mo_apiKey c \<noteq> [] then put_header ''x-api-key'' (mo_apiKey c) (mo_headers c) else mo_headers c)
      in if mo_anthropicVersion c \<noteq> [] then put_header ''anthropic-version'' (mo_anthropicVersion c) h1 else h1)"

definition AnthropicGenerate :: "json_lib \<Rightarrow> transport \<Rightarrow> AnthropicModelConfig \<Rightarrow> model_client" where
  "AnthropicGenerate J post c prompt =
     (if mo_baseUrl c = [] \<or> mo_modelName c = []
      then Ret (invoke_error 0 ''invalid_config'' ''Anthropic model config requires baseUrl and modelName'' [])
      else case AnthropicBuildRequestBody J c prompt of
             Throw w \<Rightarrow> Throw w
           | Ret body \<Rightarrow>
               invoke_answer ''Anthropic'' (AnthropicParseResponseBody J)
                 (post \<lparr>jp_url = AnthropicEndpoint c, jp_body = body, jp_timeoutSeconds = mo_timeoutSeconds c,
                        jp_headers = anthropic_headers c\<rparr>))"

section \<open>model\_client\_factory.cpp\<close>

definition LoadOpenAiConfig :: "MemoryModelConfig \<Rightarrow> OpenAiModelConfig" where
  "LoadOpenAiConfig source =
     \<lparr>mo_baseUrl = mc_baseUrl source, mo_apiKey = mc_apiKey source, mo_modelName = mc_modelName source,
      mo_timeoutSeconds = mc_timeoutSeconds source, mo_temperature = mc_temperature source,
      mo_maxTokens = mc_maxTokens source, mo_headers = mc_headers source, mo_extraParams = mc_extraParams source,
      mo_organization = mc_organization source\<rparr>"

definition LoadAnthropicConfig :: "MemoryModelConfig \<Rightarrow> AnthropicModelConfig" where
  "LoadAnthropicConfig source =
     \<lparr>mo_baseUrl = mc_baseUrl source, mo_apiKey = mc_apiKey source, mo_modelName = mc_modelName source,
      mo_timeoutSeconds = mc_timeoutSeconds source, mo_temperature = mc_temperature source,
      mo_maxTokens = (if mc_maxTokens source = 0 then 4096 else mc_maxTokens source),
      mo_headers = mc_headers source, mo_extraParams = mc_extraParams source,
      mo_anthropicVersion = (if mc_anthropicVersion source = [] then ''2023-06-01'' else mc_anthropicVersion source)\<rparr>"

text \<open>The error text, empty when the configuration is usable.\<close>

definition ValidateCommon :: "string \<Rightarrow> 'a ModelConfig_scheme \<Rightarrow> string" where
  "ValidateCommon formatType c =
     (if mo_baseUrl c = [] then formatType @ '' model config missing baseUrl''
      else if mo_modelName c = [] then formatType @ '' model config missing modelName''
      else if mo_timeoutSeconds c \<le> 0 then formatType @ '' model config timeoutSeconds must be positive''
      else if mo_maxTokens c < 0 then formatType @ '' model config maxTokens must be non-negative''
      else if mo_temperature c < 0 \<or> mo_temperature c > 2
      then formatType @ '' model config temperature must be between 0 and 2''
      else [])"

definition ValidateJsonConfig :: "json \<Rightarrow> string \<Rightarrow> string" where
  "ValidateJsonConfig j formatType =
     (if HasInvalidString j ''formatType'' then ''model config formatType must be a string''
      else if HasInvalidString j ''baseUrl'' then formatType @ '' model config baseUrl must be a string''
      else if HasInvalidString j ''apiKey'' then formatType @ '' model config apiKey must be a string''
      else if HasInvalidString j ''organization'' then formatType @ '' model config organization must be a string''
      else if HasInvalidString j ''anthropicVersion'' \<or> HasInvalidString j ''anthropic-version''
      then formatType @ '' model config anthropicVersion must be a string''
      else if HasInvalidString j ''modelName'' then formatType @ '' model config modelName must be a string''
      else if HasInvalidInteger j ''timeoutSeconds'' then formatType @ '' model config timeoutSeconds must be an integer''
      else if HasInvalidInteger j ''maxTokens'' \<or> HasInvalidInteger j ''max_tokens''
      then formatType @ '' model config maxTokens must be an integer''
      else if HasInvalidNumber j ''temperature'' then formatType @ '' model config temperature must be a number''
      else if HasInvalidObject j ''headers'' then formatType @ '' model config headers must be an object''
      else if HasInvalidObject j ''extraParams'' then formatType @ '' model config extraParams must be an object''
      else [])"

text \<open>A configuration with the error text; the configuration is the default one when there is an error.\<close>

definition LoadMemoryModelConfigFromJson :: "json \<Rightarrow> MemoryModelConfig \<times> string" where
  "LoadMemoryModelConfigFromJson j =
     (if \<not> is_object j then (default_model_config, ''invalid model config JSON'')
      else
        let formatType = JsonString j ''formatType'' ''openai'';
            err = ValidateJsonConfig j formatType
        in if err \<noteq> [] then (default_model_config, err)
           else
             (\<lparr>mc_enabled = True, mc_formatType = formatType, mc_baseUrl = JsonString j ''baseUrl'' [],
               mc_apiKey = JsonString j ''apiKey'' [], mc_modelName = JsonString j ''modelName'' [],
               mc_organization = JsonString j ''organization'' [],
               mc_anthropicVersion = JsonString j ''anthropicVersion''
                 (JsonString j ''anthropic-version'' (mc_anthropicVersion default_model_config)),
               mc_timeoutSeconds = JsonInt j ''timeoutSeconds'' (mc_timeoutSeconds default_model_config),
               mc_temperature = JsonDouble j ''temperature'' (mc_temperature default_model_config),
               mc_maxTokens = JsonInt j ''maxTokens'' (JsonInt j ''max_tokens'' (mc_maxTokens default_model_config)),
               mc_headers = JsonStringMap j ''headers'', mc_extraParams = extra_params_of j\<rparr>, []))"

text \<open>The client, null when \<open>None\<close>, with the error text.\<close>

definition LoadModelClientFromConfig ::
  "json_lib \<Rightarrow> transport \<Rightarrow> MemoryModelConfig \<Rightarrow> model_client option \<times> string" where
  "LoadModelClientFromConfig J post modelConfig =
     (if \<not> mc_enabled modelConfig then (None, [])
      else if mc_formatType modelConfig = ''openai''
      then (let c = LoadOpenAiConfig modelConfig;
                err = ValidateCommon (mc_formatType modelConfig) c
            in if err \<noteq> [] then (None, err) else (Some (OpenAiGenerate J post c), []))
      else if mc_formatType modelConfig = ''anthropic''
      then (let c = LoadAnthropicConfig modelConfig;
                err = ValidateCommon (mc_formatType modelConfig) c
            in if err \<noteq> [] then (None, err) else (Some (AnthropicGenerate J post c), []))
      else (None, ''unsupported model formatType: '' @ mc_formatType modelConfig))"

definition LoadModelClientFromJson ::
  "json_lib \<Rightarrow> transport \<Rightarrow> json \<Rightarrow> model_client option \<times> string" where
  "LoadModelClientFromJson J post j =
     (let (config, err) = LoadMemoryModelConfigFromJson j in
      if err \<noteq> [] then (None, err) else LoadModelClientFromConfig J post config)"

text \<open>
  A stream over a file: \<open>None\<close> when it does not open, otherwise the bytes that could be read. Opening
  a directory succeeds and reading it gives nothing.
\<close>

definition read_stream :: "string \<Rightarrow> filesys \<Rightarrow> string option \<times> filesys" where
  "read_stream p F =
     (let (ok, F1) = next_io F in
      if \<not> ok then (None, F1)
      else case sys_walk F1 (path_of p) of
             Found loc \<Rightarrow> (case node F1 loc of Some (File c t) \<Rightarrow> (Some c, F1) | _ \<Rightarrow> (Some [], F1))
           | _ \<Rightarrow> (None, F1))"

definition LoadModelClientWithResult ::
  "json_lib \<Rightarrow> transport \<Rightarrow> string \<Rightarrow> filesys \<Rightarrow> (model_client option \<times> string) \<times> filesys" where
  "LoadModelClientWithResult J post jsonFile F =
     (case read_stream jsonFile F of
        (None, F1) \<Rightarrow> ((None, ''failed to open model config: '' @ jsonFile), F1)
      | (Some text, F1) \<Rightarrow>
        (case jparse J text of
           Inl _ \<Rightarrow> ((None, ''invalid model config JSON''), F1)
         | Inr j \<Rightarrow>
             if \<not> is_object j then ((None, ''invalid model config JSON''), F1)
             else (LoadModelClientFromJson J post j, F1)))"

end
