(* ===== verification/Model_Properties.thy ===== *)
theory Model_Properties
  imports Model_Client Consolidation_Properties
begin

text \<open>
  Properties of the model clients: the retry loop, what both providers promise of an answer (the
  locale \<open>model_provider\<close>), the validation of a configuration, and what an answer without text does
  to a consolidation.
\<close>

section \<open>Retries\<close>

lemma curl_attempts_spec:
  assumes "\<forall>i. lc_init C i"
  shows "\<exists>j\<le>n. curl_attempts C call (Suc n) k r = attempt_response C call (k + j) \<and>
    (\<forall>i<j. \<not> conclusive (attempt_response C call (k + i))) \<and>
    (j < n \<longrightarrow> conclusive (attempt_response C call (k + j)))"
proof (induction n arbitrary: k r)
  case 0
  show ?case using assms by (auto simp: Let_def)
next
  case (Suc n)
  show ?case
  proof (cases "conclusive (attempt_response C call k)")
    case True
    then show ?thesis using assms by (intro exI [of _ 0]) simp
  next
    case False
    from Suc [of "k + 1" "attempt_response C call k"] obtain j where
      j: "j \<le> n" "curl_attempts C call (Suc n) (k + 1) (attempt_response C call k) = attempt_response C call (k + 1 + j)"
      "\<forall>i<j. \<not> conclusive (attempt_response C call (k + 1 + i))"
      "j < n \<longrightarrow> conclusive (attempt_response C call (k + 1 + j))" by blast
    have "curl_attempts C call (Suc (Suc n)) k r = attempt_response C call (k + Suc j)"
      using False assms j(2) by simp
    moreover have "\<forall>i<Suc j. \<not> conclusive (attempt_response C call (k + i))"
      using False j(3) by (auto simp: less_Suc_eq_0_disj)
    ultimately show ?thesis using j by (intro exI [of _ "Suc j"]) simp
  qed
qed


text \<open>A server that is busy once and then answers.\<close>

definition busy_once :: libcurl where
  "busy_once = \<lparr>lc_init = (\<lambda>k. True),
     lc_perform = (\<lambda>k call. default_response\<lparr>hr_status := (if k = 0 then 503 else 200), hr_body := ''ok''\<rparr>)\<rparr>"


section \<open>What a provider promises\<close>

locale model_provider =
  fixes generate :: "transport \<Rightarrow> model_client" and usable :: bool and name :: string
    and request :: "string \<Rightarrow> JsonPostRequest outcome" and parse :: "string \<Rightarrow> string outcome"
  assumes generates: "generate post prompt =
    (if \<not> usable then Ret (invoke_error 0 ''invalid_config'' (name @ '' model config requires baseUrl and modelName'') [])
     else case request prompt of Throw w \<Rightarrow> Throw w | Ret q \<Rightarrow> invoke_answer name parse (post q))"
begin

lemma returned:
  assumes "usable" "generate post prompt = Ret r"
  obtains (http) q where "request prompt = Ret q" "hr_status (post q) < 200 \<or> hr_status (post q) \<ge> 300"
      "r = invoke_error (i32 (hr_status (post q))) ''http_error'' (name @ '' model request failed'') (hr_body (post q))"
  | (no_text) q where "request prompt = Ret q" "200 \<le> hr_status (post q)" "hr_status (post q) < 300"
      "parse (hr_body (post q)) = Ret []"
      "r = invoke_error (i32 (hr_status (post q))) ''parse_error''
             (name @ '' model response did not contain memory update text'') (hr_body (post q))"
  | (answer) q t where "request prompt = Ret q" "200 \<le> hr_status (post q)" "hr_status (post q) < 300"
      "parse (hr_body (post q)) = Ret t" "t \<noteq> []"
      "r = default_invoke_result\<lparr>inv_httpStatus := i32 (hr_status (post q)), inv_text := t\<rparr>"
proof -
  from assms obtain q where q: "request prompt = Ret q" "invoke_answer name parse (post q) = Ret r"
    by (cases "request prompt") (auto simp: generates)
  show ?thesis
  proof (cases "hr_status (post q) < 200 \<or> hr_status (post q) \<ge> 300")
    case True
    with q show ?thesis by (intro http) (auto simp: invoke_answer_def)
  next
    case ok: False
    with q(2) obtain t where t: "parse (hr_body (post q)) = Ret t" by (auto simp: invoke_answer_def)
    show ?thesis
    proof (cases "t = []")
      case True
      with q ok t show ?thesis by (intro no_text) (auto simp: invoke_answer_def)
    next
      case False
      with q ok t show ?thesis by (intro answer) (auto simp: invoke_answer_def)
    qed
  qed
qed

lemma reports:
  assumes "usable" "generate post prompt = Ret r"
  shows "(invoke_ok r \<longleftrightarrow> inv_errorCode r = []) \<and>
    (inv_errorCode r \<noteq> [] \<longrightarrow> inv_errorMessage r \<noteq> [] \<and> inv_text r = []) \<and>
    (\<exists>q. request prompt = Ret q \<and> inv_httpStatus r = i32 (hr_status (post q)) \<and>
       (inv_errorCode r = ''http_error'' \<longleftrightarrow> hr_status (post q) < 200 \<or> hr_status (post q) \<ge> 300) \<and>
       (inv_errorCode r = ''parse_error'' \<longleftrightarrow>
          200 \<le> hr_status (post q) \<and> hr_status (post q) < 300 \<and> parse (hr_body (post q)) = Ret []))"
  using assms
proof (cases rule: returned)
  case (http q)
  then show ?thesis by (auto simp: invoke_ok_def invoke_error_def default_invoke_result_def)
next
  case (no_text q)
  then show ?thesis by (auto simp: invoke_ok_def invoke_error_def default_invoke_result_def)
next
  case (answer q t)
  then show ?thesis by (auto simp: invoke_ok_def default_invoke_result_def)
qed

end

text \<open>The request each provider makes of a prompt.\<close>

definition openai_request :: "json_lib \<Rightarrow> OpenAiModelConfig \<Rightarrow> string \<Rightarrow> JsonPostRequest outcome" where
  "openai_request J c prompt = map_outcome_val (\<lambda>body. \<lparr>jp_url = OpenAiEndpoint c, jp_body = body,
     jp_timeoutSeconds = mo_timeoutSeconds c, jp_headers = openai_headers c\<rparr>) (OpenAiBuildRequestBody J c prompt)"

definition anthropic_request :: "json_lib \<Rightarrow> AnthropicModelConfig \<Rightarrow> string \<Rightarrow> JsonPostRequest outcome" where
  "anthropic_request J c prompt = map_outcome_val (\<lambda>body. \<lparr>jp_url = AnthropicEndpoint c, jp_body = body,
     jp_timeoutSeconds = mo_timeoutSeconds c, jp_headers = anthropic_headers c\<rparr>) (AnthropicBuildRequestBody J c prompt)"

definition model_request :: "json_lib \<Rightarrow> MemoryModelConfig \<Rightarrow> string \<Rightarrow> JsonPostRequest outcome" where
  "model_request J mc prompt =
     (if mc_formatType mc = ''openai'' then openai_request J (LoadOpenAiConfig mc) prompt
      else anthropic_request J (LoadAnthropicConfig mc) prompt)"

interpretation openai: model_provider "\<lambda>post. OpenAiGenerate J post c" "mo_baseUrl c \<noteq> [] \<and> mo_modelName c \<noteq> []"
  "''OpenAI''" "openai_request J c" "OpenAiParseResponseBody J" for J c
  by unfold_locales (auto simp: OpenAiGenerate_def openai_request_def split: outcome.splits)

interpretation anthropic: model_provider "\<lambda>post. AnthropicGenerate J post c" "mo_baseUrl c \<noteq> [] \<and> mo_modelName c \<noteq> []"
  "''Anthropic''" "anthropic_request J c" "AnthropicParseResponseBody J" for J c
  by unfold_locales (auto simp: AnthropicGenerate_def anthropic_request_def split: outcome.splits)

section \<open>Loading a client\<close>

definition usable_model :: "MemoryModelConfig \<Rightarrow> bool" where
  "usable_model mc = (mc_formatType mc \<in> {''openai'', ''anthropic''} \<and> mc_baseUrl mc \<noteq> [] \<and> mc_modelName mc \<noteq> [] \<and>
     0 < mc_timeoutSeconds mc \<and> 0 \<le> mc_maxTokens mc \<and> 0 \<le> mc_temperature mc \<and> mc_temperature mc \<le> 2)"

lemma ValidateCommon_Nil:
  "ValidateCommon ft c = [] \<longleftrightarrow> mo_baseUrl c \<noteq> [] \<and> mo_modelName c \<noteq> [] \<and> 0 < mo_timeoutSeconds c \<and>
     0 \<le> mo_maxTokens c \<and> 0 \<le> mo_temperature c \<and> mo_temperature c \<le> 2"
  by (auto simp: ValidateCommon_def)

lemma LoadModelClientFromConfig_cases:
  obtains (off) "\<not> mc_enabled mc" "LoadModelClientFromConfig J post mc = (None, [])"
  | (bad) e where "mc_enabled mc" "\<not> usable_model mc" "LoadModelClientFromConfig J post mc = (None, e)" "e \<noteq> []"
  | (openai) "mc_enabled mc" "usable_model mc" "mc_formatType mc = ''openai''"
      "LoadModelClientFromConfig J post mc = (Some (OpenAiGenerate J post (LoadOpenAiConfig mc)), [])"
  | (anthropic) "mc_enabled mc" "usable_model mc" "mc_formatType mc = ''anthropic''"
      "LoadModelClientFromConfig J post mc = (Some (AnthropicGenerate J post (LoadAnthropicConfig mc)), [])"
proof -
  consider "\<not> mc_enabled mc" | "mc_enabled mc" "mc_formatType mc = ''openai''" | "mc_enabled mc" "mc_formatType mc = ''anthropic''"
    | "mc_enabled mc" "mc_formatType mc \<notin> {''openai'', ''anthropic''}" by auto
  then show ?thesis
  proof cases
    case 1
    then show ?thesis by (intro off) (auto simp: LoadModelClientFromConfig_def)
  next
    case 2
    have u: "ValidateCommon ''openai'' (LoadOpenAiConfig mc) = [] \<longleftrightarrow> usable_model mc"
      using 2(2) by (simp add: ValidateCommon_Nil usable_model_def LoadOpenAiConfig_def)
    show ?thesis
    proof (cases "usable_model mc")
      case True
      with 2 u show ?thesis by (intro openai) (simp_all add: LoadModelClientFromConfig_def)
    next
      case False
      with 2 u show ?thesis by (intro bad [of "ValidateCommon ''openai'' (LoadOpenAiConfig mc)"]) (simp_all add: LoadModelClientFromConfig_def)
    qed
  next
    case 3
    have u: "ValidateCommon ''anthropic'' (LoadAnthropicConfig mc) = [] \<longleftrightarrow> usable_model mc"
      using 3(2) by (auto simp: ValidateCommon_Nil usable_model_def LoadAnthropicConfig_def)
    show ?thesis
    proof (cases "usable_model mc")
      case True
      with 3 u show ?thesis by (intro anthropic) (simp_all add: LoadModelClientFromConfig_def)
    next
      case False
      with 3 u show ?thesis by (intro bad [of "ValidateCommon ''anthropic'' (LoadAnthropicConfig mc)"]) (simp_all add: LoadModelClientFromConfig_def)
    qed
  next
    case 4
    then show ?thesis by (intro bad) (auto simp: LoadModelClientFromConfig_def usable_model_def)
  qed
qed

text \<open>
  C32: A client that the factory loads was configured with a known format, a URL, a model name and
  numbers in range, so it never answers \<open>invalid_config\<close>. Whatever it returns is usable exactly when
  it carries no error code; a status outside 200 to 299 is an \<open>http_error\<close>, anything else without a
  text a \<open>parse_error\<close>, and both come with a message.
\<close>

theorem loaded_client_reports:
  assumes load: "LoadModelClientFromConfig J post mc = (Some client, e)" and run: "client prompt = Ret r"
  shows "usable_model mc \<and> e = [] \<and> (invoke_ok r \<longleftrightarrow> inv_errorCode r = []) \<and>
    (inv_errorCode r \<noteq> [] \<longrightarrow> inv_errorCode r \<in> {''http_error'', ''parse_error''} \<and> inv_errorMessage r \<noteq> []) \<and>
    (\<exists>q. model_request J mc prompt = Ret q \<and> inv_httpStatus r = i32 (hr_status (post q)) \<and>
       (inv_errorCode r = ''http_error'' \<longleftrightarrow> hr_status (post q) < 200 \<or> hr_status (post q) \<ge> 300))"
proof (cases rule: LoadModelClientFromConfig_cases [of mc J post])
  case off
  with load show ?thesis by simp
next
  case (bad e)
  with load show ?thesis by simp
next
  case openai
  let ?c = "LoadOpenAiConfig mc"
  have u: "mo_baseUrl ?c \<noteq> [] \<and> mo_modelName ?c \<noteq> []" using openai(2) by (simp add: usable_model_def LoadOpenAiConfig_def)
  have g: "OpenAiGenerate J post ?c prompt = Ret r" and e: "e = []" using load run openai(4) by auto
  from u g show ?thesis unfolding e
    by (cases rule: openai.returned)
      (use openai(2,3) in \<open>auto simp: model_request_def invoke_ok_def invoke_error_def default_invoke_result_def\<close>)
next
  case anthropic
  let ?c = "LoadAnthropicConfig mc"
  have u: "mo_baseUrl ?c \<noteq> [] \<and> mo_modelName ?c \<noteq> []" using anthropic(2) by (simp add: usable_model_def LoadAnthropicConfig_def)
  have g: "AnthropicGenerate J post ?c prompt = Ret r" and e: "e = []" using load run anthropic(4) by auto
  from u g show ?thesis unfolding e
    by (cases rule: anthropic.returned)
      (use anthropic(2,3) in \<open>auto simp: model_request_def invoke_ok_def invoke_error_def default_invoke_result_def\<close>)
qed

text \<open>A provider that gives the same answer to every request, and a library that reads it as \<open>j\<close>.\<close>

definition fixed_transport :: "int \<Rightarrow> transport" where
  "fixed_transport status q = default_response\<lparr>hr_status := status, hr_body := ''answer''\<rparr>"

definition reading_lib :: "json \<Rightarrow> json_lib" where
  "reading_lib j = \<lparr>jdump = (\<lambda>v. Inr ''text''), jparse = (\<lambda>t. Inr j)\<rparr>"

definition local_model :: MemoryModelConfig where
  "local_model = default_model_config\<lparr>mc_enabled := True, mc_baseUrl := ''http://localhost/'', mc_modelName := ''m''\<rparr>"

theorem loaded_client_reports_witness:
  "\<exists>client r. LoadModelClientFromConfig (reading_lib JNull) (fixed_transport 200) local_model = (Some client, []) \<and>
     client ''p'' = Ret r \<and> inv_errorCode r = ''parse_error'' \<and> \<not> invoke_ok r"
proof -
  let ?J = "reading_lib JNull" and ?post = "fixed_transport 200"
  let ?client = "OpenAiGenerate ?J ?post (LoadOpenAiConfig local_model)"
  have load: "LoadModelClientFromConfig ?J ?post local_model = (Some ?client, [])"
    by (simp add: LoadModelClientFromConfig_def ValidateCommon_def LoadOpenAiConfig_def local_model_def default_model_config_def)
  obtain r where run: "?client ''p'' = Ret r" "inv_errorCode r = ''parse_error''"
    by (simp add: OpenAiGenerate_def LoadOpenAiConfig_def local_model_def default_model_config_def OpenAiBuildRequestBody_def
        reading_lib_def fixed_transport_def invoke_answer_def OpenAiParseResponseBody_def invoke_error_def default_response_def
        default_invoke_result_def)
  from loaded_client_reports [OF load run(1)] run(2) have "\<not> invoke_ok r" by simp
  with load run show ?thesis by blast
qed

section \<open>An answer without content\<close>

lemma OpenAi_null_content:
  assumes "jparse J body = Inr j" "is_object j" "\<not> contains j ''error''" "json_at j ''choices'' = JArr (choice # rest)"
    "is_object (json_at choice ''message'')" "contains (json_at choice ''message'') ''content''"
    "json_at (json_at choice ''message'') ''content'' = JNull"
  shows "OpenAiParseResponseBody J body = Throw (type_error 302 ''type must be string, but is null'')"
proof -
  have "contains j ''choices''" using assms(2,4) by (cases j) (auto split: option.splits)
  moreover have "contains choice ''message''" using assms(5) by (cases choice) (auto split: option.splits)
  ultimately show ?thesis using assms by (simp add: OpenAiParseResponseBody_def value_string_def)
qed

text \<open>
  A chat completion whose message has \<open>content: null\<close> (a refusal or a tool call) is not read as an
  answer without text: the accessor throws, nothing catches the exception on the way, and the whole
  consolidation ends with it. The store is untouched and the rule-based processor is never asked.
\<close>

theorem null_content_aborts_consolidation:
  assumes load: "LoadModelClientFromConfig J post mc = (Some client, e)" and format: "mc_formatType mc = ''openai''"
    and batch: "lb_events (bb_batch (Build request events)) \<noteq> []"
    and sent: "model_request J mc (BuildPrompt (bb_batch (Build request events))) = Ret q"
      "200 \<le> hr_status (post q)" "hr_status (post q) < 300"
    and answer: "jparse J (hr_body (post q)) = Inr j" "is_object j" "\<not> contains j ''error''"
      "json_at j ''choices'' = JArr (choice # rest)" "is_object (json_at choice ''message'')"
      "contains (json_at choice ''message'') ''content''" "json_at (json_at choice ''message'') ''content'' = JNull"
  shows "Consolidate J fallback request events (Some client) s =
    (Throw (type_error 302 ''type must be string, but is null''), s)"
proof -
  let ?w = "type_error 302 ''type must be string, but is null''" and ?c = "LoadOpenAiConfig mc"
  let ?b = "bb_batch (Build request events)"
  have "usable_model mc" and client: "client = OpenAiGenerate J post ?c"
    using load format by (cases rule: LoadModelClientFromConfig_cases [of mc J post]; simp)+
  then have "mo_baseUrl ?c \<noteq> [] \<and> mo_modelName ?c \<noteq> []" by (simp add: usable_model_def LoadOpenAiConfig_def)
  moreover have "openai_request J ?c (BuildPrompt ?b) = Ret q" using sent(1) format by (simp add: model_request_def)
  ultimately have "client (BuildPrompt ?b) = Throw ?w"
    using sent(2,3) OpenAi_null_content [OF answer] unfolding client openai.generates by (simp add: invoke_answer_def)
  then have "choose_update J (Some client) fallback ?b = Throw ?w" by (simp add: choose_update_def LlmProcess_def)
  with batch show ?thesis by (simp add: Consolidate_def Let_def)
qed

definition null_answer :: json where
  "null_answer = jobj [(''choices'', JArr [jobj [(''message'', jobj [(''content'', JNull)])]])]"

theorem null_content_aborts_consolidation_witness:
  "\<exists>client. LoadModelClientFromConfig (reading_lib null_answer) (fixed_transport 200) local_model = (Some client, []) \<and>
     Consolidate (reading_lib null_answer) (Some RuleBasedProcess) one_message [stored_event hello 1] (Some client) hello_store =
       (Throw ''[json.exception.type_error.302] type must be string, but is null'', hello_store)"
proof -
  let ?J = "reading_lib null_answer" and ?post = "fixed_transport 200"
  let ?client = "OpenAiGenerate ?J ?post (LoadOpenAiConfig local_model)"
  let ?b = "bb_batch (Build one_message [stored_event hello 1])"
  have load: "LoadModelClientFromConfig ?J ?post local_model = (Some ?client, [])" and format: "mc_formatType local_model = ''openai''"
    by (simp_all add: LoadModelClientFromConfig_def ValidateCommon_def LoadOpenAiConfig_def local_model_def default_model_config_def)
  have b: "lb_events ?b \<noteq> []" by code_simp
  obtain q where sent: "model_request ?J local_model (BuildPrompt ?b) = Ret q"
    using format by (simp add: model_request_def openai_request_def OpenAiBuildRequestBody_def reading_lib_def)
  have status: "200 \<le> hr_status (?post q)" "hr_status (?post q) < 300" by (simp_all add: fixed_transport_def)
  have read: "jparse ?J (hr_body (?post q)) = Inr null_answer" by (simp add: reading_lib_def)
  have shape: "is_object null_answer" "\<not> contains null_answer ''error''"
    "json_at null_answer ''choices'' = JArr [jobj [(''message'', jobj [(''content'', JNull)])]]"
    "is_object (json_at (jobj [(''message'', jobj [(''content'', JNull)])]) ''message'')"
    "contains (json_at (jobj [(''message'', jobj [(''content'', JNull)])]) ''message'') ''content''"
    "json_at (json_at (jobj [(''message'', jobj [(''content'', JNull)])]) ''message'') ''content'' = JNull"
    by (simp_all add: null_answer_def jobj_def)
  have w: "type_error 302 ''type must be string, but is null'' = ''[json.exception.type_error.302] type must be string, but is null''"
    by code_simp
  note null_content_aborts_consolidation [OF load format b sent status read shape(1,2,3,4,5,6), of "Some RuleBasedProcess" hello_store]
  with load show ?thesis unfolding w by blast
qed

end
