(* ===== verification/Runtime.thy ===== *)
theory Runtime
  imports Context Payload Model_Client
begin

text \<open>
  The runtime facade (\<open>src/core/builtin_memory_runtime.cpp\<close>) and how it is put together
  (\<open>runtime_services.cpp\<close>, \<open>runtime_store_initializer.cpp\<close>, \<open>runtime_paths.cpp\<close>). A pointer that may
  be null is an option. The file system is passed along. Here an operation is
  one step; \<open>Threads\<close> takes a consolidation apart, with the mutex that guards it.
\<close>

section \<open>runtime\_paths.cpp\<close>

definition ResolveRuntimeDataPath :: "MemoryConfig \<Rightarrow> string" where
  "ResolveRuntimeDataPath config = (if cfg_dataPath config \<noteq> [] then cfg_dataPath config else ''./data'')"

definition RuntimeDatabaseDirectory :: "MemoryConfig \<Rightarrow> string" where
  "RuntimeDatabaseDirectory config = path_append (ResolveRuntimeDataPath config) ''memory_runtime''"

definition RuntimeDatabasePath :: "MemoryConfig \<Rightarrow> string" where
  "RuntimeDatabasePath config = path_append (RuntimeDatabaseDirectory config) ''memory.db''"

section \<open>runtime\_store\_initializer.cpp\<close>

text \<open>
  The argument \<open>s\<close> is the new \<open>MemorySqliteStore\<close> object on the database path: closed, over the
  content the file has. The result is the store, null when \<open>None\<close>, with the error text.
\<close>

definition CreateRuntimeStore :: "MemoryConfig \<Rightarrow> filesys \<Rightarrow> store \<Rightarrow> (store option \<times> string) \<times> filesys" where
  "CreateRuntimeStore config F s =
     (let (made, F1) = create_directories (path_of (RuntimeDatabaseDirectory config)) F in
      if \<not> made
      then ((None, ''failed to create runtime data directory: '' @ RuntimeDatabaseDirectory config @ '': '' @ fs_message F1), F1)
      else
        let (initializeResult, s1) = Initialize s in
        if \<not> succeeded initializeResult
        then ((None, ''failed to initialize sqlite memory store: '' @ RuntimeDatabasePath config @
                (if err_details (error_of initializeResult) \<noteq> []
                 then '': '' @ err_details (error_of initializeResult) else [])), F1)
        else ((Some s1, []), F1))"

section \<open>runtime\_services.cpp\<close>

text \<open>
  \<open>rt_consolidationService\<close> is the fallback processor the service was built with; the writer it also
  holds is a reference to the store.
\<close>

record runtime =
  rt_config :: MemoryConfig
  rt_store :: "store option"
  rt_storeError :: string
  rt_payloadService :: "payload_service option"
  rt_contextBuilder :: "context_builder option"
  rt_consolidationService :: "(LongTermMemoryBatch \<Rightarrow> LongTermMemoryUpdate) option"
  rt_modelClient :: "model_client option"
  rt_modelClientError :: string

definition CreateRuntimeServices ::
  "json_lib \<Rightarrow> transport \<Rightarrow> MemoryConfig \<Rightarrow> filesys \<Rightarrow> store \<Rightarrow> runtime \<times> filesys" where
  "CreateRuntimeServices J post config F s =
     (let dataPath = ResolveRuntimeDataPath config;
          ((st, storeError), F1) = CreateRuntimeStore config F s;
          (client, clientError) = LoadModelClientFromConfig J post (cfg_model config)
      in (\<lparr>rt_config = config, rt_store = st, rt_storeError = storeError,
           rt_payloadService = Some (new_PayloadService config dataPath (st \<noteq> None) F1),
           rt_contextBuilder = Some \<lparr>cb_config = config, cb_eventStore = (st \<noteq> None), cb_payloadStore = (st \<noteq> None),
             cb_longTermStore = (st \<noteq> None), cb_searchStore = (st \<noteq> None)\<rparr>,
           rt_consolidationService = (if st \<noteq> None then Some RuleBasedProcess else None),
           rt_modelClient = client, rt_modelClientError = clientError\<rparr>, F1))"

section \<open>builtin\_memory\_runtime.cpp\<close>

definition StoreUnavailableMessage :: "runtime \<Rightarrow> string" where
  "StoreUnavailableMessage rt = (if rt_storeError rt = [] then ''memory store unavailable'' else rt_storeError rt)"

text \<open>
  Running an operation of a service on the store it points to. A service built without a store
  never follows its pointer; the closed store stands for it.
\<close>

definition on_store :: "(store \<Rightarrow> 'a \<times> store) \<Rightarrow> runtime \<Rightarrow> 'a \<times> runtime" where
  "on_store f rt =
     (case rt_store rt of
        None \<Rightarrow> (fst (f (new_store empty_database)), rt)
      | Some s \<Rightarrow> (let (r, s1) = f s in (r, rt\<lparr>rt_store := Some s1\<rparr>)))"

definition failed_consolidation :: "MemoryError \<Rightarrow> MemoryConsolidationResult" where
  "failed_consolidation e = default_consolidation_result\<lparr>cres_error := e\<rparr>"

definition ConsolidateWithModel ::
  "json_lib \<Rightarrow> MemoryConsolidationRequest \<Rightarrow> model_client option \<Rightarrow> runtime \<Rightarrow>
   MemoryConsolidationResult outcome \<times> runtime" where
  "ConsolidateWithModel J request model rt =
     (case rt_store rt of
        None \<Rightarrow> (Ret (failed_consolidation (mk_error ''store_unavailable'' (StoreUnavailableMessage rt) [] False)), rt)
      | Some s \<Rightarrow>
        (case rt_consolidationService rt of
           None \<Rightarrow> (Ret (failed_consolidation
                      (mk_error ''consolidation_unavailable'' ''consolidation service unavailable'' [] False)), rt)
         | Some fallback \<Rightarrow>
           let (cursorResult, s1) =
                 (if cr_forceReprocess request then (success_with [], s)
                  else LoadConsolidationCursor (cr_agentId request) (cr_sessionId request) s)
           in if \<not> succeeded cursorResult
              then (Ret (failed_consolidation
                      (if HasError (error_of cursorResult) then error_of cursorResult
                       else mk_error ''cursor_load_failed'' ''failed to load consolidation cursor'' [] False)),
                    rt\<lparr>rt_store := Some s1\<rparr>)
              else
                let (eventsResult, s2) =
                      LoadEventsAfterCursor J (cr_agentId request) (cr_sessionId request) (payload_of cursorResult)
                        (cr_excludedSessionIds request) s1
                in if \<not> succeeded eventsResult
                   then (Ret (failed_consolidation
                           (if HasError (error_of eventsResult) then error_of eventsResult
                            else mk_error ''events_load_failed'' ''failed to load events for consolidation'' [] False)),
                         rt\<lparr>rt_store := Some s2\<rparr>)
                   else
                     let (result, s3) = Consolidate J (Some fallback) request (payload_of eventsResult) model s2
                     in (result, rt\<lparr>rt_store := Some s3\<rparr>)))"

definition AppendEvent :: "json_lib \<Rightarrow> MemoryEvent \<Rightarrow> runtime \<Rightarrow> MemoryOperationResult outcome \<times> runtime" where
  "AppendEvent J event rt =
     (case rt_store rt of
        None \<Rightarrow> (Ret (MemoryFailure ''store_unavailable'' (StoreUnavailableMessage rt) [] False), rt)
      | Some s \<Rightarrow>
          (let (result, s1) = SaveEvent J event s
           in (map_outcome_val
                 (\<lambda>r. if succeeded r then MemorySuccess
                      else if HasError (error_of r) then r
                      else MemoryFailure ''event_persist_failed'' ''failed to persist memory event'' [] False) result,
               rt\<lparr>rt_store := Some s1\<rparr>)))"

definition RuntimeBuildContext ::
  "json_lib \<Rightarrow> fts_engine \<Rightarrow> MemoryContextRequest \<Rightarrow> runtime \<Rightarrow> MemoryContextResult \<times> runtime" where
  "RuntimeBuildContext J fts request rt =
     (case rt_contextBuilder rt of
        None \<Rightarrow> (failure_with empty_package (mk_error ''context_build_failed'' ''context builder unavailable'' [] False), rt)
      | Some cb \<Rightarrow> on_store (BuildContext J fts cb request) rt)"

definition RuntimeWritePayload ::
  "draws \<Rightarrow> MemoryPayloadWriteRequest \<Rightarrow> filesys \<Rightarrow> runtime \<Rightarrow> MemoryPayloadWriteResult outcome \<times> filesys \<times> runtime" where
  "RuntimeWritePayload rnd request F rt =
     (case rt_payloadService rt of
        None \<Rightarrow> (Ret \<lparr>pwr_succeeded = False, pwr_offloaded = False, pwr_payload = empty_payload_ref,
                      pwr_replacementContent = pw_content request,
                      pwr_error = mk_error ''payload_write_failed'' ''payload service unavailable'' [] False\<rparr>, F, rt)
      | Some ps \<Rightarrow>
          (let ((result, F1), rt1) =
                 on_store (\<lambda>s. let (result, F1, s1) = WritePayload ps rnd request F s in ((result, F1), s1)) rt
           in (result, F1, rt1)))"

definition RuntimeReadPayload ::
  "string \<Rightarrow> filesys \<Rightarrow> runtime \<Rightarrow> MemoryPayloadReadResult outcome \<times> filesys" where
  "RuntimeReadPayload uri F rt =
     (case rt_payloadService rt of
        None \<Rightarrow> (Ret (failure_with [] (mk_error ''payload_read_failed'' ''payload service unavailable'' [] False)), F)
      | Some ps \<Rightarrow> ReadPayload ps uri F)"

text \<open>The two overloads: with the configured model, and with the one the caller gives.\<close>

definition RuntimeConsolidate ::
  "json_lib \<Rightarrow> MemoryConsolidationRequest \<Rightarrow> runtime \<Rightarrow> MemoryConsolidationResult outcome \<times> runtime" where
  "RuntimeConsolidate J request rt = ConsolidateWithModel J request (rt_modelClient rt) rt"

record MemoryModelStatus =
  ms_configured :: bool
  ms_available :: bool
  ms_formatType :: string
  ms_modelName :: string
  ms_error :: string

definition GetModelStatus :: "runtime \<Rightarrow> MemoryModelStatus" where
  "GetModelStatus rt =
     \<lparr>ms_configured = mc_enabled (cfg_model (rt_config rt)), ms_available = (rt_modelClient rt \<noteq> None),
      ms_formatType = mc_formatType (cfg_model (rt_config rt)), ms_modelName = mc_modelName (cfg_model (rt_config rt)),
      ms_error = rt_modelClientError rt\<rparr>"

definition SearchMemory ::
  "json_lib \<Rightarrow> fts_engine \<Rightarrow> MemorySearchRequest \<Rightarrow> runtime \<Rightarrow> MemorySearchResult \<times> runtime" where
  "SearchMemory J fts request rt =
     (case rt_store rt of
        None \<Rightarrow> (failure_with [] (mk_error ''search_unavailable'' (StoreUnavailableMessage rt) [] False), rt)
      | Some s \<Rightarrow> (let (result, s1) = SearchLongTermMemory J fts request s in (result, rt\<lparr>rt_store := Some s1\<rparr>)))"

definition GetStats :: "runtime \<Rightarrow> MemoryStatsResult \<times> runtime" where
  "GetStats rt =
     (case rt_store rt of
        None \<Rightarrow> (failure_with default_stats (mk_error ''stats_unavailable'' (StoreUnavailableMessage rt) [] False), rt)
      | Some s \<Rightarrow> (let (result, s1) = GetStoreStats s in (result, rt\<lparr>rt_store := Some s1\<rparr>)))"

end
