(* ===== verification/Log_Frame.thy ===== *)
theory Log_Frame
  imports Event_Log
begin

text \<open>
  Which parts of the tables an operation leaves alone. A view of the database is kept by a step when
  the connection shows the same view before and after; views are kept statement by statement. The
  operations of the transaction object keep the event log, and the cursor of every scope but the one
  they save; opening a database keeps the log and the cursors.
\<close>

definition keeps_view :: "(database \<Rightarrow> 'v) \<Rightarrow> store \<Rightarrow> store \<Rightarrow> bool" where
  "keeps_view v s s' = (map_option v (s_db s') = map_option v (s_db s))"

definition statement_keeps :: "(database \<Rightarrow> 'v) \<Rightarrow> (database \<Rightarrow> database option) \<Rightarrow> bool" where
  "statement_keeps v f = (\<forall>d d'. f d = Some d' \<longrightarrow> v d' = v d)"

lemma keeps_view_refl [simp, intro]: "keeps_view v s s"
  by (simp add: keeps_view_def)

lemma keeps_view_trans [trans]: "keeps_view v s t \<Longrightarrow> keeps_view v t u \<Longrightarrow> keeps_view v s u"
  by (simp add: keeps_view_def)

lemma keeps_view_db: "s_db s' = s_db s \<Longrightarrow> keeps_view v s s'"
  by (simp add: keeps_view_def)

lemma next_ok_keeps: "next_ok s = (k, s1) \<Longrightarrow> keeps_view v s s1"
  using next_ok_step by (blast intro: keeps_view_db)

lemma sql_step_keeps:
  assumes "sql_step f s = (ok, s')" "statement_keeps v f"
  shows "keeps_view v s s'"
  using sql_step_db [OF assms(1)] assms(2) by (cases ok) (auto simp: keeps_view_def statement_keeps_def)

lemma run_stmt_keeps:
  assumes "run_stmt f s = (ok, s')" "statement_keeps v f"
  shows "keeps_view v s s'"
  using run_stmt_db [OF assms(1)] assms(2) by (cases ok) (auto simp: keeps_view_def statement_keeps_def)

section \<open>Views under the operations of a transaction\<close>

text \<open>
  The contract of a view that the statements on summaries, entities and relations do not touch; the
  operations of a transaction object, the one for the cursor apart, then keep it.
\<close>

locale memory_view =
  fixes v :: "database \<Rightarrow> 'v"
  assumes keeps_summary: "statement_keeps v (insert_summary n r)"
    and keeps_mark: "statement_keeps v (mark_entity_obsolete n i b)"
    and keeps_duplicates: "statement_keeps v (mark_duplicate_entities n i a t m)"
    and keeps_entity: "statement_keeps v (upsert_entity n er)"
    and keeps_obsolete: "statement_keeps v (obsolete_relations n a f t to)"
    and keeps_relation: "statement_keeps v (insert_relation n rr)"
begin

lemma save_summary: "SaveSummaryUnlocked J a ss l t m c refs s = (r, s') \<Longrightarrow> keeps_view v s s'"
  unfolding SaveSummaryUnlocked_def Let_def
  by (auto split: sum.splits prod.splits elim!: run_stmt_keeps intro: keeps_summary)

lemma mark_obsolete: "MarkEntityObsoleteUnlocked i b s = (ok, s') \<Longrightarrow> keeps_view v s s'"
  unfolding MarkEntityObsoleteUnlocked_def by (erule run_stmt_keeps) (rule keeps_mark)

lemma mark_duplicates: "MarkDuplicateEntitiesObsoleteUnlocked e s = (ok, s') \<Longrightarrow> keeps_view v s s'"
  unfolding MarkDuplicateEntitiesObsoleteUnlocked_def
  by (auto split: if_splits elim!: run_stmt_keeps intro: keeps_duplicates)

lemma save_entity: "SaveEntityUnlocked J e s = (r, s') \<Longrightarrow> keeps_view v s s'"
  unfolding SaveEntityUnlocked_def Let_def
  by (auto split: sum.splits prod.splits if_splits
      dest!: mark_duplicates mark_obsolete run_stmt_keeps [OF _ keeps_entity] intro: keeps_view_trans)

lemma save_relation: "SaveRelationUnlocked J rel s = (r, s') \<Longrightarrow> keeps_view v s s'"
  unfolding SaveRelationUnlocked_def Let_def
  by (auto split: sum.splits prod.splits if_splits
      dest!: mark_obsolete run_stmt_keeps [OF _ keeps_obsolete] run_stmt_keeps [OF _ keeps_relation]
      intro: keeps_view_trans)

lemma save_cursor:
  assumes "SaveConsolidationCursorUnlocked a ss c s = (ok, s')" "\<And>n i. statement_keeps v (upsert_cursor n (c_str a) (c_str ss) i)"
  shows "keeps_view v s s'"
  using assms unfolding SaveConsolidationCursorUnlocked_def by (rule run_stmt_keeps)

lemma tx_keeps:
  "keeps_view v s (snd (tx_SaveSummary J a ss l t m c refs s))"
  "keeps_view v s (snd (tx_SaveEntity J e s))"
  "keeps_view v s (snd (tx_SaveRelation J rel s))"
  "keeps_view v s (snd (tx_MarkEntityObsolete i b s))"
  by (simp_all add: tx_SaveSummary_def tx_SaveEntity_def tx_SaveRelation_def tx_MarkEntityObsolete_def
      save_summary [OF surjective_pairing] save_entity [OF surjective_pairing] save_relation [OF surjective_pairing]
      mark_obsolete [OF surjective_pairing])

lemma tx_keeps_cursor:
  assumes "\<And>n i. statement_keeps v (upsert_cursor n (c_str a) (c_str ss) i)"
  shows "keeps_view v s (snd (tx_SaveConsolidationCursor a ss c s))"
  using save_cursor [OF surjective_pairing assms] by (simp add: tx_SaveConsolidationCursor_def)

end

lemmas view_statement_defs = statement_keeps_def insert_summary_def mark_entity_obsolete_def mark_duplicate_entities_def
  update_entities_def upsert_entity_def obsolete_relations_def insert_relation_def

definition log_view :: "database \<Rightarrow> event_row list \<times> int" where
  "log_view d = (t_events d, seq_events d)"

interpretation log_rows: memory_view log_view
  by unfold_locales (auto simp: log_view_def view_statement_defs Let_def split: if_splits option.splits)

lemma log_view_upsert_cursor: "statement_keeps log_view (upsert_cursor n a ss i)"
  by (auto simp: statement_keeps_def log_view_def upsert_cursor_def split: if_splits)

text \<open>The log together with the cursor of one scope; saving the cursor of another scope keeps it.\<close>

definition scope_view :: "string \<Rightarrow> string \<Rightarrow> database \<Rightarrow> event_row list \<times> int \<times> int option" where
  "scope_view a ss d = (t_events d, seq_events d, select_cursor a ss d)"

interpretation scope_rows: memory_view "scope_view a ss" for a ss
  by unfold_locales (auto simp: scope_view_def select_cursor_def view_statement_defs Let_def split: if_splits option.splits)

lemma scope_view_upsert_cursor:
  assumes "(a', ss') \<noteq> (a, ss)"
  shows "statement_keeps (scope_view a ss) (upsert_cursor n a' ss' i)"
proof -
  have "scope_view a ss d' = scope_view a ss d" if "upsert_cursor n a' ss' i d = Some d'" for d d'
    using select_upsert_cursor [OF that, of a ss] that assms
    by (auto simp: scope_view_def upsert_cursor_def split: if_splits)
  then show ?thesis by (simp add: statement_keeps_def)
qed

lemma tx_step_keeps_log: "tx_step J s s' \<Longrightarrow> keeps_view log_view s s'"
  by (induction rule: tx_step.induct) (simp_all add: log_rows.tx_keeps log_rows.tx_keeps_cursor log_view_upsert_cursor)

lemma tx_steps_keep_log: "(tx_step J)\<^sup>*\<^sup>* s s' \<Longrightarrow> keeps_view log_view s s'"
  by (induction rule: rtranclp_induct) (auto intro: keeps_view_trans tx_step_keeps_log)

text \<open>
  What survives a transaction shows the view it showed before when the callback keeps it, whatever
  became of the transaction.
\<close>

lemma transaction_keeps_view:
  assumes "transaction_work work" and keeps: "\<And>t. keeps_view v t (snd (work t))"
    and run: "RunInTransaction aux0 work s = (res, s')"
  shows "v (durable s') = v (durable s)"
proof -
  note tw = transaction_work.failure_keeps_durable [OF assms(1)] transaction_work.success_commits [OF assms(1)]
    transaction_work.exception_leaves_open [OF assms(1)]
  show ?thesis
  proof (cases res)
    case (Throw w)
    with run tw(3) show ?thesis by metis
  next
    case (Ret p)
    obtain r aux where p: "p = (r, aux)" by fastforce
    show ?thesis
    proof (cases "succeeded r")
      case False
      with run Ret p tw(1) show ?thesis by metis
    next
      case True
      with run Ret p tw(2) obtain s1 s2 r0 where c: "exec_begin s = (True, s1)" "s_db s1 = s_db s"
        "work s1 = (Ret (r0, aux), s2)" "s_db s2 = Some (durable s')" by metis
      have "keeps_view v s1 s2" using keeps [of s1] c(3) by simp
      moreover from c(1) have "s_saved s = None" by (auto elim: exec_begin_cases)
      ultimately show ?thesis using c(2,4) by (auto simp: keeps_view_def durable_def split: option.splits)
    qed
  qed
qed

lemma transaction_keeps_log:
  assumes "\<And>t. (tx_step J)\<^sup>*\<^sup>* t (snd (work t))" "RunInTransaction aux0 work s = (res, s')"
  shows "log_view (durable s') = log_view (durable s)"
  using tx_work_transactional [OF assms(1)] tx_steps_keep_log [OF assms(1)] assms(2) by (rule transaction_keeps_view)

section \<open>The log and the cursors under opening\<close>

definition cursor_view :: "database \<Rightarrow> event_row list \<times> int \<times> cursor_row list" where
  "cursor_view d = (t_events d, seq_events d, t_cursors d)"

lemma cursor_view_schema:
  "statement_keeps cursor_view (create_table t cols)" "statement_keeps cursor_view (create_index t cols)"
  "statement_keeps cursor_view (add_column t c)" "statement_keeps cursor_view Some"
  by (auto simp: statement_keeps_def cursor_view_def create_table_def create_index_def add_column_def
      split: if_splits option.splits)

lemma exec_chain_keeps:
  "exec_chain fs s = (ok, s') \<Longrightarrow> \<forall>f\<in>set fs. statement_keeps v f \<Longrightarrow> keeps_view v s s'"
proof (induction fs arbitrary: s ok s')
  case (Cons f fs)
  obtain k s1 where e: "ExecuteUnlocked f s = (k, s1)" by fastforce
  then have 1: "keeps_view v s s1" using Cons.prems(2) by (auto simp: ExecuteUnlocked_def elim: sql_step_keeps)
  show ?case
  proof (cases k)
    case True
    then have "exec_chain fs s1 = (ok, s')" using Cons.prems(1) e by simp
    then have "keeps_view v s1 s'" by (rule Cons.IH) (use Cons.prems(2) in simp)
    with 1 show ?thesis by (rule keeps_view_trans)
  next
    case False
    with Cons.prems e 1 show ?thesis by simp
  qed
qed simp

lemma exec_each_keeps:
  "exec_each fs ok0 s = (ok, s') \<Longrightarrow> \<forall>f\<in>set fs. \<forall>t. keeps_view v t (snd (f t)) \<Longrightarrow> keeps_view v s s'"
proof (induction fs arbitrary: s ok0 ok s')
  case (Cons f fs)
  obtain k s1 where e: "f s = (k, s1)" by fastforce
  have each: "exec_each fs (k \<and> ok0) s1 = (ok, s')" using Cons.prems(1) e by simp
  have "keeps_view v s s1" using Cons.prems(2) e by (metis list.set_intros(1) snd_conv)
  also have "keeps_view v s1 s'" using each by (rule Cons.IH) (use Cons.prems(2) in simp)
  finally show ?case .
qed simp

lemma scan_columns_keeps: "keeps_view v s (snd (scan_columns c cols s))"
proof (induction cols arbitrary: s)
  case Nil
  then show ?case using next_ok_keeps by (auto split: prod.splits)
next
  case (Cons x xs)
  obtain k s1 where n: "next_ok s = (k, s1)" by fastforce
  with Cons.IH [of s1] next_ok_keeps [OF n] show ?case by (auto intro: keeps_view_trans)
qed

lemma AddColumnIfMissingUnlocked_keeps: "keeps_view cursor_view s (snd (AddColumnIfMissingUnlocked t c s))"
proof -
  obtain k0 s0 where n0: "next_ok s = (k0, s0)" by fastforce
  obtain k s1 where n: "ColumnExistsUnlocked t c s = (k, s1)" by fastforce
  have "keeps_view cursor_view s (snd (ColumnExistsUnlocked t c s))"
    using next_ok_keeps [OF n0] keeps_view_trans [OF next_ok_keeps [OF n0] scan_columns_keeps] n0
    by (auto simp: ColumnExistsUnlocked_def)
  then have 1: "keeps_view cursor_view s s1" using n by simp
  obtain k2 s2 where e: "ExecuteUnlocked (add_column t c) s1 = (k2, s2)" by fastforce
  then have "keeps_view cursor_view s1 s2"
    unfolding ExecuteUnlocked_def by (rule sql_step_keeps) (rule cursor_view_schema)
  with 1 n e show ?thesis by (auto simp: AddColumnIfMissingUnlocked_def intro: keeps_view_trans)
qed

lemma Initialize_keeps:
  assumes "s_saved s = None"
  shows "cursor_view (durable (snd (Initialize s))) = cursor_view (durable s)"
proof (cases "s_db s")
  case None
  obtain k s1 where n: "next_ok s = (k, s1)" by fastforce
  note f = next_ok_frame [OF n]
  obtain k2 s2 where c: "exec_chain schema_chain (s1\<lparr>s_db := Some (s_file s1), s_saved := None\<rparr>) = (k2, s2)" by fastforce
  obtain k3 s3 where t: "exec_each schema_tail k2 s2 = (k3, s3)" by fastforce
  have "\<forall>f\<in>set schema_chain. statement_keeps cursor_view f"
    unfolding schema_chain_def by (auto simp del: replicate.simps intro: cursor_view_schema)
  from exec_chain_keeps [OF c this] have v2: "keeps_view cursor_view (s1\<lparr>s_db := Some (s_file s1), s_saved := None\<rparr>) s2" .
  have "keeps_view cursor_view u (snd (ExecuteUnlocked Some u))" for u
    using sql_step_keeps [OF surjective_pairing cursor_view_schema(4)] by (simp add: ExecuteUnlocked_def)
  then have "\<forall>f\<in>set schema_tail. \<forall>u. keeps_view cursor_view u (snd (f u))"
    unfolding schema_tail_def using AddColumnIfMissingUnlocked_keeps by auto
  from exec_each_keeps [OF t this] v2 have v3: "map_option cursor_view (s_db s3) = Some (cursor_view (s_file s))"
    using f by (simp add: keeps_view_def)
  have "write_step (s1\<lparr>s_db := Some (s_file s1), s_saved := None\<rparr>) s2" "write_step s2 s3"
    using exec_chain_step [OF c schema_chain_inv] exec_each_step [OF t schema_tail_step] by blast+
  then have "s_saved s3 = None" by (simp add: write_step_def frame_def)
  with v3 have v: "cursor_view (durable s3) = cursor_view (s_file s)" by (auto simp: durable_def)
  have "cursor_view (durable s1) = cursor_view (s_file s)" "cursor_view (durable s) = cursor_view (s_file s)"
    using None assms f by (simp_all add: durable_def)
  with v None n c t show ?thesis by (simp add: Initialize_def)
next
  case (Some d)
  then show ?thesis by (simp add: Initialize_def)
qed

lemma durable_close_store [simp]: "s_db s \<noteq> None \<Longrightarrow> durable (close_store s) = durable s"
  by (auto simp: close_store_def Let_def durable_def [of "_\<lparr>s_saved := _\<rparr>"])

lemma close_store_saved: "store_inv s \<Longrightarrow> s_saved (close_store s) = None"
  by (auto simp: close_store_def Let_def store_inv_def)

end
