(* ===== verification/Runtime_Laws.thy ===== *)
theory Runtime_Laws
  imports Runtime Log_Frame Consolidation_Properties Context_Properties
begin

text \<open>
  What the operations of the runtime do to the event log and to the consolidation cursor, in terms
  of what survives (\<open>durable\<close>): the events still to be consolidated are those of the log after the
  saved cursor, a successful consolidation takes a prefix of them away, everything else leaves them
  alone or appends to them.
\<close>

section \<open>What is left to consolidate\<close>

definition saved_pos :: "MemoryConsolidationRequest \<Rightarrow> database \<Rightarrow> int" where
  "saved_pos request d =
     (case select_cursor (c_str (cr_agentId request)) (c_str (cr_sessionId request)) d of Some c \<Rightarrow> c | None \<Rightarrow> 0)"

definition request_wants :: "MemoryConsolidationRequest \<Rightarrow> MemoryEvent \<Rightarrow> bool" where
  "request_wants request = event_wanted (cr_agentId request) (cr_sessionId request) (cr_excludedSessionIds request)"

definition events_since :: "json_lib \<Rightarrow> MemoryConsolidationRequest \<Rightarrow> int \<Rightarrow> database \<Rightarrow> MemoryEvent list" where
  "events_since J request c d = filter (\<lambda>e. c < event_pos e) (filter (request_wants request) (event_log J d))"

definition pending :: "json_lib \<Rightarrow> MemoryConsolidationRequest \<Rightarrow> database \<Rightarrow> MemoryEvent list" where
  "pending J request d = events_since J request (saved_pos request d) d"

text \<open>The batch a run builds from a database, and whether a run reported success.\<close>

definition batch_at :: "json_lib \<Rightarrow> MemoryConsolidationRequest \<Rightarrow> database \<Rightarrow> MemoryEvent list" where
  "batch_at J request d = lb_events (bb_batch (Build request (pending J request d)))"

definition run_succeeded :: "MemoryConsolidationResult outcome \<Rightarrow> bool" where
  "run_succeeded r = (case r of Ret res \<Rightarrow> cres_succeeded res | Throw w \<Rightarrow> False)"

text \<open>The events a run of the consolidation has handed to the processors and written the update for.\<close>

definition processed :: "json_lib \<Rightarrow> MemoryConsolidationRequest \<Rightarrow> store \<Rightarrow> MemoryConsolidationResult outcome \<Rightarrow> MemoryEvent list" where
  "processed J request s r =
     (if run_succeeded r then (case s_db s of Some d \<Rightarrow> batch_at J request d | None \<Rightarrow> []) else [])"

lemma event_log_view: "log_view d' = log_view d \<Longrightarrow> event_log J d' = event_log J d"
  by (simp add: log_view_def event_log_def)

lemma events_since_view: "log_view d' = log_view d \<Longrightarrow> events_since J request c d' = events_since J request c d"
  using event_log_view [of d' d J] by (simp add: events_since_def)

lemma cursor_view_pending:
  assumes "cursor_view d' = cursor_view d"
  shows "log_view d' = log_view d" "saved_pos request d' = saved_pos request d" "pending J request d' = pending J request d"
proof -
  have eq: "t_events d' = t_events d" "seq_events d' = seq_events d" "t_cursors d' = t_cursors d"
    using assms by (simp_all add: cursor_view_def)
  show l: "log_view d' = log_view d" by (simp only: log_view_def eq)
  show p: "saved_pos request d' = saved_pos request d" by (simp only: saved_pos_def select_cursor_def eq)
  show "pending J request d' = pending J request d" unfolding pending_def p by (rule events_since_view [OF l])
qed

lemma saved_pos_range:
  assumes "db_inv d"
  shows "LLONG_MIN \<le> saved_pos request d \<and> saved_pos request d \<le> LLONG_MAX"
proof (cases "find (\<lambda>x. cur_agent x = c_str (cr_agentId request) \<and> cur_session x = c_str (cr_sessionId request)) (t_cursors d)")
  case None
  then show ?thesis by (simp add: saved_pos_def select_cursor_def int_limits)
next
  case (Some x)
  then have "x \<in> set (t_cursors d)" by (auto simp: find_Some_iff)
  with assms Some show ?thesis by (auto simp: saved_pos_def select_cursor_def db_inv_def cursors_ok_def)
qed

lemma event_log_pos:
  assumes "db_inv d" "e \<in> set (event_log J d)"
  shows "0 < event_pos e" "event_pos e \<le> seq_events d" "ev_storeCursor e \<noteq> []"
  using assms event_pos_row [OF assms(1)]
  by (auto simp: event_log_def db_inv_def events_ok_def ids_ok_def ReadEventRow_def)

section \<open>One consolidation\<close>

text \<open>The prefix of the loaded events one run looks at.\<close>

lemma Build_logged:
  assumes inv: "db_inv d" and log: "set events \<subseteq> set (event_log J d)" and limit: "0 < cr_maxEvents request"
  obtains pre post where "events = pre @ post" "lb_events (bb_batch (Build request events)) = filter (batch_keeps request) pre"
    "int (length (filter (batch_keeps request) pre)) \<le> cr_maxEvents request" "pre = [] \<Longrightarrow> post = []"
    "bb_nextCursor (Build request events) = (if pre = [] then [] else ev_storeCursor (last pre))"
proof -
  obtain pre post r where s: "loop_spec request (cr_maxEvents request) 0 0 (empty_build (cr_sessionId request)) events pre post r"
      and b: "Build request events = r\<lparr>bb_sessionSourceRefs := [''session://'' @ cr_sessionId request]\<rparr>"
    using Build_spec [of request events] limit by auto
  from s limit have ev: "events = pre @ post" "lb_events (bb_batch r) = filter (batch_keeps request) pre"
    "int (length (filter (batch_keeps request) pre)) \<le> cr_maxEvents request" "post \<noteq> [] \<longrightarrow> pre \<noteq> []"
    "bb_nextCursor r = (if pre = [] then [] else event_cursor (length pre - 1) (last pre))"
    unfolding loop_spec_def by (auto simp: empty_build_def)
  have "event_cursor i (last pre) = ev_storeCursor (last pre)" if "pre \<noteq> []" for i
  proof -
    have "last pre \<in> set events" using that ev(1) by simp
    then have "last pre \<in> set (event_log J d)" using log by blast
    from event_log_pos(3) [OF inv this] show ?thesis by (simp add: event_cursor_def)
  qed
  with ev b show ?thesis by (intro that [of pre post]) auto
qed

lemma pending_logged: "set (pending J request d) \<subseteq> set (event_log J d)"
  by (auto simp: pending_def events_since_def)

lemma Build_cursor_empty:
  assumes "bb_nextCursor (Build request events) = []"
  shows "lb_events (bb_batch (Build request events)) = []"
proof (cases "cr_forceReprocess request \<or> 0 < cr_maxEvents request")
  case True
  from Build_spec [OF True, of events] obtain pre post r limit where
    s: "loop_spec request limit 0 0 (empty_build (cr_sessionId request)) events pre post r"
    and b: "Build request events = r\<lparr>bb_sessionSourceRefs := [''session://'' @ cr_sessionId request]\<rparr>" by blast
  from s b assms have "pre = []" unfolding loop_spec_def by (auto split: if_splits)
  with s b show ?thesis unfolding loop_spec_def by (simp add: empty_build_def)
next
  case False
  then show ?thesis by (simp add: Build_def empty_build_def)
qed

lemma Consolidate_keeps_log:
  assumes "Consolidate J fallback request events model s = (r, s')"
  shows "log_view (durable s') = log_view (durable s)"
proof -
  let ?b = "Build request events"
  have 1: "log_view (durable t) = log_view (durable s)"
    if "RunInTransaction () (cursor_only_work request (bb_nextCursor ?b)) s = (x, t)" for x t
    using cursor_only_work_step that by (rule transaction_keeps_log)
  have 2: "log_view (durable t) = log_view (durable s)"
    if "RunInTransaction (empty_write, empty_write) (consolidation_work J request ?b update) s = (x, t)" for x t update
    using consolidation_work_step that by (rule transaction_keeps_log)
  from assms show ?thesis
    unfolding Consolidate_def Let_def
    by (auto split: if_splits outcome.splits prod.splits dest!: 1 2)
qed

text \<open>A consolidation of another scope keeps the log and the cursor of this one.\<close>

definition scope_of :: "MemoryConsolidationRequest \<Rightarrow> string \<times> string" where
  "scope_of request = (c_str (cr_agentId request), c_str (cr_sessionId request))"

lemma request_steps_keep_scope:
  assumes "(request_step J request)\<^sup>*\<^sup>* s s'" "scope_of request \<noteq> (a, ss)"
  shows "keeps_view (scope_view a ss) s s'"
  using assms(1)
proof (induction rule: rtranclp_induct)
  case (step t u)
  from step.hyps(2) have "keeps_view (scope_view a ss) t u"
    using assms(2) by cases (simp_all add: scope_rows.tx_keeps scope_rows.tx_keeps_cursor scope_view_upsert_cursor scope_of_def)
  with step.IH show ?case by (rule keeps_view_trans)
qed simp

lemma Consolidate_keeps_scope:
  assumes "Consolidate J fallback request events model s = (r, s')" "scope_of request \<noteq> (a, ss)"
  shows "scope_view a ss (durable s') = scope_view a ss (durable s)"
proof -
  let ?b = "Build request events"
  have 1: "scope_view a ss (durable t) = scope_view a ss (durable s)"
    if "RunInTransaction () (cursor_only_work request (bb_nextCursor ?b)) s = (x, t)" for x t
    using tx_work_transactional [OF cursor_only_work_step] request_steps_keep_scope [OF cursor_only_work_scope assms(2)] that
    by (rule transaction_keeps_view)
  have 2: "scope_view a ss (durable t) = scope_view a ss (durable s)"
    if "RunInTransaction (empty_write, empty_write) (consolidation_work J request ?b update) s = (x, t)" for x t update
    using tx_work_transactional [OF consolidation_work_step] request_steps_keep_scope [OF consolidation_work_scope assms(2)] that
    by (rule transaction_keeps_view)
  from assms show ?thesis
    unfolding Consolidate_def Let_def
    by (auto split: if_splits outcome.splits prod.splits dest!: 1 2)
qed

lemma Consolidate_inv:
  assumes "Consolidate J fallback request events model s = (r, s')" "store_inv s"
  shows "store_inv s'"
proof -
  let ?b = "Build request events"
  have 1: "store_inv t" if "RunInTransaction () (cursor_only_work request (bb_nextCursor ?b)) s = (x, t)" for x t
    using cursor_only.transaction_inv [OF assms(2), of "()" request "bb_nextCursor ?b"] that by simp
  have 2: "store_inv t" if "RunInTransaction (empty_write, empty_write) (consolidation_work J request ?b update) s = (x, t)" for x t update
    using consolidating.transaction_inv [OF assms(2), of "(empty_write, empty_write)" J request ?b update] that by simp
  from assms show ?thesis
    unfolding Consolidate_def Let_def
    by (auto split: if_splits outcome.splits prod.splits dest!: 1 2)
qed

text \<open>A consolidation that did not succeed left what survives as it was.\<close>

lemma Consolidate_unsuccessful:
  assumes run: "Consolidate J fallback request events model s = (r, s')"
    and no: "\<not> run_succeeded r"
  shows "durable s' = durable s"
proof (cases r)
  case (Ret res)
  with no have f: "\<not> cres_succeeded res" by (simp add: run_succeeded_def)
  from run Ret have "Consolidate J fallback request events model s = (Ret res, s')" by simp
  then show ?thesis
  proof (cases rule: Consolidate_cases)
    case nothing
    then show ?thesis by simp
  next
    case (moved op)
    with f show ?thesis using cursor_only.failure_keeps_durable by metis
  next
    case (ran update used op sw uw)
    with f show ?thesis using consolidating.failure_keeps_durable by metis
  qed
next
  case (Throw w)
  let ?b = "Build request events"
  have 1: "durable t = durable s"
    if "RunInTransaction () (cursor_only_work request (bb_nextCursor ?b)) s = (Throw x, t)" for x t
    using cursor_only.exception_leaves_open [OF that] by simp
  have 2: "durable t = durable s"
    if "RunInTransaction (empty_write, empty_write) (consolidation_work J request ?b update) s = (Throw x, t)" for x t update
    using consolidating.exception_leaves_open [OF that] by simp
  from run Throw show ?thesis
    unfolding Consolidate_def Let_def
    by (auto split: if_splits outcome.splits prod.splits dest!: 1 2)
qed

text \<open>A consolidation that succeeded was not inside a transaction and has moved the cursor.\<close>

lemma Consolidate_success_cursor:
  assumes run: "Consolidate J fallback request events model s = (Ret res, s')" "cres_succeeded res"
  shows "if bb_nextCursor (Build request events) = [] then s' = s
    else s_saved s = None \<and> s_saved s' = None \<and> saved_pos request (durable s') = CursorToInt (bb_nextCursor (Build request events))"
  using run(1)
proof (cases rule: Consolidate_cases)
  case nothing
  then show ?thesis by simp
next
  case (moved op)
  from cursor_only.success_commits [OF moved(3)] moved(4) run(2) obtain s1 s2 r0 where
    w: "cursor_only_work request (bb_nextCursor (Build request events)) s1 = (Ret (r0, ()), s2)" "succeeded r0"
      "s_db s2 = Some (durable s')" and b: "exec_begin s = (True, s1)" "s_saved s' = None" by auto
  then have "save_cursor_op request (bb_nextCursor (Build request events)) s1 = (Ret r0, s2)"
    by (cases "save_cursor_op request (bb_nextCursor (Build request events)) s1") (auto simp: cursor_only_work_def)
  from save_cursor_op_success [OF this w(2)] w(3) b moved(2) show ?thesis
    by (auto simp: saved_pos_def elim: exec_begin_cases)
next
  case (ran update used op sw uw)
  from consolidating.success_commits [OF ran(3)] ran(4) run(2) obtain s1 s2 r0 where
    w: "consolidation_work J request (Build request events) update s1 = (Ret (r0, sw, uw), s2)" "succeeded r0"
      "s_db s2 = Some (durable s')" and b: "exec_begin s = (True, s1)" "s_saved s' = None" by auto
  show ?thesis
  proof (cases "bb_nextCursor (Build request events) = []")
    case True
    with ran(1) Build_cursor_empty show ?thesis by simp
  next
    case False
    note c = consolidation_work_success [OF w(1,2) False]
    from c(5) save_cursor_op_success w(2,3) have
      "select_cursor (c_str (cr_agentId request)) (c_str (cr_sessionId request)) (durable s') =
        Some (CursorToInt (bb_nextCursor (Build request events)))" by fastforce
    with False b show ?thesis by (auto simp: saved_pos_def elim: exec_begin_cases)
  qed
qed

section \<open>The operations of the runtime\<close>

text \<open>The cursor a run loads is the saved one, the events it loads are those after the cursor.\<close>

lemma load_cursor:
  assumes inv: "store_inv s" and cur: "LoadConsolidationCursor (cr_agentId request) (cr_sessionId request) s = (c, s1)" "succeeded c"
  obtains d where "s_db s = Some d" "CursorToInt (payload_of c) = saved_pos request d"
proof -
  from LoadConsolidationCursor_success [OF cur] obtain d where d: "s_db s = Some d"
    "payload_of c = (case select_cursor (c_str (cr_agentId request)) (c_str (cr_sessionId request)) d of
       Some n \<Rightarrow> to_string n | None \<Rightarrow> [])" by blast
  have good: "db_inv d" using inv d(1) by (simp add: store_inv_def db_ok_def)
  have "CursorToInt (payload_of c) = saved_pos request d"
    using saved_pos_range [OF good, of request] unfolding d(2) saved_pos_def by (auto simp: CursorToInt_to_string split: option.splits)
  with d(1) show ?thesis by (rule that)
qed

lemma load_events:
  assumes inv: "store_inv s"
    and ev: "LoadEventsAfterCursor J (cr_agentId request) (cr_sessionId request) c (cr_excludedSessionIds request) s = (r, s1)"
      "succeeded r"
  obtains d where "s_db s = Some d" "payload_of r = events_since J request (CursorToInt c) d"
proof -
  from LoadEventsAfterCursor_success [OF ev] obtain d where d: "s_db s = Some d"
    "payload_of r = map (ReadEventRow J) (select_events_after (CursorToInt c) (cr_agentId request) (cr_sessionId request)
       (cr_excludedSessionIds request) d)" by blast
  have good: "db_inv d" using inv d(1) by (simp add: store_inv_def db_ok_def)
  show ?thesis
    using d by (intro that) (simp_all add: select_events_after_log [OF good] events_since_def request_wants_def)
qed

lemma load_pending:
  assumes inv: "store_inv s" and cur: "LoadConsolidationCursor (cr_agentId request) (cr_sessionId request) s = (c, s1)" "succeeded c"
    and ev: "LoadEventsAfterCursor J (cr_agentId request) (cr_sessionId request) (payload_of c) (cr_excludedSessionIds request) s1 = (r, s2)"
      "succeeded r"
  obtains d where "s_db s = Some d" "payload_of r = pending J request d"
proof -
  note f = read_step_frame [OF LoadConsolidationCursor_read [OF cur(1)]]
  have inv1: "store_inv s1" using inv f(5) by simp
  obtain d where d: "s_db s = Some d" "CursorToInt (payload_of c) = saved_pos request d" by (rule load_cursor [OF inv cur])
  obtain d' where "s_db s1 = Some d'" "payload_of r = events_since J request (CursorToInt (payload_of c)) d'"
    by (rule load_events [OF inv1 ev])
  with d f(1) that show ?thesis by (simp add: pending_def)
qed

text \<open>
  One call of \<open>ConsolidateWithModel\<close> that does not force reprocessing, as a step on what survives: it
  takes a prefix of the pending events away and processes their messages, or it changes nothing.
\<close>

definition consumes ::
  "json_lib \<Rightarrow> MemoryConsolidationRequest \<Rightarrow> store \<Rightarrow> MemoryEvent list \<Rightarrow> MemoryEvent list \<Rightarrow> store \<Rightarrow> bool" where
  "consumes J request s pre post s' =
     (pre \<noteq> [] \<and> s_saved s = None \<and> s_saved s' = None \<and> pending J request (durable s) = pre @ post \<and>
      int (length (filter (batch_keeps request) pre)) \<le> cr_maxEvents request \<and>
      saved_pos request (durable s') = event_pos (last pre))"

text \<open>The messages a run over loaded events has processed.\<close>

definition batch_done :: "MemoryConsolidationRequest \<Rightarrow> MemoryEvent list \<Rightarrow> MemoryConsolidationResult outcome \<Rightarrow> MemoryEvent list" where
  "batch_done request events r = (if run_succeeded r then lb_events (bb_batch (Build request events)) else [])"

text \<open>
  The events may have been loaded a while ago: outside a transaction they still are a prefix of what
  is pending when the run writes its update.
\<close>

lemma Consolidate_loaded:
  assumes inv: "store_inv s" and limit: "0 < cr_maxEvents request"
    and run: "Consolidate J fallback request events model s = (r, s')"
    and loaded: "s_saved s = None \<Longrightarrow> pending J request (durable s) = events @ later"
  shows "(durable s' = durable s \<and> batch_done request events r = [] \<and>
            (run_succeeded r \<longrightarrow> s_saved s = None \<longrightarrow> s_saved s' = None \<and> events = [])) \<or>
         (\<exists>pre post. run_succeeded r \<and> events = pre @ post \<and> consumes J request s pre (post @ later) s' \<and>
            batch_done request events r = filter (batch_keeps request) pre)"
proof (cases "run_succeeded r")
  case False
  then show ?thesis using Consolidate_unsuccessful [OF run] by (simp add: batch_done_def)
next
  case True
  then obtain res where res: "r = Ret res" "cres_succeeded res" by (auto simp: run_succeeded_def split: outcome.splits)
  note cur = Consolidate_success_cursor [OF run [unfolded res(1)] res(2)]
  have good: "db_inv (durable s)" by (rule durable_inv [OF inv])
  show ?thesis
  proof (cases "bb_nextCursor (Build request events) = []")
    case empty: True
    have "events = []" if "s_saved s = None"
    proof -
      have log: "set events \<subseteq> set (event_log J (durable s))" using loaded [OF that] pending_logged [of J request "durable s"] by simp
      obtain pre post where p: "events = pre @ post" "pre = [] \<Longrightarrow> post = []"
        "bb_nextCursor (Build request events) = (if pre = [] then [] else ev_storeCursor (last pre))"
        using Build_logged [OF good log limit] by metis
      have "pre = []"
      proof (rule ccontr)
        assume "pre \<noteq> []"
        then have "last pre \<in> set events" by (simp add: p(1))
        with log have "last pre \<in> set (event_log J (durable s))" by blast
        from event_log_pos(3) [OF good this] p(3) \<open>pre \<noteq> []\<close> empty show False by simp
      qed
      with p show ?thesis by simp
    qed
    moreover have "s' = s" "batch_done request events r = []" using cur empty Build_cursor_empty by (simp_all add: batch_done_def)
    ultimately show ?thesis by simp
  next
    case False
    with cur have c: "s_saved s = None" "s_saved s' = None"
      "saved_pos request (durable s') = CursorToInt (bb_nextCursor (Build request events))" by simp_all
    note later = loaded [OF c(1)]
    have log: "set events \<subseteq> set (event_log J (durable s))" using later pending_logged [of J request "durable s"] by simp
    obtain pre post where p: "events = pre @ post" "lb_events (bb_batch (Build request events)) = filter (batch_keeps request) pre"
      "int (length (filter (batch_keeps request) pre)) \<le> cr_maxEvents request"
      "bb_nextCursor (Build request events) = (if pre = [] then [] else ev_storeCursor (last pre))"
      using Build_logged [OF good log limit] by metis
    from False p(4) have pre: "pre \<noteq> []" by auto
    with c(3) p(4) have "saved_pos request (durable s') = event_pos (last pre)" by (simp add: event_pos_def)
    then have "consumes J request s pre (post @ later) s'" unfolding consumes_def using c(1,2) p(1,3) pre later by simp
    with True p(1,2) show ?thesis by (auto simp: batch_done_def)
  qed
qed

lemma Consolidate_pending:
  assumes inv: "store_inv s" and d: "s_db s = Some d" and limit: "0 < cr_maxEvents request"
    and run: "Consolidate J fallback request (pending J request d) model s = (r, s')"
  shows "(durable s' = durable s \<and> processed J request s r = [] \<and>
            (run_succeeded r \<longrightarrow> s_saved s = None \<longrightarrow> s_saved s' = None \<and> pending J request (durable s) = [])) \<or>
         (\<exists>pre post. run_succeeded r \<and> consumes J request s pre post s' \<and> processed J request s r = filter (batch_keeps request) pre)"
proof -
  have now: "durable s = d" if "s_saved s = None" using that d by (simp add: durable_def)
  have "processed J request s r = batch_done request (pending J request d) r"
    using d by (simp add: processed_def batch_done_def batch_at_def)
  with Consolidate_loaded [OF inv limit run, of "[]"] now show ?thesis by auto
qed

lemma processed_read: "read_step s t \<Longrightarrow> processed J request t r = processed J request s r"
  by (simp add: processed_def read_step_frame)

lemma consumes_read: "read_step s t \<Longrightarrow> consumes J request t pre post s' = consumes J request s pre post s'"
  by (simp add: consumes_def read_step_frame)

lemma ConsolidateWithModel_law:
  assumes st: "rt_store rt = Some s" "store_inv s" and req: "\<not> cr_forceReprocess request" "0 < cr_maxEvents request"
    and run: "ConsolidateWithModel J request model rt = (r, rt')"
  shows "\<exists>s'. rt_store rt' = Some s' \<and> store_inv s' \<and> log_view (durable s') = log_view (durable s) \<and>
    ((durable s' = durable s \<and> processed J request s r = [] \<and>
        (run_succeeded r \<longrightarrow> s_saved s = None \<longrightarrow> s_saved s' = None \<and> pending J request (durable s) = [])) \<or>
     (\<exists>pre post. run_succeeded r \<and> consumes J request s pre post s' \<and> processed J request s r = filter (batch_keeps request) pre))"
proof -
  have failed: "\<not> run_succeeded (Ret (failed_consolidation x))" for x
    by (simp add: run_succeeded_def failed_consolidation_def default_consolidation_result_def)
  have quiet: ?thesis if "read_step s t" "rt_store rt' = Some t" "\<not> run_succeeded r" for t
    using that(2,3) read_step_frame [OF that(1)] st(2) by (simp add: processed_def)
  show ?thesis
  proof (cases "rt_consolidationService rt")
    case None
    with run st have "rt_store rt' = Some s" "\<exists>x. r = Ret (failed_consolidation x)" by (auto simp: ConsolidateWithModel_def)
    then show ?thesis using quiet [of s] failed by auto
  next
    case (Some fallback)
    obtain c s1 where c: "LoadConsolidationCursor (cr_agentId request) (cr_sessionId request) s = (c, s1)" by fastforce
    obtain e s2 where e: "LoadEventsAfterCursor J (cr_agentId request) (cr_sessionId request) (payload_of c)
        (cr_excludedSessionIds request) s1 = (e, s2)" by fastforce
    obtain r3 s3 where k: "Consolidate J (Some fallback) request (payload_of e) model s2 = (r3, s3)" by fastforce
    note un = run [unfolded ConsolidateWithModel_def st(1) Some option.case if_not_P [OF req(1)] c e k Let_def prod.case]
    have r1: "read_step s s1" by (rule LoadConsolidationCursor_read [OF c])
    then have r2: "read_step s s2" using LoadEventsAfterCursor_read [OF e] by (rule read_step_trans)
    note f2 = read_step_frame [OF r2]
    consider "\<not> succeeded c" | "succeeded c" "\<not> succeeded e" | "succeeded c" "succeeded e" by blast
    then show ?thesis
    proof cases
      case 1
      with un have "rt_store rt' = Some s1" "\<exists>x. r = Ret (failed_consolidation x)" by auto
      then show ?thesis using quiet [OF r1] failed by auto
    next
      case 2
      with un have "rt_store rt' = Some s2" "\<exists>x. r = Ret (failed_consolidation x)" by auto
      then show ?thesis using quiet [OF r2] failed by auto
    next
      case 3
      with un have r: "r3 = r" "rt_store rt' = Some s3" by auto
      obtain d where d: "s_db s2 = Some d" "payload_of e = pending J request d"
        using load_pending [OF st(2) c 3(1) e 3(2)] f2(1) by auto
      have inv2: "store_inv s2" using f2(5) st(2) by simp
      note k' = k [unfolded d(2) r(1)]
      from Consolidate_pending [OF inv2 d(1) req(2) k'] Consolidate_inv [OF k' inv2] Consolidate_keeps_log [OF k'] r(2)
      show ?thesis unfolding processed_read [OF r2] consumes_read [OF r2] f2(2,4) by (intro exI [of _ s3] conjI)
    qed
  qed
qed

text \<open>Taking the prefix away leaves the rest pending.\<close>

lemma consumes_pending:
  assumes "consumes J request s pre post s'" "log_view (durable s') = log_view (durable s)" "store_inv s"
  shows "pending J request (durable s') = post" "saved_pos request (durable s) < saved_pos request (durable s')"
    "saved_pos request (durable s') \<le> seq_events (durable s')"
proof -
  note c = assms(1) [unfolded consumes_def]
  have good: "db_inv (durable s)" by (rule durable_inv [OF assms(3)])
  have after: "map (ReadEventRow J) (select_events_after p (cr_agentId request) (cr_sessionId request) (cr_excludedSessionIds request) (durable s))
      = events_since J request p (durable s)" for p
    by (simp add: select_events_after_log [OF good] events_since_def request_wants_def)
  have "events_since J request (event_pos (last pre)) (durable s) = post"
    using event_log.resume [OF good, where J = J and a = "cr_agentId request" and ss = "cr_sessionId request" and
        ex = "cr_excludedSessionIds request" and c = "saved_pos request (durable s)" and xs = pre and ys = post] c unfolding after pending_def by blast
  with c events_since_view [OF assms(2)] show "pending J request (durable s') = post" by (simp add: pending_def)
  have "last pre \<in> set (pending J request (durable s))" using c by simp
  then have "saved_pos request (durable s) < event_pos (last pre)" "last pre \<in> set (event_log J (durable s))"
    by (auto simp: pending_def events_since_def)
  with c event_log_pos(2) [OF good] assms(2) show "saved_pos request (durable s) < saved_pos request (durable s')"
    "saved_pos request (durable s') \<le> seq_events (durable s')" by (auto simp: log_view_def)
qed

definition appends :: "json_lib \<Rightarrow> database \<Rightarrow> MemoryEvent \<Rightarrow> database \<Rightarrow> bool" where
  "appends J d x d' = (event_log J d' = event_log J d @ [x] \<and> event_pos x = seq_events d + 1 \<and>
     seq_events d' = seq_events d + 1 \<and> t_cursors d' = t_cursors d)"

lemma AppendEvent_law:
  assumes st: "rt_store rt = Some s" "store_inv s" and run: "AppendEvent J e rt = (r, rt')"
  shows "\<exists>s'. rt_store rt' = Some s' \<and> store_inv s' \<and> s_saved s' = s_saved s \<and>
    (durable s' = durable s \<or> (\<exists>x. appends J (durable s) x (durable s')))"
proof -
  obtain r0 s' where sv: "SaveEvent J e s = (r0, s')" by fastforce
  with run st have rt': "rt_store rt' = Some s'" by (auto simp: AppendEvent_def)
  have w: "write_step s s'" using save_event.keeps [of s J e] sv by simp
  then have inv': "store_inv s'" using st(2) by (rule write_step_store_inv)
  have f: "s_saved s' = s_saved s" "s_file s' = s_file s" using w by (simp_all add: write_step_def frame_def)
  have same: "durable s' = durable s" if "s_saved s \<noteq> None \<or> s_db s' = s_db s"
    using that f by (auto simp: durable_def split: option.splits)
  have "\<exists>x. appends J (durable s) x (durable s')" if new: "s_saved s = None" "s_db s = Some d"
    "s_db s' = insert_event now row d" "insert_event now row d \<noteq> None" for d now row
  proof -
    from new obtain d' where d': "insert_event now row d = Some d'" "s_db s' = Some d'" by auto
    then have dur: "durable s = d" "durable s' = d'" using new f by (simp_all add: durable_def)
    let ?row = "row\<lparr>evr_id := seq_events d + 1, evr_created_at := now\<rparr>"
    have t: "t_events d' = t_events d @ [?row]" "seq_events d' = seq_events d + 1" "t_cursors d' = t_cursors d"
      using d'(1) by (auto simp: insert_event_def split: if_splits)
    have "event_pos (ReadEventRow J ?row) = seq_events d + 1"
      using event_pos_row [of d' ?row J] durable_inv [OF inv'] dur(2) t(1) by simp
    then have "appends J d (ReadEventRow J ?row) d'" using t by (simp add: appends_def event_log_def)
    then show ?thesis unfolding dur by blast
  qed
  with sv same have "durable s' = durable s \<or> (\<exists>x. appends J (durable s) x (durable s'))"
    by (cases rule: SaveEvent_cases) metis+
  with rt' inv' f(1) show ?thesis by blast
qed

text \<open>An append that reports success has put the event at the end of the open database's log.\<close>

lemma AppendEvent_acknowledged:
  assumes J: "json_text_ok J" and e: "valid_event_type (ev_type e)" and rt: "rt_store rt = Some s" "store_inv s"
    and append: "AppendEvent J e rt = (Ret r, rt1)" "succeeded r"
  obtains d s1 d1 where "rt_store rt1 = Some s1" "rt_contextBuilder rt1 = rt_contextBuilder rt" "store_inv s1"
    "s_db s = Some d" "s_db s1 = Some d1" "s_saved s1 = s_saved s"
    "event_log J d1 = event_log J d @ [stored_event e (seq_events d + 1)]"
proof -
  obtain r0 s1 where sv: "SaveEvent J e s = (r0, s1)" by fastforce
  have rt1: "rt_store rt1 = Some s1" "rt_contextBuilder rt1 = rt_contextBuilder rt" and r0: "\<exists>q. r0 = Ret q \<and> succeeded q"
    using append sv rt by (auto simp: AppendEvent_def split: if_splits)
  have w: "write_step s s1" using save_event.keeps [of s J e] sv by simp
  have inv1: "store_inv s1" by (rule write_step_store_inv [OF w rt(2)])
  have same: "s_saved s1 = s_saved s" using w by (simp add: write_step_def frame_def)
  show thesis using sv
  proof (cases rule: SaveEvent_cases)
    case (saved d mj now)
    then obtain d1 where d1: "insert_event now (event_to_row e mj) d = Some d1" by blast
    with saved show thesis using that [OF rt1 inv1 saved(2) _ same] event_log_insert [OF J e saved(3) d1] by simp
  qed (use r0 in auto)
qed

lemma saved_pos_cursors: "t_cursors d' = t_cursors d \<Longrightarrow> saved_pos request d' = saved_pos request d"
  by (simp add: saved_pos_def select_cursor_def)

lemma events_since_appends:
  assumes "appends J d x d'" "c \<le> seq_events d"
  shows "events_since J request c d' = events_since J request c d @ (if request_wants request x then [x] else [])"
  using assms by (simp add: appends_def events_since_def)

lemma RuntimeWritePayload_law:
  assumes st: "rt_store rt = Some s" "store_inv s" and run: "RuntimeWritePayload rnd q F rt = (r, F', rt')"
  shows "\<exists>s'. rt_store rt' = Some s' \<and> store_inv s' \<and> s_saved s' = s_saved s \<and>
    cursor_view (durable s') = cursor_view (durable s)"
proof -
  have save: "store_inv t \<and> s_saved t = s_saved s \<and> cursor_view (durable t) = cursor_view (durable s)" if "SavePayload p s = (x, t)" for p x t
  proof -
    have w: "write_step s t" using save_payload.keeps [of s p] that by simp
    obtain ok s1 where u: "SavePayloadUnlocked p s = (ok, s1)" by fastforce
    have "statement_keeps cursor_view (upsert_payload n pr)" for n pr
      by (auto simp: statement_keeps_def cursor_view_def upsert_payload_def Let_def split: if_splits)
    then have "keeps_view cursor_view s s1" using u unfolding SavePayloadUnlocked_def by (rule run_stmt_keeps [rotated])
    moreover have "t = s \<or> t = s1"
      using arg_cong [OF that, of snd] u by (auto simp: SavePayload_def guarded_def split: option.splits if_splits)
    ultimately have "keeps_view cursor_view s t" by auto
    with w have "cursor_view (durable t) = cursor_view (durable s)"
      by (auto simp: keeps_view_def durable_def write_step_def frame_def split: option.splits)
    moreover have "s_saved t = s_saved s" using w by (simp add: write_step_def frame_def)
    ultimately show ?thesis using w st(2) write_step_store_inv by blast
  qed
  show ?thesis
  proof (cases "rt_payloadService rt")
    case None
    with run st show ?thesis by (auto simp: RuntimeWritePayload_def)
  next
    case (Some ps)
    obtain r1 F1 s1 where w: "WritePayload ps rnd q F s = (r1, F1, s1)" by (metis prod_cases3)
    then have "s1 = s \<or> (\<exists>p x. SavePayload p s = (x, s1))"
      unfolding WritePayload_def Let_def by (auto split: if_splits prod.splits option.splits outcome.splits)
    then have "store_inv s1 \<and> s_saved s1 = s_saved s \<and> cursor_view (durable s1) = cursor_view (durable s)" using save st(2) by blast
    moreover have "rt_store rt' = Some s1" using run st Some w by (auto simp: RuntimeWritePayload_def on_store_def)
    ultimately show ?thesis by blast
  qed
qed

text \<open>The process ends and a new runtime is created on the same file.\<close>

lemma CreateRuntimeServices_restart:
  assumes st: "store_inv s"
    and run: "CreateRuntimeServices J post config F (close_store s\<lparr>s_faults := fs, s_now := n, s_errmsg := m\<rparr>) = (rt', F')"
      "rt_store rt' = Some s'"
  shows "store_inv s' \<and> cursor_view (durable s') = cursor_view (durable s)"
proof -
  let ?t = "close_store s\<lparr>s_faults := fs, s_now := n, s_errmsg := m\<rparr>"
  have dur: "durable (close_store s) = durable s"
    using durable_close_store [of s] by (cases "s_db s") (auto simp: close_store_def)
  have t: "store_inv ?t" "s_saved ?t = None" "durable ?t = durable s"
    using close_store_inv [OF st] close_store_saved [OF st] dur
    by (simp_all add: store_inv_def db_ok_def durable_def cong: option.case_cong)
  obtain x where "Initialize ?t = (x, s')"
    using run unfolding CreateRuntimeServices_def CreateRuntimeStore_def Let_def by (auto split: prod.splits if_splits)
  then have "s' = snd (Initialize ?t)" by simp
  with Initialize_inv [OF t(1)] Initialize_keeps [OF t(2)] t(3) show ?thesis by simp
qed

end
