(* ===== verification/Runtime_Properties.thy ===== *)
theory Runtime_Properties
  imports Runtime_Laws Model_Properties
begin

text \<open>
  Properties of the whole runtime: every event is consolidated exactly once, also across failures
  and restarts; repeated consolidation catches up; a message that was appended is the last one of
  the next context; and what a runtime without a store answers.
\<close>

section \<open>Histories of a runtime\<close>

text \<open>
  What may happen to a runtime between two consolidations of one request: the clock and the coming
  faults change, something is read, an event is appended (successfully or not), a payload is
  written, the process ends and starts again on the same file. The list holds the events that
  successful consolidations have processed so far.
\<close>

inductive history ::
  "json_lib \<Rightarrow> MemoryConsolidationRequest \<Rightarrow> runtime \<Rightarrow> MemoryEvent list \<Rightarrow> runtime \<Rightarrow> bool"
  for J request rt0 where
  start: "history J request rt0 [] rt0"
| consolidate: "history J request rt0 xs rt \<Longrightarrow> rt_store rt = Some s \<Longrightarrow>
    ConsolidateWithModel J request model rt = (r, rt') \<Longrightarrow>
    history J request rt0 (xs @ processed J request s r) rt'"
| append: "history J request rt0 xs rt \<Longrightarrow> AppendEvent J e rt = (r, rt') \<Longrightarrow> history J request rt0 xs rt'"
| payload: "history J request rt0 xs rt \<Longrightarrow> RuntimeWritePayload rnd q F rt = (r, F', rt') \<Longrightarrow> history J request rt0 xs rt'"
| read: "history J request rt0 xs rt \<Longrightarrow> rt_store rt = Some s \<Longrightarrow> read_step s s' \<Longrightarrow>
    history J request rt0 xs (rt\<lparr>rt_store := Some s'\<rparr>)"
| environment: "history J request rt0 xs rt \<Longrightarrow> rt_store rt = Some s \<Longrightarrow>
    history J request rt0 xs (rt\<lparr>rt_store := Some (s\<lparr>s_faults := fs, s_now := n, s_errmsg := m\<rparr>)\<rparr>)"
| restart: "history J request rt0 xs rt \<Longrightarrow> rt_store rt = Some s \<Longrightarrow>
    CreateRuntimeServices J post config F (close_store s\<lparr>s_faults := fs, s_now := n, s_errmsg := m\<rparr>) = (rt', F') \<Longrightarrow>
    history J request rt0 xs rt'"

text \<open>The balance: what was processed and what is pending are together what was logged since \<open>c\<close>.\<close>

definition balanced :: "json_lib \<Rightarrow> MemoryConsolidationRequest \<Rightarrow> int \<Rightarrow> MemoryEvent list \<Rightarrow> store \<Rightarrow> bool" where
  "balanced J request c xs s =
     (store_inv s \<and> c \<le> saved_pos request (durable s) \<and> saved_pos request (durable s) \<le> seq_events (durable s) \<and>
      xs @ filter (batch_keeps request) (pending J request (durable s)) =
        filter (batch_keeps request) (events_since J request c (durable s)))"

lemma balanced_view:
  assumes "balanced J request c xs s" "store_inv s'" "cursor_view (durable s') = cursor_view (durable s)"
  shows "balanced J request c xs s'"
  using assms(1,2) cursor_view_pending(1) [OF assms(3)] cursor_view_pending(2) [OF assms(3), where request = request]
    cursor_view_pending(3) [OF assms(3), where request = request and J = J] events_since_view [of "durable s'" "durable s" J request c]
  by (simp add: balanced_def log_view_def)

lemma balanced_scope:
  assumes "balanced J request c xs s" "store_inv s'"
    and "scope_view (c_str (cr_agentId request)) (c_str (cr_sessionId request)) (durable s') =
      scope_view (c_str (cr_agentId request)) (c_str (cr_sessionId request)) (durable s)"
  shows "balanced J request c xs s'"
proof -
  have l: "log_view (durable s') = log_view (durable s)" and p: "saved_pos request (durable s') = saved_pos request (durable s)"
    using assms(3) by (simp_all add: scope_view_def log_view_def saved_pos_def)
  have "pending J request (durable s') = pending J request (durable s)"
    unfolding pending_def p by (rule events_since_view [OF l])
  with assms(1,2) p events_since_view [OF l, of J request c] l show ?thesis by (simp add: balanced_def log_view_def)
qed

lemma balanced_consumes:
  assumes bal: "balanced J request c xs s" and k: "consumes J request s pre post s'" "store_inv s'"
    "log_view (durable s') = log_view (durable s)"
  shows "balanced J request c (xs @ filter (batch_keeps request) pre) s'"
proof -
  have "store_inv s" using bal by (simp add: balanced_def)
  note p = consumes_pending [OF k(1,3) this]
  have "pending J request (durable s) = pre @ post" using k(1) by (simp add: consumes_def)
  with bal p k(2) events_since_view [OF k(3), of J request c] show ?thesis by (simp add: balanced_def)
qed

lemma balanced_consolidate:
  assumes bal: "balanced J request c xs s" and st: "rt_store rt = Some s"
    and req: "\<not> cr_forceReprocess request" "0 < cr_maxEvents request"
    and run: "ConsolidateWithModel J request model rt = (r, rt')"
  shows "\<exists>s'. rt_store rt' = Some s' \<and> balanced J request c (xs @ processed J request s r) s'"
proof -
  have inv: "store_inv s" using bal by (simp add: balanced_def)
  from ConsolidateWithModel_law [OF st inv req run] obtain s' where
    s': "rt_store rt' = Some s'" "store_inv s'" "log_view (durable s') = log_view (durable s)" and
    c: "(durable s' = durable s \<and> processed J request s r = []) \<or>
        (\<exists>pre post. consumes J request s pre post s' \<and> processed J request s r = filter (batch_keeps request) pre)" by blast
  from c have "balanced J request c (xs @ processed J request s r) s'"
  proof (elim disjE exE conjE)
    assume "durable s' = durable s" "processed J request s r = []"
    with balanced_view [OF bal s'(2)] show ?thesis by simp
  next
    fix pre post
    assume k: "consumes J request s pre post s'" "processed J request s r = filter (batch_keeps request) pre"
    from balanced_consumes [OF bal k(1) s'(2,3)] k(2) show ?thesis by simp
  qed
  with s'(1) show ?thesis by blast
qed

lemma balanced_append:
  assumes bal: "balanced J request c xs s" and a: "appends J (durable s) x (durable s')" and inv: "store_inv s'"
  shows "balanced J request c xs s'"
proof -
  have pos: "saved_pos request (durable s') = saved_pos request (durable s)"
    using a by (intro saved_pos_cursors) (simp add: appends_def)
  have "pending J request (durable s') = pending J request (durable s) @ (if request_wants request x then [x] else [])"
    using bal unfolding pending_def pos by (intro events_since_appends [OF a]) (simp add: balanced_def)
  moreover have "events_since J request c (durable s') = events_since J request c (durable s) @ (if request_wants request x then [x] else [])"
    using bal by (intro events_since_appends [OF a]) (simp add: balanced_def)
  moreover have "xs @ filter (batch_keeps request) (pending J request (durable s)) =
      filter (batch_keeps request) (events_since J request c (durable s))" using bal by (simp add: balanced_def)
  ultimately have "xs @ filter (batch_keeps request) (pending J request (durable s')) =
      filter (batch_keeps request) (events_since J request c (durable s'))" by (metis append_assoc filter_append)
  then show ?thesis using bal a inv pos by (simp add: balanced_def appends_def)
qed

lemma history_balanced:
  assumes "history J request rt0 xs rt" and req: "\<not> cr_forceReprocess request" "0 < cr_maxEvents request"
    and start: "rt_store rt0 = Some s0" "balanced J request c [] s0"
  shows "rt_store rt = Some s \<Longrightarrow> balanced J request c xs s"
  using assms(1)
proof (induction arbitrary: s rule: history.induct)
  case start
  then show ?case using assms(4,5) by simp
next
  case (consolidate xs rt s1 model r rt')
  from balanced_consolidate [OF consolidate.IH [OF consolidate.hyps(2)] consolidate.hyps(2) req consolidate.hyps(3)] consolidate.prems
  show ?case by auto
next
  case (append xs rt e r rt')
  show ?case
  proof (cases "rt_store rt")
    case None
    with append show ?thesis by (auto simp: AppendEvent_def)
  next
    case (Some s1)
    note bal = append.IH [OF Some]
    then have inv: "store_inv s1" by (simp add: balanced_def)
    from AppendEvent_law [OF Some inv append.hyps(2)] append.prems
    have "store_inv s" "durable s = durable s1 \<or> (\<exists>x. appends J (durable s1) x (durable s))" by auto
    then show ?thesis using balanced_view [OF bal] balanced_append [OF bal] by auto
  qed
next
  case (payload xs rt rnd q F r F' rt')
  show ?case
  proof (cases "rt_store rt")
    case None
    with payload show ?thesis
      by (auto simp: RuntimeWritePayload_def on_store_def split: option.splits prod.splits)
  next
    case (Some s1)
    note bal = payload.IH [OF Some]
    then have inv: "store_inv s1" by (simp add: balanced_def)
    from RuntimeWritePayload_law [OF Some inv payload.hyps(2)] payload.prems balanced_view [OF bal] show ?thesis by auto
  qed
next
  case (read xs rt s1 s')
  note bal = read.IH [OF read.hyps(2)]
  then have "store_inv s1" by (simp add: balanced_def)
  with read.prems balanced_view [OF bal] read_step_frame [OF read.hyps(3)] show ?case by simp
next
  case (environment xs rt s1 m n fs)
  note bal = environment.IH [OF environment.hyps(2)]
  then have "store_inv s1" by (simp add: balanced_def)
  moreover have s: "s = s1\<lparr>s_faults := fs, s_now := n, s_errmsg := m\<rparr>" using environment.prems by simp
  ultimately have "store_inv s" "durable s = durable s1" by (simp_all add: store_inv_def db_ok_def durable_def cong: option.case_cong)
  then show ?case using balanced_view [OF bal] by simp
next
  case (restart xs rt s1 post config F fs n m rt' F')
  note bal = restart.IH [OF restart.hyps(2)]
  then have "store_inv s1" by (simp add: balanced_def)
  from CreateRuntimeServices_restart [OF this restart.hyps(3) restart.prems] balanced_view [OF bal] show ?case by blast
qed


text \<open>A runtime on an open, empty database, and a JSON library that accepts everything.\<close>

definition plain_lib :: json_lib where
  "plain_lib = \<lparr>jdump = (\<lambda>j. Inr ''{}''), jparse = (\<lambda>t. Inr (JObj []))\<rparr>"

definition office :: runtime where
  "office = \<lparr>rt_config = default_config, rt_store = Some open_store, rt_storeError = [], rt_payloadService = None,
     rt_contextBuilder = Some full_builder, rt_consolidationService = Some RuleBasedProcess, rt_modelClient = None,
     rt_modelClientError = []\<rparr>"

definition greeted :: runtime where
  "greeted = snd (AppendEvent plain_lib hello office)"

lemma greeted_store: "rt_store greeted = Some (the (rt_store greeted))" "s_saved (the (rt_store greeted)) = None"
  by code_simp+

lemma greeted_inv: "store_inv (the (rt_store greeted))"
  using AppendEvent_law [of office open_store plain_lib hello "fst (AppendEvent plain_lib hello office)" greeted] open_store_inv
  by (auto simp: office_def greeted_def)


section \<open>Catching up\<close>

text \<open>Running the same request once for each model of a list.\<close>

fun consolidations ::
  "json_lib \<Rightarrow> MemoryConsolidationRequest \<Rightarrow> model_client option list \<Rightarrow> runtime \<Rightarrow>
   MemoryConsolidationResult outcome list \<times> runtime" where
  "consolidations J request [] rt = ([], rt)"
| "consolidations J request (m # ms) rt =
     (let (r, rt1) = ConsolidateWithModel J request m rt;
          (rs, rt2) = consolidations J request ms rt1
      in (r # rs, rt2))"

lemma consolidations_shrink:
  assumes "consolidations J request ms rt = (rs, rt')" "list_all run_succeeded rs"
    and "\<not> cr_forceReprocess request" "0 < cr_maxEvents request"
    and "rt_store rt = Some s" "store_inv s" "s_saved s = None"
  shows "\<exists>s'. rt_store rt' = Some s' \<and>
    length (pending J request (durable s')) \<le> length (pending J request (durable s)) - length ms"
  using assms
proof (induction ms arbitrary: rt rs s)
  case Nil
  then show ?case by auto
next
  case (Cons m ms)
  obtain r rt1 where r: "ConsolidateWithModel J request m rt = (r, rt1)" by fastforce
  obtain rs1 where rs: "consolidations J request ms rt1 = (rs1, rt')" "rs = r # rs1"
    using Cons.prems(1) r by (auto split: prod.splits)
  have ok: "run_succeeded r" "list_all run_succeeded rs1" using Cons.prems(2) rs(2) by simp_all
  from ConsolidateWithModel_law [OF Cons.prems(5,6,3,4) r] obtain s1 where
    s1: "rt_store rt1 = Some s1" "store_inv s1" "log_view (durable s1) = log_view (durable s)" and
    c: "(durable s1 = durable s \<and> s_saved s1 = None \<and> pending J request (durable s) = []) \<or>
        (\<exists>pre post. consumes J request s pre post s1)" using ok(1) Cons.prems(7) by blast
  from c have saved: "s_saved s1 = None" by (auto simp: consumes_def)
  from c have len: "length (pending J request (durable s1)) \<le> length (pending J request (durable s)) - 1"
  proof (elim disjE exE)
    fix pre post
    assume k: "consumes J request s pre post s1"
    then have "pending J request (durable s) = pre @ post" "pre \<noteq> []" by (simp_all add: consumes_def)
    with consumes_pending(1) [OF k s1(3) Cons.prems(6)] show ?thesis by (cases pre) auto
  qed auto
  from Cons.IH [OF rs(1) ok(2) Cons.prems(3,4) s1(1,2) saved] len show ?case by auto
qed



section \<open>From an event to a context\<close>

lemma last_filter_last_n:
  assumes "0 < n" "P x"
  shows "filter P (last_n n (ys @ [x])) \<noteq> [] \<and> last (filter P (last_n n (ys @ [x]))) = x"
proof -
  obtain m where m: "n = Suc m" using assms(1) gr0_implies_Suc by blast
  have "last_n n (ys @ [x]) = last_n m ys @ [x]" by (simp add: m last_n_def)
  with assms(2) show ?thesis by simp
qed

text \<open>
  C14: A message that was appended is the last message of the next context of its agent and session
  (unless the context excludes messages or asks for none).
\<close>

theorem appended_message_is_last:
  assumes J: "json_text_ok J" and e: "ev_type e = MESSAGE_APPENDED"
    and rt: "rt_store rt = Some s" "store_inv s" "rt_contextBuilder rt = Some cb" "cb_eventStore cb"
    and append: "AppendEvent J e rt = (Ret r, rt1)" "succeeded r"
    and build: "RuntimeBuildContext J fts request rt1 = (c, rt2)" "succeeded c"
    and request: "ShouldInclude request ''messages''" "0 < MetadataInt (cx_metadata request) ''message_limit'' 20"
      "cx_agentId request = ev_agentId e" "cx_sessionId request \<in> {[], ev_sessionId e}"
  shows "pkg_messages (payload_of c) \<noteq> [] \<and>
    last (pkg_messages (payload_of c)) =
      \<lparr>msg_role = c_str (ev_role e), msg_content = c_str (ev_content e), msg_toolCallId = c_str (ev_toolCallId e),
       msg_toolName = c_str (ev_toolName e), msg_payloadRef = c_str (ev_payloadRef e)\<rparr>"
proof -
  have vt: "valid_event_type (ev_type e)" using e by simp
  obtain d s1 d1 where rt1: "rt_store rt1 = Some s1" "rt_contextBuilder rt1 = Some cb" and inv1: "store_inv s1"
    and d: "s_db s1 = Some d1" "event_log J d1 = event_log J d @ [stored_event e (seq_events d + 1)]"
    using AppendEvent_acknowledged [OF J vt rt(1,2) append] rt(3) by metis
  obtain c0 s2 where b: "BuildContext J fts cb request s1 = (c0, s2)" by fastforce
  with build rt1 have c0: "c0 = c" by (auto simp: RuntimeBuildContext_def on_store_def)
  note m = messages_of_context [OF inv1 b [unfolded c0] build(2) d(1) rt(4) request(1)]
  let ?x = "stored_event e (seq_events d + 1)"
  let ?n = "nat (MetadataInt (cx_metadata request) ''message_limit'' 20)"
  let ?scope = "event_in_scope (cx_agentId request) (cx_sessionId request)"
  have "?scope ?x"
    using request(3,4) by (auto simp: event_in_scope_def in_scope_def stored_event_def)
  then have log: "filter ?scope (event_log J d1) = filter ?scope (event_log J d) @ [?x]" by (simp add: d(2))
  have "0 < ?n" "ev_type ?x = MESSAGE_APPENDED" using request(2) e by (simp_all add: stored_event_def)
  note A = last_filter_last_n [OF this(1), of "\<lambda>e. ev_type e = MESSAGE_APPENDED", OF this(2), of "filter ?scope (event_log J d)"]
  have "pkg_messages (payload_of c) \<noteq> [] \<and> last (pkg_messages (payload_of c)) = event_message ?x"
    unfolding m log last_map [OF A [THEN conjunct1]] A [THEN conjunct2] using A by simp
  then show ?thesis by (simp add: event_message_def stored_event_def)
qed

theorem appended_message_is_last_witness:
  "\<exists>c. fst (RuntimeBuildContext small_lib (\<lambda>_ _. None) context_request (snd (AppendEvent small_lib hello office))) = c \<and>
     msg_content (last (pkg_messages (payload_of c))) = ''hi''"
proof -
  let ?a = "AppendEvent small_lib hello office"
  let ?b = "RuntimeBuildContext small_lib (\<lambda>_ _. None) context_request (snd ?a)"
  have "fst ?a = Ret MemorySuccess" by code_simp
  then have a: "?a = (Ret MemorySuccess, snd ?a)" by (metis prod.collapse)
  have e: "ev_type hello = MESSAGE_APPENDED" "rt_store office = Some open_store" "rt_contextBuilder office = Some full_builder"
    "cb_eventStore full_builder" "succeeded MemorySuccess" "succeeded (fst ?b)" "ShouldInclude context_request ''messages''"
    "0 < MetadataInt (cx_metadata context_request) ''message_limit'' 20" "cx_agentId context_request = ev_agentId hello"
    "cx_sessionId context_request \<in> {[], ev_sessionId hello}" "c_str (ev_content hello) = ''hi''" by code_simp+
  have "last (pkg_messages (payload_of (fst ?b))) =
      \<lparr>msg_role = c_str (ev_role hello), msg_content = c_str (ev_content hello), msg_toolCallId = c_str (ev_toolCallId hello),
       msg_toolName = c_str (ev_toolName hello), msg_payloadRef = c_str (ev_payloadRef hello)\<rparr>"
    using appended_message_is_last [OF small_lib_ok e(1,2) open_store_inv e(3,4) a e(5) surjective_pairing e(6-10)] by blast
  then show ?thesis by (simp add: e(11))
qed

section \<open>Without a store\<close>

lemma BuildContext_no_stores:
  assumes "\<not> cb_eventStore cb" "\<not> cb_payloadStore cb" "\<not> cb_longTermStore cb"
  shows "\<exists>p. BuildContext J fts cb request s = (success_with p, s) \<and> pkg_messages p = [] \<and> pkg_memoryText p = [] \<and>
    pkg_entities p = [] \<and> pkg_relations p = [] \<and> pkg_payloadRefs p = [] \<and> pkg_citations p = []"
proof -
  have none: "RenderLongTermMemory default_selected [] = ([], [])" "sel_succeeded default_selected"
      "snap_entities (sel_snapshot default_selected) = []" "snap_relations (sel_snapshot default_selected) = []"
    by (simp_all add: RenderLongTermMemory_def default_selected_def empty_snapshot_def CollectSnapshotCitations_def
        FormatLongTermSnapshot_def)
  have m: "\<exists>p. context_messages J cb request s = (Inr p, s) \<and> pkg_messages p = [] \<and> pkg_memoryText p = [] \<and>
      pkg_entities p = [] \<and> pkg_relations p = [] \<and> pkg_payloadRefs p = [] \<and> pkg_citations p = []"
    using assms(1) by (simp add: context_messages_def LoadMessagesForContext_def set_meta_def empty_package_def)
  have l: "\<exists>q. context_long_term J fts cb request p s = (Inr q, s) \<and> pkg_messages q = [] \<and> pkg_memoryText q = [] \<and>
      pkg_entities q = [] \<and> pkg_relations q = [] \<and> pkg_payloadRefs q = [] \<and> pkg_citations q = []"
    if "pkg_messages p = []" "pkg_memoryText p = []" "pkg_entities p = []" "pkg_relations p = []" "pkg_payloadRefs p = []"
      "pkg_citations p = []" for p
    using assms(3) that by (simp add: context_long_term_def set_meta_def Let_def none)
  have y: "\<exists>q. context_payloads cb request p s = (Inr q, s) \<and> pkg_messages q = [] \<and> pkg_memoryText q = [] \<and>
      pkg_entities q = [] \<and> pkg_relations q = [] \<and> pkg_payloadRefs q = [] \<and> pkg_citations q = []"
    if "pkg_messages p = []" "pkg_memoryText p = []" "pkg_entities p = []" "pkg_relations p = []" "pkg_payloadRefs p = []"
      "pkg_citations p = []" for p
    using assms(2) that by (simp add: context_payloads_def LoadPayloadsForContext_def set_meta_def Let_def)
  from m obtain p where p: "context_messages J cb request s = (Inr p, s)" "pkg_messages p = []" "pkg_memoryText p = []"
    "pkg_entities p = []" "pkg_relations p = []" "pkg_payloadRefs p = []" "pkg_citations p = []" by blast
  from l [OF p(2-7)] obtain q where q: "context_long_term J fts cb request p s = (Inr q, s)" "pkg_messages q = []"
    "pkg_memoryText q = []" "pkg_entities q = []" "pkg_relations q = []" "pkg_payloadRefs q = []" "pkg_citations q = []" by blast
  from y [OF q(2-7)] p(1) q(1) show ?thesis by (auto simp: BuildContext_def)
qed


text \<open>A file system on which the data directory cannot be created.\<close>

definition full_disk :: filesys where
  "full_disk = \<lparr>fs_nodes = [], fs_cwd = [], fs_now = 0, fs_io = [False], fs_message = ''No space left on device'',
     fs_partial = 0, fs_dir_read = None\<rparr>"


end
