(* ===== verification/Mcp.thy ===== *)
theory Mcp
  imports Runtime Codec
begin

text \<open>
  The operations both transports offer and the MCP protocol (\<open>src/transport/mcp/memory_mcp_protocol.cpp\<close>):
  the tools, the JSON-RPC methods and the text interface. The state is the runtime and the file system
  it works on; a handler returns a JSON value or leaves with an exception, and may have changed the
  state in either case.
\<close>

section \<open>State and environment\<close>

record server_state =
  sv_runtime :: runtime
  sv_files :: filesys

text \<open>
  What a handler uses besides the state: the JSON library, the full-text engine, the numbers a payload
  write draws, the macro \<open>AGENT_MEMORY_VERSION\<close> and the option \<open>debugErrors_\<close>.
\<close>

record server_env =
  en_json :: json_lib
  en_fts :: fts_engine
  en_draws :: draws
  en_version :: string
  en_debugErrors :: bool

type_synonym server_op = "server_state \<Rightarrow> json outcome \<times> server_state"

text \<open>The text of an exception a client may see; otherwise it only goes to the error stream.\<close>

definition ErrorMessage :: "server_env \<Rightarrow> string \<Rightarrow> string \<Rightarrow> string" where
  "ErrorMessage E what fallback = (if en_debugErrors E then what else fallback)"

section \<open>The seven operations as JSON in, envelope out\<close>

definition append_event_op :: "server_env \<Rightarrow> json \<Rightarrow> server_op" where
  "append_event_op E args st =
     (let (result, rt) = AppendEvent (en_json E) (EventFromJson args) (sv_runtime st)
      in (map_outcome_val
            (\<lambda>r. if succeeded r then SuccessEnvelope (jobj [(''succeeded'', JBool True)]) else ErrorEnvelope (error_of r))
            result,
          st\<lparr>sv_runtime := rt\<rparr>))"

definition build_context_op :: "server_env \<Rightarrow> json \<Rightarrow> server_op" where
  "build_context_op E args st =
     (let (r, rt) = RuntimeBuildContext (en_json E) (en_fts E) (ContextRequestFromJson args) (sv_runtime st)
      in (Ret (if succeeded r then SuccessEnvelope (jobj [(''context'', ContextPackageToJson (payload_of r))])
               else ErrorEnvelope (error_of r)),
          st\<lparr>sv_runtime := rt\<rparr>))"

definition write_payload_op :: "server_env \<Rightarrow> json \<Rightarrow> server_op" where
  "write_payload_op E args st =
     (let (result, F, rt) = RuntimeWritePayload (en_draws E) (PayloadWriteRequestFromJson args) (sv_files st) (sv_runtime st)
      in (map_outcome_val
            (\<lambda>r. if pwr_succeeded r then SuccessEnvelope (PayloadWriteResultToJson r) else ErrorEnvelope (pwr_error r))
            result,
          st\<lparr>sv_runtime := rt, sv_files := F\<rparr>))"

definition read_payload_op :: "string \<Rightarrow> server_op" where
  "read_payload_op uri st =
     (let (result, F) = RuntimeReadPayload uri (sv_files st) (sv_runtime st)
      in (map_outcome_val
            (\<lambda>r. if succeeded r then SuccessEnvelope (jobj [(''uri'', JStr uri), (''content'', JStr (payload_of r))])
                 else ErrorEnvelope (error_of r))
            result,
          st\<lparr>sv_files := F\<rparr>))"

definition consolidate_op :: "server_env \<Rightarrow> json \<Rightarrow> server_op" where
  "consolidate_op E args st =
     (let (result, rt) = RuntimeConsolidate (en_json E) (ConsolidationRequestFromJson args) (sv_runtime st)
      in (map_outcome_val
            (\<lambda>r. if cres_succeeded r then SuccessEnvelope (ConsolidationResultToJson r) else ErrorEnvelope (cres_error r))
            result,
          st\<lparr>sv_runtime := rt\<rparr>))"

definition search_op :: "server_env \<Rightarrow> json \<Rightarrow> server_op" where
  "search_op E args st =
     (let (r, rt) = SearchMemory (en_json E) (en_fts E) (SearchRequestFromJson args) (sv_runtime st)
      in (Ret (if succeeded r then SuccessEnvelope (SearchResponseToJson True (payload_of r)) else ErrorEnvelope (error_of r)),
          st\<lparr>sv_runtime := rt\<rparr>))"

definition stats_op :: server_op where
  "stats_op st =
     (let (r, rt) = GetStats (sv_runtime st)
      in (Ret (if succeeded r then SuccessEnvelope (jobj [(''stats'', StatsToJson (payload_of r))]) else ErrorEnvelope (error_of r)),
          st\<lparr>sv_runtime := rt\<rparr>))"

section \<open>Tools\<close>

definition MakeTextResult :: "server_env \<Rightarrow> json \<Rightarrow> json outcome" where
  "MakeTextResult E v =
     map_outcome_val
       (\<lambda>t. jobj [(''content'', JArr [jobj [(''type'', JStr ''text''), (''text'', JStr t)]])])
       (of_sum (jdump (en_json E) v))"

text \<open>A handler's result goes through \<open>MakeTextResult\<close>, which may throw as well.\<close>

definition text_tool :: "server_env \<Rightarrow> server_op \<Rightarrow> server_op" where
  "text_tool E f st =
     (case f st of
        (Throw w, st1) \<Rightarrow> (Throw w, st1)
      | (Ret v, st1) \<Rightarrow> (MakeTextResult E v, st1))"

definition read_payload_tool :: "server_env \<Rightarrow> json \<Rightarrow> server_op" where
  "read_payload_tool E args st =
     (case value_string args ''uri'' [] of
        Throw w \<Rightarrow> (Throw w, st)
      | Ret uri \<Rightarrow> read_payload_op uri st)"

definition toolHandlers :: "server_env \<Rightarrow> (string \<times> (json \<Rightarrow> server_op)) list" where
  "toolHandlers E =
     [(''memory_append_event'', \<lambda>args. text_tool E (append_event_op E args)),
      (''memory_build_context'', \<lambda>args. text_tool E (build_context_op E args)),
      (''memory_write_payload'', \<lambda>args. text_tool E (write_payload_op E args)),
      (''memory_read_payload'', \<lambda>args. text_tool E (read_payload_tool E args)),
      (''memory_consolidate'', \<lambda>args. text_tool E (consolidate_op E args)),
      (''memory_search'', \<lambda>args. text_tool E (search_op E args)),
      (''memory_stats'', \<lambda>args. text_tool E stats_op)]"

definition tool_error :: "string \<Rightarrow> json" where
  "tool_error msg = jobj [(''ok'', JBool False), (''error'', JStr msg)]"

definition CallTool :: "server_env \<Rightarrow> string \<Rightarrow> json \<Rightarrow> server_op" where
  "CallTool E name args st =
     (let (r, st1) = (case map_of (toolHandlers E) name of
                        Some h \<Rightarrow> h args st
                      | None \<Rightarrow> (MakeTextResult E (tool_error (''unknown tool: '' @ name)), st))
      in case r of
           Ret v \<Rightarrow> (Ret v, st1)
         | Throw w \<Rightarrow> (MakeTextResult E (tool_error (ErrorMessage E w ''tool call failed'')), st1))"

definition ToolSchema :: "string \<Rightarrow> string \<Rightarrow> json \<Rightarrow> string list \<Rightarrow> json" where
  "ToolSchema name description properties required =
     jobj [(''name'', JStr name), (''description'', JStr description),
           (''inputSchema'', jobj [(''type'', JStr ''object''), (''properties'', properties), (''required'', string_array required)])]"

definition field_schema :: "string \<Rightarrow> json" where
  "field_schema t = jobj [(''type'', JStr t)]"

definition strings_schema :: json where
  "strings_schema = jobj [(''type'', JStr ''array''), (''items'', field_schema ''string'')]"

definition BuildToolsList :: json where
  "BuildToolsList = jobj [(''tools'', JArr
     [ToolSchema ''memory_append_event'' ''Append a memory event.''
        (jobj [(''type'', field_schema ''integer''), (''agentId'', field_schema ''string''),
               (''sessionId'', field_schema ''string''), (''role'', field_schema ''string''),
               (''content'', field_schema ''string''), (''toolCallId'', field_schema ''string''),
               (''toolName'', field_schema ''string''), (''payloadRef'', field_schema ''string''),
               (''metadata'', field_schema ''object''), (''timestamp'', field_schema ''string'')])
        [''type'', ''agentId'', ''sessionId''],
      ToolSchema ''memory_build_context'' ''Build memory context.''
        (jobj [(''agentId'', field_schema ''string''), (''sessionId'', field_schema ''string''),
               (''query'', field_schema ''string''), (''tokenBudget'', field_schema ''integer''),
               (''includeSections'', strings_schema), (''metadata'', field_schema ''object'')])
        [''agentId'', ''sessionId''],
      ToolSchema ''memory_write_payload'' ''Write or offload a payload.''
        (jobj [(''agentId'', field_schema ''string''), (''sessionId'', field_schema ''string''),
               (''content'', field_schema ''string''), (''contentType'', field_schema ''string''),
               (''toolCallId'', field_schema ''string''), (''toolName'', field_schema ''string''),
               (''metadata'', field_schema ''object'')])
        [''content''],
      ToolSchema ''memory_read_payload'' ''Read an offloaded payload.''
        (jobj [(''uri'', field_schema ''string'')]) [''uri''],
      ToolSchema ''memory_consolidate'' ''Trigger memory consolidation.''
        (jobj [(''agentId'', field_schema ''string''), (''sessionId'', field_schema ''string''),
               (''maxEvents'', field_schema ''integer''), (''forceReprocess'', field_schema ''boolean''),
               (''metadata'', field_schema ''object'')])
        [''agentId''],
      ToolSchema ''memory_search'' ''Search memory.''
        (jobj [(''agentId'', field_schema ''string''), (''sessionId'', field_schema ''string''),
               (''query'', field_schema ''string''), (''limit'', field_schema ''integer''),
               (''includeSections'', strings_schema), (''metadata'', field_schema ''object'')])
        [''query''],
      ToolSchema ''memory_stats'' ''Return memory stats.'' (JObj []) []])]"

section \<open>JSON-RPC\<close>

definition Error :: "json \<Rightarrow> int \<Rightarrow> string \<Rightarrow> json" where
  "Error rid code message =
     jobj [(''jsonrpc'', JStr ''2.0''), (''id'', rid),
           (''error'', jobj [(''code'', JInt code), (''message'', JStr message)])]"

definition Success :: "json \<Rightarrow> json \<Rightarrow> json" where
  "Success rid result = jobj [(''jsonrpc'', JStr ''2.0''), (''id'', rid), (''result'', result)]"

definition kSupportedVersion :: string where
  "kSupportedVersion = ''2024-11-05''"

definition initialize_method :: "server_env \<Rightarrow> json \<Rightarrow> json \<Rightarrow> json" where
  "initialize_method E req rid =
     (if \<not> contains req ''params'' then Error rid (- 32602) ''missing params object in initialize request''
      else let params = json_at req ''params'' in
        if \<not> contains params ''protocolVersion'' \<or> \<not> is_string (json_at params ''protocolVersion'')
        then Error rid (- 32602) ''missing required string field 'protocolVersion' in initialize params''
        else let clientVersion = get_string (json_at params ''protocolVersion'') in
          if clientVersion \<noteq> kSupportedVersion
          then Error rid (- 32602) (''unsupported protocol version: client sent '' @ clientVersion @
                 '', server only supports '' @ kSupportedVersion)
          else Success rid
            (jobj [(''protocolVersion'', JStr kSupportedVersion),
                   (''serverInfo'', jobj [(''name'', JStr ''memory-server''), (''version'', JStr (en_version E))]),
                   (''capabilities'', jobj [(''tools'', JObj [])])]))"

definition call_method :: "server_env \<Rightarrow> json \<Rightarrow> json \<Rightarrow> server_op" where
  "call_method E req rid st =
     (case value_json req ''params'' (JObj []) of
        Throw w \<Rightarrow> (Throw w, st)
      | Ret params \<Rightarrow>
        (case value_string params ''name'' [] of
           Throw w \<Rightarrow> (Throw w, st)
         | Ret name \<Rightarrow>
           (case value_json params ''arguments'' (JObj []) of
              Throw w \<Rightarrow> (Throw w, st)
            | Ret args \<Rightarrow> (let (r, st1) = CallTool E name args st in (map_outcome_val (Success rid) r, st1)))))"

definition methodHandlers :: "server_env \<Rightarrow> (string \<times> (json \<Rightarrow> json \<Rightarrow> server_op)) list" where
  "methodHandlers E =
     [(''initialize'', \<lambda>req rid st. (Ret (initialize_method E req rid), st)),
      (''tools/list'', \<lambda>req rid st. (Ret (Success rid BuildToolsList), st)),
      (''tools/call'', call_method E)]"

text \<open>The method is read before the \<open>try\<close>, so an exception there leaves the function.\<close>

definition HandleRequest :: "server_env \<Rightarrow> json \<Rightarrow> server_op" where
  "HandleRequest E req st =
     (let rid = (if contains req ''id'' then json_at req ''id'' else JNull) in
      case value_string req ''method'' [] of
        Throw w \<Rightarrow> (Throw w, st)
      | Ret rpc \<Rightarrow>
        (case map_of (methodHandlers E) rpc of
           Some h \<Rightarrow>
             (case h req rid st of
                (Ret v, st1) \<Rightarrow> (Ret v, st1)
              | (Throw w, st1) \<Rightarrow> (Ret (Error rid (- 32603) (ErrorMessage E w ''internal error'')), st1))
         | None \<Rightarrow> (Ret (Error rid (- 32601) (''method not found: '' @ rpc)), st)))"

definition HandleJsonRpc :: "server_env \<Rightarrow> json \<Rightarrow> server_op" where
  "HandleJsonRpc E req st = (if \<not> contains req ''id'' then (Ret JNull, st) else HandleRequest E req st)"

definition HandleJsonRpcText :: "server_env \<Rightarrow> string \<Rightarrow> server_state \<Rightarrow> string outcome \<times> server_state" where
  "HandleJsonRpcText E body st =
     (let (r, st1) =
        (case jparse (en_json E) body of
           Inl w \<Rightarrow> (Throw w, st)
         | Inr req \<Rightarrow>
           (case HandleJsonRpc E req st of
              (Throw w, st1) \<Rightarrow> (Throw w, st1)
            | (Ret result, st1) \<Rightarrow> (if json_empty result then Ret [] else of_sum (jdump (en_json E) result), st1)))
      in case r of
           Ret t \<Rightarrow> (Ret t, st1)
         | Throw w \<Rightarrow>
             (of_sum (jdump (en_json E) (Error JNull (- 32700) (ErrorMessage E w ''parse error''))), st1))"

end
