(* ===== verification/Http.thy ===== *)
theory Http
  imports Mcp "HOL-Library.Word"
begin

text \<open>
  The HTTP transport (\<open>src/transport/http\<close>): the token check, the handlers with their error answers,
  the routes in the order they are registered, and how a request reaches one. The matching of a path
  against a route's pattern belongs to \<open>httplib\<close> and is a parameter; of the rest of that library the
  model has the order of its steps: pre-routing handler, reading the body, first matching route.
\<close>

unbundle bit_operations_syntax

section \<open>The token check\<close>

text \<open>\<open>size_t\<close> is 64 bits wide, \<open>unsigned char\<close> 8; past the end of a string the byte is 0.\<close>

definition byte_at :: "string \<Rightarrow> nat \<Rightarrow> 8 word" where
  "byte_at s i = (if i < length s then word_of_nat (code_of (s ! i)) else 0)"

definition ConstantTimeEquals :: "string \<Rightarrow> string \<Rightarrow> bool" where
  "ConstantTimeEquals lhs rhs =
     (let diff = (word_of_nat (length lhs) :: 64 word) XOR word_of_nat (length rhs);
          maxSize = (if length lhs > length rhs then length lhs else length rhs)
      in foldl (\<lambda>diff i. diff OR ucast (byte_at lhs i XOR byte_at rhs i)) diff [0..<maxSize] = 0)"

section \<open>Requests, responses, handlers\<close>

record http_request =
  rq_method :: string
  rq_path :: string
  rq_authorization :: string
  rq_body :: string

record http_response =
  hp_status :: int
  hp_body :: string

definition json_response :: "server_env \<Rightarrow> int \<Rightarrow> json \<Rightarrow> http_response outcome" where
  "json_response E status j =
     map_outcome_val (\<lambda>t. \<lparr>hp_status = status, hp_body = t\<rparr>) (of_sum (jdump (en_json E) j))"

record http_server =
  hs_apiToken :: string
  hs_maxPayloadBytes :: nat
  hs_mcpPath :: string
  hs_maxMcpMessageBytes :: nat

type_synonym http_op = "server_state \<Rightarrow> http_response outcome \<times> server_state"

definition respond :: "server_env \<Rightarrow> server_op \<Rightarrow> http_op" where
  "respond E f st =
     (let (r, st1) =
        (case f st of
           (Throw w, st1) \<Rightarrow> (Throw w, st1)
         | (Ret v, st1) \<Rightarrow> (json_response E 200 v, st1))
      in case r of
           Ret res \<Rightarrow> (Ret res, st1)
         | Throw w \<Rightarrow> (json_response E 500 (tool_error (ErrorMessage E w ''internal server error'')), st1))"

definition HandleJsonGet :: "server_env \<Rightarrow> server_op \<Rightarrow> http_op" where
  "HandleJsonGet E f st = respond E f st"

definition HandleJsonPost :: "http_server \<Rightarrow> server_env \<Rightarrow> http_request \<Rightarrow> (json \<Rightarrow> server_op) \<Rightarrow> http_op" where
  "HandleJsonPost H E req handler st =
     (if hs_maxPayloadBytes H > 0 \<and> length (rq_body req) > hs_maxPayloadBytes H
      then (json_response E 413 (tool_error ''payload too large''), st)
      else case jparse (en_json E) (rq_body req) of
             Inl w \<Rightarrow> (json_response E 400 (tool_error (ErrorMessage E w ''invalid JSON'')), st)
           | Inr j \<Rightarrow> respond E (handler j) st)"

definition path_error :: "server_env \<Rightarrow> string \<Rightarrow> http_response outcome" where
  "path_error E msg = json_response E 400 (ErrorEnvelope (mk_error ''invalid_payload_path'' msg [] False))"

definition get_payload :: "server_env \<Rightarrow> string \<Rightarrow> http_op" where
  "get_payload E match st =
     (if match = [] then (path_error E ''empty payload path'', st)
      else if str_contains ''..'' match then (path_error E ''path contains forbidden traversal sequence'', st)
      else if list_ex (\<lambda>c. code_of c < 32) match then (path_error E ''path contains control character'', st)
      else HandleJsonGet E (read_payload_op (''file://'' @ match)) st)"

definition mcp_route :: "http_server \<Rightarrow> server_env \<Rightarrow> http_request \<Rightarrow> http_op" where
  "mcp_route H E req st =
     (if length (rq_body req) > hs_maxMcpMessageBytes H
      then (json_response E 413 (Error JNull (- 32600) ''message too large''), st)
      else case HandleJsonRpcText E (rq_body req) st of
             (Throw w, st1) \<Rightarrow> (Throw w, st1)
           | (Ret response, st1) \<Rightarrow>
               (Ret (if response = [] then \<lparr>hp_status = 202, hp_body = []\<rparr> else \<lparr>hp_status = 200, hp_body = response\<rparr>), st1))"

section \<open>Routes\<close>

text \<open>A handler gets the request and the first group its pattern captured.\<close>

type_synonym route = "string \<times> string \<times> (http_request \<Rightarrow> string \<Rightarrow> http_op)"

definition RegisterMcpRoutes :: "http_server \<Rightarrow> server_env \<Rightarrow> route list" where
  "RegisterMcpRoutes H E = [(''POST'', hs_mcpPath H, \<lambda>req g. mcp_route H E req)]"

definition RegisterRoutes :: "http_server \<Rightarrow> server_env \<Rightarrow> route list" where
  "RegisterRoutes H E = RegisterMcpRoutes H E @
     [(''POST'', ''/v1/events'', \<lambda>req g. HandleJsonPost H E req (append_event_op E)),
      (''POST'', ''/v1/context'', \<lambda>req g. HandleJsonPost H E req (build_context_op E)),
      (''POST'', ''/v1/payloads'', \<lambda>req g. HandleJsonPost H E req (write_payload_op E)),
      (''GET'', ''/v1/payloads/(.*)'', \<lambda>req g. get_payload E g),
      (''POST'', ''/v1/consolidate'', \<lambda>req g. HandleJsonPost H E req (consolidate_op E)),
      (''POST'', ''/v1/search'', \<lambda>req g. HandleJsonPost H E req (search_op E)),
      (''GET'', ''/v1/stats'', \<lambda>req g. HandleJsonGet E stats_op),
      (''GET'', ''/health'', \<lambda>req g st. (json_response E 200 (jobj [(''status'', JStr ''ok'')]), st))]"

text \<open>The pre-routing handler: \<open>None\<close> lets the request pass.\<close>

definition RegisterAuth :: "http_server \<Rightarrow> server_env \<Rightarrow> http_request \<Rightarrow> http_response outcome option" where
  "RegisterAuth H E req =
     (if hs_apiToken H = [] then None
      else if rq_path req = ''/health'' then None
      else if ConstantTimeEquals (rq_authorization req) (''Bearer '' @ hs_apiToken H) then None
      else Some (json_response E 401 (tool_error ''unauthorized'')))"

section \<open>Serving a request\<close>

text \<open>
  \<open>matcher pattern path\<close> is the first captured group (empty when there is none) if the path matches.
  The routes for \<open>GET\<close> also answer \<open>HEAD\<close>.
\<close>

type_synonym matcher = "string \<Rightarrow> string \<Rightarrow> string option"

fun dispatch_request :: "matcher \<Rightarrow> route list \<Rightarrow> http_request \<Rightarrow> http_op" where
  "dispatch_request matcher [] req st = (Ret \<lparr>hp_status = 404, hp_body = []\<rparr>, st)"
| "dispatch_request matcher ((verb, pattern, handler) # routes) req st =
     (if verb = (if rq_method req = ''HEAD'' then ''GET'' else rq_method req)
      then case matcher pattern (rq_path req) of
             Some g \<Rightarrow> handler req g st
           | None \<Rightarrow> dispatch_request matcher routes req st
      else dispatch_request matcher routes req st)"

definition payload_max_length :: "http_server \<Rightarrow> nat" where
  "payload_max_length H =
     (if hs_maxPayloadBytes H > hs_maxMcpMessageBytes H then hs_maxPayloadBytes H else hs_maxMcpMessageBytes H)"

definition known_methods :: "string list" where
  "known_methods = [''GET'', ''HEAD'', ''POST'', ''PUT'', ''DELETE'', ''OPTIONS'', ''PATCH'']"

definition routing :: "matcher \<Rightarrow> http_server \<Rightarrow> server_env \<Rightarrow> http_request \<Rightarrow> http_op" where
  "routing matcher H E req st =
     (case RegisterAuth H E req of
        Some res \<Rightarrow> (res, st)
      | None \<Rightarrow>
          if length (rq_body req) > payload_max_length H then (Ret \<lparr>hp_status = 413, hp_body = []\<rparr>, st)
          else if rq_method req \<notin> set known_methods then (Ret \<lparr>hp_status = 400, hp_body = []\<rparr>, st)
          else dispatch_request matcher (RegisterRoutes H E) req st)"

text \<open>An exception that leaves a handler is answered with status 500.\<close>

definition serve :: "matcher \<Rightarrow> http_server \<Rightarrow> server_env \<Rightarrow> http_request \<Rightarrow> server_state \<Rightarrow> http_response \<times> server_state" where
  "serve matcher H E req st =
     (case routing matcher H E req st of
        (Ret res, st1) \<Rightarrow> (res, st1)
      | (Throw w, st1) \<Rightarrow> (\<lparr>hp_status = 500, hp_body = []\<rparr>, st1))"

text \<open>Requests one after the other; each comes with the environment of its moment.\<close>

fun serve_all :: "matcher \<Rightarrow> http_server \<Rightarrow> (server_env \<times> http_request) list \<Rightarrow> server_state \<Rightarrow> http_response list \<times> server_state" where
  "serve_all matcher H [] st = ([], st)"
| "serve_all matcher H ((E, req) # rs) st =
     (let (res, st1) = serve matcher H E req st;
          (rest, st2) = serve_all matcher H rs st1
      in (res # rest, st2))"

end
