(* ===== verification/Http_Laws.thy ===== *)
theory Http_Laws
  imports Http Runtime_Laws
begin

text \<open>
  What no request can do: a relation between states that the seven operations respect is respected by
  every tool call, every JSON-RPC message, every HTTP request and every sequence of requests. The
  locale states this once; the interpretations are the growth of the event log and the constancy of
  the services.
\<close>

section \<open>Tokens\<close>

lemma byte_at_eq_iff: "i < length s \<Longrightarrow> i < length t \<Longrightarrow> byte_at s i = byte_at t i \<longleftrightarrow> s ! i = t ! i"
  by (simp add: byte_at_def code_of_def word_of_nat_eq_iff take_bit_eq_mod)

lemma xor_zero_iff: "a XOR b = 0 \<longleftrightarrow> a = b" for a b :: "'a::len word"
  by (metis xor.right_neutral xor_self_eq xor.assoc)

lemma ucast_zero_iff: "(ucast w :: 64 word) = 0 \<longleftrightarrow> w = 0" for w :: "8 word"
  by transfer (simp add: take_bit_take_bit)

lemma fold_or_zero:
  "foldl (\<lambda>d i. d OR f i) d xs = 0 \<longleftrightarrow> d = 0 \<and> (\<forall>i\<in>set xs. f i = 0)" for d :: "64 word"
  by (induction xs arbitrary: d) (auto simp: or_eq_0_iff)

lemma ConstantTimeEquals_iff:
  assumes "length lhs < 2 ^ 64" "length rhs < 2 ^ 64"
  shows "ConstantTimeEquals lhs rhs \<longleftrightarrow> lhs = rhs"
proof -
  have len: "(word_of_nat (length lhs) :: 64 word) = word_of_nat (length rhs) \<longleftrightarrow> length lhs = length rhs"
    using assms by (simp add: word_of_nat_eq_iff take_bit_eq_mod)
  have "ConstantTimeEquals lhs rhs \<longleftrightarrow> length lhs = length rhs \<and> (\<forall>i < length lhs. byte_at lhs i = byte_at rhs i)"
    unfolding ConstantTimeEquals_def Let_def fold_or_zero xor_zero_iff ucast_zero_iff len by auto
  also have "\<dots> \<longleftrightarrow> lhs = rhs"
    using byte_at_eq_iff [of _ lhs rhs] by (auto simp: list_eq_iff_nth_eq)
  finally show ?thesis .
qed

section \<open>Frames\<close>

locale server_frame =
  fixes J :: json_lib and R :: "server_state \<Rightarrow> server_state \<Rightarrow> bool"
  assumes refl: "R st st"
    and trans: "R st st1 \<Longrightarrow> R st1 st2 \<Longrightarrow> R st st2"
    and append_keeps: "en_json E = J \<Longrightarrow> append_event_op E args st = (r, st') \<Longrightarrow> R st st'"
    and build_keeps: "en_json E = J \<Longrightarrow> build_context_op E args st = (r, st') \<Longrightarrow> R st st'"
    and write_keeps: "en_json E = J \<Longrightarrow> write_payload_op E args st = (r, st') \<Longrightarrow> R st st'"
    and read_keeps: "read_payload_op uri st = (r, st') \<Longrightarrow> R st st'"
    and consolidate_keeps: "en_json E = J \<Longrightarrow> consolidate_op E args st = (r, st') \<Longrightarrow> R st st'"
    and search_keeps: "en_json E = J \<Longrightarrow> search_op E args st = (r, st') \<Longrightarrow> R st st'"
    and stats_keeps: "stats_op st = (r, st') \<Longrightarrow> R st st'"
begin

lemma read_tool: "read_payload_tool E args st = (r, st') \<Longrightarrow> R st st'"
  by (auto simp: read_payload_tool_def split: outcome.splits intro: refl read_keeps)

lemma text_tool_frame:
  assumes "text_tool E f st = (r, st')" "\<And>r st'. f st = (r, st') \<Longrightarrow> R st st'"
  shows "R st st'"
  using assms by (auto simp: text_tool_def split: prod.splits outcome.splits)

lemma tool_frame:
  assumes E: "en_json E = J" and h: "map_of (toolHandlers E) name = Some h" "h args st = (r, st')"
  shows "R st st'"
proof -
  from h(1) have "h = (\<lambda>args. text_tool E (append_event_op E args)) \<or> h = (\<lambda>args. text_tool E (build_context_op E args)) \<or>
    h = (\<lambda>args. text_tool E (write_payload_op E args)) \<or> h = (\<lambda>args. text_tool E (read_payload_tool E args)) \<or>
    h = (\<lambda>args. text_tool E (consolidate_op E args)) \<or> h = (\<lambda>args. text_tool E (search_op E args)) \<or>
    h = (\<lambda>args. text_tool E stats_op)"
    by (auto simp: toolHandlers_def split: if_splits)
  with h(2) show ?thesis
    using append_keeps [OF E] build_keeps [OF E] write_keeps [OF E] read_tool consolidate_keeps [OF E] search_keeps [OF E] stats_keeps
    by (elim disjE) (auto elim!: text_tool_frame)
qed

lemma CallTool_frame: "en_json E = J \<Longrightarrow> CallTool E name args st = (r, st') \<Longrightarrow> R st st'"
  by (auto simp: CallTool_def Let_def split: prod.splits option.splits outcome.splits intro: refl tool_frame)

lemma call_method_frame: "en_json E = J \<Longrightarrow> call_method E req rid st = (r, st') \<Longrightarrow> R st st'"
  by (auto simp: call_method_def Let_def split: prod.splits outcome.splits intro: refl CallTool_frame)

lemma method_frame:
  assumes "en_json E = J" "map_of (methodHandlers E) name = Some h" "h req rid st = (r, st')"
  shows "R st st'"
  using assms call_method_frame [OF assms(1)] refl by (auto simp: methodHandlers_def split: if_splits)

lemma HandleRequest_frame: "en_json E = J \<Longrightarrow> HandleRequest E req st = (r, st') \<Longrightarrow> R st st'"
  by (auto simp: HandleRequest_def Let_def split: prod.splits option.splits outcome.splits intro: refl method_frame)

lemma HandleJsonRpcText_frame: "en_json E = J \<Longrightarrow> HandleJsonRpcText E body st = (r, st') \<Longrightarrow> R st st'"
  by (auto simp: HandleJsonRpcText_def HandleJsonRpc_def Let_def split: prod.splits sum.splits outcome.splits if_splits
      intro: refl HandleRequest_frame)

lemma respond_frame:
  assumes "respond E f st = (r, st')" "\<And>r st'. f st = (r, st') \<Longrightarrow> R st st'"
  shows "R st st'"
  using assms by (auto simp: respond_def Let_def split: prod.splits outcome.splits)

lemma post_frame:
  assumes "HandleJsonPost H E req f st = (r, st')" "\<And>j r st'. f j st = (r, st') \<Longrightarrow> R st st'"
  shows "R st st'"
  using assms by (auto simp: HandleJsonPost_def split: sum.splits if_splits intro: refl elim!: respond_frame)

lemma mcp_route_frame: "en_json E = J \<Longrightarrow> mcp_route H E req st = (r, st') \<Longrightarrow> R st st'"
  by (auto simp: mcp_route_def split: prod.splits outcome.splits if_splits intro: refl HandleJsonRpcText_frame)

lemma get_payload_frame: "get_payload E g st = (r, st') \<Longrightarrow> R st st'"
  by (auto simp: get_payload_def HandleJsonGet_def split: if_splits intro: refl read_keeps elim!: respond_frame)

lemma route_frame:
  assumes E: "en_json E = J" and h: "(verb, pattern, h) \<in> set (RegisterRoutes H E)" "h req g st = (r, st')"
  shows "R st st'"
  using h post_frame [OF _ append_keeps [OF E]] post_frame [OF _ build_keeps [OF E]] post_frame [OF _ write_keeps [OF E]]
    post_frame [OF _ consolidate_keeps [OF E]] post_frame [OF _ search_keeps [OF E]] respond_frame [OF _ stats_keeps]
    get_payload_frame mcp_route_frame [OF E] refl
  by (auto simp: RegisterRoutes_def RegisterMcpRoutes_def HandleJsonGet_def)

lemma dispatch_frame:
  assumes "dispatch_request matcher routes req st = (r, st')"
    "\<And>verb pattern h g r st'. (verb, pattern, h) \<in> set routes \<Longrightarrow> h req g st = (r, st') \<Longrightarrow> R st st'"
  shows "R st st'"
  using assms
proof (induction routes)
  case (Cons x routes)
  obtain verb pattern h where x: "x = (verb, pattern, h)" by (metis prod_cases3)
  have "dispatch_request matcher routes req st = (r, st') \<or> (\<exists>g. h req g st = (r, st'))"
    using Cons.prems(1) x by (auto split: if_splits option.splits)
  then show ?case using Cons.IH Cons.prems(2) x by (meson list.set_intros)
qed (auto intro: refl)

lemma serve_frame: "en_json E = J \<Longrightarrow> serve matcher H E req st = (r, st') \<Longrightarrow> R st st'"
  by (auto simp: serve_def routing_def split: prod.splits outcome.splits option.splits if_splits
      intro: refl dispatch_frame [OF _ route_frame])

lemma serve_all_frame:
  "serve_all matcher H rs st = (out, st') \<Longrightarrow> \<forall>x\<in>set rs. en_json (fst x) = J \<Longrightarrow> R st st'"
proof (induction rs arbitrary: st out)
  case (Cons x rs)
  obtain E req where x: "x = (E, req)" by fastforce
  obtain res st1 where 1: "serve matcher H E req st = (res, st1)" by fastforce
  obtain rest st2 where 2: "serve_all matcher H rs st1 = (rest, st2)" by fastforce
  have "R st st1" using serve_frame [OF _ 1] Cons.prems(2) x by simp
  moreover have "R st1 st'" using Cons.IH [of st1 rest] Cons.prems x 1 2 by simp
  ultimately show ?case by (rule trans)
qed (simp add: refl)

end

section \<open>The log only grows\<close>

text \<open>A good state stays good, and its durable log becomes a prefix of the next one.\<close>

definition good_state :: "server_state \<Rightarrow> bool" where
  "good_state st = (case rt_store (sv_runtime st) of None \<Rightarrow> False | Some s \<Rightarrow> store_inv s)"

definition durable_log :: "json_lib \<Rightarrow> server_state \<Rightarrow> MemoryEvent list" where
  "durable_log J st = (case rt_store (sv_runtime st) of None \<Rightarrow> [] | Some s \<Rightarrow> event_log J (durable s))"

definition log_grows :: "json_lib \<Rightarrow> server_state \<Rightarrow> server_state \<Rightarrow> bool" where
  "log_grows J st st' = (good_state st \<longrightarrow> good_state st' \<and> prefix (durable_log J st) (durable_log J st'))"

lemma log_growsI:
  assumes "\<And>s. rt_store (sv_runtime st) = Some s \<Longrightarrow> store_inv s \<Longrightarrow>
    \<exists>s'. rt_store (sv_runtime st') = Some s' \<and> store_inv s' \<and> prefix (event_log J (durable s)) (event_log J (durable s'))"
  shows "log_grows J st st'"
  using assms by (fastforce simp: log_grows_def good_state_def durable_log_def split: option.splits)

lemma log_grows_read:
  assumes "\<And>s. rt_store (sv_runtime st) = Some s \<Longrightarrow> \<exists>s'. rt_store (sv_runtime st') = Some s' \<and> read_step s s'"
  shows "log_grows J st st'"
proof (rule log_growsI)
  fix s assume "rt_store (sv_runtime st) = Some s" "store_inv s"
  with assms [of s] read_step_frame
  show "\<exists>s'. rt_store (sv_runtime st') = Some s' \<and> store_inv s' \<and> prefix (event_log J (durable s)) (event_log J (durable s'))"
    by (metis prefix_order.refl)
qed

text \<open>A consolidation of any kind keeps the invariant and the log.\<close>

lemma ConsolidateWithModel_frame:
  assumes st: "rt_store rt = Some s" "store_inv s" and run: "ConsolidateWithModel J request model rt = (r, rt')"
  shows "\<exists>s'. rt_store rt' = Some s' \<and> store_inv s' \<and> log_view (durable s') = log_view (durable s)"
proof -
  have quiet: "store_inv t \<and> log_view (durable t) = log_view (durable s)" if "read_step s t" for t
    using read_step_frame [OF that] st(2) by simp
  have cons: "store_inv s3 \<and> log_view (durable s3) = log_view (durable s)"
    if "read_step s s2" "Consolidate J fb request es model s2 = (x, s3)" for s2 s3 fb es x
    using quiet [OF that(1)] Consolidate_inv [OF that(2)] Consolidate_keeps_log [OF that(2)] by simp
  obtain c s1 where c: "(if cr_forceReprocess request then (success_with [], s)
      else LoadConsolidationCursor (cr_agentId request) (cr_sessionId request) s) = (c, s1)" by fastforce
  then have r1: "read_step s s1" by (auto split: if_splits dest: LoadConsolidationCursor_read)
  obtain e s2 where e: "LoadEventsAfterCursor J (cr_agentId request) (cr_sessionId request) (payload_of c)
      (cr_excludedSessionIds request) s1 = (e, s2)" by fastforce
  have r2: "read_step s s2" using r1 LoadEventsAfterCursor_read [OF e] by (rule read_step_trans)
  show ?thesis
  proof (cases "rt_consolidationService rt")
    case None
    then have "rt' = rt" using run by (simp add: ConsolidateWithModel_def st(1))
    then show ?thesis using st by simp
  next
    case (Some fb)
    obtain x s3 where k: "Consolidate J (Some fb) request (payload_of e) model s2 = (x, s3)" by fastforce
    have "rt_store rt' = Some s1 \<or> rt_store rt' = Some s2 \<or> rt_store rt' = Some s3"
      using run unfolding ConsolidateWithModel_def st(1) Some option.case c Let_def prod.case e k by (auto split: if_splits)
    then show ?thesis using quiet [OF r1] quiet [OF r2] cons [OF r2 k] by auto
  qed
qed

lemma on_store_read:
  assumes "on_store f rt = (r, rt')" "rt_store rt = Some s" "\<And>x t. f s = (x, t) \<Longrightarrow> read_step s t"
  shows "\<exists>s'. rt_store rt' = Some s' \<and> read_step s s'"
  using assms by (auto simp: on_store_def split: prod.splits)

lemma BuildContext_read: "BuildContext J fts cb req s = (r, s') \<Longrightarrow> read_step s s'"
  using BuildContext_reads by blast

interpretation log: server_frame J "log_grows J" for J
proof
  show "log_grows J st st" for st by (simp add: log_grows_def)
  show "log_grows J st st2" if "log_grows J st st1" "log_grows J st1 st2" for st st1 st2
    using that by (auto simp: log_grows_def intro: prefix_order.trans)
  show "log_grows J st st'" if "en_json E = J" "append_event_op E args st = (r, st')" for E args st r st'
  proof (rule log_growsI)
    fix s assume s: "rt_store (sv_runtime st) = Some s" "store_inv s"
    obtain x rt where a: "AppendEvent J (EventFromJson args) (sv_runtime st) = (x, rt)" by fastforce
    with that have "sv_runtime st' = rt" by (auto simp: append_event_op_def)
    with AppendEvent_law [OF s a] show "\<exists>s'. rt_store (sv_runtime st') = Some s' \<and> store_inv s' \<and>
        prefix (event_log J (durable s)) (event_log J (durable s'))" by (auto simp: appends_def)
  qed
  show "log_grows J st st'" if "en_json E = J" "build_context_op E args st = (r, st')" for E args st r st'
  proof (rule log_grows_read)
    fix s assume s: "rt_store (sv_runtime st) = Some s"
    obtain x rt where a: "RuntimeBuildContext J (en_fts E) (ContextRequestFromJson args) (sv_runtime st) = (x, rt)" by fastforce
    with that have "sv_runtime st' = rt" by (auto simp: build_context_op_def)
    with a s show "\<exists>s'. rt_store (sv_runtime st') = Some s' \<and> read_step s s'"
      by (auto simp: RuntimeBuildContext_def split: option.splits dest: on_store_read [OF _ s BuildContext_read])
  qed
  show "log_grows J st st'" if "en_json E = J" "write_payload_op E args st = (r, st')" for E args st r st'
  proof (rule log_growsI)
    fix s assume s: "rt_store (sv_runtime st) = Some s" "store_inv s"
    obtain x F rt where a: "RuntimeWritePayload (en_draws E) (PayloadWriteRequestFromJson args) (sv_files st) (sv_runtime st) = (x, F, rt)"
      by (metis prod_cases3)
    with that have "sv_runtime st' = rt" by (auto simp: write_payload_op_def)
    with RuntimeWritePayload_law [OF s a] cursor_view_pending(1) event_log_view
    show "\<exists>s'. rt_store (sv_runtime st') = Some s' \<and> store_inv s' \<and>
        prefix (event_log J (durable s)) (event_log J (durable s'))" by (metis prefix_order.refl)
  qed
  show "log_grows J st st'" if "read_payload_op uri st = (r, st')" for uri st r st'
    using that by (intro log_grows_read) (auto simp: read_payload_op_def split: prod.splits)
  show "log_grows J st st'" if "en_json E = J" "consolidate_op E args st = (r, st')" for E args st r st'
  proof (rule log_growsI)
    fix s assume s: "rt_store (sv_runtime st) = Some s" "store_inv s"
    obtain x rt where a: "ConsolidateWithModel J (ConsolidationRequestFromJson args) (rt_modelClient (sv_runtime st)) (sv_runtime st) = (x, rt)"
      by fastforce
    with that have "sv_runtime st' = rt" by (auto simp: consolidate_op_def RuntimeConsolidate_def)
    with ConsolidateWithModel_frame [OF s a] event_log_view
    show "\<exists>s'. rt_store (sv_runtime st') = Some s' \<and> store_inv s' \<and>
        prefix (event_log J (durable s)) (event_log J (durable s'))" by (metis prefix_order.refl)
  qed
  show "log_grows J st st'" if "en_json E = J" "search_op E args st = (r, st')" for E args st r st'
    using that by (intro log_grows_read)
      (auto simp: search_op_def SearchMemory_def split: prod.splits dest: SearchLongTermMemory_read)
  show "log_grows J st st'" if "stats_op st = (r, st')" for st r st'
    using that by (intro log_grows_read) (auto simp: stats_op_def GetStats_def split: prod.splits dest: GetStoreStats_read)
qed

section \<open>The services stay the same\<close>

text \<open>All a request can replace of the runtime is the state of the store.\<close>

definition same_services :: "server_state \<Rightarrow> server_state \<Rightarrow> bool" where
  "same_services st st' = ((sv_runtime st')\<lparr>rt_store := rt_store (sv_runtime st)\<rparr> = sv_runtime st)"

lemma same_services_payload:
  assumes "same_services st st'"
  shows "rt_payloadService (sv_runtime st') = rt_payloadService (sv_runtime st)"
  using arg_cong [OF assms [unfolded same_services_def], of rt_payloadService] by simp

lemma same_servicesI: "sv_runtime st' = sv_runtime st \<or> (\<exists>s. sv_runtime st' = (sv_runtime st)\<lparr>rt_store := s\<rparr>) \<Longrightarrow> same_services st st'"
  by (auto simp: same_services_def)

lemma on_store_services: "on_store f rt = (r, rt') \<Longrightarrow> rt' = rt \<or> (\<exists>s. rt' = rt\<lparr>rt_store := s\<rparr>)"
  by (auto simp: on_store_def split: option.splits prod.splits)

lemma ConsolidateWithModel_services:
  "ConsolidateWithModel J request model rt = (r, rt') \<Longrightarrow> rt' = rt \<or> (\<exists>s. rt' = rt\<lparr>rt_store := s\<rparr>)"
  unfolding ConsolidateWithModel_def Let_def by (auto split: option.splits prod.splits if_splits)

interpretation services: server_frame J same_services for J
proof
  show "same_services st st" for st by (simp add: same_services_def)
  show "same_services st st2" if "same_services st st1" "same_services st1 st2" for st st1 st2
  proof -
    have "(sv_runtime st2)\<lparr>rt_store := rt_store (sv_runtime st)\<rparr> =
        (sv_runtime st2\<lparr>rt_store := rt_store (sv_runtime st1)\<rparr>)\<lparr>rt_store := rt_store (sv_runtime st)\<rparr>" by simp
    also have "\<dots> = sv_runtime st" using that by (simp add: same_services_def)
    finally show ?thesis by (simp add: same_services_def)
  qed
  show "same_services st st'" if "en_json E = J" "append_event_op E args st = (r, st')" for E args st r st'
    using that by (intro same_servicesI) (auto simp: append_event_op_def AppendEvent_def split: prod.splits option.splits)
  show "same_services st st'" if "en_json E = J" "build_context_op E args st = (r, st')" for E args st r st'
    using that by (intro same_servicesI)
      (auto simp: build_context_op_def RuntimeBuildContext_def split: prod.splits option.splits dest!: on_store_services)
  show "same_services st st'" if "en_json E = J" "write_payload_op E args st = (r, st')" for E args st r st'
    using that by (intro same_servicesI)
      (auto simp: write_payload_op_def RuntimeWritePayload_def split: prod.splits option.splits dest!: on_store_services)
  show "same_services st st'" if "read_payload_op uri st = (r, st')" for uri st r st'
    using that by (intro same_servicesI) (auto simp: read_payload_op_def split: prod.splits)
  show "same_services st st'" if "en_json E = J" "consolidate_op E args st = (r, st')" for E args st r st'
    using that by (intro same_servicesI)
      (auto simp: consolidate_op_def RuntimeConsolidate_def split: prod.splits dest!: ConsolidateWithModel_services)
  show "same_services st st'" if "en_json E = J" "search_op E args st = (r, st')" for E args st r st'
    using that by (intro same_servicesI) (auto simp: search_op_def SearchMemory_def split: prod.splits option.splits)
  show "same_services st st'" if "stats_op st = (r, st')" for st r st'
    using that by (intro same_servicesI) (auto simp: stats_op_def GetStats_def split: prod.splits option.splits)
qed

end
