(* ===== verification/Http_Properties.thy ===== *)
theory Http_Properties
  imports Http_Laws Runtime_Properties Payload_Access Codec_Laws
begin

text \<open>
  Properties of the two transports: the token check, acknowledged events, JSON-RPC answers, the
  confinement of payload reads over HTTP, and that a tool and the route of the same operation agree.
\<close>

section \<open>Concrete pieces for examples\<close>

text \<open>Patterns are literal but for a final group that takes the rest of the path.\<close>

definition plain_matcher :: matcher where
  "plain_matcher pattern path =
     (if ends_with ''(.*)'' pattern
      then (let stem = take (length pattern - 4) pattern in
            if prefix stem path then Some (drop (length stem) path) else None)
      else if pattern = path then Some [] else None)"

definition hello_json :: json where
  "hello_json = JObj [(''agentId'', JStr ''a''), (''content'', JStr ''hi''), (''role'', JStr ''user''),
     (''sessionId'', JStr ''s''), (''type'', JUInt 2)]"

definition wire_lib :: json_lib where
  "wire_lib = table_lib
     [(JObj [], ''{}''), (hello_json, ''hello''), (SuccessEnvelope (jobj [(''succeeded'', JBool True)]), ''yes''),
      (tool_error ''unauthorized'', ''who''),
      (SuccessEnvelope (jobj [(''uri'', JStr ''file:///d/memory_runtime/payloads/a.txt''), (''content'', JStr ''data'')]), ''text''),
      (JObj [(''id'', JUInt 7), (''method'', JInt (- 1))], ''odd''),
      (Error JNull (- 32700) ''parse error'', ''bad'')]"

lemma wire_lib_ok: "json_text_ok wire_lib"
  unfolding wire_lib_def by (rule table_lib_ok) (simp_all add: nul_free_def)

definition wire :: server_env where
  "wire = \<lparr>en_json = wire_lib, en_fts = (\<lambda>_ _. None), en_draws = (1, 2, 3, 4), en_version = ''0.1.0'', en_debugErrors = False\<rparr>"

definition front_desk :: http_server where
  "front_desk = \<lparr>hs_apiToken = ''secret'', hs_maxPayloadBytes = 64, hs_mcpPath = ''/mcp'', hs_maxMcpMessageBytes = 64\<rparr>"

definition post_hello :: "string \<Rightarrow> http_request" where
  "post_hello auth = \<lparr>rq_method = ''POST'', rq_path = ''/v1/events'', rq_authorization = auth, rq_body = ''hello''\<rparr>"

definition office_state :: server_state where
  "office_state = \<lparr>sv_runtime = office\<lparr>rt_payloadService := Some vault_service\<rparr>, sv_files = vault\<rparr>"

section \<open>The token\<close>

definition refusal :: "server_env \<Rightarrow> http_response" where
  "refusal E = (case jdump (en_json E) (tool_error ''unauthorized'') of
     Inr t \<Rightarrow> \<lparr>hp_status = 401, hp_body = t\<rparr> | Inl w \<Rightarrow> \<lparr>hp_status = 500, hp_body = []\<rparr>)"

text \<open>
  C19: With a token configured, a request whose \<open>Authorization\<close> header is not exactly \<open>Bearer <token>\<close> is
  refused and changes nothing, whatever its method and body, unless its path is \<open>/health\<close>; every
  other request is served as if there were no token. (Strings are shorter than \<open>2 ^ 64\<close> bytes.)
\<close>

theorem token_decides:
  assumes "length (rq_authorization req) < 2 ^ 64" "length (hs_apiToken H) + 7 < 2 ^ 64"
  shows "serve matcher H E req st =
    (if hs_apiToken H = [] \<or> rq_path req = ''/health'' \<or> rq_authorization req = ''Bearer '' @ hs_apiToken H
     then serve matcher (H\<lparr>hs_apiToken := []\<rparr>) E req st
     else (refusal E, st))"
proof -
  have eq: "ConstantTimeEquals (rq_authorization req) (''Bearer '' @ hs_apiToken H) \<longleftrightarrow>
      rq_authorization req = ''Bearer '' @ hs_apiToken H"
    by (rule ConstantTimeEquals_iff) (use assms in simp_all)
  have same: "RegisterRoutes (H\<lparr>hs_apiToken := []\<rparr>) E = RegisterRoutes H E"
    "payload_max_length (H\<lparr>hs_apiToken := []\<rparr>) = payload_max_length H"
    by (simp_all add: RegisterRoutes_def RegisterMcpRoutes_def HandleJsonPost_def mcp_route_def payload_max_length_def fun_eq_iff)
  have pass: "RegisterAuth (H\<lparr>hs_apiToken := []\<rparr>) E req = None" by (simp add: RegisterAuth_def)
  show ?thesis
  proof (cases "hs_apiToken H = [] \<or> rq_path req = ''/health'' \<or> rq_authorization req = ''Bearer '' @ hs_apiToken H")
    case True
    then have "RegisterAuth H E req = None" using eq by (auto simp: RegisterAuth_def)
    then show ?thesis using True pass by (simp add: serve_def routing_def same)
  next
    case False
    then have "RegisterAuth H E req = Some (json_response E 401 (tool_error ''unauthorized''))"
      using eq by (auto simp: RegisterAuth_def)
    then show ?thesis using False
      by (cases "jdump (en_json E) (tool_error ''unauthorized'')")
        (simp_all add: serve_def routing_def json_response_def refusal_def)
  qed
qed

theorem token_decides_witness:
  "serve plain_matcher front_desk wire (post_hello ''Bearer secreT'') office_state = (\<lparr>hp_status = 401, hp_body = ''who''\<rparr>, office_state)"
proof -
  let ?req = "post_hello ''Bearer secreT''"
  have 1: "length (rq_authorization ?req) < 2 ^ 64" "length (hs_apiToken front_desk) + 7 < 2 ^ 64"
    by (simp_all add: post_hello_def front_desk_def)
  have 2: "\<not> (hs_apiToken front_desk = [] \<or> rq_path ?req = ''/health'' \<or> rq_authorization ?req = ''Bearer '' @ hs_apiToken front_desk)"
    by (simp add: post_hello_def front_desk_def)
  have 3: "refusal wire = \<lparr>hp_status = 401, hp_body = ''who''\<rparr>" by code_simp
  show ?thesis using token_decides [OF 1, of plain_matcher wire office_state] 2 3 by simp
qed

section \<open>Acknowledged events\<close>

lemma respond_ok:
  assumes "respond E f st = (Ret res, st')" "hp_status res = 200"
  obtains v where "f st = (Ret v, st')" "jdump (en_json E) v = Inr (hp_body res)"
proof -
  obtain r st1 where f: "f st = (r, st1)" by fastforce
  with assms show thesis using that
    by (cases r; cases "jdump (en_json E) (case r of Ret v \<Rightarrow> v | Throw w \<Rightarrow> JNull)")
      (auto simp: respond_def json_response_def Let_def split: sum.splits outcome.splits)
qed

lemma JsonBool_jnorm: "is_object j \<Longrightarrow> JsonBool (jnorm j) ''ok'' False = JsonBool j ''ok'' False"
  by (simp add: JsonBool_norm JsonBool_def)

lemma envelope_ok [simp]:
  "JsonBool (SuccessEnvelope v) ''ok'' False" "\<not> JsonBool (ErrorEnvelope e) ''ok'' False"
  "is_object (SuccessEnvelope v)" "is_object (ErrorEnvelope e)" "json_at (SuccessEnvelope v) ''data'' = v"
  by (simp_all add: SuccessEnvelope_def ErrorEnvelope_def WithEnvelope_def WithSchema_def JsonBool_def contains_jobj json_at_jobj)

text \<open>The body of a positive answer is the text of a success envelope.\<close>

lemma positive_answer:
  assumes J: "json_text_ok (en_json E)"
    and dump: "jdump (en_json E) (if ok then SuccessEnvelope v else ErrorEnvelope e) = Inr t"
    and answer: "jparse (en_json E) t = Inr a" "JsonBool a ''ok'' False"
  shows "ok" "json_at a ''data'' = jnorm v"
proof -
  have a: "a = jnorm (if ok then SuccessEnvelope v else ErrorEnvelope e)"
    using json_text_okD(3) [OF J dump] answer(1) by simp
  show ok using answer(2) unfolding a by (cases ok) (simp_all add: JsonBool_jnorm)
  then show "json_at a ''data'' = jnorm v" unfolding a by simp
qed

lemma EventFromJson_valid: "valid_event_type (ev_type (EventFromJson j))"
  by (simp add: EventFromJson_def EventTypeFromJson_def event_type_of_int_def Let_def)

lemma post_event_route:
  assumes "rq_method req = ''POST''" "matcher (hs_mcpPath H) (rq_path req) = None" "matcher ''/v1/events'' (rq_path req) = Some g"
    and "serve matcher H E req st = (res, st')" "hp_status res = 200"
  shows "HandleJsonPost H E req (append_event_op E) st = (Ret res, st')"
proof -
  have d: "dispatch_request matcher (RegisterRoutes H E) req st = HandleJsonPost H E req (append_event_op E) st"
    using assms(1-3) by (simp add: RegisterRoutes_def RegisterMcpRoutes_def)
  have auth: "hp_status res' \<noteq> 200" if "RegisterAuth H E req = Some (Ret res')" for res'
    using that by (auto simp: RegisterAuth_def json_response_def split: if_splits)
  show ?thesis using assms(4,5) auth unfolding serve_def routing_def d
    by (auto split: option.splits if_splits outcome.splits prod.splits)
qed



section \<open>JSON-RPC answers\<close>

text \<open>An answer to a request: its identifier, and either a result or an error with a known code.\<close>

definition answers :: "json \<Rightarrow> json \<Rightarrow> bool" where
  "answers req r =
     (json_at r ''jsonrpc'' = JStr ''2.0'' \<and> json_at r ''id'' = json_at req ''id'' \<and>
      (contains r ''result'' \<and> \<not> contains r ''error'' \<or>
       \<not> contains r ''result'' \<and> contains r ''error'' \<and>
       json_at (json_at r ''error'') ''code'' \<in> {JInt (- 32601), JInt (- 32602), JInt (- 32603)}))"

lemma answers_Error: "code \<in> {- 32601, - 32602, - 32603} \<Longrightarrow> answers req (Error (json_at req ''id'') code msg)"
  by (auto simp: answers_def Error_def contains_jobj json_at_jobj)

lemma answers_Success: "answers req (Success (json_at req ''id'') r)"
  by (simp add: answers_def Success_def contains_jobj json_at_jobj)

lemma call_method_answers: "call_method E req (json_at req ''id'') st = (Ret r, st') \<Longrightarrow> answers req r"
  by (auto simp: call_method_def Let_def answers_Success split: outcome.splits prod.splits)

lemma initialize_answers: "answers req (initialize_method E req (json_at req ''id''))"
  unfolding initialize_method_def Let_def by (auto intro!: answers_Error answers_Success)

lemma method_answers:
  assumes "map_of (methodHandlers E) rpc = Some h" "h req (json_at req ''id'') st = (Ret r, st')"
  shows "answers req r"
  using assms call_method_answers initialize_answers answers_Success by (auto simp: methodHandlers_def split: if_splits)

lemma value_string_returns:
  assumes "is_object j" "contains j k \<longrightarrow> is_string (json_at j k)"
  shows "\<exists>s. value_string j k dflt = Ret s"
proof (cases "contains j k")
  case True
  then obtain s where "json_at j k = JStr s" using assms(2) by (cases "json_at j k") auto
  then show ?thesis using assms(1) True by (simp add: value_string_def)
qed (use assms(1) in \<open>simp add: value_string_def\<close>)

text \<open>
  C23: A JSON-RPC message without an identifier is a notification: no answer and no change. Every
  request (with a method that is a string, or none) is answered, whatever its parameters are: the
  answer repeats the identifier and carries either a result or an error, with code \<open>-32601\<close>, \<open>-32602\<close> or \<open>-32603\<close>.
\<close>

theorem rpc_answers_requests:
  assumes "contains req ''method'' \<longrightarrow> is_string (json_at req ''method'')"
  shows "if contains req ''id'' then \<exists>r st'. HandleJsonRpc E req st = (Ret r, st') \<and> answers req r
    else HandleJsonRpc E req st = (Ret JNull, st)"
proof (cases "contains req ''id''")
  case True
  then have "is_object req" by (cases req) auto
  with assms obtain rpc where rpc: "value_string req ''method'' [] = Ret rpc" using value_string_returns by blast
  have run: "HandleJsonRpc E req st =
    (case map_of (methodHandlers E) rpc of
       Some h \<Rightarrow> (case h req (json_at req ''id'') st of
                   (Ret v, st1) \<Rightarrow> (Ret v, st1)
                 | (Throw w, st1) \<Rightarrow> (Ret (Error (json_at req ''id'') (- 32603) (ErrorMessage E w ''internal error'')), st1))
     | None \<Rightarrow> (Ret (Error (json_at req ''id'') (- 32601) (''method not found: '' @ rpc)), st))"
    using True rpc by (simp add: HandleJsonRpc_def HandleRequest_def Let_def)
  show ?thesis
  proof (cases "map_of (methodHandlers E) rpc")
    case None
    then show ?thesis using run True answers_Error by auto
  next
    case (Some h)
    obtain r st1 where h: "h req (json_at req ''id'') st = (r, st1)" by fastforce
    show ?thesis
    proof (cases r)
      case (Ret v)
      then show ?thesis using run True Some h method_answers [OF Some] by auto
    next
      case (Throw w)
      then show ?thesis using run True Some h answers_Error by auto
    qed
  qed
qed (simp add: HandleJsonRpc_def)

theorem rpc_answers_requests_witness:
  "\<exists>r st'. HandleJsonRpc wire (JObj [(''id'', JUInt 7), (''method'', JStr ''tools/call''), (''params'', JNull)]) office_state = (Ret r, st') \<and>
     answers (JObj [(''id'', JUInt 7), (''method'', JStr ''tools/call''), (''params'', JNull)]) r"
  using rpc_answers_requests [of "JObj [(''id'', JUInt 7), (''method'', JStr ''tools/call''), (''params'', JNull)]" wire office_state]
  by simp

text \<open>
  The proviso is needed: a request whose method is not a string is answered as if its text were
  not JSON, with code \<open>-32700\<close> and without the identifier, so the client cannot match the answer.
\<close>

theorem rpc_method_not_string:
  assumes "jparse (en_json E) body = Inr req" "contains req ''id''" "contains req ''method''" "\<not> is_string (json_at req ''method'')"
    and "\<not> en_debugErrors E" "jdump (en_json E) (Error JNull (- 32700) ''parse error'') = Inr t"
  shows "HandleJsonRpcText E body st = (Ret t, st)"
proof -
  have "is_object req" using assms(2) by (cases req) auto
  then obtain w where "value_string req ''method'' [] = Throw w"
    using assms(3,4) by (cases "json_at req ''method''") (auto simp: value_string_def)
  then show ?thesis
    using assms by (simp add: HandleJsonRpcText_def HandleJsonRpc_def HandleRequest_def ErrorMessage_def)
qed

theorem rpc_method_not_string_witness: "HandleJsonRpcText wire ''odd'' office_state = (Ret ''bad'', office_state)"
proof -
  let ?req = "JObj [(''id'', JUInt 7), (''method'', JInt (- 1))]"
  have "jparse (en_json wire) ''odd'' = Inr ?req" "contains ?req ''id''" "contains ?req ''method''" "\<not> is_string (json_at ?req ''method'')"
    "\<not> en_debugErrors wire" "jdump (en_json wire) (Error JNull (- 32700) ''parse error'') = Inr ''bad''" by code_simp+
  then show ?thesis by (rule rpc_method_not_string)
qed

section \<open>Tools and routes\<close>

text \<open>The operations both transports offer on a JSON argument: tool, route, effect.\<close>

definition shared_operations :: "server_env \<Rightarrow> (string \<times> string \<times> (json \<Rightarrow> server_op)) list" where
  "shared_operations E =
     [(''memory_append_event'', ''/v1/events'', append_event_op E), (''memory_build_context'', ''/v1/context'', build_context_op E),
      (''memory_write_payload'', ''/v1/payloads'', write_payload_op E), (''memory_consolidate'', ''/v1/consolidate'', consolidate_op E),
      (''memory_search'', ''/v1/search'', search_op E)]"

definition text_content :: "string \<Rightarrow> json" where
  "text_content t = jobj [(''content'', JArr [jobj [(''type'', JStr ''text''), (''text'', JStr t)]])]"

lemma shared_tool:
  assumes "(tool, path, f) \<in> set (shared_operations E)"
  shows "map_of (toolHandlers E) tool = Some (\<lambda>args. text_tool E (f args))"
  using assms by (auto simp: shared_operations_def toolHandlers_def)

lemma shared_route:
  assumes "(tool, path, f) \<in> set (shared_operations E)" "(''POST'', path, h) \<in> set (RegisterRoutes H E)" "path \<noteq> hs_mcpPath H"
  shows "h req g = HandleJsonPost H E req f"
  using assms by (auto simp: shared_operations_def RegisterRoutes_def RegisterMcpRoutes_def)

text \<open>
  C24: The MCP tool and the HTTP route of an operation do the same: on the same JSON argument they
  leave the same state, and when the route answers with status 200 the tool answers with exactly the
  same text; when the route answers 500 because of an exception, the tool reports an error.
\<close>

theorem tool_and_route_agree:
  assumes op: "(tool, path, f) \<in> set (shared_operations E)" "(''POST'', path, h) \<in> set (RegisterRoutes H E)" "path \<noteq> hs_mcpPath H"
    and body: "length (rq_body req) \<le> hs_maxPayloadBytes H" "jparse (en_json E) (rq_body req) = Inr args"
    and runs: "h req g st = (a, st1)" "CallTool E tool args st = (b, st2)"
  shows "st1 = st2 \<and> (\<forall>t. a = Ret \<lparr>hp_status = 200, hp_body = t\<rparr> \<longrightarrow> b = Ret (text_content t)) \<and>
    ((\<forall>t. a \<noteq> Ret \<lparr>hp_status = 200, hp_body = t\<rparr>) \<longrightarrow>
      (\<exists>w. b = MakeTextResult E (tool_error (ErrorMessage E w ''tool call failed''))))"
proof -
  obtain r st3 where r: "f args st = (r, st3)" by fastforce
  have a: "respond E (f args) st = (a, st1)"
    using runs(1) body unfolding shared_route [OF op] by (simp add: HandleJsonPost_def split: if_splits)
  have b: "(case text_tool E (f args) st of (Ret v, s) \<Rightarrow> (Ret v, s)
      | (Throw w, s) \<Rightarrow> (MakeTextResult E (tool_error (ErrorMessage E w ''tool call failed'')), s)) = (b, st2)"
    using runs(2) unfolding CallTool_def shared_tool [OF op(1)] by (auto simp: Let_def split: prod.splits outcome.splits)
  have err: "json_response E 500 j \<noteq> Ret \<lparr>hp_status = 200, hp_body = t\<rparr>" for j t
    by (cases "jdump (en_json E) j") (simp_all add: json_response_def)
  show ?thesis
  proof (cases r)
    case (Throw w)
    then show ?thesis using a b r err by (auto simp: respond_def text_tool_def)
  next
    case (Ret v)
    then show ?thesis using a b r err
      by (cases "jdump (en_json E) v") (auto simp: respond_def text_tool_def json_response_def MakeTextResult_def text_content_def)
  qed
qed

theorem tool_and_route_agree_witness:
  "\<exists>st'. HandleJsonPost front_desk wire (post_hello []) (append_event_op wire) office_state = (Ret \<lparr>hp_status = 200, hp_body = ''yes''\<rparr>, st') \<and>
     CallTool wire ''memory_append_event'' hello_json office_state = (Ret (text_content ''yes''), st')"
proof -
  let ?h = "\<lambda>req g. HandleJsonPost front_desk wire req (append_event_op wire)"
  let ?a = "?h (post_hello []) ([] :: string) office_state" and ?b = "CallTool wire ''memory_append_event'' hello_json office_state"
  have m: "(''memory_append_event'', ''/v1/events'', append_event_op wire) \<in> set (shared_operations wire)"
    "(''POST'', ''/v1/events'', ?h) \<in> set (RegisterRoutes front_desk wire)" "''/v1/events'' \<noteq> hs_mcpPath front_desk"
    by (simp_all add: shared_operations_def RegisterRoutes_def front_desk_def)
  have run: "length (rq_body (post_hello [])) \<le> hs_maxPayloadBytes front_desk" "jparse (en_json wire) (rq_body (post_hello [])) = Inr hello_json"
    "fst ?a = Ret \<lparr>hp_status = 200, hp_body = ''yes''\<rparr>" by code_simp+
  have a: "?a = (Ret \<lparr>hp_status = 200, hp_body = ''yes''\<rparr>, snd ?a)" using run(3) by (metis prod.collapse)
  from tool_and_route_agree [OF m run(1,2) a surjective_pairing [of ?b]]
  have "snd ?a = snd ?b" "fst ?b = Ret (text_content ''yes'')" by simp_all
  then show ?thesis using a by (metis prod.collapse)
qed

section \<open>Reading payloads over HTTP\<close>

lemma get_payload_route:
  assumes "rq_method req = ''GET''" "matcher ''/v1/payloads/(.*)'' (rq_path req) = Some g"
    and "serve matcher H E req st = (res, st')" "hp_status res = 200"
  shows "get_payload E g st = (Ret res, st')"
proof -
  have d: "dispatch_request matcher (RegisterRoutes H E) req st = get_payload E g st"
    using assms(1,2) by (simp add: RegisterRoutes_def RegisterMcpRoutes_def)
  have auth: "hp_status res' \<noteq> 200" if "RegisterAuth H E req = Some (Ret res')" for res'
    using that by (auto simp: RegisterAuth_def json_response_def split: if_splits)
  show ?thesis using assms(3,4) auth unfolding serve_def routing_def d
    by (auto split: option.splits if_splits outcome.splits prod.splits)
qed

lemma get_payload_passed:
  assumes "get_payload E g st = (Ret res, st')" "hp_status res = 200"
  shows "\<not> str_contains ''..'' g" "nul_free g" "respond E (read_payload_op (''file://'' @ g)) st = (Ret res, st')"
proof -
  have "hp_status r \<noteq> 200" if "path_error E msg = Ret r" for msg r
    using that by (auto simp: path_error_def json_response_def)
  with assms have c: "\<not> str_contains ''..'' g" "\<not> list_ex (\<lambda>c. code_of c < 32) g"
    "respond E (read_payload_op (''file://'' @ g)) st = (Ret res, st')"
    by (auto simp: get_payload_def HandleJsonGet_def split: if_splits)
  have "code_of (CHR 0x00) < 32" by code_simp
  with c(2) have "nul_free g" unfolding nul_free_def list_ex_iff by blast
  with c show "\<not> str_contains ''..'' g" "nul_free g" "respond E (read_payload_op (''file://'' @ g)) st = (Ret res, st')" by auto
qed

text \<open>
  C18: Whatever path a client asks for, whatever requests came before and whatever links the file system
  has, a payload that \<open>GET /v1/payloads/...\<close> returns is the content of a regular file strictly below
  the payload directory the server was started with: the route refuses \<open>..\<close>, which is the only way
  around the containment check.
\<close>

theorem http_payload_confined:
  assumes J: "json_text_ok (en_json E)"
    and route: "rq_method req = ''GET''" "matcher ''/v1/payloads/(.*)'' (rq_path req) = Some g"
    and start: "rt_payloadService (sv_runtime st0) = Some ps" "nul_free (ps_canonicalPayloadDirectory ps)"
    and before: "serve_all matcher H rs st0 = (out, st)" "\<forall>x\<in>set rs. en_json (fst x) = en_json E"
    and fs: "fs_ok (sv_files st)" "sys_walk (sv_files st) (path_of (ps_canonicalPayloadDirectory ps)) = Found d"
    and sent: "serve matcher H E req st = (res, st')"
    and answer: "hp_status res = 200" "jparse (en_json E) (hp_body res) = Inr a" "JsonBool a ''ok'' False"
  shows "\<exists>suf c t. suf \<noteq> [] \<and> node (sv_files st) (d @ suf) = Some (File c t) \<and>
    json_at (json_at a ''data'') ''content'' = JStr c"
proof -
  let ?uri = "''file://'' @ g"
  have ps: "rt_payloadService (sv_runtime st) = Some ps"
    using same_services_payload [OF services.serve_all_frame [OF before]] start(1) by simp
  note passed = get_payload_passed [OF get_payload_route [OF route sent answer(1)] answer(1)]
  obtain v where v: "read_payload_op ?uri st = (Ret v, st')" "jdump (en_json E) v = Inr (hp_body res)"
    using passed(3) by (rule respond_ok [OF _ answer(1)])
  obtain r F where r: "ReadPayload ps ?uri (sv_files st) = (Ret r, F)"
    "v = (if succeeded r then SuccessEnvelope (jobj [(''uri'', JStr ?uri), (''content'', JStr (payload_of r))]) else ErrorEnvelope (error_of r))"
    using v(1) ps by (auto simp: read_payload_op_def RuntimeReadPayload_def split: prod.splits)
  note pos = positive_answer [OF J v(2) [unfolded r(2)] answer(2,3)]
  have uri: "nul_free ?uri" "drop 7 ?uri = g" using passed(2) by (simp_all add: nul_free_def)
  have "\<exists>suf t. suf \<noteq> [] \<and> node (sv_files st) (d @ suf) = Some (File (payload_of r) t)"
    by (rule ReadPayload_no_dots [OF fs(1) uri(1) start(2) r(1) pos(1) fs(2)]) (use passed(1) uri(2) in simp)
  moreover have "json_at (json_at a ''data'') ''content'' = JStr (payload_of r)"
    unfolding pos(2) by (simp add: json_at_jobj)
  ultimately show ?thesis by blast
qed

theorem http_payload_confined_witness:
  "\<exists>suf t. suf \<noteq> [] \<and> node vault ([''d'', ''memory_runtime'', ''payloads''] @ suf) = Some (File ''data'' t)"
proof -
  let ?req = "\<lparr>rq_method = ''GET'', rq_path = ''/v1/payloads//d/memory_runtime/payloads/a.txt'', rq_authorization = ''Bearer secret'', rq_body = []\<rparr>"
  let ?a = "jnorm (SuccessEnvelope (jobj [(''uri'', JStr ''file:///d/memory_runtime/payloads/a.txt''), (''content'', JStr ''data'')]))"
  let ?one = "serve plain_matcher front_desk wire ?req office_state"
  have 1: "hp_status (fst ?one) = 200" "jparse (en_json wire) (hp_body (fst ?one)) = Inr ?a" "JsonBool ?a ''ok'' False"
    "rq_method ?req = ''GET''" "plain_matcher ''/v1/payloads/(.*)'' (rq_path ?req) = Some ''/d/memory_runtime/payloads/a.txt''"
    "nul_free (ps_canonicalPayloadDirectory vault_service)" "json_at (json_at ?a ''data'') ''content'' = JStr ''data''"
    "sys_walk vault (path_of (ps_canonicalPayloadDirectory vault_service)) = Found [''d'', ''memory_runtime'', ''payloads'']" by code_simp+
  have 2: "rt_payloadService (sv_runtime office_state) = Some vault_service" "sv_files office_state = vault" "en_json wire = wire_lib"
    by (simp_all add: office_state_def wire_def)
  from http_payload_confined [OF wire_lib_ok [folded 2(3)] 1(4,5) 2(1) 1(6) serve_all.simps(1) _ _ _ surjective_pairing 1(1-3), of "[''d'', ''memory_runtime'', ''payloads'']"]
  show ?thesis unfolding 2(2) using vault_ok 1(7,8) by simp
qed

end
