(* ===== verification/Server.thy ===== *)
theory Server
  imports Http
begin

text \<open>
  The server program (\<open>src/server\<close>): reading and validating its options, the command line, preparing
  the data directory, and the start-up sequence up to the point where it listens. An exception is
  caught in \<open>main\<close> and becomes exit code 1.
\<close>

section \<open>server\_options.h\<close>

record HttpServerOptions =
  ho_host :: string
  ho_port :: int
  ho_maxPayloadBytes :: nat
  ho_readTimeoutSeconds :: int
  ho_writeTimeoutSeconds :: int
  ho_threadCount :: int

record McpServerOptions =
  mp_mode :: string
  mp_path :: string
  mp_maxMessageBytes :: nat

record ServerOptions =
  so_dataPath :: string
  so_modelConfig :: json
  so_strictModelConfig :: bool
  so_enablePayloadOffload :: bool
  so_offloadThreshold :: int
  so_tokenBudget :: int
  so_debugErrors :: bool
  so_apiToken :: string
  so_http :: HttpServerOptions
  so_mcp :: McpServerOptions

definition default_http_options :: HttpServerOptions where
  "default_http_options =
     \<lparr>ho_host = ''127.0.0.1'', ho_port = 8090, ho_maxPayloadBytes = 1024 * 1024, ho_readTimeoutSeconds = 0,
      ho_writeTimeoutSeconds = 0, ho_threadCount = 0\<rparr>"

definition default_mcp_options :: McpServerOptions where
  "default_mcp_options = \<lparr>mp_mode = ''http'', mp_path = ''/mcp'', mp_maxMessageBytes = 1024 * 1024\<rparr>"

definition default_server_options :: ServerOptions where
  "default_server_options =
     \<lparr>so_dataPath = ''./data'', so_modelConfig = JObj [], so_strictModelConfig = False, so_enablePayloadOffload = True,
      so_offloadThreshold = 8000, so_tokenBudget = 4096, so_debugErrors = False, so_apiToken = [],
      so_http = default_http_options, so_mcp = default_mcp_options\<rparr>"

section \<open>server\_options.cpp\<close>

fun outcome_bind :: "'a outcome \<Rightarrow> ('a \<Rightarrow> 'b outcome) \<Rightarrow> 'b outcome" where
  "outcome_bind (Ret x) f = f x"
| "outcome_bind (Throw w) f = Throw w"

definition IsAllowedKey :: "string \<Rightarrow> string list \<Rightarrow> bool" where
  "IsAllowedKey key allowed = list_ex (\<lambda>item. key = item) allowed"

text \<open>The loop over the members; a value that has elements but no keys throws when the key is read.\<close>

fun check_keys :: "string list \<Rightarrow> string \<Rightarrow> string list \<Rightarrow> unit outcome" where
  "check_keys allowed pre [] = Ret ()"
| "check_keys allowed pre (k # ks) =
     (if \<not> IsAllowedKey k allowed then Throw (''unknown server config key: '' @ pre @ k) else check_keys allowed pre ks)"

fun ValidateKeys :: "json \<Rightarrow> string list \<Rightarrow> string \<Rightarrow> unit outcome" where
  "ValidateKeys (JObj m) allowed pre = check_keys allowed pre (map fst m)"
| "ValidateKeys JNull allowed pre = Ret ()"
| "ValidateKeys (JArr []) allowed pre = Ret ()"
| "ValidateKeys _ allowed pre = Throw ''[json.exception.invalid_iterator.207] cannot use key() for non-object iterators''"

definition LoadString :: "json \<Rightarrow> string \<Rightarrow> string \<Rightarrow> string outcome" where
  "LoadString j key defaultValue =
     (if \<not> contains j key then Ret defaultValue
      else if \<not> is_string (json_at j key) then Throw (''server config key must be a string: '' @ key)
      else Ret (get_string (json_at j key)))"

text \<open>\<open>get<int>()\<close> converts the 64-bit number of the value to \<open>int\<close>.\<close>

fun get_int :: "json \<Rightarrow> int" where
  "get_int (JInt n) = i32 n"
| "get_int (JUInt n) = i32 n"
| "get_int _ = 0"

definition LoadInt :: "json \<Rightarrow> string \<Rightarrow> int \<Rightarrow> int outcome" where
  "LoadInt j key defaultValue =
     (if \<not> contains j key then Ret defaultValue
      else if \<not> is_number_integer (json_at j key) then Throw (''server config key must be an integer: '' @ key)
      else Ret (get_int (json_at j key)))"

definition SIZE_MAX :: int where "SIZE_MAX = 18446744073709551615"

definition LoadSize :: "json \<Rightarrow> string \<Rightarrow> nat \<Rightarrow> nat outcome" where
  "LoadSize j key defaultValue =
     (if \<not> contains j key then Ret defaultValue
      else if \<not> is_number_unsigned (json_at j key) then Throw (''server config key must be an unsigned integer: '' @ key)
      else let val = get_ulonglong (json_at j key) in
        if val > SIZE_MAX then Throw (''server config key is too large: '' @ key) else Ret (nat val))"

definition LoadBool :: "json \<Rightarrow> string \<Rightarrow> bool \<Rightarrow> bool outcome" where
  "LoadBool j key defaultValue =
     (if \<not> contains j key then Ret defaultValue
      else if \<not> is_boolean (json_at j key) then Throw (''server config key must be a boolean: '' @ key)
      else Ret (get_bool (json_at j key)))"

definition LoadSubObject :: "json \<Rightarrow> string \<Rightarrow> json outcome" where
  "LoadSubObject j key =
     (if \<not> contains j key then Ret (JObj [])
      else if \<not> is_object (json_at j key) then Throw (''server config key must be an object: '' @ key)
      else Ret (json_at j key))"

definition memory_keys :: "string list" where
  "memory_keys = [''dataPath'', ''enablePayloadOffload'', ''offloadThreshold'', ''tokenBudget'']"

definition model_keys :: "string list" where
  "model_keys = [''enabled'', ''strict'', ''formatType'', ''baseUrl'', ''apiKey'', ''modelName'', ''organization'',
     ''anthropicVersion'', ''anthropic-version'', ''timeoutSeconds'', ''maxTokens'', ''max_tokens'', ''temperature'',
     ''headers'', ''extraParams'']"

definition http_keys :: "string list" where
  "http_keys = [''host'', ''port'', ''maxPayloadBytes'', ''readTimeoutSeconds'', ''writeTimeoutSeconds'', ''threadCount'']"

definition mcp_keys :: "string list" where
  "mcp_keys = [''mode'', ''path'', ''maxMessageBytes'']"

definition server_keys :: "string list" where
  "server_keys = [''debugErrors'', ''auth'', ''http'', ''mcp'']"

definition LoadMemoryOptions :: "json \<Rightarrow> ServerOptions \<Rightarrow> ServerOptions outcome" where
  "LoadMemoryOptions memory opts =
     outcome_bind (ValidateKeys memory memory_keys ''memory.'') (\<lambda>_.
     outcome_bind (LoadString memory ''dataPath'' (so_dataPath opts)) (\<lambda>dataPath.
     outcome_bind (LoadBool memory ''enablePayloadOffload'' (so_enablePayloadOffload opts)) (\<lambda>offload.
     outcome_bind (LoadInt memory ''offloadThreshold'' (so_offloadThreshold opts)) (\<lambda>threshold.
     outcome_bind (LoadInt memory ''tokenBudget'' (so_tokenBudget opts)) (\<lambda>budget.
       Ret (opts\<lparr>so_dataPath := dataPath, so_enablePayloadOffload := offload, so_offloadThreshold := threshold,
         so_tokenBudget := budget\<rparr>))))))"

definition LoadModelOptions :: "json \<Rightarrow> ServerOptions \<Rightarrow> ServerOptions outcome" where
  "LoadModelOptions model opts =
     outcome_bind (ValidateKeys model model_keys ''model.'') (\<lambda>_.
     outcome_bind (LoadBool model ''strict'' (so_strictModelConfig opts)) (\<lambda>strict.
     outcome_bind (LoadBool model ''enabled'' True) (\<lambda>enabled.
       Ret (if enabled then opts\<lparr>so_strictModelConfig := strict, so_modelConfig := model\<rparr>
            else opts\<lparr>so_strictModelConfig := strict\<rparr>))))"

definition LoadHttpOptions :: "json \<Rightarrow> ServerOptions \<Rightarrow> ServerOptions outcome" where
  "LoadHttpOptions http opts =
     (let h = so_http opts in
     outcome_bind (ValidateKeys http http_keys ''server.http.'') (\<lambda>_.
     outcome_bind (LoadString http ''host'' (ho_host h)) (\<lambda>host.
     outcome_bind (LoadInt http ''port'' (ho_port h)) (\<lambda>port.
     outcome_bind (LoadSize http ''maxPayloadBytes'' (ho_maxPayloadBytes h)) (\<lambda>maxBytes.
     outcome_bind (LoadInt http ''readTimeoutSeconds'' (ho_readTimeoutSeconds h)) (\<lambda>readTimeout.
     outcome_bind (LoadInt http ''writeTimeoutSeconds'' (ho_writeTimeoutSeconds h)) (\<lambda>writeTimeout.
     outcome_bind (LoadInt http ''threadCount'' (ho_threadCount h)) (\<lambda>threads.
       Ret (opts\<lparr>so_http := \<lparr>ho_host = host, ho_port = port, ho_maxPayloadBytes = maxBytes,
         ho_readTimeoutSeconds = readTimeout, ho_writeTimeoutSeconds = writeTimeout, ho_threadCount = threads\<rparr>\<rparr>)))))))))"

definition LoadAuthOptions :: "json \<Rightarrow> ServerOptions \<Rightarrow> ServerOptions outcome" where
  "LoadAuthOptions auth opts =
     outcome_bind (ValidateKeys auth [''apiToken''] ''server.auth.'') (\<lambda>_.
     outcome_bind (LoadString auth ''apiToken'' (so_apiToken opts)) (\<lambda>token. Ret (opts\<lparr>so_apiToken := token\<rparr>)))"

definition LoadMcpOptions :: "json \<Rightarrow> ServerOptions \<Rightarrow> ServerOptions outcome" where
  "LoadMcpOptions mcp opts =
     (let m = so_mcp opts in
     outcome_bind (ValidateKeys mcp mcp_keys ''server.mcp.'') (\<lambda>_.
     outcome_bind (LoadString mcp ''mode'' (mp_mode m)) (\<lambda>mode.
     outcome_bind (LoadString mcp ''path'' (mp_path m)) (\<lambda>path.
     outcome_bind (LoadSize mcp ''maxMessageBytes'' (mp_maxMessageBytes m)) (\<lambda>maxBytes.
       Ret (opts\<lparr>so_mcp := \<lparr>mp_mode = mode, mp_path = path, mp_maxMessageBytes = maxBytes\<rparr>\<rparr>))))))"

definition LoadServerSection :: "json \<Rightarrow> ServerOptions \<Rightarrow> ServerOptions outcome" where
  "LoadServerSection server opts =
     outcome_bind (ValidateKeys server server_keys ''server.'') (\<lambda>_.
     outcome_bind (LoadBool server ''debugErrors'' (so_debugErrors opts)) (\<lambda>debugErrors.
     outcome_bind (LoadSubObject server ''auth'') (\<lambda>auth.
     outcome_bind (LoadAuthOptions auth (opts\<lparr>so_debugErrors := debugErrors\<rparr>)) (\<lambda>opts1.
     outcome_bind (LoadSubObject server ''http'') (\<lambda>http.
     outcome_bind (LoadHttpOptions http opts1) (\<lambda>opts2.
     outcome_bind (LoadSubObject server ''mcp'') (\<lambda>mcp. LoadMcpOptions mcp opts2)))))))"

definition LoadServerOptions :: "json \<Rightarrow> ServerOptions outcome" where
  "LoadServerOptions j =
     outcome_bind (ValidateKeys j [''memory'', ''model'', ''server''] []) (\<lambda>_.
     outcome_bind (LoadSubObject j ''memory'') (\<lambda>memory.
     outcome_bind (LoadMemoryOptions memory default_server_options) (\<lambda>opts1.
     outcome_bind (if contains j ''model''
                   then outcome_bind (LoadSubObject j ''model'') (\<lambda>model. LoadModelOptions model opts1)
                   else Ret opts1) (\<lambda>opts2.
     outcome_bind (LoadSubObject j ''server'') (\<lambda>server. LoadServerSection server opts2)))))"

definition LoadServerOptionsFile :: "json_lib \<Rightarrow> string \<Rightarrow> filesys \<Rightarrow> ServerOptions outcome \<times> filesys" where
  "LoadServerOptionsFile J path F =
     (case read_stream path F of
        (None, F1) \<Rightarrow> (Throw (''failed to open server config: '' @ path), F1)
      | (Some text, F1) \<Rightarrow>
        (case jparse J text of
           Inl _ \<Rightarrow> (Throw (''invalid server config JSON: '' @ path), F1)
         | Inr j \<Rightarrow>
             if \<not> is_object j then (Throw (''invalid server config JSON: '' @ path), F1)
             else (LoadServerOptions j, F1)))"

definition ValidateServerOptions :: "ServerOptions \<Rightarrow> bool \<Rightarrow> unit outcome" where
  "ValidateServerOptions opts httpMode =
     (if so_dataPath opts = [] then Throw ''memory.dataPath must not be empty''
      else if so_offloadThreshold opts < 0 then Throw ''memory.offloadThreshold must be non-negative''
      else if so_tokenBudget opts \<le> 0 then Throw ''memory.tokenBudget must be positive''
      else if mp_mode (so_mcp opts) \<noteq> ''http'' then Throw ''server.mcp.mode currently supports only http''
      else if mp_path (so_mcp opts) = [] \<or> hd (mp_path (so_mcp opts)) \<noteq> CHR ''/'' then Throw ''server.mcp.path must start with /''
      else if mp_maxMessageBytes (so_mcp opts) = 0 then Throw ''server.mcp.maxMessageBytes must be positive''
      else if httpMode then
        (if ho_host (so_http opts) = [] then Throw ''server.http.host must not be empty''
         else if ho_port (so_http opts) < 1 \<or> ho_port (so_http opts) > 65535
         then Throw ''server.http.port must be between 1 and 65535''
         else if ho_maxPayloadBytes (so_http opts) = 0 then Throw ''server.http.maxPayloadBytes must be positive''
         else if ho_readTimeoutSeconds (so_http opts) < 0 \<or> ho_writeTimeoutSeconds (so_http opts) < 0 \<or>
           ho_threadCount (so_http opts) < 0
         then Throw ''server.http timeout and thread settings must be non-negative''
         else Ret ())
      else Ret ())"

section \<open>server\_cli.cpp\<close>

text \<open>
  The arguments are those after the program name. \<open>None\<close> stands for the result \<open>false\<close>; the messages
  on the error stream are left out.
\<close>

definition ParsePort :: "string \<Rightarrow> int option" where
  "ParsePort val =
     (case from_chars_int val of
        None \<Rightarrow> None
      | Some parsed \<Rightarrow> if parsed < 1 \<or> parsed > 65535 then None else Some parsed)"

definition HasHelpOption :: "string list \<Rightarrow> bool" where
  "HasHelpOption args = list_ex (\<lambda>a. a = ''--help'') args"

fun FindConfigPath :: "string list \<Rightarrow> string \<Rightarrow> string option" where
  "FindConfigPath [] configPath = Some configPath"
| "FindConfigPath [arg] configPath = (if arg = ''--config'' then None else Some configPath)"
| "FindConfigPath (arg # val # args) configPath =
     (if arg = ''--config'' then FindConfigPath args val else FindConfigPath (val # args) configPath)"

section \<open>server\_main.cpp: the argument loop\<close>

definition value_options :: "string list" where
  "value_options = [''--config'', ''--host'', ''--port'', ''--data'']"

definition apply_option :: "string \<Rightarrow> string \<Rightarrow> ServerOptions \<Rightarrow> ServerOptions option" where
  "apply_option arg val options =
     (if arg = ''--config'' then Some options
      else if arg = ''--host'' then Some (options\<lparr>so_http := (so_http options)\<lparr>ho_host := val\<rparr>\<rparr>)
      else if arg = ''--port''
      then map_option (\<lambda>port. options\<lparr>so_http := (so_http options)\<lparr>ho_port := port\<rparr>\<rparr>) (ParsePort val)
      else Some (options\<lparr>so_dataPath := val\<rparr>))"

fun parse_args :: "string list \<Rightarrow> ServerOptions \<Rightarrow> ServerOptions option" where
  "parse_args [] options = Some options"
| "parse_args [arg] options = None"
| "parse_args (arg # val # args) options =
     (if arg \<notin> set value_options then None
      else case apply_option arg val options of None \<Rightarrow> None | Some options1 \<Rightarrow> parse_args args options1)"

definition IsLoopbackHost :: "string \<Rightarrow> bool" where
  "IsLoopbackHost host = (host = ''127.0.0.1'' \<or> host = ''localhost'' \<or> host = ''::1'')"

section \<open>server\_common.cpp\<close>

text \<open>\<open>probe\<close> is the text of the thread and the counter in the name of the probe file.\<close>

definition BuildWriteProbePath :: "string \<Rightarrow> string \<Rightarrow> string" where
  "BuildWriteProbePath directory probe = path_append directory (''.agent_memory_write_test_'' @ probe)"

definition PrepareDataPath :: "string \<Rightarrow> string \<Rightarrow> filesys \<Rightarrow> string outcome \<times> filesys" where
  "PrepareDataPath probe dataPath F =
     (let (made, F1) = create_directories (path_of dataPath) F in
      if \<not> made then (Throw (''failed to create dataPath: '' @ dataPath @ '': '' @ fs_message F1), F1)
      else case weakly_canonical F1 (path_of dataPath) of
             None \<Rightarrow> (Throw (''failed to resolve dataPath: '' @ dataPath @ '': '' @ fs_message F1), F1)
           | Some canonical \<Rightarrow>
             let probePath = path_of (BuildWriteProbePath (path_string canonical) probe) in
             case open_trunc probePath F1 of
               (None, F2) \<Rightarrow> (Throw (''dataPath is not writable: '' @ path_string canonical), F2)
             | (Some loc, F2) \<Rightarrow>
               let (removed, F3) = remove_path probePath F2 in
               if \<not> removed
               then (Throw (''failed to clean dataPath write test: '' @ path_string canonical @ '': '' @ fs_message F3), F3)
               else (Ret (path_string canonical), F3))"

record ServerSetup =
  ss_config :: MemoryConfig
  ss_runtime :: runtime

text \<open>The part of the function that settles the model configuration.\<close>

definition setup_config :: "json_lib \<Rightarrow> transport \<Rightarrow> ServerOptions \<Rightarrow> MemoryConfig \<Rightarrow> MemoryConfig outcome" where
  "setup_config J post options config =
     (if json_empty (so_modelConfig options) then Ret config
      else let (loaded, err) = LoadMemoryModelConfigFromJson (so_modelConfig options) in
        if err \<noteq> [] then (if so_strictModelConfig options then Throw err else Ret config)
        else let (client, clientError) = LoadModelClientFromConfig J post loaded in
          (case client of
             None \<Rightarrow> if so_strictModelConfig options then Throw clientError
                     else Ret (config\<lparr>cfg_model := loaded\<lparr>mc_enabled := False\<rparr>\<rparr>)
           | Some c \<Rightarrow> Ret (config\<lparr>cfg_model := loaded\<rparr>)))"

definition CreateServerSetup ::
  "json_lib \<Rightarrow> transport \<Rightarrow> string \<Rightarrow> ServerOptions \<Rightarrow> filesys \<Rightarrow> store \<Rightarrow> ServerSetup outcome \<times> filesys" where
  "CreateServerSetup J post probe options F s =
     (case PrepareDataPath probe (so_dataPath options) F of
        (Throw w, F1) \<Rightarrow> (Throw w, F1)
      | (Ret dataPath, F1) \<Rightarrow>
        (case setup_config J post options
                (default_config\<lparr>cfg_dataPath := dataPath, cfg_enablePayloadOffload := so_enablePayloadOffload options,
                   cfg_offloadThresholdChars := so_offloadThreshold options, cfg_tokenBudget := so_tokenBudget options\<rparr>) of
           Throw w \<Rightarrow> (Throw w, F1)
         | Ret config \<Rightarrow>
             let (rt, F2) = CreateRuntimeServices J post config F1 s;
                 (stats, rt1) = GetStats rt
             in if \<not> succeeded stats then (Throw (err_message (error_of stats)), F2)
                else (Ret \<lparr>ss_config = config, ss_runtime = rt1\<rparr>, F2)))"

section \<open>server\_main.cpp: start-up\<close>

text \<open>
  What the program comes to: an exit code, or a server about to listen. The signal handlers, the thread
  that waits for them and what follows are in \<open>Listening\<close>.
\<close>

datatype server_start = Exit int | Listen ServerOptions http_server ServerSetup

definition MemoryHttpServer_of :: "ServerOptions \<Rightarrow> http_server" where
  "MemoryHttpServer_of options =
     \<lparr>hs_apiToken = so_apiToken options, hs_maxPayloadBytes = ho_maxPayloadBytes (so_http options),
      hs_mcpPath = mp_path (so_mcp options), hs_maxMcpMessageBytes = mp_maxMessageBytes (so_mcp options)\<rparr>"

definition Run ::
  "json_lib \<Rightarrow> transport \<Rightarrow> string \<Rightarrow> string list \<Rightarrow> filesys \<Rightarrow> store \<Rightarrow> server_start outcome \<times> filesys" where
  "Run J post probe args F s =
     (if HasHelpOption args then (Ret (Exit 0), F)
      else case FindConfigPath args [] of
        None \<Rightarrow> (Ret (Exit 1), F)
      | Some configPath \<Rightarrow>
        (case (if configPath \<noteq> [] then LoadServerOptionsFile J configPath F else (Ret default_server_options, F)) of
           (Throw w, F1) \<Rightarrow> (Throw w, F1)
         | (Ret loaded, F1) \<Rightarrow>
           (case parse_args args loaded of
              None \<Rightarrow> (Ret (Exit 1), F1)
            | Some options \<Rightarrow>
              (case ValidateServerOptions options True of
                 Throw w \<Rightarrow> (Throw w, F1)
               | Ret _ \<Rightarrow>
                 (case CreateServerSetup J post probe options F1 s of
                    (Throw w, F2) \<Rightarrow> (Throw w, F2)
                  | (Ret created, F2) \<Rightarrow> (Ret (Listen options (MemoryHttpServer_of options) created), F2))))))"

definition server_main ::
  "json_lib \<Rightarrow> transport \<Rightarrow> string \<Rightarrow> string list \<Rightarrow> filesys \<Rightarrow> store \<Rightarrow> server_start \<times> filesys" where
  "server_main J post probe args F s =
     (case Run J post probe args F s of
        (Ret r, F1) \<Rightarrow> (r, F1)
      | (Throw w, F1) \<Rightarrow> (Exit 1, F1))"

end
