(* ===== verification/Server_Properties.thy ===== *)
theory Server_Properties
  imports Server Http_Properties Payload_Store
begin

text \<open>
  Properties of the server program: what a server that listens guarantees, that no event of the
  database it was started on is ever lost, what the option parser accepts, and what preparing the data
  directory leaves behind.
\<close>

section \<open>Start-up\<close>

lemma parse_setup:
  assumes "server_main J post probe args F s = (Listen opts H su, F')"
  obtains F1 where "ValidateServerOptions opts True = Ret ()" "H = MemoryHttpServer_of opts"
    "CreateServerSetup J post probe opts F1 s = (Ret su, F')"
  using assms unfolding server_main_def Run_def
  by (auto split: prod.splits outcome.splits option.splits if_splits)

lemma ValidateServerOptions_ok:
  assumes "ValidateServerOptions opts True = Ret ()"
  shows "1 \<le> ho_port (so_http opts)" "ho_port (so_http opts) \<le> 65535" "0 < so_tokenBudget opts" "0 \<le> so_offloadThreshold opts"
    "\<exists>p. mp_path (so_mcp opts) = CHR ''/'' # p" "0 < mp_maxMessageBytes (so_mcp opts)" "0 < ho_maxPayloadBytes (so_http opts)"
  using assms by (cases "mp_path (so_mcp opts)"; auto simp: ValidateServerOptions_def split: if_splits)+

lemma CreateServerSetup_parts:
  assumes "CreateServerSetup J post probe opts F s = (Ret su, F')"
  obtains F1 base rt stats where "setup_config J post opts base = Ret (ss_config su)"
    "cfg_model base = default_model_config"
    "CreateRuntimeServices J post (ss_config su) F1 s = (rt, F')" "GetStats rt = (stats, ss_runtime su)" "succeeded stats"
proof -
  obtain o1 F1 where 1: "PrepareDataPath probe (so_dataPath opts) F = (o1, F1)" by fastforce
  with assms obtain dir where dir: "o1 = Ret dir" by (cases o1) (auto simp: CreateServerSetup_def)
  let ?base = "default_config\<lparr>cfg_dataPath := dir, cfg_enablePayloadOffload := so_enablePayloadOffload opts,
    cfg_offloadThresholdChars := so_offloadThreshold opts, cfg_tokenBudget := so_tokenBudget opts\<rparr>"
  obtain c where c: "setup_config J post opts ?base = Ret c"
    using assms 1 dir by (cases "setup_config J post opts ?base") (auto simp: CreateServerSetup_def)
  obtain rt F2 where rt: "CreateRuntimeServices J post c F1 s = (rt, F2)" by fastforce
  obtain st rt1 where st: "GetStats rt = (st, rt1)" by fastforce
  have "succeeded st" "su = \<lparr>ss_config = c, ss_runtime = rt1\<rparr>" "F' = F2"
    using assms 1 dir c rt st by (auto simp: CreateServerSetup_def split: if_splits)
  then show thesis using that [of ?base F1 rt st] c rt st by (simp add: default_config_def)
qed

lemma strict_model_loads:
  assumes "setup_config J post opts base = Ret config" "so_strictModelConfig opts" "\<not> json_empty (so_modelConfig opts)"
  shows "fst (LoadModelClientFromConfig J post (cfg_model config)) \<noteq> None"
  using assms by (auto simp: setup_config_def split: prod.splits option.splits if_splits)

lemma GetStats_store:
  assumes "GetStats rt = (stats, rt')" "succeeded stats"
  obtains s s' where "rt_store rt = Some s" "rt_store rt' = Some s'" "read_step s s'" "rt_modelClient rt' = rt_modelClient rt"
  using assms GetStoreStats_read by (fastforce simp: GetStats_def failure_with_def split: option.splits prod.splits)

lemma created_store:
  assumes "CreateRuntimeServices J post config F s = (rt, F')" "rt_store rt = Some s1"
  shows "s1 = snd (Initialize s)" "rt_modelClient rt = fst (LoadModelClientFromConfig J post (cfg_model config))"
  using assms unfolding CreateRuntimeServices_def CreateRuntimeStore_def Let_def by (auto split: prod.splits if_splits)

text \<open>The state a listening server starts from, over the database it was given.\<close>

definition start_state :: "ServerSetup \<Rightarrow> filesys \<Rightarrow> server_state" where
  "start_state su F = \<lparr>sv_runtime = ss_runtime su, sv_files = F\<rparr>"

lemma start_state_good:
  assumes "server_main J post probe args F s = (Listen opts H su, F')" "store_inv s" "s_saved s = None"
  shows "good_state (start_state su F')" "durable_log J (start_state su F') = event_log J (durable s)"
proof -
  obtain F1 where c: "CreateServerSetup J post probe opts F1 s = (Ret su, F')" by (rule parse_setup [OF assms(1)])
  obtain F2 rt stats where p: "CreateRuntimeServices J post (ss_config su) F2 s = (rt, F')"
    "GetStats rt = (stats, ss_runtime su)" "succeeded stats" by (rule CreateServerSetup_parts [OF c])
  obtain s1 s2 where s: "rt_store rt = Some s1" "rt_store (ss_runtime su) = Some s2" "read_step s1 s2"
    by (rule GetStats_store [OF p(2,3)])
  have "s1 = snd (Initialize s)" by (rule created_store(1) [OF p(1) s(1)])
  then have i: "store_inv s1" "cursor_view (durable s1) = cursor_view (durable s)"
    using Initialize_inv [OF assms(2)] Initialize_keeps [OF assms(3)] by simp_all
  note f = read_step_frame [OF s(3)]
  have "store_inv s2" using f(5) i(1) by simp
  moreover have "event_log J (durable s2) = event_log J (durable s)"
    unfolding f(4) by (rule event_log_view [OF cursor_view_pending(1) [OF i(2)]])
  ultimately show "good_state (start_state su F')" "durable_log J (start_state su F') = event_log J (durable s)"
    using s(2) by (simp_all add: good_state_def durable_log_def start_state_def)
qed

text \<open>
  C25: A server that gets to listen has valid options (a port from 1 to 65535, positive limits, an MCP path
  that starts with a slash), serves with exactly the token, limits and path of those options, has an
  open store, and, when the model configuration is strict and present, a model client that was loaded.
\<close>

theorem listening_server_is_set_up:
  assumes "server_main J post probe args F s = (Listen opts H su, F')"
  shows "1 \<le> ho_port (so_http opts) \<and> ho_port (so_http opts) \<le> 65535 \<and> 0 < so_tokenBudget opts \<and>
    hs_apiToken H = so_apiToken opts \<and> hs_maxPayloadBytes H = ho_maxPayloadBytes (so_http opts) \<and> 0 < hs_maxPayloadBytes H \<and>
    hs_maxMcpMessageBytes H = mp_maxMessageBytes (so_mcp opts) \<and> 0 < hs_maxMcpMessageBytes H \<and>
    (\<exists>p. hs_mcpPath H = CHR ''/'' # p) \<and> rt_store (ss_runtime su) \<noteq> None \<and>
    (so_strictModelConfig opts \<longrightarrow> \<not> json_empty (so_modelConfig opts) \<longrightarrow> rt_modelClient (ss_runtime su) \<noteq> None)"
proof -
  obtain F1 where v: "ValidateServerOptions opts True = Ret ()" "H = MemoryHttpServer_of opts"
    and c: "CreateServerSetup J post probe opts F1 s = (Ret su, F')" by (rule parse_setup [OF assms])
  obtain F2 base rt stats where p: "setup_config J post opts base = Ret (ss_config su)"
    "CreateRuntimeServices J post (ss_config su) F2 s = (rt, F')"
    "GetStats rt = (stats, ss_runtime su)" "succeeded stats" by (rule CreateServerSetup_parts [OF c])
  obtain s1 s2 where s: "rt_store rt = Some s1" "rt_store (ss_runtime su) = Some s2"
    "rt_modelClient (ss_runtime su) = rt_modelClient rt" by (rule GetStats_store [OF p(3,4)])
  show ?thesis
    using ValidateServerOptions_ok [OF v(1)] v(2) s created_store(2) [OF p(2) s(1)] strict_model_loads [OF p(1)]
    by (auto simp: MemoryHttpServer_of_def)
qed

text \<open>
  C12: No event is lost over the life of a server: started on any valid database, and whatever requests
  it serves over HTTP and MCP afterwards, the durable log begins with exactly the events the database
  had, and the invariant of the store holds.
\<close>

theorem server_keeps_every_event:
  assumes "server_main J post probe args F s = (Listen opts H su, F')" "store_inv s" "s_saved s = None"
    and "serve_all matcher H rs (start_state su F') = (out, st)" "\<forall>x\<in>set rs. en_json (fst x) = J"
  shows "good_state st \<and> prefix (event_log J (durable s)) (durable_log J st)"
  using log.serve_all_frame [OF assms(4,5)] start_state_good [OF assms(1-3)] by (simp add: log_grows_def)

text \<open>A start on the directory \<open>/d\<close> with an empty database.\<close>

definition shop_options :: ServerOptions where
  "shop_options = default_server_options\<lparr>so_dataPath := ''/d''\<rparr>"

definition shop_start :: "server_start \<times> filesys" where
  "shop_start = server_main wire_lib (\<lambda>_. default_response) ''1_0'' [''--data'', ''/d''] vault (new_store empty_database)"

lemma shop_listens: "\<exists>su F. shop_start = (Listen shop_options (MemoryHttpServer_of shop_options) su, F)"
proof -
  let ?post = "\<lambda>_. default_response" and ?s = "new_store empty_database"
  let ?config = "default_config\<lparr>cfg_dataPath := ''/d'', cfg_enablePayloadOffload := True, cfg_offloadThresholdChars := 8000, cfg_tokenBudget := 4096\<rparr>"
  let ?p = "PrepareDataPath ''1_0'' ''/d'' vault"
  have p: "fst ?p = Ret ''/d''" by code_simp
  let ?rt = "CreateRuntimeServices wire_lib ?post ?config (snd ?p) ?s"
  have ok: "succeeded (fst (GetStats (fst ?rt)))" by code_simp
  have "CreateServerSetup wire_lib ?post ''1_0'' shop_options vault ?s = (Ret \<lparr>ss_config = ?config, ss_runtime = snd (GetStats (fst ?rt))\<rparr>, snd ?rt)"
    using p ok by (simp add: CreateServerSetup_def shop_options_def default_server_options_def setup_config_def split_def Let_def)
  moreover have "HasHelpOption [''--data'', ''/d''] = False" "FindConfigPath [''--data'', ''/d''] [] = Some []" by code_simp+
  moreover have "parse_args [''--data'', ''/d''] default_server_options = Some shop_options"
    by (simp add: value_options_def apply_option_def shop_options_def)
  moreover have "ValidateServerOptions shop_options True = Ret ()"
    by (simp add: ValidateServerOptions_def shop_options_def default_server_options_def default_http_options_def default_mcp_options_def)
  ultimately show ?thesis by (simp add: shop_start_def server_main_def Run_def)
qed

theorem listening_server_is_set_up_witness:
  "\<exists>su F. shop_start = (Listen shop_options (MemoryHttpServer_of shop_options) su, F) \<and> rt_store (ss_runtime su) \<noteq> None"
proof -
  obtain su F where r: "shop_start = (Listen shop_options (MemoryHttpServer_of shop_options) su, F)" using shop_listens by blast
  from listening_server_is_set_up [OF r [unfolded shop_start_def]] r show ?thesis by blast
qed

theorem server_keeps_every_event_witness:
  "\<exists>su F. shop_start = (Listen shop_options (MemoryHttpServer_of shop_options) su, F) \<and>
     good_state (snd (serve_all plain_matcher (MemoryHttpServer_of shop_options) [(wire, post_hello [])] (start_state su F)))"
proof -
  obtain su F where r: "shop_start = (Listen shop_options (MemoryHttpServer_of shop_options) su, F)" using shop_listens by blast
  have s: "store_inv (new_store empty_database)" "s_saved (new_store empty_database) = None"
    using open_store_inv by (simp_all add: open_store_def new_store_def store_inv_def db_ok_def)
  have J: "\<forall>x\<in>set [(wire, post_hello [])]. en_json (fst x) = wire_lib" by (simp add: wire_def)
  from server_keeps_every_event [OF r [unfolded shop_start_def] s surjective_pairing J] r show ?thesis by blast
qed

section \<open>Options\<close>

lemma check_keys_ok: "check_keys allowed pre ks = Ret () \<Longrightarrow> set ks \<subseteq> set allowed"
  by (induction ks) (auto simp: IsAllowedKey_def list_ex_iff split: if_splits)

lemma ValidateKeys_ok: "ValidateKeys j allowed pre = Ret () \<Longrightarrow> contains j k \<Longrightarrow> k \<in> set allowed"
  using check_keys_ok by (cases j) (fastforce dest: map_of_SomeD)+

lemma outcome_bind_Ret [simp]: "outcome_bind x f = Ret y \<longleftrightarrow> (\<exists>a. x = Ret a \<and> f a = Ret y)"
  by (cases x) auto

lemma LoadSubObject_ok: "LoadSubObject j k = Ret v \<Longrightarrow> contains j k \<Longrightarrow> v = json_at j k"
  by (auto simp: LoadSubObject_def split: if_splits)

text \<open>Every member of a section of a configuration is one of the known ones.\<close>

definition section_known :: "json \<Rightarrow> string \<Rightarrow> string list \<Rightarrow> bool" where
  "section_known j name known = (\<forall>k. contains j name \<longrightarrow> contains (json_at j name) k \<longrightarrow> k \<in> set known)"

lemma section_knownI:
  "LoadSubObject j name = Ret v \<Longrightarrow> ValidateKeys v known pre = Ret () \<Longrightarrow> section_known j name known"
  using ValidateKeys_ok LoadSubObject_ok by (fastforce simp: section_known_def)

text \<open>
  A configuration with a member nobody reads (a misspelt key, say) is refused: when the options load,
  every member of the document and of each of its sections is a known one.
\<close>

theorem LoadServerOptions_known_keys:
  assumes "LoadServerOptions j = Ret opts"
  shows "(\<forall>k. contains j k \<longrightarrow> k \<in> {''memory'', ''model'', ''server''}) \<and>
    section_known j ''memory'' memory_keys \<and> section_known j ''model'' model_keys \<and> section_known j ''server'' server_keys \<and>
    (contains j ''server'' \<longrightarrow>
      section_known (json_at j ''server'') ''auth'' [''apiToken''] \<and> section_known (json_at j ''server'') ''http'' http_keys \<and>
      section_known (json_at j ''server'') ''mcp'' mcp_keys)"
proof -
  from assms obtain mem o1 o2 srv where l: "ValidateKeys j [''memory'', ''model'', ''server''] [] = Ret ()"
    "LoadSubObject j ''memory'' = Ret mem" "LoadMemoryOptions mem default_server_options = Ret o1"
    "(if contains j ''model'' then outcome_bind (LoadSubObject j ''model'') (\<lambda>model. LoadModelOptions model o1) else Ret o1) = Ret o2"
    "LoadSubObject j ''server'' = Ret srv" "LoadServerSection srv o2 = Ret opts"
    by (auto simp: LoadServerOptions_def)
  have top: "\<forall>k. contains j k \<longrightarrow> k \<in> {''memory'', ''model'', ''server''}" using ValidateKeys_ok [OF l(1)] by fastforce
  have mem: "section_known j ''memory'' memory_keys"
    using l(3) section_knownI [OF l(2)] by (auto simp: LoadMemoryOptions_def)
  have model: "section_known j ''model'' model_keys"
  proof (cases "contains j ''model''")
    case True
    with l(4) obtain m where "LoadSubObject j ''model'' = Ret m" "LoadModelOptions m o1 = Ret o2" by auto
    then show ?thesis using section_knownI by (auto simp: LoadModelOptions_def)
  qed (simp add: section_known_def)
  obtain au ht mc o3 o4 o5 where srv: "ValidateKeys srv server_keys ''server.'' = Ret ()" "LoadSubObject srv ''auth'' = Ret au"
    "LoadAuthOptions au o3 = Ret o4" "LoadSubObject srv ''http'' = Ret ht" "LoadHttpOptions ht o4 = Ret o5"
    "LoadSubObject srv ''mcp'' = Ret mc" "LoadMcpOptions mc o5 = Ret opts"
    using l(6) by (auto simp: LoadServerSection_def)
  have "section_known srv ''auth'' [''apiToken'']" "section_known srv ''http'' http_keys" "section_known srv ''mcp'' mcp_keys"
    using srv(3,5,7) section_knownI [OF srv(2)] section_knownI [OF srv(4)] section_knownI [OF srv(6)]
    by (auto simp: LoadAuthOptions_def LoadHttpOptions_def LoadMcpOptions_def Let_def)
  then show ?thesis
    using top mem model section_knownI [OF l(5) srv(1)] LoadSubObject_ok [OF l(5)] by blast
qed

definition port_config :: "int \<Rightarrow> json" where
  "port_config n = JObj [(''server'', JObj [(''http'', JObj [(''port'', JUInt n)])])]"

theorem LoadServerOptions_known_keys_witness:
  "section_known (json_at (port_config 9000) ''server'') ''http'' http_keys"
proof -
  have "\<exists>opts. LoadServerOptions (port_config 9000) = Ret opts"
    by (simp add: port_config_def LoadServerOptions_def LoadSubObject_def LoadMemoryOptions_def LoadServerSection_def IsAllowedKey_def
        LoadString_def LoadBool_def LoadInt_def LoadSize_def LoadAuthOptions_def LoadHttpOptions_def LoadMcpOptions_def Let_def server_keys_def http_keys_def)
  then obtain opts where "LoadServerOptions (port_config 9000) = Ret opts" by blast
  moreover have "contains (port_config 9000) ''server''" by (simp add: port_config_def)
  ultimately show ?thesis using LoadServerOptions_known_keys by blast
qed

text \<open>
  C36: A port number in a configuration is cut to 32 bits before it is checked: the options load with the
  number modulo \<open>2 ^ 32\<close> and are accepted exactly when that lies between 1 and 65535, so a port far
  out of range, \<open>4294975386\<close> for one, is accepted as another port, 8090.
\<close>

theorem port_is_cut_to_32_bits:
  "LoadServerOptions (port_config n) = Ret (default_server_options\<lparr>so_http := default_http_options\<lparr>ho_port := i32 n\<rparr>\<rparr>) \<and>
   (ValidateServerOptions (default_server_options\<lparr>so_http := default_http_options\<lparr>ho_port := i32 n\<rparr>\<rparr>) True = Ret () \<longleftrightarrow>
     1 \<le> i32 n \<and> i32 n \<le> 65535) \<and> i32 4294975386 = 8090"
proof -
  have "LoadServerOptions (port_config n) = Ret (default_server_options\<lparr>so_http := default_http_options\<lparr>ho_port := i32 n\<rparr>\<rparr>)"
    by (simp add: port_config_def LoadServerOptions_def LoadSubObject_def LoadMemoryOptions_def LoadServerSection_def IsAllowedKey_def
        LoadString_def LoadBool_def LoadInt_def LoadSize_def LoadAuthOptions_def LoadHttpOptions_def LoadMcpOptions_def Let_def server_keys_def http_keys_def
        default_server_options_def default_http_options_def default_mcp_options_def)
  moreover have "ValidateServerOptions (default_server_options\<lparr>so_http := default_http_options\<lparr>ho_port := i32 n\<rparr>\<rparr>) True = Ret () \<longleftrightarrow>
     1 \<le> i32 n \<and> i32 n \<le> 65535"
    by (auto simp: ValidateServerOptions_def default_server_options_def default_http_options_def default_mcp_options_def)
  moreover have "i32 4294975386 = 8090" by code_simp
  ultimately show ?thesis by blast
qed

section \<open>The command line\<close>

text \<open>
  \<open>--port\<close> takes exactly the decimal numbers from 1 to 65535, digits only (no sign, no white space,
  nothing after the number), and every such number as it is printed.
\<close>

theorem ParsePort_exact:
  "(ParsePort v = Some p \<longleftrightarrow> v \<noteq> [] \<and> list_all isdigit v \<and> p = int (digits_value v) \<and> 1 \<le> p \<and> p \<le> 65535) \<and>
   (ParsePort (nat_digits n) = (if 1 \<le> n \<and> n \<le> 65535 then Some (int n) else None))"
proof -
  have minus: "\<not> isdigit (CHR ''-'')" by code_simp
  have *: "ParsePort v = Some p \<longleftrightarrow> v \<noteq> [] \<and> list_all isdigit v \<and> p = int (digits_value v) \<and> 1 \<le> p \<and> p \<le> 65535" for v p
  proof (cases "v \<noteq> [] \<and> hd v = CHR ''-''")
    case True
    then have "\<not> list_all isdigit v" using minus by (cases v) auto
    moreover have "ParsePort v = None"
      using True by (auto simp: ParsePort_def from_chars_int_def Let_def split: option.splits)
    ultimately show ?thesis by simp
  next
    case False
    then show ?thesis
      by (auto simp: ParsePort_def from_chars_int_def Let_def INT_MIN_def INT_MAX_def split: option.splits if_splits)
  qed
  have digits: "nat_digits n \<noteq> []" "list_all isdigit (nat_digits n)" "digits_value (nat_digits n) = n"
    by (simp_all add: nat_digits_nonempty nat_digits_isdigit digits_value_nat_digits)
  have "ParsePort (nat_digits n) = Some (int n)" if "1 \<le> n" "n \<le> 65535"
    using * [of "nat_digits n" "int n"] digits that by simp
  moreover have "ParsePort (nat_digits n) = None" if "\<not> (1 \<le> n \<and> n \<le> 65535)"
    using * [of "nat_digits n" "the (ParsePort (nat_digits n))"] digits that by (cases "ParsePort (nat_digits n)") auto
  ultimately show ?thesis using * by auto
qed

section \<open>The path of the health check\<close>

text \<open>
  A server with a token whose MCP path is configured to be \<open>/health\<close>, which the validation of the
  options accepts, runs the MCP messages of anybody: the check for the token lets that path pass
  whatever the method is, and the MCP route is registered first.
\<close>

theorem health_path_bypasses_token:
  assumes "ValidateServerOptions opts True = Ret ()" "mp_path (so_mcp opts) = ''/health''" "matcher ''/health'' ''/health'' = Some g"
    and "rq_method req = ''POST''" "rq_path req = ''/health''" "length (rq_body req) \<le> mp_maxMessageBytes (so_mcp opts)"
  shows "snd (serve matcher (MemoryHttpServer_of opts) E req st) = snd (HandleJsonRpcText E (rq_body req) st)"
proof -
  let ?H = "MemoryHttpServer_of opts"
  have "RegisterAuth ?H E req = None" using assms(5) by (simp add: RegisterAuth_def)
  moreover have "\<not> length (rq_body req) > payload_max_length ?H" using assms(6) by (simp add: payload_max_length_def MemoryHttpServer_of_def)
  ultimately have "routing matcher ?H E req st = mcp_route ?H E req st"
    using assms(2-5) by (simp add: routing_def known_methods_def RegisterRoutes_def RegisterMcpRoutes_def MemoryHttpServer_of_def)
  then show ?thesis using assms(6)
    by (auto simp: serve_def mcp_route_def MemoryHttpServer_of_def split: prod.splits outcome.splits)
qed

theorem health_path_bypasses_token_witness:
  "snd (serve plain_matcher (MemoryHttpServer_of (default_server_options\<lparr>so_apiToken := ''secret'', so_mcp := default_mcp_options\<lparr>mp_path := ''/health''\<rparr>\<rparr>))
     wire \<lparr>rq_method = ''POST'', rq_path = ''/health'', rq_authorization = [], rq_body = ''odd''\<rparr> office_state) =
   snd (HandleJsonRpcText wire ''odd'' office_state)"
proof -
  let ?opts = "default_server_options\<lparr>so_apiToken := ''secret'', so_mcp := default_mcp_options\<lparr>mp_path := ''/health''\<rparr>\<rparr>"
  let ?req = "\<lparr>rq_method = ''POST'', rq_path = ''/health'', rq_authorization = [], rq_body = ''odd''\<rparr>"
  have "ValidateServerOptions ?opts True = Ret ()" "mp_path (so_mcp ?opts) = ''/health''" "plain_matcher ''/health'' ''/health'' = Some []"
    "rq_method ?req = ''POST''" "rq_path ?req = ''/health''" "length (rq_body ?req) \<le> mp_maxMessageBytes (so_mcp ?opts)"
    by (simp_all add: ValidateServerOptions_def default_server_options_def default_http_options_def default_mcp_options_def
        plain_matcher_def ends_with_def)
  from health_path_bypasses_token [where opts = ?opts and req = ?req and matcher = plain_matcher, OF this, of wire office_state]
  show ?thesis by simp
qed

section \<open>Preparing the data directory\<close>

text \<open>The second file system is the first with directories added.\<close>

definition dirs_added :: "filesys \<Rightarrow> filesys \<Rightarrow> bool" where
  "dirs_added F F' = (\<forall>l. node F' l = node F l \<or> node F l = None \<and> node F' l = Some Dir)"

lemma dirs_added_trans: "dirs_added F G \<Longrightarrow> dirs_added G H \<Longrightarrow> dirs_added F H"
  unfolding dirs_added_def by metis

lemma walk_stuck: "walk N n cur (xs @ [y]) = Missing d c [] \<Longrightarrow> \<exists>m. walk N n cur xs = Found m"
proof (induction N n cur xs rule: walk.induct)
  case (2 N n cur c cs)
  then have dir: "N cur = Some Dir" by (auto split: if_splits)
  show ?case
  proof (cases "c = [] \<or> c = dot \<or> c = dotdot")
    case True
    then show ?thesis using 2 dir by (auto simp: dot_def dotdot_def)
  next
    case False
    then obtain x where x: "N (cur @ [c]) = Some x" using 2 dir by (auto split: option.splits)
    show ?thesis using 2 False dir x by (cases x; cases n) auto
  qed
qed auto

lemma entry_snoc:
  assumes "wf_path (ab, xs @ [name])" "walk (node F) MAX_LINKS (start_of F (ab, xs)) xs = Found d" "node F d = Some Dir"
  shows "entry_of F (ab, xs @ [name]) = Some (d @ [name])"
  using assms by (simp add: entry_of_def sys_path_id [OF assms(1)] start_of_def Let_def)

text \<open>A name below an existing directory: what opening and removing a file there see.\<close>

lemma name_in_directory:
  assumes "wf_path (ab, xs @ [name])" "name \<notin> {[], dot, dotdot}"
    and "sys_walk F (ab, xs @ [name]) = Missing d c []" and "\<forall>l t. node F (l @ [name]) \<noteq> Some (Link t)"
  shows "entry_of F (ab, xs @ [name]) = Some (d @ [name]) \<and> c = name \<and> node F d = Some Dir \<and> node F (d @ [name]) = None"
proof -
  let ?N = "node F"
  have w: "walk ?N MAX_LINKS (start_of F (ab, xs)) (xs @ [name]) = Missing d c []"
    using assms(1,3) by (simp add: sys_walk_wf start_of_def)
  then obtain m where m: "walk ?N MAX_LINKS (start_of F (ab, xs)) xs = Found m" using walk_stuck by blast
  then obtain k where k: "walk ?N k m [name] = Missing d c []" using w walk_append by metis
  then have dir: "?N m = Some Dir" by (auto split: if_splits)
  have "d = m \<and> c = name \<and> ?N (m @ [name]) = None"
  proof (cases "?N (m @ [name])")
    case (Some x)
    with assms(4) have "\<forall>t. x \<noteq> Link t" by auto
    then show ?thesis using k dir assms(2) Some by (cases x) auto
  qed (use k dir assms(2) in auto)
  with entry_snoc [OF assms(1) m dir] dir show ?thesis by simp
qed

lemma probe_removed:
  assumes wf: "wf_path (ab, xs @ [name])" "proper name"
    and absent: "\<forall>l. node F (l @ [name]) = None \<or> node F (l @ [name]) = Some Dir"
    and run: "open_trunc (ab, xs @ [name]) F = (Some loc, F1)" "remove_path (ab, xs @ [name]) F1 = (True, F2)"
  shows "node F2 = node F"
proof -
  let ?p = "(ab, xs @ [name])"
  have name: "name \<notin> {[], dot, dotdot}" using wf(2) by (auto simp: proper_def)
  obtain ok F0 where io: "next_io F = (ok, F0)" by fastforce
  have walk0: "sys_walk F0 ?p = sys_walk F ?p" "node F0 = node F" using sys_walk_cong [of F0 F] next_io_nodes [OF io] by simp_all
  have not_file: False if "sys_walk F ?p = Found l" "node F l = Some (File c t)" for l c t
  proof -
    have "walk (node F) MAX_LINKS (start_of F (ab, xs)) (xs @ [name]) = Found l" using that(1) wf(1) by (simp add: sys_walk_wf start_of_def)
    then obtain m k where m: "walk (node F) k m [name] = Found l" using walk_prefix walk_append by metis
    show False using m absent [rule_format, of m] name that(2) by (auto split: if_splits option.splits)
  qed
  obtain d c where miss: "sys_walk F ?p = Missing d c []"
    using run(1) io walk0 not_file by (auto simp: open_trunc_def split: if_splits walked.splits option.splits node.splits)
  have e: "entry_of F ?p = Some (d @ [name])" "c = name" "node F (d @ [name]) = None" "node F d = Some Dir"
    using name_in_directory [OF wf(1) name miss] absent by (metis node.distinct(3) option.distinct(1) option.inject)+
  note o1 = open_trunc_missing [OF miss run(1)]
  obtain ok2 F3 where io2: "next_io F1 = (ok2, F3)" by fastforce
  note n3 = next_io_nodes [OF io2]
  have "sys_walk F ?p = Missing d c []" by (rule miss)
  have ent: "entry_of F3 ?p = Some (d @ [name])"
  proof -
    obtain m where m: "walk (node F) MAX_LINKS (start_of F (ab, xs)) xs = Found m"
      using miss wf(1) walk_stuck by (fastforce simp: sys_walk_wf start_of_def)
    with e(1) wf(1) have "m = d" by (auto simp: entry_of_def sys_path_id start_of_def Let_def split: if_splits)
    have keep: "node F3 l = Some x" if "node F l = Some x" for l x using that n3(1) o1(2) e(2,3) by auto
    have "walk (node F3) MAX_LINKS (start_of F (ab, xs)) xs = Found m" by (rule walk_mono [OF m]) (rule keep)
    then have "walk (node F3) MAX_LINKS (start_of F3 (ab, xs)) xs = Found d"
      using \<open>m = d\<close> n3(2) o1(3) by (simp add: start_of_def split: if_splits)
    then show ?thesis by (rule entry_snoc [OF wf(1)]) (use n3 o1 e(4) in simp)
  qed
  have "node F3 (d @ [name]) = Some (File [] (fs_now F))" using n3(1) o1(2) e(2) by simp
  then have "F2 = del_node (d @ [name]) F3"
    using run(2) io2 ent by (auto simp: remove_path_def split: if_splits)
  then show ?thesis using n3(1) o1(2) e(2,3) by (auto simp: fun_eq_iff)
qed

lemma make_dirs_adds:
  assumes "make_dirs done cs F = (b, F')" "fs_ok F" "\<forall>c\<in>set (snd done @ cs). c \<noteq> [] \<and> CHR ''/'' \<notin> set c \<and> nul_free c"
  shows "dirs_added F F' \<and> fs_ok F'"
  using assms
proof (induction "done" cs F arbitrary: b F' rule: make_dirs.induct)
  case (2 old c cs F)
  let ?p = "(fst old, snd old @ [c])"
  have wf: "wf_path ?p" by (rule wf_path_plain) (use "2.prems"(3) in auto)
  have same: ?case if "F' = F" using that "2.prems"(2) by (simp add: dirs_added_def)
  show ?case
  proof (cases "sys_walk F ?p")
    case (Found loc)
    then show ?thesis using 2 same by (auto simp: Let_def split: if_splits)
  next
    case (Missing d name rest)
    show ?thesis
    proof (cases "entry_of F ?p")
      case None
      then show ?thesis using "2.prems"(1) Missing same by (simp add: Let_def)
    next
      case (Some e)
      obtain ok F1 where io: "next_io F = (ok, F1)" by fastforce
      note n1 = next_io_nodes [OF io]
      have e: "e \<noteq> []" "last e = c" "node F (butlast e) = Some Dir"
        "walk (node F) MAX_LINKS (start_of F ?p) (snd old) = Found (butlast e)"
        using Some wf by (auto simp: entry_of_def sys_path_id start_of_def Let_def split: if_splits walked.splits)
      have "c \<noteq> dot \<and> c \<noteq> dotdot"
      proof (rule ccontr)
        assume "\<not> (c \<noteq> dot \<and> c \<noteq> dotdot)"
        moreover obtain k where "walk (node F) MAX_LINKS (start_of F ?p) (snd old @ [c]) = walk (node F) k (butlast e) [c]"
          using walk_append [OF e(4)] by blast
        ultimately show False using Missing wf e(3) by (auto simp: sys_walk_wf dot_def dotdot_def)
      qed
      then have c: "proper c" using "2.prems"(3) by (simp add: proper_def)
      consider "F' = F" | "F' = F1" | "node F e = None" "ok" "make_dirs ?p cs (put_node e Dir F1) = (b, F')"
        using "2.prems"(1) Missing Some io by (auto simp: Let_def split: if_splits)
      then show ?thesis
      proof cases
        case 2
        then show ?thesis using n1 "2.prems"(2) by (simp add: dirs_added_def fs_ok_def)
      next
        case 3
        let ?G = "put_node e Dir F1"
        have G: "node ?G = (node F)(e \<mapsto> Dir)" "fs_cwd ?G = fs_cwd F" using n1 e(1) by (auto simp: fun_eq_iff)
        have okG: "fs_ok ?G" by (rule fs_ok_add [OF "2.prems"(2) G e(1)]) (use c e 3 in simp_all)
        have "dirs_added ?G F' \<and> fs_ok F'"
          using "2.IH"(2) [OF refl Missing Some _ refl io [symmetric] _ 3(3) okG] 3(1,2) "2.prems"(3) by simp
        moreover have "dirs_added F ?G" using G(1) 3(1) by (simp add: dirs_added_def)
        ultimately show ?thesis using dirs_added_trans by blast
      qed (rule same)
    qed
  qed (use "2.prems"(1) same in \<open>simp_all add: Let_def\<close>)
qed (simp add: dirs_added_def)

lemma path_append_snoc:
  assumes "name \<noteq> []" "CHR ''/'' \<notin> set name"
  shows "\<exists>ab xs. path_of (path_append s name) = (ab, xs @ [name])"
proof -
  have h: "hd name \<noteq> CHR ''/''" "last name \<noteq> CHR ''/''" using assms by (metis hd_in_set, metis last_in_set)
  have slash: "\<exists>ab xs. path_of (a @ CHR ''/'' # name) = (ab, xs @ [name])" for a
    using h assms by (simp add: path_of_def Let_def segments_append_slash segments_plain)
  have plain: "path_of name = (False, [] @ [name])" using h assms by (simp add: path_of_def Let_def segments_plain)
  show ?thesis
  proof (cases "s = []")
    case False
    then obtain a z where "s = a @ [z]" by (cases s rule: rev_cases) auto
    then show ?thesis using slash [of a] slash [of s] h by (auto simp: path_append_def)
  qed (use plain h in \<open>auto simp: path_append_def\<close>)
qed

text \<open>
  Preparing the data directory, when it succeeds, leaves nothing behind but the directories it
  created: the probe file is gone, and no existing file was touched (as long as nothing in the file
  system has the name of the probe).
\<close>

theorem PrepareDataPath_clean:
  assumes "PrepareDataPath probe dataPath F = (Ret dir, F')" "fs_ok F" "nul_free dataPath" "nul_free probe" "CHR ''/'' \<notin> set probe"
    and "\<forall>l. node F (l @ [''.agent_memory_write_test_'' @ probe]) = None"
  shows "dirs_added F F'"
proof -
  let ?name = "''.agent_memory_write_test_'' @ probe"
  obtain made F1 where mk: "create_directories (path_of dataPath) F = (made, F1)" by fastforce
  have "\<forall>c\<in>set (snd (path_of dataPath)). CHR ''/'' \<notin> set c \<and> nul_free c"
    using wf_path_of [OF assms(3)] by (simp add: wf_path_def)
  then have added: "dirs_added F F1" "fs_ok F1"
    using make_dirs_adds [OF mk [unfolded create_directories_def] assms(2)] by auto
  obtain q where q: "weakly_canonical F1 (path_of dataPath) = Some q"
    using assms(1) mk by (auto simp: PrepareDataPath_def split: if_splits option.splits)
  obtain ab xs where pp: "path_of (BuildWriteProbePath (path_string q) probe) = (ab, xs @ [?name])"
    using path_append_snoc [of ?name "path_string q"] assms(5) by (auto simp: BuildWriteProbePath_def)
  obtain loc F2 where op: "open_trunc (ab, xs @ [?name]) F1 = (Some loc, F2)" and rm: "remove_path (ab, xs @ [?name]) F2 = (True, F')"
    using assms(1) mk q pp by (auto simp: PrepareDataPath_def Let_def split: if_splits option.splits prod.splits)
  have name: "proper ?name" using assms(4,5) by (auto simp: proper_def dot_def dotdot_def nul_free_def)
  have "nul_free (path_string q)"
    using nul_free_path_string [OF weakly_canonical_wf(1) [OF added(2) wf_path_of [OF assms(3)] q]] .
  then have "nul_free (BuildWriteProbePath (path_string q) probe)"
    using path_append_end(3) [of ?name "path_string q"] name assms(4) by (auto simp: BuildWriteProbePath_def proper_def)
  then have wf: "wf_path (ab, xs @ [?name])" using wf_path_of pp by metis
  have "\<forall>l. node F1 (l @ [?name]) = None \<or> node F1 (l @ [?name]) = Some Dir"
    using added(1) assms(6) unfolding dirs_added_def by metis
  then have "node F' = node F1" by (rule probe_removed [OF wf name _ op rm])
  then show ?thesis using added(1) by (simp add: dirs_added_def)
qed

theorem PrepareDataPath_clean_witness: "\<exists>F'. PrepareDataPath ''1_0'' ''/d/new'' vault = (Ret ''/d/new'', F') \<and> dirs_added vault F'"
proof -
  let ?run = "PrepareDataPath ''1_0'' ''/d/new'' vault"
  have r: "fst ?run = Ret ''/d/new''" "nul_free ''/d/new''" "nul_free ''1_0''" "CHR ''/'' \<notin> set ''1_0''" by code_simp+
  have run: "?run = (Ret ''/d/new'', snd ?run)" using r(1) by (metis prod.collapse)
  have "\<forall>l. node vault (l @ [''.agent_memory_write_test_'' @ ''1_0'']) = None"
    by (auto simp: node_def vault_def map_of_eq_None_iff)
  from PrepareDataPath_clean [OF run vault_ok r(2-4) this] run show ?thesis by blast
qed

end
