(* ===== verification/Threads.thy ===== *)
theory Threads
  imports Runtime
begin

text \<open>
  One runtime shared by several threads (\<open>src/core/builtin_memory_runtime.cpp\<close>). The operations of the
  store hold the store's own mutex from beginning to end, so each is one step, a transaction with its
  callback included. A consolidation is the operation that is not one step: it reads the cursor,
  then the events, then calls the model and writes, and other threads run in between; what orders
  two consolidations is \<open>consolidationMutex\<close>. The points of \<open>ConsolidateWithModel\<close> at which another
  thread can be seen are the constructors of \<open>point\<close>, one definition takes a thread from each to the
  next. The pointers the getters return under \<open>mutex\<close> never change while the runtime exists.
\<close>

section \<open>Calls and the mutex\<close>

datatype point =
    Entry
  | Acquire
  | CursorLoad
  | EventsLoad string
  | Process "MemoryEvent list"
  | Return "MemoryConsolidationResult outcome"

record consolidation_call =
  cc_request :: MemoryConsolidationRequest
  cc_model :: "model_client option"
  cc_point :: point

text \<open>The runtime, the thread that holds \<open>consolidationMutex\<close>, and the call each thread is in.\<close>

record system =
  sys_runtime :: runtime
  sys_holder :: "nat option"
  sys_calls :: "nat \<Rightarrow> consolidation_call option"

definition boot :: "runtime \<Rightarrow> system" where
  "boot rt = \<lparr>sys_runtime = rt, sys_holder = None, sys_calls = Map.empty\<rparr>"

definition go :: "nat \<Rightarrow> consolidation_call \<Rightarrow> point \<Rightarrow> system \<Rightarrow> system" where
  "go t call p sys = sys\<lparr>sys_calls := (sys_calls sys)(t \<mapsto> call\<lparr>cc_point := p\<rparr>)\<rparr>"

text \<open>The \<open>std::lock_guard\<close>: taken when nobody holds the mutex, given back on every way out of the scope.\<close>

definition lock_consolidation :: "nat \<Rightarrow> system \<Rightarrow> system option" where
  "lock_consolidation t sys = (if sys_holder sys = None then Some (sys\<lparr>sys_holder := Some t\<rparr>) else None)"

definition unlock_consolidation :: "system \<Rightarrow> system" where
  "unlock_consolidation sys = sys\<lparr>sys_holder := None\<rparr>"

definition leave :: "nat \<Rightarrow> consolidation_call \<Rightarrow> MemoryConsolidationResult outcome \<Rightarrow> system \<Rightarrow> system" where
  "leave t call r sys = unlock_consolidation (go t call (Return r) sys)"

section \<open>The steps of ConsolidateWithModel\<close>

definition step_entry :: "nat \<Rightarrow> consolidation_call \<Rightarrow> system \<Rightarrow> system" where
  "step_entry t call sys =
     (let rt = sys_runtime sys in
      if rt_store rt = None
      then go t call (Return (Ret (failed_consolidation (mk_error ''store_unavailable'' (StoreUnavailableMessage rt) [] False)))) sys
      else if rt_consolidationService rt = None
      then go t call (Return (Ret (failed_consolidation
             (mk_error ''consolidation_unavailable'' ''consolidation service unavailable'' [] False)))) sys
      else go t call Acquire sys)"

definition step_acquire :: "nat \<Rightarrow> consolidation_call \<Rightarrow> system \<Rightarrow> system option" where
  "step_acquire t call sys = map_option (go t call CursorLoad) (lock_consolidation t sys)"

definition step_cursor :: "nat \<Rightarrow> consolidation_call \<Rightarrow> system \<Rightarrow> system" where
  "step_cursor t call sys =
     (let request = cc_request call in
      if cr_forceReprocess request then go t call (EventsLoad []) sys
      else
        let (cursorResult, rt) = on_store (LoadConsolidationCursor (cr_agentId request) (cr_sessionId request)) (sys_runtime sys);
            sys1 = sys\<lparr>sys_runtime := rt\<rparr>
        in if \<not> succeeded cursorResult
           then leave t call (Ret (failed_consolidation
                  (if HasError (error_of cursorResult) then error_of cursorResult
                   else mk_error ''cursor_load_failed'' ''failed to load consolidation cursor'' [] False))) sys1
           else go t call (EventsLoad (payload_of cursorResult)) sys1)"

definition step_events :: "json_lib \<Rightarrow> nat \<Rightarrow> consolidation_call \<Rightarrow> string \<Rightarrow> system \<Rightarrow> system" where
  "step_events J t call startCursor sys =
     (let request = cc_request call;
          (eventsResult, rt) =
            on_store (LoadEventsAfterCursor J (cr_agentId request) (cr_sessionId request) startCursor
              (cr_excludedSessionIds request)) (sys_runtime sys);
          sys1 = sys\<lparr>sys_runtime := rt\<rparr>
      in if \<not> succeeded eventsResult
         then leave t call (Ret (failed_consolidation
                (if HasError (error_of eventsResult) then error_of eventsResult
                 else mk_error ''events_load_failed'' ''failed to load events for consolidation'' [] False))) sys1
         else go t call (Process (payload_of eventsResult)) sys1)"

text \<open>
  The service: it builds the batch and asks the model without touching the store, then writes in one
  transaction. An exception leaves through the lock guard too.
\<close>

definition step_process :: "json_lib \<Rightarrow> nat \<Rightarrow> consolidation_call \<Rightarrow> MemoryEvent list \<Rightarrow> system \<Rightarrow> system" where
  "step_process J t call events sys =
     (let (result, rt) =
            on_store (Consolidate J (rt_consolidationService (sys_runtime sys)) (cc_request call) events (cc_model call))
              (sys_runtime sys)
      in leave t call result (sys\<lparr>sys_runtime := rt\<rparr>))"

text \<open>The next step of thread \<open>t\<close>, \<open>None\<close> when it is not in a call, has returned, or waits for the mutex.\<close>

definition call_step :: "json_lib \<Rightarrow> nat \<Rightarrow> system \<Rightarrow> system option" where
  "call_step J t sys =
     (case sys_calls sys t of
        None \<Rightarrow> None
      | Some call \<Rightarrow>
          (case cc_point call of
             Entry \<Rightarrow> Some (step_entry t call sys)
           | Acquire \<Rightarrow> step_acquire t call sys
           | CursorLoad \<Rightarrow> Some (step_cursor t call sys)
           | EventsLoad c \<Rightarrow> Some (step_events J t call c sys)
           | Process events \<Rightarrow> Some (step_process J t call events sys)
           | Return r \<Rightarrow> None))"

text \<open>Running the threads of a schedule one step each, \<open>None\<close> when one of them cannot move.\<close>

fun run_schedule :: "json_lib \<Rightarrow> nat list \<Rightarrow> system \<Rightarrow> system option" where
  "run_schedule J [] sys = Some sys"
| "run_schedule J (t # ts) sys = Option.bind (call_step J t sys) (run_schedule J ts)"

text \<open>One thread running on its own until it cannot move, at most \<open>n\<close> steps.\<close>

fun run_alone :: "json_lib \<Rightarrow> nat \<Rightarrow> nat \<Rightarrow> system \<Rightarrow> system" where
  "run_alone J 0 t sys = sys"
| "run_alone J (Suc n) t sys =
     (case call_step J t sys of None \<Rightarrow> sys | Some sys1 \<Rightarrow> run_alone J n t sys1)"

section \<open>Where a call is\<close>

text \<open>Between the lock guard's construction and its end.\<close>

fun in_section :: "point \<Rightarrow> bool" where
  "in_section CursorLoad = True"
| "in_section (EventsLoad c) = True"
| "in_section (Process events) = True"
| "in_section p = False"

definition inside :: "nat \<Rightarrow> system \<Rightarrow> bool" where
  "inside t sys = (case sys_calls sys t of Some call \<Rightarrow> in_section (cc_point call) | None \<Rightarrow> False)"

fun has_returned :: "point \<Rightarrow> bool" where
  "has_returned (Return r) = True"
| "has_returned p = False"

definition running :: "nat \<Rightarrow> system \<Rightarrow> bool" where
  "running t sys = (case sys_calls sys t of Some call \<Rightarrow> \<not> has_returned (cc_point call) | None \<Rightarrow> False)"

text \<open>How many steps a call still has to take.\<close>

fun steps_left :: "point \<Rightarrow> nat" where
  "steps_left Entry = 5"
| "steps_left Acquire = 4"
| "steps_left CursorLoad = 3"
| "steps_left (EventsLoad c) = 2"
| "steps_left (Process events) = 1"
| "steps_left (Return r) = 0"

definition call_steps_left :: "system \<Rightarrow> nat \<Rightarrow> nat" where
  "call_steps_left sys t = (case sys_calls sys t of Some call \<Rightarrow> steps_left (cc_point call) | None \<Rightarrow> 0)"

definition total_steps_left :: "system \<Rightarrow> nat" where
  "total_steps_left sys = sum (call_steps_left sys) (dom (sys_calls sys))"

end
