(* ===== verification/Threads_Laws.thy ===== *)
theory Threads_Laws
  imports Threads Runtime_Properties
begin

text \<open>
  The interleavings of several threads on one runtime, who is inside the section the mutex guards,
  and what the loaded cursor and the loaded events of a call still mean when the call goes on.
\<close>

section \<open>One step of a thread\<close>

text \<open>How a step moves its thread and the mutex; what it does to the store comes later.\<close>

definition moves :: "nat \<Rightarrow> system \<Rightarrow> consolidation_call \<Rightarrow> point \<Rightarrow> system \<Rightarrow> bool" where
  "moves t sys call p sys' =
     (sys_calls sys t = Some call \<and> sys_calls sys' = (sys_calls sys)(t \<mapsto> call\<lparr>cc_point := p\<rparr>) \<and>
      steps_left p < steps_left (cc_point call))"

lemma go_sel [simp]:
  "sys_calls (go t call p sys) = (sys_calls sys)(t \<mapsto> call\<lparr>cc_point := p\<rparr>)"
  "sys_holder (go t call p sys) = sys_holder sys" "sys_runtime (go t call p sys) = sys_runtime sys"
  by (simp_all add: go_def)

lemma leave_sel [simp]:
  "sys_calls (leave t call r sys) = (sys_calls sys)(t \<mapsto> call\<lparr>cc_point := Return r\<rparr>)"
  "sys_holder (leave t call r sys) = None" "sys_runtime (leave t call r sys) = sys_runtime sys"
  by (simp_all add: leave_def unlock_consolidation_def)

lemma step_entry_shape: "\<exists>p. step_entry t call sys = go t call p sys \<and> p \<in> insert Acquire (range Return)"
  by (auto simp: step_entry_def Let_def)

lemma step_cursor_shape:
  "\<exists>rt. (\<exists>c. step_cursor t call sys = go t call (EventsLoad c) (sys\<lparr>sys_runtime := rt\<rparr>)) \<or>
        (\<exists>r. step_cursor t call sys = leave t call r (sys\<lparr>sys_runtime := rt\<rparr>))"
proof (cases "cr_forceReprocess (cc_request call)")
  case True
  then have "step_cursor t call sys = go t call (EventsLoad []) (sys\<lparr>sys_runtime := sys_runtime sys\<rparr>)" by (simp add: step_cursor_def)
  then show ?thesis by blast
next
  case False
  then show ?thesis unfolding step_cursor_def Let_def by (auto split: prod.split)
qed

lemma step_events_shape:
  "\<exists>rt. (\<exists>ev. step_events J t call c sys = go t call (Process ev) (sys\<lparr>sys_runtime := rt\<rparr>)) \<or>
        (\<exists>r. step_events J t call c sys = leave t call r (sys\<lparr>sys_runtime := rt\<rparr>))"
  unfolding step_events_def Let_def by (auto split: prod.split)

lemma step_process_shape: "\<exists>r rt. step_process J t call events sys = leave t call r (sys\<lparr>sys_runtime := rt\<rparr>)"
  by (auto simp: step_process_def split: prod.split)

lemma call_step_cases [consumes 1, case_names entry acquire onward out]:
  assumes "call_step J t sys = Some sys'"
  obtains (entry) call p where "moves t sys call p sys'" "cc_point call = Entry" "\<not> in_section p"
      "sys_holder sys' = sys_holder sys" "sys_runtime sys' = sys_runtime sys"
  | (acquire) call where "moves t sys call CursorLoad sys'" "cc_point call = Acquire" "sys_holder sys = None"
      "sys_holder sys' = Some t" "sys_runtime sys' = sys_runtime sys"
  | (onward) call p where "moves t sys call p sys'" "in_section (cc_point call)" "in_section p" "sys_holder sys' = sys_holder sys"
  | (out) call r where "moves t sys call (Return r) sys'" "in_section (cc_point call)" "sys_holder sys' = None"
proof -
  obtain call where call: "sys_calls sys t = Some call" using assms by (auto simp: call_step_def split: option.splits)
  note step = assms [unfolded call_step_def call option.case]
  have further: thesis if "sys' = go t call p (sys\<lparr>sys_runtime := rt\<rparr>)" "in_section (cc_point call)" "in_section p"
      "steps_left p < steps_left (cc_point call)" for p rt
    using that call by (intro onward [of call p]) (simp_all add: moves_def)
  have done_with: thesis if "sys' = leave t call r (sys\<lparr>sys_runtime := rt\<rparr>)" "in_section (cc_point call)"
      "0 < steps_left (cc_point call)" for r rt
    using that call by (intro out [of call r]) (simp_all add: moves_def)
  show thesis
  proof (cases "cc_point call")
    case Entry
    with step step_entry_shape [of t call sys] obtain p where "sys' = go t call p sys" "p \<in> insert Acquire (range Return)" by auto
    with call Entry show thesis by (intro entry [of call p]) (auto simp: moves_def)
  next
    case Acquire
    with step call show thesis
      by (intro acquire [of call]) (auto simp: step_acquire_def lock_consolidation_def moves_def split: if_splits)
  next
    case CursorLoad
    with step step_cursor_shape [of t call sys] further done_with show thesis by fastforce
  next
    case (EventsLoad c)
    with step step_events_shape [of J t call c sys] further done_with show thesis by fastforce
  next
    case (Process events)
    with step step_process_shape [of J t call events sys] done_with show thesis by fastforce
  next
    case (Return r)
    with step show thesis by simp
  qed
qed

section \<open>The guarded section\<close>

definition section_ok :: "system \<Rightarrow> bool" where
  "section_ok sys = (finite (dom (sys_calls sys)) \<and> (\<forall>t. inside t sys = (sys_holder sys = Some t)))"

lemma inside_moves:
  assumes "moves t sys call p sys'"
  shows "inside u sys' = (if u = t then in_section p else inside u sys)" "inside t sys = in_section (cc_point call)"
  using assms by (auto simp: moves_def inside_def)

lemma section_ok_step:
  assumes "section_ok sys" "call_step J t sys = Some sys'"
  shows "section_ok sys'"
proof -
  have "finite (dom (sys_calls sys'))" using assms by (auto simp: section_ok_def moves_def elim!: call_step_cases)
  moreover have "inside u sys' = (sys_holder sys' = Some u)" for u
    using assms(2)
  proof (cases rule: call_step_cases)
    case (entry call p)
    with assms(1) inside_moves [OF entry(1)] show ?thesis by (auto simp: section_ok_def)
  next
    case (acquire call)
    with assms(1) inside_moves [OF acquire(1)] show ?thesis by (auto simp: section_ok_def)
  next
    case (onward call p)
    with assms(1) inside_moves [OF onward(1)] show ?thesis by (auto simp: section_ok_def)
  next
    case (out call r)
    with assms(1) inside_moves [OF out(1)] show ?thesis by (auto simp: section_ok_def)
  qed
  ultimately show ?thesis by (simp add: section_ok_def)
qed

text \<open>Whoever holds the mutex can go on, and so can everybody else while it is free.\<close>

lemma some_thread_moves:
  assumes "section_ok sys" "running t sys"
  obtains u sys' where "call_step J u sys = Some sys'"
proof (cases "sys_holder sys")
  case None
  from assms(2) obtain call where "sys_calls sys t = Some call" "\<not> has_returned (cc_point call)"
    by (auto simp: running_def split: option.splits)
  with None show thesis
    using that [of t] by (cases "cc_point call") (auto simp: call_step_def step_acquire_def lock_consolidation_def)
next
  case (Some u)
  with assms(1) have "inside u sys" by (simp add: section_ok_def)
  then obtain call where "sys_calls sys u = Some call" "in_section (cc_point call)" by (auto simp: inside_def split: option.splits)
  then show thesis using that [of u] by (cases "cc_point call") (auto simp: call_step_def)
qed

lemma total_steps_left_step:
  assumes "section_ok sys" "call_step J t sys = Some sys'"
  shows "total_steps_left sys' < total_steps_left sys"
proof -
  obtain call p where m: "moves t sys call p sys'" using assms(2) by (cases rule: call_step_cases)
  then have dom: "dom (sys_calls sys') = dom (sys_calls sys)" and t: "t \<in> dom (sys_calls sys)" by (auto simp: moves_def)
  have fin: "finite (dom (sys_calls sys))" using assms(1) by (simp add: section_ok_def)
  show ?thesis unfolding total_steps_left_def dom
  proof (rule sum_strict_mono_ex1 [OF fin])
    show "\<forall>u\<in>dom (sys_calls sys). call_steps_left sys' u \<le> call_steps_left sys u"
      using m by (auto simp: moves_def call_steps_left_def)
    show "\<exists>u\<in>dom (sys_calls sys). call_steps_left sys' u < call_steps_left sys u"
      using m t by (intro bexI [of _ t]) (auto simp: moves_def call_steps_left_def)
  qed
qed

lemma run_schedule_bounded:
  "section_ok sys \<Longrightarrow> run_schedule J ts sys = Some sys' \<Longrightarrow>
    section_ok sys' \<and> total_steps_left sys' + length ts \<le> total_steps_left sys"
proof (induction ts arbitrary: sys)
  case (Cons t ts)
  then obtain sys1 where 1: "call_step J t sys = Some sys1" "run_schedule J ts sys1 = Some sys'" by (auto split: Option.bind_splits)
  from Cons.IH [OF section_ok_step [OF Cons.prems(1) 1(1)] 1(2)] total_steps_left_step [OF Cons.prems(1) 1(1)] show ?case by simp
qed simp

section \<open>What a call has loaded\<close>

text \<open>
  Two requests of one scope: they differ at most in how many events a run takes and in their
  metadata, and neither asks for reprocessing.
\<close>

definition same_scope :: "MemoryConsolidationRequest \<Rightarrow> MemoryConsolidationRequest \<Rightarrow> bool" where
  "same_scope request q =
     (cr_agentId q = cr_agentId request \<and> cr_sessionId q = cr_sessionId request \<and>
      cr_excludedSessionIds q = cr_excludedSessionIds request \<and> \<not> cr_forceReprocess q \<and> 0 < cr_maxEvents q)"

text \<open>Beside the requests of the scope, any request of another scope may run.\<close>

definition admissible :: "MemoryConsolidationRequest \<Rightarrow> MemoryConsolidationRequest \<Rightarrow> bool" where
  "admissible request q = (same_scope request q \<or> scope_of q \<noteq> scope_of request)"

lemma same_scope_eqs:
  assumes "same_scope request q"
  shows "saved_pos q = saved_pos request" "pending J q = pending J request" "events_since J q = events_since J request"
    "batch_keeps q = batch_keeps request" "\<not> cr_forceReprocess q" "0 < cr_maxEvents q"
proof -
  have eq: "cr_agentId q = cr_agentId request" "cr_sessionId q = cr_sessionId request"
    "cr_excludedSessionIds q = cr_excludedSessionIds request" using assms by (simp_all add: same_scope_def)
  show p: "saved_pos q = saved_pos request" by (rule ext) (simp only: saved_pos_def eq)
  show e: "events_since J q = events_since J request" by (intro ext) (simp only: events_since_def request_wants_def eq)
  show "pending J q = pending J request" by (rule ext) (simp only: pending_def p e)
  show "batch_keeps q = batch_keeps request" by (rule ext) (simp only: batch_keeps_def batch_skips_def eq)
qed (use assms in \<open>simp_all add: same_scope_def\<close>)

text \<open>
  Outside a transaction, a loaded cursor is the saved one and the loaded events are a prefix of what
  is pending.
\<close>

fun point_ok :: "json_lib \<Rightarrow> MemoryConsolidationRequest \<Rightarrow> store \<Rightarrow> point \<Rightarrow> bool" where
  "point_ok J request s (EventsLoad c) = (s_saved s = None \<longrightarrow> CursorToInt c = saved_pos request (durable s))"
| "point_ok J request s (Process events) = (s_saved s = None \<longrightarrow> (\<exists>later. pending J request (durable s) = events @ later))"
| "point_ok J request s p = True"

definition calls_ok :: "json_lib \<Rightarrow> MemoryConsolidationRequest \<Rightarrow> store \<Rightarrow> system \<Rightarrow> bool" where
  "calls_ok J request s sys =
     (\<forall>t call. sys_calls sys t = Some call \<longrightarrow> admissible request (cc_request call) \<and>
        (same_scope request (cc_request call) \<longrightarrow> point_ok J request s (cc_point call)))"

lemma point_ok_outside: "\<not> in_section p \<Longrightarrow> point_ok J request s p"
  by (cases p) auto

lemma point_ok_view:
  assumes "point_ok J request s p" "s_saved s' = s_saved s" "cursor_view (durable s') = cursor_view (durable s)"
  shows "point_ok J request s' p"
  using assms(1,2) cursor_view_pending(2,3) [OF assms(3)] by (cases p) auto

lemma point_ok_append:
  assumes "point_ok J request s p" "s_saved s' = s_saved s" "appends J (durable s) x (durable s')"
    and "saved_pos request (durable s) \<le> seq_events (durable s)"
  shows "point_ok J request s' p"
proof -
  have pos: "saved_pos request (durable s') = saved_pos request (durable s)"
    using assms(3) by (intro saved_pos_cursors) (simp add: appends_def)
  have "\<exists>new. pending J request (durable s') = pending J request (durable s) @ new"
    unfolding pending_def pos using events_since_appends [OF assms(3,4)] by blast
  with assms(1,2) pos show ?thesis by (cases p) auto
qed

lemma calls_ok_map:
  assumes "calls_ok J request s sys" "\<And>p. point_ok J request s p \<Longrightarrow> point_ok J request s' p" "sys_calls sys' = sys_calls sys"
  shows "calls_ok J request s' sys'"
  using assms unfolding calls_ok_def by metis

text \<open>A step inside the section: the other calls are outside of it and hold nothing.\<close>

lemma calls_ok_inside:
  assumes ok: "calls_ok J request s sys" "section_ok sys" and m: "moves t sys call p sys'" "in_section (cc_point call)"
    and p: "same_scope request (cc_request call) \<Longrightarrow> point_ok J request s' p"
  shows "calls_ok J request s' sys'"
  unfolding calls_ok_def
proof (intro allI impI)
  fix u c
  assume c: "sys_calls sys' u = Some c"
  show "admissible request (cc_request c) \<and> (same_scope request (cc_request c) \<longrightarrow> point_ok J request s' (cc_point c))"
  proof (cases "u = t")
    case True
    with c m(1) ok(1) p show ?thesis by (auto simp: moves_def calls_ok_def)
  next
    case False
    with c m(1) have u: "sys_calls sys u = Some c" by (simp add: moves_def)
    have "inside t sys" using inside_moves(2) [OF m(1)] m(2) by simp
    with ok(2) False have "\<not> inside u sys" by (auto simp: section_ok_def)
    with u have "\<not> in_section (cc_point c)" by (simp add: inside_def)
    with u ok(1) point_ok_outside show ?thesis by (auto simp: calls_ok_def)
  qed
qed

section \<open>A step keeps the balance\<close>

text \<open>The messages of the scope that the step of thread \<open>t\<close> has processed.\<close>

definition done_by :: "MemoryConsolidationRequest \<Rightarrow> nat \<Rightarrow> system \<Rightarrow> system \<Rightarrow> MemoryEvent list" where
  "done_by request t sys sys' =
     (case (sys_calls sys t, sys_calls sys' t) of
        (Some call, Some call') \<Rightarrow>
          (case (cc_point call, cc_point call') of
             (Process events, Return r) \<Rightarrow>
               if same_scope request (cc_request call) then batch_done (cc_request call) events r else []
           | _ \<Rightarrow> [])
      | _ \<Rightarrow> [])"

text \<open>The system after thread \<open>t\<close> moved is in order: the store is there, the balance and the calls are right.\<close>

definition in_order :: "json_lib \<Rightarrow> MemoryConsolidationRequest \<Rightarrow> int \<Rightarrow> MemoryEvent list \<Rightarrow> system \<Rightarrow> bool" where
  "in_order J request c xs sys =
     (\<exists>s. rt_store (sys_runtime sys) = Some s \<and> balanced J request c xs s \<and> calls_ok J request s sys)"

lemma balanced_read:
  assumes "balanced J request c xs s" "read_step s s1"
  shows "balanced J request c xs s1"
  using balanced_view [OF assms(1)] read_step_frame [OF assms(2)] assms(1) by (simp add: balanced_def)

lemma step_cursor_ok:
  assumes st: "rt_store (sys_runtime sys) = Some s" and ok: "balanced J request c xs s" "calls_ok J request s sys" "section_ok sys"
    and call: "sys_calls sys t = Some call" "cc_point call = CursorLoad"
  shows "in_order J request c xs (step_cursor t call sys)"
proof (cases "cr_forceReprocess (cc_request call)")
  case True
  then have s: "step_cursor t call sys = go t call (EventsLoad []) sys" by (simp add: step_cursor_def)
  have m: "moves t sys call (EventsLoad []) (step_cursor t call sys)" using call by (simp add: s moves_def)
  have "calls_ok J request s (step_cursor t call sys)"
    by (rule calls_ok_inside [OF ok(2,3) m]) (use call True same_scope_eqs(5) in auto)
  with st ok(1) show ?thesis by (auto simp: in_order_def s)
next
  case False
  let ?q = "cc_request call"
  obtain r s1 where r: "LoadConsolidationCursor (cr_agentId ?q) (cr_sessionId ?q) s = (r, s1)" by fastforce
  note f = read_step_frame [OF LoadConsolidationCursor_read [OF r]]
  let ?sys = "sys\<lparr>sys_runtime := (sys_runtime sys)\<lparr>rt_store := Some s1\<rparr>\<rparr>"
  have inv: "store_inv s" using ok(1) by (simp add: balanced_def)
  have s: "step_cursor t call sys = (if succeeded r then go t call (EventsLoad (payload_of r)) ?sys
      else leave t call (Ret (failed_consolidation (if HasError (error_of r) then error_of r
        else mk_error ''cursor_load_failed'' ''failed to load consolidation cursor'' [] False))) ?sys)"
    using False st r by (simp add: step_cursor_def on_store_def)
  obtain p where p: "moves t sys call p (step_cursor t call sys)"
      "p = (if succeeded r then EventsLoad (payload_of r) else Return (Ret (failed_consolidation (if HasError (error_of r) then error_of r
        else mk_error ''cursor_load_failed'' ''failed to load consolidation cursor'' [] False))))"
    using call by (simp add: s moves_def)
  have "point_ok J request s1 p" if "same_scope request ?q"
  proof (cases "succeeded r")
    case True
    obtain d where "s_db s = Some d" "CursorToInt (payload_of r) = saved_pos ?q d" by (rule load_cursor [OF inv r True])
    with f same_scope_eqs(1) [OF that] True p(2) show ?thesis by (simp add: durable_def)
  next
    case False
    with p(2) show ?thesis by simp
  qed
  then have "calls_ok J request s1 (step_cursor t call sys)"
    by (intro calls_ok_inside [OF ok(2,3) p(1)]) (use call in auto)
  moreover have "rt_store (sys_runtime (step_cursor t call sys)) = Some s1" by (simp add: s)
  ultimately show ?thesis using balanced_read [OF ok(1) LoadConsolidationCursor_read [OF r]] by (auto simp: in_order_def)
qed

lemma step_events_ok:
  assumes st: "rt_store (sys_runtime sys) = Some s" and ok: "balanced J request c xs s" "calls_ok J request s sys" "section_ok sys"
    and call: "sys_calls sys t = Some call" "cc_point call = EventsLoad start"
  shows "in_order J request c xs (step_events J t call start sys)"
proof -
  let ?q = "cc_request call"
  obtain r s1 where r: "LoadEventsAfterCursor J (cr_agentId ?q) (cr_sessionId ?q) start (cr_excludedSessionIds ?q) s = (r, s1)" by fastforce
  note f = read_step_frame [OF LoadEventsAfterCursor_read [OF r]]
  let ?sys = "sys\<lparr>sys_runtime := (sys_runtime sys)\<lparr>rt_store := Some s1\<rparr>\<rparr>"
  have inv: "store_inv s" using ok(1) by (simp add: balanced_def)
  let ?failed = "Ret (failed_consolidation (if HasError (error_of r) then error_of r
        else mk_error ''events_load_failed'' ''failed to load events for consolidation'' [] False))"
  have s: "step_events J t call start sys =
      (if succeeded r then go t call (Process (payload_of r)) ?sys else leave t call ?failed ?sys)"
    using st r by (simp add: step_events_def on_store_def)
  obtain p where p: "moves t sys call p (step_events J t call start sys)"
      "p = (if succeeded r then Process (payload_of r) else Return ?failed)"
    using call by (simp add: s moves_def)
  have "point_ok J request s1 p" if same: "same_scope request ?q"
  proof (cases "succeeded r")
    case True
    obtain d where d: "s_db s = Some d" "payload_of r = events_since J ?q (CursorToInt start) d" by (rule load_events [OF inv r True])
    have "point_ok J request s (EventsLoad start)" using ok(2) call same unfolding calls_ok_def by metis
    then have "payload_of r = pending J request (durable s)" if "s_saved s = None"
      using that d same_scope_eqs(3) [OF same] by (simp add: durable_def pending_def)
    with f True p(2) show ?thesis by simp
  next
    case False
    with p(2) show ?thesis by simp
  qed
  then have "calls_ok J request s1 (step_events J t call start sys)"
    by (intro calls_ok_inside [OF ok(2,3) p(1)]) (use call in auto)
  moreover have "rt_store (sys_runtime (step_events J t call start sys)) = Some s1" by (simp add: s)
  ultimately show ?thesis using balanced_read [OF ok(1) LoadEventsAfterCursor_read [OF r]] by (auto simp: in_order_def)
qed

text \<open>Writing the update: the cursor moves over the events the call has processed.\<close>

lemma balanced_process:
  assumes bal: "balanced J request c xs s" and q: "admissible request q"
    and loaded: "same_scope request q \<Longrightarrow> point_ok J request s (Process events)"
    and run: "Consolidate J fallback q events model s = (r, s')"
  shows "balanced J request c (xs @ (if same_scope request q then batch_done q events r else [])) s'"
proof (cases "same_scope request q")
  case True
  note eq = same_scope_eqs [OF True]
  have inv: "store_inv s" using bal by (simp add: balanced_def)
  note inv' = Consolidate_inv [OF run inv] and log = Consolidate_keeps_log [OF run]
  obtain later where later: "s_saved s = None \<Longrightarrow> pending J q (durable s) = events @ later"
    using loaded [OF True] by (auto simp: eq(2))
  from Consolidate_loaded [OF inv eq(6) run, of later] later
  consider (same) "durable s' = durable s" "batch_done q events r = []"
    | (took) pre post where "consumes J q s pre (post @ later) s'" "batch_done q events r = filter (batch_keeps q) pre" by blast
  then show ?thesis
  proof cases
    case same
    with balanced_view [OF bal inv'] True show ?thesis by simp
  next
    case took
    have "balanced J q c xs s" using bal by (simp add: balanced_def eq(1-4))
    from balanced_consumes [OF this took(1) inv' log] took(2) True show ?thesis by (simp add: balanced_def eq(1-4))
  qed
next
  case False
  with q have "scope_of q \<noteq> (c_str (cr_agentId request), c_str (cr_sessionId request))"
    by (simp add: admissible_def scope_of_def)
  note scope = Consolidate_keeps_scope [OF run this]
  have "store_inv s'" using Consolidate_inv [OF run] bal by (simp add: balanced_def)
  from balanced_scope [OF bal this scope] False show ?thesis by simp
qed

lemma step_process_ok:
  assumes st: "rt_store (sys_runtime sys) = Some s" and ok: "balanced J request c xs s" "calls_ok J request s sys" "section_ok sys"
    and call: "sys_calls sys t = Some call" "cc_point call = Process events"
  shows "in_order J request c (xs @ done_by request t sys (step_process J t call events sys)) (step_process J t call events sys)"
proof -
  let ?q = "cc_request call"
  obtain r s1 where r: "Consolidate J (rt_consolidationService (sys_runtime sys)) ?q events (cc_model call) s = (r, s1)" by fastforce
  have s: "step_process J t call events sys = leave t call r (sys\<lparr>sys_runtime := (sys_runtime sys)\<lparr>rt_store := Some s1\<rparr>\<rparr>)"
    using st r by (simp add: step_process_def on_store_def)
  have m: "moves t sys call (Return r) (step_process J t call events sys)" using call by (simp add: s moves_def)
  have "calls_ok J request s1 (step_process J t call events sys)"
    by (rule calls_ok_inside [OF ok(2,3) m]) (use call in auto)
  moreover have "done_by request t sys (step_process J t call events sys) = (if same_scope request ?q then batch_done ?q events r else [])"
    using call by (simp add: done_by_def s)
  moreover have "admissible request ?q" "same_scope request ?q \<Longrightarrow> point_ok J request s (Process events)"
    using ok(2) call unfolding calls_ok_def by metis+
  ultimately show ?thesis using balanced_process [OF ok(1) _ _ r] by (auto simp: in_order_def s)
qed

lemma call_step_ok:
  assumes ord: "in_order J request c xs sys" and sec: "section_ok sys" and step: "call_step J t sys = Some sys'"
  shows "in_order J request c (xs @ done_by request t sys sys') sys'"
proof -
  from ord obtain s where s: "rt_store (sys_runtime sys) = Some s" "balanced J request c xs s" "calls_ok J request s sys"
    by (auto simp: in_order_def)
  obtain call where call: "sys_calls sys t = Some call" using step by (auto simp: call_step_def split: option.splits)
  note step' = step [unfolded call_step_def call option.case]
  have none: "done_by request t sys sys' = []" if "\<And>ev. cc_point call \<noteq> Process ev"
    using call that by (auto simp: done_by_def split: option.splits point.splits)
  have quiet: ?thesis if m: "moves t sys call p sys'" "\<not> in_section p" "sys_runtime sys' = sys_runtime sys"
    "\<And>ev. cc_point call \<noteq> Process ev" for p
  proof -
    have "calls_ok J request s sys'"
      using m(1,2) s(3) point_ok_outside [of p J request s] by (auto simp: moves_def calls_ok_def)
    with s m(3) none [OF m(4)] show ?thesis by (auto simp: in_order_def)
  qed
  show ?thesis
  proof (cases "cc_point call")
    case Entry
    with step' step_entry_shape [of t call sys] obtain p where "sys' = go t call p sys" "p \<in> insert Acquire (range Return)" by auto
    with call Entry show ?thesis by (intro quiet [of p]) (auto simp: moves_def)
  next
    case Acquire
    have "calls_ok J request s sys'" using step' Acquire s(3) call
      by (auto simp: step_acquire_def lock_consolidation_def calls_ok_def split: if_splits)
    moreover have "sys_runtime sys' = sys_runtime sys"
      using step' Acquire by (auto simp: step_acquire_def lock_consolidation_def split: if_splits)
    ultimately show ?thesis using s none Acquire by (auto simp: in_order_def)
  next
    case CursorLoad
    with step' step_cursor_ok [OF s sec call] none show ?thesis by simp
  next
    case (EventsLoad start)
    with step' step_events_ok [OF s sec call] none show ?thesis by simp
  next
    case (Process events)
    with step' step_process_ok [OF s sec call] show ?thesis by simp
  next
    case (Return r)
    with step' show ?thesis by simp
  qed
qed

section \<open>A step keeps the log\<close>

lemma call_step_log:
  assumes st: "rt_store (sys_runtime sys) = Some s" "store_inv s" and step: "call_step J t sys = Some sys'"
  shows "\<exists>s'. rt_store (sys_runtime sys') = Some s' \<and> store_inv s' \<and> log_view (durable s') = log_view (durable s)"
proof -
  obtain call where call: "sys_calls sys t = Some call" using step by (auto simp: call_step_def split: option.splits)
  note step' = step [unfolded call_step_def call option.case]
  have stay: ?thesis if "sys_runtime sys' = sys_runtime sys" using that st by auto
  have quiet: ?thesis if "rt_store (sys_runtime sys') = Some s'" "read_step s s'" for s'
    using that st(2) read_step_frame [OF that(2)] by auto
  let ?q = "cc_request call"
  show ?thesis
  proof (cases "cc_point call")
    case Entry
    with step' step_entry_shape [of t call sys] show ?thesis by (intro stay) auto
  next
    case Acquire
    with step' show ?thesis by (intro stay) (auto simp: step_acquire_def lock_consolidation_def split: if_splits)
  next
    case CursorLoad
    obtain r s1 where r: "LoadConsolidationCursor (cr_agentId ?q) (cr_sessionId ?q) s = (r, s1)" by fastforce
    have "sys_runtime sys' = sys_runtime sys \<or> rt_store (sys_runtime sys') = Some s1"
      using step' CursorLoad st(1) r by (auto simp: step_cursor_def on_store_def Let_def split: if_splits)
    then show ?thesis using stay quiet [OF _ LoadConsolidationCursor_read [OF r]] by blast
  next
    case (EventsLoad c)
    obtain r s1 where r: "LoadEventsAfterCursor J (cr_agentId ?q) (cr_sessionId ?q) c (cr_excludedSessionIds ?q) s = (r, s1)" by fastforce
    have "rt_store (sys_runtime sys') = Some s1"
      using step' EventsLoad st(1) r by (auto simp: step_events_def on_store_def Let_def split: if_splits)
    then show ?thesis by (rule quiet [OF _ LoadEventsAfterCursor_read [OF r]])
  next
    case (Process events)
    obtain r s1 where r: "Consolidate J (rt_consolidationService (sys_runtime sys)) ?q events (cc_model call) s = (r, s1)" by fastforce
    have "rt_store (sys_runtime sys') = Some s1"
      using step' Process st(1) r by (auto simp: step_process_def on_store_def)
    then show ?thesis using Consolidate_inv [OF r st(2)] Consolidate_keeps_log [OF r] by blast
  next
    case (Return r)
    with step' show ?thesis by simp
  qed
qed

end
