(* ===== verification/Threads_Properties.thy ===== *)
theory Threads_Properties
  imports Threads_Laws
begin

text \<open>
  What holds of a runtime that several threads use: consolidations exclude each other and all return,
  a consolidation that nobody interrupts is \<open>ConsolidateWithModel\<close>, and events are consolidated
  exactly once under every interleaving.
\<close>

section \<open>Interleavings\<close>

text \<open>
  Threads start consolidations of requests in \<open>Q\<close> at any time and take their steps in any order;
  between any two steps events are appended, payloads written, something is read, the clock and the
  coming faults change, or the process dies, taking its threads along, and starts again on the same
  file. The list holds the messages of the scope of \<open>request\<close> processed so far.
\<close>

inductive interleaving ::
  "json_lib \<Rightarrow> (MemoryConsolidationRequest \<Rightarrow> bool) \<Rightarrow> MemoryConsolidationRequest \<Rightarrow> runtime \<Rightarrow> MemoryEvent list \<Rightarrow> system \<Rightarrow> bool"
  for J Q request rt0 where
  start: "interleaving J Q request rt0 [] (boot rt0)"
| call: "interleaving J Q request rt0 xs sys \<Longrightarrow> \<not> running t sys \<Longrightarrow> Q q \<Longrightarrow>
    interleaving J Q request rt0 xs
      (sys\<lparr>sys_calls := (sys_calls sys)(t \<mapsto> \<lparr>cc_request = q, cc_model = model, cc_point = Entry\<rparr>)\<rparr>)"
| step: "interleaving J Q request rt0 xs sys \<Longrightarrow> call_step J t sys = Some sys' \<Longrightarrow>
    interleaving J Q request rt0 (xs @ done_by request t sys sys') sys'"
| append: "interleaving J Q request rt0 xs sys \<Longrightarrow> AppendEvent J e (sys_runtime sys) = (r, rt') \<Longrightarrow>
    interleaving J Q request rt0 xs (sys\<lparr>sys_runtime := rt'\<rparr>)"
| payload: "interleaving J Q request rt0 xs sys \<Longrightarrow> RuntimeWritePayload rnd p F (sys_runtime sys) = (r, F', rt') \<Longrightarrow>
    interleaving J Q request rt0 xs (sys\<lparr>sys_runtime := rt'\<rparr>)"
| read: "interleaving J Q request rt0 xs sys \<Longrightarrow> rt_store (sys_runtime sys) = Some s \<Longrightarrow> read_step s s' \<Longrightarrow>
    interleaving J Q request rt0 xs (sys\<lparr>sys_runtime := (sys_runtime sys)\<lparr>rt_store := Some s'\<rparr>\<rparr>)"
| environment: "interleaving J Q request rt0 xs sys \<Longrightarrow> rt_store (sys_runtime sys) = Some s \<Longrightarrow>
    interleaving J Q request rt0 xs
      (sys\<lparr>sys_runtime := (sys_runtime sys)\<lparr>rt_store := Some (s\<lparr>s_faults := fs, s_now := n, s_errmsg := m\<rparr>)\<rparr>\<rparr>)"
| restart: "interleaving J Q request rt0 xs sys \<Longrightarrow> rt_store (sys_runtime sys) = Some s \<Longrightarrow>
    CreateRuntimeServices J post config F (close_store s\<lparr>s_faults := fs, s_now := n, s_errmsg := m\<rparr>) = (rt', F') \<Longrightarrow>
    interleaving J Q request rt0 xs (boot rt')"

lemma section_ok_boot: "section_ok (boot rt)"
  by (simp add: section_ok_def boot_def inside_def)

lemma section_ok_runtime: "section_ok (sys\<lparr>sys_runtime := rt\<rparr>) = section_ok sys"
  by (simp add: section_ok_def inside_def)

lemma section_ok_call:
  assumes "section_ok sys" "\<not> running t sys" "cc_point c = Entry"
  shows "section_ok (sys\<lparr>sys_calls := (sys_calls sys)(t \<mapsto> c)\<rparr>)"
proof -
  have "\<not> inside t sys" using assms(2) unfolding running_def inside_def
    by (auto split: option.splits elim: in_section.elims)
  then have "sys_holder sys \<noteq> Some t" using assms(1) by (simp add: section_ok_def)
  with assms(1,3) show ?thesis by (auto simp: section_ok_def inside_def)
qed

lemma interleaving_section: "interleaving J Q request rt0 xs sys \<Longrightarrow> section_ok sys"
  by (induction rule: interleaving.induct)
    (simp_all add: section_ok_boot section_ok_runtime section_ok_call section_ok_step)

text \<open>
  Two threads enter; the first loads its events while the second waits; an event is appended; then
  the first writes, and the second takes its turn.
\<close>

definition entering :: consolidation_call where
  "entering = \<lparr>cc_request = one_message, cc_model = None, cc_point = Entry\<rparr>"

definition crowd :: system where
  "crowd = (boot greeted)\<lparr>sys_calls := [1 \<mapsto> entering, 2 \<mapsto> entering]\<rparr>"

definition crowd_midway :: system where
  "crowd_midway = the (run_schedule plain_lib [1, 1, 2, 1, 1] crowd)"

definition crowd_appended :: system where
  "crowd_appended = crowd_midway\<lparr>sys_runtime := snd (AppendEvent plain_lib hello (sys_runtime crowd_midway))\<rparr>"

definition crowd_served :: system where
  "crowd_served = the (run_schedule plain_lib [1, 2, 2, 2, 2] crowd_appended)"

fun schedule_done :: "json_lib \<Rightarrow> MemoryConsolidationRequest \<Rightarrow> nat list \<Rightarrow> system \<Rightarrow> MemoryEvent list" where
  "schedule_done J request [] sys = []"
| "schedule_done J request (t # ts) sys =
     (case call_step J t sys of
        None \<Rightarrow> []
      | Some sys1 \<Rightarrow> done_by request t sys sys1 @ schedule_done J request ts sys1)"

lemma interleaving_schedule:
  "interleaving J Q request rt0 xs sys \<Longrightarrow> run_schedule J ts sys = Some sys' \<Longrightarrow>
    interleaving J Q request rt0 (xs @ schedule_done J request ts sys) sys'"
proof (induction ts arbitrary: xs sys)
  case (Cons t ts)
  then obtain sys1 where 1: "call_step J t sys = Some sys1" "run_schedule J ts sys1 = Some sys'" by (auto split: Option.bind_splits)
  from Cons.IH [OF interleaving.step [OF Cons.prems(1) 1(1)] 1(2)] 1(1) show ?case by simp
qed simp

lemma crowd_interleaving: "interleaving plain_lib ((=) one_message) one_message greeted [] crowd"
proof -
  have "interleaving plain_lib ((=) one_message) one_message greeted []
      ((boot greeted)\<lparr>sys_calls := (sys_calls (boot greeted))(1 \<mapsto> entering)\<rparr>)"
    unfolding entering_def by (rule interleaving.call [OF interleaving.start]) (simp_all add: boot_def running_def)
  from interleaving.call [OF this, of 2 one_message None, folded entering_def] show ?thesis
    by (simp add: crowd_def boot_def running_def)
qed

lemma crowd_runs:
  "run_schedule plain_lib [1, 1, 2, 1, 1] crowd = Some crowd_midway"
  "run_schedule plain_lib [1, 2, 2, 2, 2] crowd_appended = Some crowd_served"
proof -
  have "run_schedule plain_lib [1, 1, 2, 1, 1] crowd \<noteq> None" "run_schedule plain_lib [1, 2, 2, 2, 2] crowd_appended \<noteq> None"
    by code_simp+
  then show "run_schedule plain_lib [1, 1, 2, 1, 1] crowd = Some crowd_midway"
    "run_schedule plain_lib [1, 2, 2, 2, 2] crowd_appended = Some crowd_served" by (auto simp: crowd_midway_def crowd_served_def)
qed

lemma crowd_served_interleaving:
  "interleaving plain_lib ((=) one_message) one_message greeted
     (schedule_done plain_lib one_message [1, 1, 2, 1, 1] crowd @ schedule_done plain_lib one_message [1, 2, 2, 2, 2] crowd_appended)
     crowd_served"
  using interleaving_schedule [OF interleaving.append [OF interleaving_schedule [OF crowd_interleaving crowd_runs(1)] surjective_pairing,
      where e = hello, folded crowd_appended_def] crowd_runs(2)] by simp

section \<open>Mutual exclusion and progress\<close>

text \<open>
  At most one thread is between taking and releasing the consolidation mutex, and it is the one
  that holds it, in every interleaving of any number of threads and whatever they ask for: on each of
  the failure returns, and when an exception passes, the mutex was given back.
\<close>

theorem consolidations_exclude_each_other:
  assumes "interleaving J Q request rt0 xs sys" "inside t sys"
  shows "sys_holder sys = Some t \<and> (\<forall>u. u \<noteq> t \<longrightarrow> \<not> inside u sys)"
  using interleaving_section [OF assms(1)] assms(2) by (simp add: section_ok_def)

theorem consolidations_exclude_each_other_witness:
  "sys_holder crowd_midway = Some 1 \<and> running 2 crowd_midway \<and> \<not> inside 2 crowd_midway"
proof -
  have "inside 1 crowd_midway" "running 2 crowd_midway" by code_simp+
  with consolidations_exclude_each_other [OF interleaving_schedule [OF crowd_interleaving crowd_runs(1)] this(1)] show ?thesis by simp
qed

text \<open>
  C8: Concurrent consolidations all return. In any state reached, however the threads are scheduled from
  there on, they take no more steps than \<open>total_steps_left\<close>, at most five for each call; and when
  none can take another step, every call has returned and the mutex is free: no thread waits for ever.
\<close>

theorem concurrent_consolidations_return:
  assumes "interleaving J Q request rt0 xs sys" "run_schedule J ts sys = Some sys'"
  shows "length ts \<le> total_steps_left sys \<and>
    ((\<forall>t. call_step J t sys' = None) \<longrightarrow> (\<forall>t. \<not> running t sys') \<and> sys_holder sys' = None)"
proof -
  note ok = run_schedule_bounded [OF interleaving_section [OF assms(1)] assms(2)]
  have quiet: "\<not> running t sys'" if "\<forall>t. call_step J t sys' = None" for t
    using some_thread_moves [of sys' t J] ok that by fastforce
  moreover have "sys_holder sys' = None" if stuck: "\<forall>t. call_step J t sys' = None"
  proof (cases "sys_holder sys'")
    case (Some t)
    with ok have "inside t sys'" by (simp add: section_ok_def)
    then have "running t sys'" unfolding running_def inside_def by (auto split: option.splits elim: in_section.elims)
    with quiet [OF stuck] show ?thesis by blast
  qed
  ultimately show ?thesis using ok by simp
qed

theorem concurrent_consolidations_return_witness:
  "length [1, 1, 2, 1, 1 :: nat] \<le> total_steps_left crowd"
  using concurrent_consolidations_return [OF crowd_interleaving crowd_runs(1)] by simp

section \<open>A thread on its own\<close>

text \<open>The three steps inside the section, from the calls \<open>calls\<close> of all threads.\<close>

lemma run_alone_section:
  assumes st: "rt_store rt = Some s" "rt_consolidationService rt = Some service"
    and run: "ConsolidateWithModel J (cc_request call) (cc_model call) rt = (r, rt')"
  shows "run_alone J 3 t \<lparr>sys_runtime = rt, sys_holder = Some t, sys_calls = calls(t \<mapsto> call\<lparr>cc_point := CursorLoad\<rparr>)\<rparr> =
    \<lparr>sys_runtime = rt', sys_holder = None, sys_calls = calls(t \<mapsto> call\<lparr>cc_point := Return r\<rparr>)\<rparr>"
proof -
  let ?q = "cc_request call"
  let ?at = "\<lambda>p rt. \<lparr>sys_runtime = rt, sys_holder = Some t, sys_calls = calls(t \<mapsto> call\<lparr>cc_point := p\<rparr>)\<rparr>"
  let ?ret = "\<lambda>x rt. \<lparr>sys_runtime = rt, sys_holder = None, sys_calls = calls(t \<mapsto> call\<lparr>cc_point := Return x\<rparr>)\<rparr>"
  have halt: "call_step J t (?ret x u) = None" for x u by (simp add: call_step_def)
  obtain c s1 where c: "(if cr_forceReprocess ?q then (success_with [], s)
      else LoadConsolidationCursor (cr_agentId ?q) (cr_sessionId ?q) s) = (c, s1)" by fastforce
  obtain e s2 where e: "LoadEventsAfterCursor J (cr_agentId ?q) (cr_sessionId ?q) (payload_of c) (cr_excludedSessionIds ?q) s1 = (e, s2)"
    by fastforce
  obtain x s3 where x: "Consolidate J (Some service) ?q (payload_of e) (cc_model call) s2 = (x, s3)" by fastforce
  let ?no_cursor = "Ret (failed_consolidation (if HasError (error_of c) then error_of c
      else mk_error ''cursor_load_failed'' ''failed to load consolidation cursor'' [] False))"
  let ?no_events = "Ret (failed_consolidation (if HasError (error_of e) then error_of e
      else mk_error ''events_load_failed'' ''failed to load events for consolidation'' [] False))"
  let ?rt = "\<lambda>s. rt\<lparr>rt_store := Some s\<rparr>"
  have same: "rt = ?rt s" using st(1) by (cases rt) simp
  have 1: "call_step J t (?at CursorLoad rt) =
      Some (if succeeded c then ?at (EventsLoad (payload_of c)) (?rt s1) else ?ret ?no_cursor (?rt s1))"
  proof (cases "cr_forceReprocess ?q")
    case True
    with c have "c = success_with []" "s1 = s" by auto
    with True same show ?thesis by (simp add: call_step_def step_cursor_def go_def)
  next
    case False
    with c st show ?thesis
      by (simp add: call_step_def step_cursor_def go_def leave_def unlock_consolidation_def on_store_def)
  qed
  have 2: "call_step J t (?at (EventsLoad (payload_of c)) (?rt s1)) =
      Some (if succeeded e then ?at (Process (payload_of e)) (?rt s2) else ?ret ?no_events (?rt s2))"
    using e by (simp add: call_step_def step_events_def go_def leave_def unlock_consolidation_def on_store_def)
  have 3: "call_step J t (?at (Process (payload_of e)) (?rt s2)) = Some (?ret x (?rt s3))"
    using x st by (simp add: call_step_def step_process_def go_def leave_def unlock_consolidation_def on_store_def)
  have n: "(3 :: nat) = Suc (Suc (Suc 0))" by simp
  note run' = run [unfolded ConsolidateWithModel_def st option.case c e x Let_def prod.case]
  consider "\<not> succeeded c" | "succeeded c" "\<not> succeeded e" | "succeeded c" "succeeded e" by blast
  then show ?thesis
  proof cases
    case c1: 1
    with run' have "r = ?no_cursor" "rt' = ?rt s1" by auto
    with c1 1 halt show ?thesis
      unfolding n by (simp only: run_alone.simps option.case if_False)
  next
    case c2: 2
    with run' have "r = ?no_events" "rt' = ?rt s2" by auto
    with c2 1 2 halt show ?thesis unfolding n by (simp only: run_alone.simps option.case if_True if_False)
  next
    case c3: 3
    with run' have "r = x" "rt' = ?rt s3" by auto
    with c3 1 2 3 show ?thesis unfolding n by (simp only: run_alone.simps option.case if_True)
  qed
qed



section \<open>Exactly once\<close>

lemma in_order_runtime:
  assumes "in_order J request c xs sys" "rt_store (sys_runtime sys) = Some s"
    and "rt_store rt' = Some s'" "balanced J request c xs s \<Longrightarrow> balanced J request c xs s'"
    "\<And>p. balanced J request c xs s \<Longrightarrow> point_ok J request s p \<Longrightarrow> point_ok J request s' p"
  shows "in_order J request c xs (sys\<lparr>sys_runtime := rt'\<rparr>)"
proof -
  have ok: "balanced J request c xs s" "calls_ok J request s sys" using assms(1,2) by (auto simp: in_order_def)
  have "calls_ok J request s' (sys\<lparr>sys_runtime := rt'\<rparr>)"
    by (rule calls_ok_map [OF ok(2)]) (simp_all add: assms(5) ok(1))
  with assms(3) assms(4) [OF ok(1)] show ?thesis by (auto simp: in_order_def)
qed

lemma call_step_no_store:
  assumes "rt_store (sys_runtime sys) = None" "call_step J t sys = Some sys'"
  shows "rt_store (sys_runtime sys') = None"
proof -
  have keep: "rt_store (snd (on_store f (sys_runtime sys))) = None" for f :: "store \<Rightarrow> 'z \<times> store"
    using assms(1) by (simp add: on_store_def)
  from assms keep show ?thesis
    by (auto simp: call_step_def step_entry_def step_acquire_def lock_consolidation_def step_cursor_def step_events_def
        step_process_def on_store_def Let_def split: option.splits point.splits if_splits)
qed

lemma interleaving_in_order:
  assumes "interleaving J Q request rt0 xs sys" and Q: "\<And>q. Q q \<Longrightarrow> admissible request q"
    and start: "rt_store rt0 = Some s0" "balanced J request c [] s0"
  shows "rt_store (sys_runtime sys) = None \<or> in_order J request c xs sys"
  using assms(1)
proof (induction rule: interleaving.induct)
  case start
  then show ?case using assms(3,4) by (simp add: in_order_def boot_def calls_ok_def)
next
  case (call xs sys t q model)
  then show ?case using Q [OF call.hyps(3)] by (auto simp: in_order_def calls_ok_def)
next
  case (step xs sys t sys')
  then show ?case using call_step_ok [OF _ interleaving_section [OF step.hyps(1)]] call_step_no_store by blast
next
  case (append xs sys e r rt')
  show ?case
  proof (cases "rt_store (sys_runtime sys)")
    case None
    with append.hyps(2) show ?thesis by (auto simp: AppendEvent_def)
  next
    case (Some s)
    with append.IH have ord: "in_order J request c xs sys" by simp
    with Some have bal: "balanced J request c xs s" by (auto simp: in_order_def)
    then have inv: "store_inv s" by (simp add: balanced_def)
    from AppendEvent_law [OF Some inv append.hyps(2)] obtain s' where s': "rt_store rt' = Some s'" "store_inv s'" "s_saved s' = s_saved s"
      "durable s' = durable s \<or> (\<exists>x. appends J (durable s) x (durable s'))" by blast
    have "in_order J request c xs (sys\<lparr>sys_runtime := rt'\<rparr>)"
    proof (rule in_order_runtime [OF ord Some s'(1)])
      show "balanced J request c xs s'" using balanced_view [OF bal s'(2)] balanced_append [OF bal _ s'(2)] s'(4) by auto
      have pos: "saved_pos request (durable s) \<le> seq_events (durable s)" using bal by (simp add: balanced_def)
      fix p
      assume "point_ok J request s p"
      with point_ok_view [OF _ s'(3)] point_ok_append [OF _ s'(3) _ pos] s'(4) show "point_ok J request s' p" by auto
    qed
    then show ?thesis ..
  qed
next
  case (payload xs sys rnd p F r F' rt')
  show ?case
  proof (cases "rt_store (sys_runtime sys)")
    case None
    with payload.hyps(2) show ?thesis
      by (auto simp: RuntimeWritePayload_def on_store_def split: option.splits prod.splits)
  next
    case (Some s)
    with payload.IH have ord: "in_order J request c xs sys" by simp
    with Some have "store_inv s" by (auto simp: in_order_def balanced_def)
    from RuntimeWritePayload_law [OF Some this payload.hyps(2)] obtain s' where
      s': "rt_store rt' = Some s'" "store_inv s'" "s_saved s' = s_saved s" "cursor_view (durable s') = cursor_view (durable s)" by blast
    have "in_order J request c xs (sys\<lparr>sys_runtime := rt'\<rparr>)"
      using ord Some s'(1) balanced_view [OF _ s'(2,4)] point_ok_view [OF _ s'(3,4)] by (rule in_order_runtime)
    then show ?thesis ..
  qed
next
  case (read xs sys s s')
  then have ord: "in_order J request c xs sys" by simp
  note f = read_step_frame [OF read.hyps(3)]
  have "in_order J request c xs (sys\<lparr>sys_runtime := (sys_runtime sys)\<lparr>rt_store := Some s'\<rparr>\<rparr>)"
    by (rule in_order_runtime [OF ord read.hyps(2), where s' = s'])
      (simp_all add: balanced_read [OF _ read.hyps(3)] point_ok_view f)
  then show ?case ..
next
  case (environment xs sys s m n fs)
  then have ord: "in_order J request c xs sys" by simp
  let ?s = "s\<lparr>s_faults := fs, s_now := n, s_errmsg := m\<rparr>"
  have "store_inv s" using ord environment.hyps(2) by (auto simp: in_order_def balanced_def)
  then have e: "store_inv ?s" "durable ?s = durable s" by (simp_all add: store_inv_def db_ok_def durable_def cong: option.case_cong)
  have "in_order J request c xs (sys\<lparr>sys_runtime := (sys_runtime sys)\<lparr>rt_store := Some ?s\<rparr>\<rparr>)"
    by (rule in_order_runtime [OF ord environment.hyps(2), where s' = ?s])
      (simp_all add: balanced_view [OF _ e(1)] point_ok_view e(2))
  then show ?case ..
next
  case (restart xs sys s post config F fs n m rt' F')
  then have ord: "in_order J request c xs sys" by simp
  then have bal: "balanced J request c xs s" using restart.hyps(2) by (auto simp: in_order_def)
  then have inv: "store_inv s" by (simp add: balanced_def)
  show ?case
  proof (cases "rt_store rt'")
    case (Some s')
    from CreateRuntimeServices_restart [OF inv restart.hyps(3) Some] balanced_view [OF bal] Some show ?thesis
      by (auto simp: in_order_def boot_def calls_ok_def)
  qed (simp add: boot_def)
qed

text \<open>Nothing takes an event out of the log.\<close>

definition log_kept :: "json_lib \<Rightarrow> MemoryEvent list \<Rightarrow> system \<Rightarrow> bool" where
  "log_kept J es sys =
     (case rt_store (sys_runtime sys) of
        None \<Rightarrow> True | Some s \<Rightarrow> store_inv s \<and> prefix es (event_log J (durable s)))"

lemma log_kept_runtime:
  assumes "log_kept J es sys" "rt_store (sys_runtime sys) = Some s"
    and "rt_store rt' = Some s' \<Longrightarrow> store_inv s \<Longrightarrow> store_inv s' \<and> prefix (event_log J (durable s)) (event_log J (durable s'))"
  shows "rt_store rt' = Some s' \<Longrightarrow> log_kept J es (sys\<lparr>sys_runtime := rt'\<rparr>)"
  using assms prefix_order.trans by (fastforce simp: log_kept_def)

lemma interleaving_keeps_log:
  assumes "interleaving J Q request rt0 xs sys" and start: "rt_store rt0 = Some s0" "store_inv s0"
  shows "log_kept J (event_log J (durable s0)) sys"
  using assms(1)
proof (induction rule: interleaving.induct)
  case start
  then show ?case using assms(2,3) by (simp add: log_kept_def boot_def)
next
  case (call xs sys t q model)
  then show ?case by (simp add: log_kept_def)
next
  case (step xs sys t sys')
  show ?case
  proof (cases "rt_store (sys_runtime sys)")
    case None
    with call_step_no_store [OF None step.hyps(2)] show ?thesis by (simp add: log_kept_def)
  next
    case (Some s)
    with step.IH have "store_inv s" by (simp add: log_kept_def)
    from call_step_log [OF Some this step.hyps(2)] obtain s' where s': "rt_store (sys_runtime sys') = Some s'" "store_inv s'"
      "log_view (durable s') = log_view (durable s)" by blast
    with step.IH Some event_log_view [OF s'(3)] show ?thesis by (simp add: log_kept_def)
  qed
next
  case (append xs sys e r rt')
  show ?case
  proof (cases "rt_store (sys_runtime sys)")
    case None
    with append.hyps(2) show ?thesis by (auto simp: AppendEvent_def log_kept_def)
  next
    case (Some s)
    with append.IH have inv: "store_inv s" by (simp add: log_kept_def)
    from AppendEvent_law [OF Some inv append.hyps(2)] obtain s' where s': "rt_store rt' = Some s'" "store_inv s'"
      "durable s' = durable s \<or> (\<exists>x. appends J (durable s) x (durable s'))" by blast
    then have "prefix (event_log J (durable s)) (event_log J (durable s'))" by (auto simp: appends_def)
    with log_kept_runtime [OF append.IH Some _ s'(1)] s'(2) show ?thesis by blast
  qed
next
  case (payload xs sys rnd p F r F' rt')
  show ?case
  proof (cases "rt_store (sys_runtime sys)")
    case None
    with payload.hyps(2) show ?thesis
      by (auto simp: RuntimeWritePayload_def on_store_def log_kept_def split: option.splits prod.splits)
  next
    case (Some s)
    with payload.IH have inv: "store_inv s" by (simp add: log_kept_def)
    from RuntimeWritePayload_law [OF Some inv payload.hyps(2)] obtain s' where
      s': "rt_store rt' = Some s'" "store_inv s'" "cursor_view (durable s') = cursor_view (durable s)" by blast
    have "event_log J (durable s') = event_log J (durable s)" by (rule event_log_view [OF cursor_view_pending(1) [OF s'(3)]])
    with log_kept_runtime [OF payload.IH Some _ s'(1)] s'(2) show ?thesis by simp
  qed
next
  case (read xs sys s s')
  show ?case by (rule log_kept_runtime [OF read.IH read.hyps(2), where s' = s']) (simp_all add: read_step_frame [OF read.hyps(3)])
next
  case (environment xs sys s m n fs)
  show ?case
    by (rule log_kept_runtime [OF environment.IH environment.hyps(2), where s' = "s\<lparr>s_faults := fs, s_now := n, s_errmsg := m\<rparr>"])
      (simp_all add: store_inv_def db_ok_def durable_def cong: option.case_cong)
next
  case (restart xs sys s post config F fs n m rt' F')
  show ?case
  proof (cases "rt_store rt'")
    case (Some s')
    have inv: "store_inv s" using restart.IH restart.hyps(2) by (simp add: log_kept_def)
    note r = CreateRuntimeServices_restart [OF inv restart.hyps(3) Some]
    have "event_log J (durable s') = event_log J (durable s)" by (rule event_log_view [OF cursor_view_pending(1) [OF r [THEN conjunct2]]])
    with r Some restart.IH restart.hyps(2) show ?thesis by (simp add: log_kept_def boot_def)
  qed (simp add: log_kept_def boot_def)
qed



end
