(* ===== verification/Listening.thy ===== *)
theory Listening
  imports Server
begin

text \<open>
  The last part of \<open>Run\<close> in \<open>src/server/server_main.cpp\<close>: the settings given to the HTTP library, the signal
  handler, the thread that waits for the signal and stops the server, and the main thread from the
  registration of the routes to the exit code. The two threads and the signal interleave. Of the
  library (\<open>third_party/include/httplib.h\<close>) the flags that \<open>listen\<close> and \<open>stop\<close> work on are modelled:
  \<open>is_running_\<close>, \<open>is_decommissioned\<close> and whether the listening socket is open.
  Requests in progress when the socket is closed are taken to finish.
\<close>

section \<open>ApplyHttpOptions\<close>

record http_settings =
  hset_read_timeout :: int
  hset_write_timeout :: int
  hset_threads :: "int option"

definition ApplyHttpOptions :: "HttpServerOptions \<Rightarrow> http_settings \<Rightarrow> http_settings" where
  "ApplyHttpOptions options server =
     (let server1 = (if ho_readTimeoutSeconds options > 0
                     then server\<lparr>hset_read_timeout := ho_readTimeoutSeconds options\<rparr> else server);
          server2 = (if ho_writeTimeoutSeconds options > 0
                     then server1\<lparr>hset_write_timeout := ho_writeTimeoutSeconds options\<rparr> else server1)
      in if ho_threadCount options > 0 then server2\<lparr>hset_threads := Some (ho_threadCount options)\<rparr> else server2)"

section \<open>The two threads\<close>

datatype main_point =
    Registering
  | Binding
  | Bound
  | Accepting
  | Listened bool
  | Joining bool
  | Exited int
  | Aborted

datatype stop_point = Polling | Stopping | Ended

record process =
  pr_main :: main_point
  pr_stopThread :: stop_point
  gStopRequested :: bool
  is_running :: bool
  is_decommissioned :: bool
  pr_socketOpen :: bool

text \<open>After \<open>std::signal\<close> has installed the handler and the thread has been created.\<close>

definition launched :: process where
  "launched = \<lparr>pr_main = Registering, pr_stopThread = Polling, gStopRequested = False, is_running = False,
     is_decommissioned = False, pr_socketOpen = False\<rparr>"

definition RequestStop :: "process \<Rightarrow> process" where
  "RequestStop p = p\<lparr>gStopRequested := True\<rparr>"

definition httplib_stop :: "process \<Rightarrow> process" where
  "httplib_stop p = (if is_running p then p\<lparr>pr_socketOpen := False\<rparr> else p)\<lparr>is_decommissioned := False\<rparr>"

text \<open>The thread polls the flag, calls \<open>server.stop()\<close> once and ends. \<open>None\<close>: it has ended.\<close>

definition stop_thread_step :: "process \<Rightarrow> process option" where
  "stop_thread_step p =
     (case pr_stopThread p of
        Polling \<Rightarrow> Some (if gStopRequested p then p\<lparr>pr_stopThread := Stopping\<rparr> else p)
      | Stopping \<Rightarrow> Some ((httplib_stop p)\<lparr>pr_stopThread := Ended\<rparr>)
      | Ended \<Rightarrow> None)"

text \<open>
  \<open>good\<close> says how the system call or library call of the step goes: whether the routes' patterns
  compile, whether the socket can be bound, whether \<open>accept\<close> gives a connection (or is to be retried).
  An exception while the thread is joinable ends in \<open>std::terminate\<close>.
\<close>

text \<open>\<open>compiles\<close> is the library's compilation of a route's pattern to a matcher, which may throw.\<close>

definition routes_compile :: "(string \<Rightarrow> bool) \<Rightarrow> http_server \<Rightarrow> server_env \<Rightarrow> bool" where
  "routes_compile compiles H E = list_all (\<lambda>(verb, pattern, handler). compiles pattern) (RegisterRoutes H E)"

definition step_register :: "bool \<Rightarrow> process \<Rightarrow> process" where
  "step_register good p = p\<lparr>pr_main := (if good then Binding else Aborted)\<rparr>"

definition step_bind :: "bool \<Rightarrow> process \<Rightarrow> process" where
  "step_bind good p =
     (if is_decommissioned p \<or> \<not> good then p\<lparr>pr_main := Listened False, is_decommissioned := True\<rparr>
      else p\<lparr>pr_main := Bound, pr_socketOpen := True\<rparr>)"

definition step_bound :: "process \<Rightarrow> process" where
  "step_bound p =
     (if is_decommissioned p then p\<lparr>pr_main := Listened False\<rparr> else p\<lparr>pr_main := Accepting, is_running := True\<rparr>)"

definition leave_listen :: "bool \<Rightarrow> process \<Rightarrow> process" where
  "leave_listen ret p = p\<lparr>pr_main := Listened ret, is_decommissioned := \<not> ret, is_running := False\<rparr>"

definition step_accept :: "bool \<Rightarrow> process \<Rightarrow> process" where
  "step_accept good p =
     (if \<not> pr_socketOpen p then leave_listen True p else if good then p else leave_listen False p)"

text \<open>One step of the main thread; \<open>None\<close>: it waits in \<open>join\<close> or the process is over.\<close>

definition main_step :: "bool \<Rightarrow> process \<Rightarrow> process option" where
  "main_step good p =
     (case pr_main p of
        Registering \<Rightarrow> Some (step_register good p)
      | Binding \<Rightarrow> Some (step_bind good p)
      | Bound \<Rightarrow> Some (step_bound p)
      | Accepting \<Rightarrow> Some (step_accept good p)
      | Listened listened \<Rightarrow> Some (p\<lparr>pr_main := Joining listened, gStopRequested := True\<rparr>)
      | Joining listened \<Rightarrow>
          if pr_stopThread p = Ended then Some (p\<lparr>pr_main := Exited (if \<not> listened then 1 else 0)\<rparr>) else None
      | Exited c \<Rightarrow> None
      | Aborted \<Rightarrow> None)"

definition process_over :: "process \<Rightarrow> bool" where
  "process_over p = (case pr_main p of Exited c \<Rightarrow> True | Aborted \<Rightarrow> True | _ \<Rightarrow> False)"

text \<open>What happens next: a signal, a step of the stop thread, or one of the main thread.\<close>

datatype happening = Signal | StopThread | MainThread bool

definition happens :: "happening \<Rightarrow> process \<Rightarrow> process" where
  "happens h p =
     (if process_over p then p
      else case h of
             Signal \<Rightarrow> RequestStop p
           | StopThread \<Rightarrow> (case stop_thread_step p of Some q \<Rightarrow> q | None \<Rightarrow> p)
           | MainThread good \<Rightarrow> (case main_step good p of Some q \<Rightarrow> q | None \<Rightarrow> p))"

definition run_process :: "happening list \<Rightarrow> process \<Rightarrow> process" where
  "run_process hs p = fold happens hs p"

end
