(* ===== verification/Listening_Properties.thy ===== *)
theory Listening_Properties
  imports Listening
begin

text \<open>
  When the server program ends, and with which code: an exit code of 0 means it was asked to stop while
  it listened; a request that comes while it listens is carried out within a few steps of the two
  threads; one that comes before is lost.
\<close>

section \<open>The invariant of the two threads\<close>

fun main_ok :: "process \<Rightarrow> main_point \<Rightarrow> bool" where
  "main_ok p Registering = (\<not> is_running p \<and> \<not> is_decommissioned p \<and> \<not> pr_socketOpen p)"
| "main_ok p Binding = (\<not> is_running p \<and> \<not> is_decommissioned p \<and> \<not> pr_socketOpen p)"
| "main_ok p Bound = (\<not> is_running p \<and> \<not> is_decommissioned p \<and> pr_socketOpen p)"
| "main_ok p Accepting = (is_running p \<and> \<not> is_decommissioned p \<and>
     (\<not> pr_socketOpen p \<longrightarrow> pr_stopThread p = Ended \<and> gStopRequested p))"
| "main_ok p (Listened ok) = (\<not> is_running p \<and> (ok \<longrightarrow> pr_stopThread p = Ended \<and> gStopRequested p))"
| "main_ok p (Joining ok) = (\<not> is_running p \<and> gStopRequested p \<and> (ok \<longrightarrow> pr_stopThread p = Ended))"
| "main_ok p (Exited c) = (gStopRequested p \<and> pr_stopThread p = Ended \<and> c \<in> {0, 1})"
| "main_ok p Aborted = True"

definition process_ok :: "process \<Rightarrow> bool" where
  "process_ok p = (main_ok p (pr_main p) \<and> (pr_stopThread p \<noteq> Polling \<longrightarrow> gStopRequested p))"

lemma process_ok_launched: "process_ok launched"
  by (simp add: process_ok_def launched_def)

lemma process_ok_happens: "process_ok p \<Longrightarrow> process_ok (happens h p)"
  by (cases "pr_main p"; cases "pr_stopThread p"; cases h)
    (auto simp: process_ok_def happens_def process_over_def RequestStop_def stop_thread_step_def httplib_stop_def main_step_def
      step_register_def step_bind_def step_bound_def step_accept_def leave_listen_def)

lemma process_ok_run: "process_ok p \<Longrightarrow> process_ok (run_process hs p)"
  by (induction hs arbitrary: p) (simp_all add: run_process_def process_ok_happens)

section \<open>The exit code\<close>

text \<open>Without a signal the stop thread keeps polling while the server listens, and nothing closes the socket.\<close>

definition undisturbed :: "process \<Rightarrow> bool" where
  "undisturbed p =
     (case pr_main p of
        Listened ok \<Rightarrow> \<not> ok | Joining ok \<Rightarrow> \<not> ok | Exited c \<Rightarrow> c = 1 | Aborted \<Rightarrow> True
      | Accepting \<Rightarrow> \<not> gStopRequested p \<and> pr_stopThread p = Polling \<and> pr_socketOpen p
      | Bound \<Rightarrow> \<not> gStopRequested p \<and> pr_stopThread p = Polling \<and> pr_socketOpen p
      | _ \<Rightarrow> \<not> gStopRequested p \<and> pr_stopThread p = Polling)"

lemmas happening_defs = happens_def process_over_def RequestStop_def stop_thread_step_def httplib_stop_def main_step_def
  step_register_def step_bind_def step_bound_def step_accept_def leave_listen_def

lemma undisturbed_happens: "undisturbed p \<Longrightarrow> h \<noteq> Signal \<Longrightarrow> undisturbed (happens h p)"
  by (cases "pr_main p"; cases "pr_stopThread p"; cases h) (auto simp: undisturbed_def happening_defs)

lemma undisturbed_run: "undisturbed p \<Longrightarrow> Signal \<notin> set hs \<Longrightarrow> undisturbed (run_process hs p)"
  by (induction hs arbitrary: p) (auto simp: run_process_def undisturbed_happens)

text \<open>Before the server has listened, it cannot end well.\<close>

definition not_listened :: "process \<Rightarrow> bool" where
  "not_listened p =
     (case pr_main p of Listened ok \<Rightarrow> \<not> ok | Joining ok \<Rightarrow> \<not> ok | Exited c \<Rightarrow> c = 1 | Accepting \<Rightarrow> False | _ \<Rightarrow> True)"

lemma not_listened_happens: "not_listened p \<Longrightarrow> pr_main (happens h p) \<noteq> Accepting \<Longrightarrow> not_listened (happens h p)"
  by (cases "pr_main p"; cases "pr_stopThread p"; cases h) (auto simp: not_listened_def happening_defs split: if_splits)

lemma run_process_snoc: "run_process (hs @ [h]) p = happens h (run_process hs p)"
  by (simp add: run_process_def)

lemma not_listened_run:
  "(\<And>pre suf. hs = pre @ suf \<Longrightarrow> pr_main (run_process pre launched) \<noteq> Accepting) \<Longrightarrow> not_listened (run_process hs launched)"
proof (induction hs rule: rev_induct)
  case Nil
  then show ?case by (simp add: run_process_def not_listened_def launched_def)
next
  case (snoc h hs)
  have "not_listened (run_process hs launched)"
  proof (rule snoc.IH)
    fix pre suf
    assume "hs = pre @ suf"
    then show "pr_main (run_process pre launched) \<noteq> Accepting" using snoc.prems [of pre "suf @ [h]"] by simp
  qed
  moreover have "pr_main (happens h (run_process hs launched)) \<noteq> Accepting"
    using snoc.prems [of "hs @ [h]" "[]"] by (simp add: run_process_snoc)
  ultimately show ?case by (simp add: run_process_snoc not_listened_happens)
qed

text \<open>
  C27: The exit code tells how the server ended: it is 0 or 1, and it is 0 only when a stop signal arrived
  and the server had been accepting connections. A failed bind, or a listening socket that breaks,
  gives 1. When the process exits, the stop thread has ended.
\<close>

theorem exit_code_is_honest:
  assumes "pr_main (run_process hs launched) = Exited c"
  shows "c \<in> {0, 1} \<and> pr_stopThread (run_process hs launched) = Ended \<and>
    (c = 0 \<longrightarrow> Signal \<in> set hs \<and> (\<exists>pre suf. hs = pre @ suf \<and> pr_main (run_process pre launched) = Accepting))"
proof -
  have "process_ok (run_process hs launched)" by (rule process_ok_run [OF process_ok_launched])
  with assms have "c \<in> {0, 1}" "pr_stopThread (run_process hs launched) = Ended" by (simp_all add: process_ok_def)
  moreover have "Signal \<in> set hs" if "c = 0"
  proof (rule ccontr)
    have "undisturbed launched" by (simp add: undisturbed_def launched_def)
    moreover assume "Signal \<notin> set hs"
    ultimately have "undisturbed (run_process hs launched)" by (rule undisturbed_run)
    with assms that show False by (simp add: undisturbed_def)
  qed
  moreover have "\<exists>pre suf. hs = pre @ suf \<and> pr_main (run_process pre launched) = Accepting" if "c = 0"
    using not_listened_run [of hs] assms that by (auto simp: not_listened_def)
  ultimately show ?thesis by blast
qed

definition orderly :: "happening list" where
  "orderly = [MainThread True, MainThread True, StopThread, MainThread True, MainThread True, Signal, StopThread, StopThread,
     MainThread True, MainThread True, MainThread True]"

theorem exit_code_is_honest_witness:
  "pr_main (run_process orderly launched) = Exited 0 \<and> pr_stopThread (run_process orderly launched) = Ended"
proof -
  have "pr_main (run_process orderly launched) = Exited 0" by code_simp
  with exit_code_is_honest [OF this] show ?thesis by simp
qed

section \<open>Stopping\<close>

text \<open>Asked to stop, and the socket closed if the stop thread has done its work.\<close>

definition shutting_down :: "process \<Rightarrow> bool" where
  "shutting_down p =
     (gStopRequested p \<and>
      (case pr_main p of
         Accepting \<Rightarrow> is_running p \<and> (pr_stopThread p = Ended \<longrightarrow> \<not> pr_socketOpen p)
       | Listened ok \<Rightarrow> True | Joining ok \<Rightarrow> True | Exited c \<Rightarrow> True | _ \<Rightarrow> False))"

fun stop_left :: "stop_point \<Rightarrow> nat" where
  "stop_left Polling = 2" | "stop_left Stopping = 1" | "stop_left Ended = 0"

fun main_left :: "main_point \<Rightarrow> nat" where
  "main_left Accepting = 3" | "main_left (Listened ok) = 2" | "main_left (Joining ok) = 1" | "main_left p = 0"

definition process_left :: "process \<Rightarrow> nat" where
  "process_left p = (if process_over p then 0 else stop_left (pr_stopThread p) + main_left (pr_main p))"

lemma shutting_down_happens:
  assumes "shutting_down p"
  shows "shutting_down (happens h p)" "process_left (happens h p) \<le> process_left p"
  using assms
  by (cases "pr_main p"; cases "pr_stopThread p"; cases h; force simp: shutting_down_def process_left_def happening_defs)+

lemma shutting_down_run:
  "shutting_down p \<Longrightarrow> shutting_down (run_process hs p) \<and> process_left (run_process hs p) \<le> process_left p"
proof (induction hs arbitrary: p)
  case (Cons h hs)
  from Cons.IH [OF shutting_down_happens(1) [OF Cons.prems, of h]] shutting_down_happens(2) [OF Cons.prems, of h] show ?case
    by (simp add: run_process_def)
qed (simp add: run_process_def)

text \<open>The stop thread moves until it has ended, and then the main thread does.\<close>

lemma shutting_down_progress:
  assumes "shutting_down p" "\<not> process_over p"
  shows "pr_stopThread p \<noteq> Ended \<Longrightarrow> process_left (happens StopThread p) < process_left p"
    "pr_stopThread p = Ended \<Longrightarrow> process_left (happens (MainThread good) p) < process_left p"
  using assms
  by (cases "pr_main p"; cases "pr_stopThread p"; force simp: shutting_down_def process_left_def happening_defs)+

lemma shutting_down_same:
  assumes "shutting_down p" "process_left (happens h p) = process_left p"
  shows "pr_stopThread (happens h p) = pr_stopThread p"
  using assms
  by (cases "pr_main p"; cases "pr_stopThread p"; cases h) (auto simp: shutting_down_def process_left_def happening_defs split: if_splits)

lemma shutting_down_same_run:
  "shutting_down p \<Longrightarrow> process_left (run_process hs p) = process_left p \<Longrightarrow> pr_stopThread (run_process hs p) = pr_stopThread p"
proof (induction hs arbitrary: p)
  case (Cons h hs)
  let ?q = "happens h p"
  have q: "shutting_down ?q" "process_left ?q \<le> process_left p" by (rule shutting_down_happens [OF Cons.prems(1)])+
  have run: "run_process (h # hs) p = run_process hs ?q" by (simp add: run_process_def)
  with Cons.prems(2) shutting_down_run [OF q(1), of hs] q(2) have eq: "process_left ?q = process_left p"
    "process_left (run_process hs ?q) = process_left ?q" by simp_all
  from Cons.IH [OF q(1) eq(2)] shutting_down_same [OF Cons.prems(1) eq(1)] run show ?case by simp
qed (simp add: run_process_def)

text \<open>A round in which both threads get to run.\<close>

definition fair_round :: "happening list \<Rightarrow> bool" where
  "fair_round r = (StopThread \<in> set r \<and> (MainThread True \<in> set r \<or> MainThread False \<in> set r))"

lemma run_process_append: "run_process (xs @ ys) p = run_process ys (run_process xs p)"
  by (simp add: run_process_def)

lemma run_over: "process_over p \<Longrightarrow> run_process hs p = p"
  by (induction hs) (simp_all add: run_process_def happens_def)

lemma fair_round_progress:
  assumes p: "shutting_down p" "\<not> process_over p" and r: "fair_round r"
  shows "process_left (run_process r p) < process_left p"
proof -
  obtain good where good: "MainThread good \<in> set r" using r by (auto simp: fair_round_def)
  let ?h = "if pr_stopThread p = Ended then MainThread good else StopThread"
  have "?h \<in> set r" using r good by (simp add: fair_round_def)
  then obtain a b where ab: "r = a @ ?h # b" using split_list [of ?h r] by blast
  let ?q = "run_process a p"
  have q: "shutting_down ?q" "process_left ?q \<le> process_left p" using shutting_down_run [OF p(1)] by simp_all
  have rest: "process_left (run_process r p) \<le> process_left (happens ?h ?q)"
    using shutting_down_run [OF shutting_down_happens(1) [OF q(1)], of b ?h] by (simp add: ab run_process_def)
  show ?thesis
  proof (cases "process_left ?q = process_left p")
    case True
    have "process_left p \<noteq> 0" using p by (cases "pr_main p") (auto simp: process_left_def shutting_down_def process_over_def)
    with True have "\<not> process_over ?q" unfolding process_left_def [of ?q] by auto
    with shutting_down_progress [OF q(1)] shutting_down_same_run [OF p(1) True] have "process_left (happens ?h ?q) < process_left ?q"
      by simp
    with rest q(2) show ?thesis by simp
  next
    case False
    with q(2) shutting_down_happens(2) [OF q(1), of ?h] rest show ?thesis by simp
  qed
qed

lemma fair_rounds_end:
  "shutting_down p \<Longrightarrow> list_all fair_round rs \<Longrightarrow> process_left p \<le> length rs \<Longrightarrow> process_over (run_process (concat rs) p)"
proof (induction rs arbitrary: p)
  case Nil
  then show ?case by (cases "pr_main p") (auto simp: process_left_def shutting_down_def process_over_def run_process_def)
next
  case (Cons r rs)
  show ?case
  proof (cases "process_over p")
    case True
    then show ?thesis by (simp add: run_over)
  next
    case False
    with fair_round_progress [OF Cons.prems(1)] Cons.prems(2,3) have "process_left (run_process r p) \<le> length rs" by fastforce
    with Cons.IH [OF shutting_down_run [OF Cons.prems(1), of r, THEN conjunct1]] Cons.prems(2) show ?thesis
      by (simp add: run_process_append)
  qed
qed

text \<open>As long as no \<open>accept\<close> fails for good.\<close>

definition ending_well :: "process \<Rightarrow> bool" where
  "ending_well p =
     (case pr_main p of Accepting \<Rightarrow> True | Listened ok \<Rightarrow> ok | Joining ok \<Rightarrow> ok | Exited c \<Rightarrow> c = 0 | _ \<Rightarrow> False)"

lemma ending_well_run: "ending_well p \<Longrightarrow> MainThread False \<notin> set hs \<Longrightarrow> ending_well (run_process hs p)"
proof (induction hs arbitrary: p)
  case (Cons h hs)
  have "ending_well (happens h p)" using Cons.prems
    by (cases "pr_main p"; cases "pr_stopThread p"; cases h) (auto simp: ending_well_def happening_defs)
  with Cons show ?case by (simp add: run_process_def)
qed (simp add: run_process_def)

text \<open>
  C26: A stop signal that arrives while the server accepts connections is carried out: whatever the
  schedule, after five rounds in which both threads get to run the process is over, and with exit
  code 0 unless the listening socket broke meanwhile.
\<close>

theorem stop_signal_is_carried_out:
  assumes "Signal \<notin> set hs" "pr_main (run_process hs launched) = Accepting"
    and "list_all fair_round rs" "5 \<le> length rs"
  shows "process_over (run_process (hs @ Signal # concat rs) launched) \<and>
    (MainThread False \<notin> set (concat rs) \<longrightarrow> pr_main (run_process (hs @ Signal # concat rs) launched) = Exited 0)"
proof -
  let ?p = "run_process hs launched"
  let ?q = "happens Signal ?p"
  have "undisturbed ?p" using assms(1) by (intro undisturbed_run) (simp_all add: undisturbed_def launched_def)
  moreover have "process_ok ?p" by (rule process_ok_run [OF process_ok_launched])
  ultimately have q: "shutting_down ?q" "process_left ?q \<le> 5" "ending_well ?q" using assms(2)
    by (auto simp: shutting_down_def process_left_def ending_well_def undisturbed_def process_ok_def happens_def process_over_def RequestStop_def)
  have run: "run_process (hs @ Signal # concat rs) launched = run_process (concat rs) ?q" by (simp add: run_process_def)
  have over: "process_over (run_process (concat rs) ?q)" by (rule fair_rounds_end [OF q(1) assms(3)]) (use q(2) assms(4) in simp)
  moreover have "pr_main (run_process (concat rs) ?q) = Exited 0" if "MainThread False \<notin> set (concat rs)"
    using ending_well_run [OF q(3) that] over
    by (cases "pr_main (run_process (concat rs) ?q)") (auto simp: ending_well_def process_over_def)
  ultimately show ?thesis unfolding run by blast
qed

definition started :: "happening list" where
  "started = [MainThread True, MainThread True, MainThread True]"

theorem stop_signal_is_carried_out_witness:
  "pr_main (run_process (started @ Signal # concat (replicate 5 [MainThread True, StopThread])) launched) = Exited 0"
proof -
  have "Signal \<notin> set started" "pr_main (run_process started launched) = Accepting" by code_simp+
  moreover have "list_all fair_round (replicate 5 [MainThread True, StopThread])" by (simp add: eval_nat_numeral fair_round_def)
  ultimately show ?thesis using stop_signal_is_carried_out [of started "replicate 5 [MainThread True, StopThread]"]
    by (auto simp: eval_nat_numeral)
qed

text \<open>Accepting with nobody left to stop it.\<close>

definition stranded :: "process \<Rightarrow> bool" where
  "stranded p = (pr_main p = Accepting \<and> pr_stopThread p = Ended \<and> pr_socketOpen p)"

lemma stranded_run: "stranded p \<Longrightarrow> MainThread False \<notin> set hs \<Longrightarrow> stranded (run_process hs p)"
proof (induction hs arbitrary: p)
  case (Cons h hs)
  have "stranded (happens h p)" using Cons.prems by (cases h) (auto simp: stranded_def happening_defs)
  with Cons show ?case by (simp add: run_process_def)
qed (simp add: run_process_def)



text \<open>
  A path for MCP that begins with a slash passes the validation of the options, also when it is no
  regular expression. Registering it throws while the stop thread is joinable, and the process is
  terminated instead of reporting the error.
\<close>

lemma bad_mcp_path_aborts:
  assumes "ValidateServerOptions options True = Ret ()" "\<not> compiles (mp_path (so_mcp options))"
  shows "pr_main (run_process (MainThread (routes_compile compiles (MemoryHttpServer_of options) E) # hs) launched) = Aborted"
proof -
  have "\<not> routes_compile compiles (MemoryHttpServer_of options) E"
    using assms(2) by (simp add: routes_compile_def RegisterRoutes_def RegisterMcpRoutes_def MemoryHttpServer_of_def)
  then have "pr_main (happens (MainThread (routes_compile compiles (MemoryHttpServer_of options) E)) launched) = Aborted"
    by (simp add: happening_defs launched_def)
  then show ?thesis using run_over [of "happens (MainThread (routes_compile compiles (MemoryHttpServer_of options) E)) launched" hs]
    by (simp add: run_process_def process_over_def)
qed

end
