(* ===== verification/Floats.thy ===== *)
theory Floats
  imports Cpp_Lib
begin

text \<open>
  Rounding to a binary floating-point format: the exponent that \<open>ieee_round\<close> uses is the right one,
  and a value that was rounded is a value of the format, so that rounding it again changes nothing.
\<close>

section \<open>The exponent\<close>

lemma bitlen_powi:
  assumes "0 < n"
  shows "2 powi (bitlen n - 1) \<le> (of_int n :: rat)" "(of_int n :: rat) < 2 powi bitlen n"
proof -
  note b = bitlen_bounds [OF assms]
  have pos: "0 \<le> bitlen n - 1" using assms bitlen_eq_zero_iff [of n] bitlen_nonneg [of n] by linarith
  have "(of_int (2 ^ nat (bitlen n - 1)) :: rat) \<le> of_int n" using b by (simp only: of_int_le_iff)
  then show "2 powi (bitlen n - 1) \<le> (of_int n :: rat)" using pos by (simp add: power_int_nonneg_exp)
  have "(of_int n :: rat) < of_int (2 ^ nat (bitlen n))" using b by (simp only: of_int_less_iff)
  then show "(of_int n :: rat) < 2 powi bitlen n" using bitlen_nonneg [of n] by (simp add: power_int_nonneg_exp)
qed

lemma ilog2_bounds:
  assumes "0 < x"
  shows "2 powi ilog2 x \<le> x" "x < 2 powi (ilog2 x + 1)"
proof -
  define p where "p = fst (quotient_of x)"
  define q where "q = snd (quotient_of x)"
  define k where "k = bitlen p - bitlen q"
  have quot: "quotient_of x = (p, q)" by (simp add: p_def q_def)
  then have x: "x = of_int p / of_int q" by (rule quotient_of_div)
  have q: "0 < q" using quot by (rule quotient_of_denom_pos)
  then have p: "0 < p" using assms by (simp add: x zero_less_divide_iff)
  note bp = bitlen_powi [OF p] and bq = bitlen_powi [OF q]
  have q0: "(0 :: rat) < of_int q" using q by simp
  have "2 powi (k - 1) * of_int q \<le> (2 powi (k - 1) * 2 powi bitlen q :: rat)"
    using bq(2) by (intro mult_left_mono) simp_all
  also have "\<dots> = (2 powi (bitlen p - 1) :: rat)" by (simp add: k_def flip: power_int_add)
  also have "\<dots> \<le> of_int p" by (rule bp(1))
  finally have low: "2 powi (k - 1) \<le> x" using q0 by (simp add: x pos_le_divide_eq)
  have "of_int p < (2 powi bitlen p :: rat)" by (rule bp(2))
  also have "\<dots> = 2 powi (k + 1) * 2 powi (bitlen q - 1)" by (simp add: k_def flip: power_int_add)
  also have "\<dots> \<le> 2 powi (k + 1) * of_int q" using bq(1) by (intro mult_left_mono) simp_all
  finally have high: "x < 2 powi (k + 1)" using q0 by (simp add: x pos_divide_less_eq)
  have i: "ilog2 x = (if 2 powi k \<le> x then k else k - 1)" by (simp add: ilog2_def Let_def k_def p_def q_def)
  show "2 powi ilog2 x \<le> x" using low by (simp add: i)
  show "x < 2 powi (ilog2 x + 1)" using high by (auto simp: i)
qed

section \<open>Rounding to an integer\<close>

lemma round_half_even_of_int [simp]: "round_half_even (of_int n) = n"
  by (simp add: round_half_even_def)

lemma round_half_even_mono: "x \<le> of_int n \<Longrightarrow> round_half_even x \<le> n"
proof -
  assume x: "x \<le> of_int n"
  show ?thesis
  proof (cases "\<lfloor>x\<rfloor> < n")
    case True
    then show ?thesis by (simp add: round_half_even_def Let_def)
  next
    case False
    with x have "x = of_int n" by (metis floor_less_iff linorder_not_less order_antisym)
    then show ?thesis by simp
  qed
qed

lemma round_half_even_ge: "of_int n \<le> x \<Longrightarrow> n \<le> round_half_even x"
proof -
  assume "of_int n \<le> x"
  then have "n \<le> \<lfloor>x\<rfloor>" by (simp add: le_floor_iff)
  then show ?thesis by (simp add: round_half_even_def Let_def)
qed

lemma round_half_even_bounded:
  assumes "\<bar>x\<bar> \<le> of_int n"
  shows "\<bar>round_half_even x\<bar> \<le> n"
  using round_half_even_mono [of x n] round_half_even_ge [of "- n" x] assms by (simp add: abs_le_iff)

section \<open>Rounding twice\<close>

lemma ieee_round_at:
  assumes "x / 2 powi e = of_int m"
  shows "of_int (round_half_even (x / 2 powi e)) * 2 powi e = (x :: rat)"
  using assms by (simp add: field_simps)

lemma ieee_round_idem:
  assumes "1 \<le> p"
  shows "ieee_round p emin (ieee_round p emin x) = ieee_round p emin x"
proof (cases "x = 0")
  case True
  then show ?thesis by (simp add: ieee_round_def)
next
  case x: False
  define e where "e = max (ilog2 \<bar>x\<bar> - (p - 1)) emin"
  define n where "n = round_half_even (x / 2 powi e)"
  define y where "y = (of_int n * 2 powi e :: rat)"
  have y: "ieee_round p emin x = y" using x by (simp add: ieee_round_def Let_def e_def n_def y_def)
  show ?thesis
  proof (cases "n = 0")
    case True
    then show ?thesis by (simp add: y) (simp add: y_def ieee_round_def)
  next
    case n: False
    have "\<bar>x\<bar> < 2 powi (ilog2 \<bar>x\<bar> + 1)" using x by (intro ilog2_bounds) simp
    also have "\<dots> \<le> (2 powi (e + p) :: rat)" by (intro power_int_increasing) (simp_all add: e_def)
    also have "\<dots> = 2 powi p * 2 powi e" by (simp add: power_int_add)
    finally have "\<bar>x / 2 powi e\<bar> \<le> of_int (2 ^ nat p)"
      using assms by (simp add: abs_divide power_int_nonneg_exp divide_less_eq order_less_imp_le)
    then have bound: "\<bar>n\<bar> \<le> 2 ^ nat p" unfolding n_def by (rule round_half_even_bounded)
    define e' where "e' = max (ilog2 \<bar>y\<bar> - (p - 1)) emin"
    have y0: "y \<noteq> 0" using n by (simp add: y_def)
    have "\<exists>m. y / 2 powi e' = of_int m"
    proof (cases "e' \<le> e")
      case True
      have "y / 2 powi e' = of_int n * 2 powi (e - e')" by (simp add: y_def power_int_diff)
      also have "\<dots> = of_int (n * 2 ^ nat (e - e'))" using True by (simp add: power_int_nonneg_exp)
      finally show ?thesis by blast
    next
      case False
      then have e': "e' = ilog2 \<bar>y\<bar> - (p - 1)" "e < e'" by (auto simp: e'_def e_def)
      have "2 powi ilog2 \<bar>y\<bar> \<le> \<bar>y\<bar>" using y0 by (intro ilog2_bounds) simp
      also have "\<bar>y\<bar> = of_int \<bar>n\<bar> * 2 powi e" by (simp add: y_def abs_mult)
      also have "\<dots> \<le> of_int (2 ^ nat p) * 2 powi e" using bound by (intro mult_right_mono) (simp_all only: of_int_le_iff, simp)
      also have "\<dots> = 2 powi (p + e)" using assms by (simp add: power_int_add power_int_nonneg_exp)
      finally have "\<not> p + e < ilog2 \<bar>y\<bar>" using power_int_strict_increasing [of "p + e" "ilog2 \<bar>y\<bar>" "2 :: rat"] by auto
      with e' have eq: "e' = e + 1" "ilog2 \<bar>y\<bar> = p + e" by auto
      have "of_int (2 ^ nat p) * 2 powi e \<le> (of_int \<bar>n\<bar> * 2 powi e :: rat)"
        using ilog2_bounds(1) [of "\<bar>y\<bar>"] y0 assms unfolding eq(2) by (simp add: y_def abs_mult power_int_add power_int_nonneg_exp)
      then have "(of_int (2 ^ nat p) :: rat) \<le> of_int \<bar>n\<bar>" by simp
      then have "2 ^ nat p \<le> \<bar>n\<bar>" by (simp only: of_int_le_iff)
      with bound have "\<bar>n\<bar> = 2 ^ nat p" by simp
      then have "n = sgn n * (2 ^ nat (p - 1) * 2)" using assms
        by (metis mult_sgn_abs nat_add_distrib power_add power_one_right diff_add_cancel nat_1 numeral_One zero_le_one diff_ge_0_iff_ge One_nat_def)
      then have "y / 2 powi e' = of_int (sgn n * 2 ^ nat (p - 1))"
        unfolding y_def eq(1) by (simp add: power_int_add field_simps) (metis of_int_mult of_int_numeral of_int_power)
      then show ?thesis by blast
    qed
    then obtain m where m: "y / 2 powi e' = of_int m" by blast
    have "ieee_round p emin y = of_int (round_half_even (y / 2 powi e')) * 2 powi e'"
      using y0 by (simp add: ieee_round_def Let_def e'_def)
    then show ?thesis using ieee_round_at [OF m] by (simp add: y)
  qed
qed

lemma is_f32_f32 [simp]: "is_f32 (f32 x)"
  by (simp add: is_f32_def f32_def ieee_round_idem)

lemma f64_f64: "f64 (f64 x) = f64 x"
  by (simp add: f64_def ieee_round_idem)

end
