(* ===== verification/Codec_Types.thy ===== *)
theory Codec_Types
  imports Codec_Laws Floats
begin

text \<open>
  The C++ types of what the decoders produce. The records of the model have fields of type \<open>int\<close>,
  \<open>rat\<close> and \<open>json\<close> where the program has \<open>int\<close>, \<open>float\<close> and a JSON object: the predicates below say
  that a value is one of the C++ type.
\<close>

section \<open>Values of the C++ types\<close>

fun json_typed :: "json \<Rightarrow> bool" where
  "json_typed (JInt n) = (LLONG_MIN \<le> n \<and> n \<le> LLONG_MAX)"
| "json_typed (JUInt n) = (0 \<le> n \<and> n \<le> 18446744073709551615)"
| "json_typed (JFloat x) = (f64 x = x)"
| "json_typed (JArr xs) = (\<forall>x \<in> set xs. json_typed x)"
| "json_typed (JObj m) = (\<forall>kv \<in> set m. json_typed (snd kv))"
| "json_typed _ = True"

definition typed_int :: "int \<Rightarrow> bool" where
  "typed_int n = (INT_MIN \<le> n \<and> n \<le> INT_MAX)"

definition typed_metadata :: "json \<Rightarrow> bool" where
  "typed_metadata j = (is_object j \<and> json_typed j)"

named_theorems typed_defs

definition typed_event :: "MemoryEvent \<Rightarrow> bool" where [typed_defs]:
  "typed_event e = (valid_event_type (ev_type e) \<and> typed_metadata (ev_metadata e))"

definition typed_payload_ref :: "MemoryPayloadRef \<Rightarrow> bool" where [typed_defs]:
  "typed_payload_ref p = (typed_int (pay_originalChars p) \<and> typed_metadata (pay_metadata p))"

definition typed_entity :: "MemoryEntity \<Rightarrow> bool" where [typed_defs]:
  "typed_entity e = (is_f32 (en_confidence e) \<and> typed_metadata (en_metadata e))"

definition typed_relation :: "MemoryRelation \<Rightarrow> bool" where [typed_defs]:
  "typed_relation r = (is_f32 (rel_confidence r) \<and> typed_metadata (rel_metadata r))"

definition typed_package :: "MemoryContextPackage \<Rightarrow> bool" where [typed_defs]:
  "typed_package p =
     ((\<forall>e \<in> set (pkg_entities p). typed_entity e) \<and> (\<forall>r \<in> set (pkg_relations p). typed_relation r) \<and>
      (\<forall>q \<in> set (pkg_payloadRefs p). typed_payload_ref q) \<and> typed_metadata (pkg_metadata p))"

definition typed_stats :: "MemoryStats \<Rightarrow> bool" where [typed_defs]:
  "typed_stats st =
     (typed_int (st_events st) \<and> typed_int (st_payloads st) \<and> typed_int (st_summaries st) \<and> typed_int (st_entities st) \<and>
      typed_int (st_relations st) \<and> typed_metadata (st_metadata st))"

definition typed_context_request :: "MemoryContextRequest \<Rightarrow> bool" where [typed_defs]:
  "typed_context_request r = (typed_int (cx_tokenBudget r) \<and> typed_metadata (cx_metadata r))"

definition typed_payload_write :: "MemoryPayloadWriteRequest \<Rightarrow> bool" where [typed_defs]:
  "typed_payload_write r = typed_metadata (pw_metadata r)"

definition typed_consolidation_request :: "MemoryConsolidationRequest \<Rightarrow> bool" where [typed_defs]:
  "typed_consolidation_request r = (typed_int (cr_maxEvents r) \<and> typed_metadata (cr_metadata r))"

definition typed_consolidation_result :: "MemoryConsolidationResult \<Rightarrow> bool" where [typed_defs]:
  "typed_consolidation_result r =
     (typed_int (cres_processedEvents r) \<and> typed_int (cres_savedSummaries r) \<and> typed_int (cres_savedEntities r) \<and>
      typed_int (cres_savedRelations r))"

definition typed_search_request :: "MemorySearchRequest \<Rightarrow> bool" where [typed_defs]:
  "typed_search_request r = (typed_int (sr_limit r) \<and> typed_metadata (sr_metadata r))"

definition typed_hit :: "MemorySearchHit \<Rightarrow> bool" where [typed_defs]:
  "typed_hit h = (is_f32 (hit_score h) \<and> typed_metadata (hit_metadata h))"

section \<open>The accessors give values of their types\<close>

lemma json_typed_at: "json_typed j \<Longrightarrow> json_typed (json_at j k)"
  by (cases j) (force split: option.splits dest: map_of_SomeD)+

lemma json_typed_field: "json_typed j \<Longrightarrow> json_typed (JsonFieldValue j k)"
  by (simp add: JsonFieldValue_def json_typed_at)

lemma typed_metadata_field: "json_typed j \<Longrightarrow> typed_metadata (JsonObject (JsonFieldValue j k))"
  using json_typed_field [of j k] by (simp add: typed_metadata_def) (simp add: JsonObject_def)

lemma typed_int_JsonInt: "json_typed j \<Longrightarrow> typed_int fb \<Longrightarrow> typed_int (JsonInt j k fb)"
  using json_typed_at [of j k] JsonInt_range [of fb j k] unfolding typed_int_def by fastforce

lemma is_f32_JsonFloat: "is_f32 fb \<Longrightarrow> is_f32 (JsonFloat j k fb)"
  by (simp add: JsonFloat_def)

lemma decode_items_typed:
  assumes "json_typed v" "\<And>j. json_typed j \<Longrightarrow> P (decode j)"
  shows "\<forall>x \<in> set (decode_items decode v). P x"
  using assms by (auto simp: decode_items_def split: json.splits)

lemma typed_int_small [simp]: "typed_int 0" "typed_int 10" "typed_int 100" "typed_int 4096"
  by (simp_all add: typed_int_def int_limits)

lemma is_f32_0 [simp]: "is_f32 0"
  by (simp add: is_f32_def)

lemmas accessors_typed = typed_metadata_field typed_int_JsonInt is_f32_JsonFloat

lemma EventFromJson_typed: "json_typed j \<Longrightarrow> typed_event (EventFromJson j)"
  by (simp add: typed_defs EventFromJson_def EventTypeFromJson_def event_type_of_int_def Let_def accessors_typed)

lemma parts_typed:
  assumes "json_typed j"
  shows "typed_payload_ref (PayloadRefFromJson j)" "typed_entity (EntityFromJson j)" "typed_relation (RelationFromJson j)"
    "typed_hit (hit_of_json j)"
  using assms by (simp_all add: typed_defs PayloadRefFromJson_def EntityFromJson_def RelationFromJson_def hit_of_json_def accessors_typed)

lemma ContextPackageFromJson_typed:
  assumes "json_typed j"
  shows "typed_package (ContextPackageFromJson j)"
  using decode_items_typed [OF json_typed_field [OF assms], of typed_entity EntityFromJson, OF parts_typed(2)]
    decode_items_typed [OF json_typed_field [OF assms], of typed_relation RelationFromJson, OF parts_typed(3)]
    decode_items_typed [OF json_typed_field [OF assms], of typed_payload_ref PayloadRefFromJson, OF parts_typed(1)] assms
  by (simp add: typed_package_def ContextPackageFromJson_def typed_metadata_field)


definition odd_request :: json where
  "odd_request = jobj [(''type'', JInt 99), (''maxEvents'', JInt 4294967296), (''metadata'', JArr [])]"


end
