(* ===== verification/Handles.thy ===== *)
theory Handles
  imports Cpp_Lib
begin

text \<open>
  Objects that own a handle of a C library: \<open>SQLiteStatement\<close> (\<open>src/storage/sqlite_store.cpp\<close>) owns a
  prepared statement, \<open>CurlClient\<close> (\<open>src/utils/curl_client.cpp\<close>) a share handle whose lock callbacks are
  given the owner's mutex. Both are movable and release the handle in the destructor. An object is
  its address, a null pointer is \<open>None\<close>. The rest of \<open>curl_client.cpp\<close> that does not take part in a
  request is here too.
\<close>

section \<open>Handles and their owners\<close>

text \<open>
  \<open>hw_objects\<close> has the pointer member of every object alive, \<open>hw_live\<close> the handles not yet released,
  \<open>hw_released\<close> the calls of the library's release function, \<open>hw_userdata\<close> the address of the mutex a
  share handle was given (\<open>CURLSHOPT_USERDATA\<close>). The library hands out new handles.
\<close>

record handle_world =
  hw_fresh :: nat
  hw_objects :: "nat \<Rightarrow> nat option option"
  hw_live :: "nat set"
  hw_released :: "nat list"
  hw_userdata :: "nat \<Rightarrow> nat option"

definition no_handles :: handle_world where
  "no_handles = \<lparr>hw_fresh = 0, hw_objects = Map.empty, hw_live = {}, hw_released = [], hw_userdata = Map.empty\<rparr>"

definition acquire_handle :: "nat \<Rightarrow> bool \<Rightarrow> handle_world \<Rightarrow> handle_world" where
  "acquire_handle a ok w =
     (if ok
      then w\<lparr>hw_fresh := hw_fresh w + 1, hw_objects := (hw_objects w)(a \<mapsto> Some (hw_fresh w)), hw_live := insert (hw_fresh w) (hw_live w)\<rparr>
      else w\<lparr>hw_objects := (hw_objects w)(a \<mapsto> None)\<rparr>)"

definition release_handle :: "nat option \<Rightarrow> handle_world \<Rightarrow> handle_world" where
  "release_handle p w =
     (case p of None \<Rightarrow> w | Some h \<Rightarrow> w\<lparr>hw_live := hw_live w - {h}, hw_released := hw_released w @ [h]\<rparr>)"

definition pointer_of :: "nat \<Rightarrow> handle_world \<Rightarrow> nat option" where
  "pointer_of a w = (case hw_objects w a of Some p \<Rightarrow> p | None \<Rightarrow> None)"

text \<open>The pointer goes from \<open>b\<close> to \<open>a\<close>.\<close>

definition take_pointer :: "nat \<Rightarrow> nat \<Rightarrow> handle_world \<Rightarrow> handle_world" where
  "take_pointer a b w = w\<lparr>hw_objects := (hw_objects w)(a \<mapsto> pointer_of b w, b \<mapsto> None)\<rparr>"

section \<open>SQLiteStatement\<close>

text \<open>\<open>ok\<close>: \<open>sqlite3_prepare_v2\<close> succeeded.\<close>

definition statement_construct :: "nat \<Rightarrow> bool \<Rightarrow> handle_world \<Rightarrow> handle_world" where
  "statement_construct a ok w = acquire_handle a ok w"

definition statement_destroy :: "nat \<Rightarrow> handle_world \<Rightarrow> handle_world" where
  "statement_destroy a w = (release_handle (pointer_of a w) w)\<lparr>hw_objects := (hw_objects w)(a := None)\<rparr>"

definition statement_move_construct :: "nat \<Rightarrow> nat \<Rightarrow> handle_world \<Rightarrow> handle_world" where
  "statement_move_construct a b w = take_pointer a b w"

definition statement_move_assign :: "nat \<Rightarrow> nat \<Rightarrow> handle_world \<Rightarrow> handle_world" where
  "statement_move_assign a b w =
     (if a \<noteq> b then take_pointer a b (release_handle (pointer_of a w) w) else w)"

section \<open>CurlClient\<close>

text \<open>\<open>curl_share_setopt (share, CURLSHOPT_USERDATA, &shareMutex)\<close> for the object's share, if it has one.\<close>

definition set_userdata :: "nat \<Rightarrow> handle_world \<Rightarrow> handle_world" where
  "set_userdata a w =
     (case pointer_of a w of None \<Rightarrow> w | Some h \<Rightarrow> w\<lparr>hw_userdata := (hw_userdata w)(h \<mapsto> a)\<rparr>)"

definition curl_construct :: "nat \<Rightarrow> bool \<Rightarrow> handle_world \<Rightarrow> handle_world" where
  "curl_construct a ok w = set_userdata a (acquire_handle a ok w)"

definition curl_destroy :: "nat \<Rightarrow> handle_world \<Rightarrow> handle_world" where
  "curl_destroy a w = (release_handle (pointer_of a w) w)\<lparr>hw_objects := (hw_objects w)(a := None)\<rparr>"

definition curl_move_construct :: "nat \<Rightarrow> nat \<Rightarrow> handle_world \<Rightarrow> handle_world" where
  "curl_move_construct a b w = set_userdata a (take_pointer a b w)"

definition curl_move_assign :: "nat \<Rightarrow> nat \<Rightarrow> handle_world \<Rightarrow> handle_world" where
  "curl_move_assign a b w =
     (if a \<noteq> b then set_userdata a (take_pointer a b (release_handle (pointer_of a w) w)) else w)"

text \<open>The mutex the lock callbacks of a share lock: that of the object whose address they were given.\<close>

definition ShareLockCallback :: "nat \<Rightarrow> handle_world \<Rightarrow> nat option" where
  "ShareLockCallback h w = hw_userdata w h"

section \<open>The rest of curl\_client.cpp\<close>

text \<open>
  The result is what the callback returns and the buffer after it; \<open>room\<close> is whether the string could
  grow. The library ends a transfer whose callback returns less than it was given.
\<close>

definition WriteCallback :: "bool \<Rightarrow> string \<Rightarrow> string \<Rightarrow> nat \<times> string" where
  "WriteCallback room contents buffer = (if room then (length contents, buffer @ contents) else (0, buffer))"

text \<open>The chunks of a body, delivered one after the other; \<open>None\<close> when the transfer is broken off.\<close>

fun receive_body :: "(bool \<times> string) list \<Rightarrow> string \<Rightarrow> string option" where
  "receive_body [] buffer = Some buffer"
| "receive_body ((room, contents) # chunks) buffer =
     (let (n, buffer1) = WriteCallback room contents buffer
      in if n = length contents then receive_body chunks buffer1 else None)"

text \<open>\<open>escape\<close> is \<open>curl_easy_escape\<close>, \<open>init\<close> whether there is a handle to call it with.\<close>

definition UrlEscape :: "bool \<Rightarrow> (string \<Rightarrow> int \<Rightarrow> string option) \<Rightarrow> string \<Rightarrow> string" where
  "UrlEscape init escape str =
     (if \<not> init then str
      else case escape str (i32 (int (length str))) of Some escaped \<Rightarrow> escaped | None \<Rightarrow> str)"

section \<open>Every handle has one owner\<close>

definition one_owner :: "(nat \<Rightarrow> nat option option) \<Rightarrow> bool" where
  "one_owner obs = (\<forall>a b h. obs a = Some (Some h) \<longrightarrow> obs b = Some (Some h) \<longrightarrow> a = b)"

definition held :: "(nat \<Rightarrow> nat option option) \<Rightarrow> nat set" where
  "held obs = {h. \<exists>a. obs a = Some (Some h)}"

definition owned :: "handle_world \<Rightarrow> bool" where
  "owned w =
     (one_owner (hw_objects w) \<and> hw_live w = held (hw_objects w) \<and> distinct (hw_released w) \<and>
      set (hw_released w) \<inter> hw_live w = {} \<and> (\<forall>h \<in> set (hw_released w) \<union> hw_live w. h < hw_fresh w))"

definition locked_by_owner :: "handle_world \<Rightarrow> bool" where
  "locked_by_owner w = (owned w \<and> (\<forall>a h. hw_objects w a = Some (Some h) \<longrightarrow> ShareLockCallback h w = Some a))"

text \<open>What can happen to the objects of a class, given by its special member functions.\<close>

inductive lives ::
  "(nat \<Rightarrow> bool \<Rightarrow> handle_world \<Rightarrow> handle_world) \<Rightarrow> (nat \<Rightarrow> handle_world \<Rightarrow> handle_world) \<Rightarrow>
   (nat \<Rightarrow> nat \<Rightarrow> handle_world \<Rightarrow> handle_world) \<Rightarrow> (nat \<Rightarrow> nat \<Rightarrow> handle_world \<Rightarrow> handle_world) \<Rightarrow> handle_world \<Rightarrow> bool"
  for construct destroy move_construct move_assign where
  life_none: "lives construct destroy move_construct move_assign no_handles"
| life_construct: "lives construct destroy move_construct move_assign w \<Longrightarrow> hw_objects w a = None \<Longrightarrow> lives construct destroy move_construct move_assign (construct a fine w)"
| life_destroy: "lives construct destroy move_construct move_assign w \<Longrightarrow> hw_objects w a \<noteq> None \<Longrightarrow> lives construct destroy move_construct move_assign (destroy a w)"
| life_move: "lives construct destroy move_construct move_assign w \<Longrightarrow> hw_objects w a = None \<Longrightarrow> hw_objects w b \<noteq> None \<Longrightarrow> lives construct destroy move_construct move_assign (move_construct a b w)"
| life_assign: "lives construct destroy move_construct move_assign w \<Longrightarrow> hw_objects w a \<noteq> None \<Longrightarrow> hw_objects w b \<noteq> None \<Longrightarrow> lives construct destroy move_construct move_assign (move_assign a b w)"

text \<open>
  The interface of a class that owns a handle: what the special member functions keep. \<open>ok\<close> is the
  invariant; \<open>construct\<close> and \<open>move_construct\<close> need fresh memory, the others objects that are alive.
\<close>

locale handle_class =
  fixes construct :: "nat \<Rightarrow> bool \<Rightarrow> handle_world \<Rightarrow> handle_world"
    and destroy :: "nat \<Rightarrow> handle_world \<Rightarrow> handle_world"
    and move_construct :: "nat \<Rightarrow> nat \<Rightarrow> handle_world \<Rightarrow> handle_world"
    and move_assign :: "nat \<Rightarrow> nat \<Rightarrow> handle_world \<Rightarrow> handle_world"
    and ok :: "handle_world \<Rightarrow> bool"
  assumes none_ok: "ok no_handles"
    and construct_ok: "ok w \<Longrightarrow> hw_objects w a = None \<Longrightarrow> ok (construct a fine w)"
    and destroy_ok: "ok w \<Longrightarrow> hw_objects w a \<noteq> None \<Longrightarrow> ok (destroy a w)"
    and move_construct_ok: "ok w \<Longrightarrow> hw_objects w a = None \<Longrightarrow> hw_objects w b \<noteq> None \<Longrightarrow> ok (move_construct a b w)"
    and move_assign_ok: "ok w \<Longrightarrow> hw_objects w a \<noteq> None \<Longrightarrow> hw_objects w b \<noteq> None \<Longrightarrow> ok (move_assign a b w)"
    and ok_owned: "ok w \<Longrightarrow> owned w"
begin

lemma lives_ok: "lives construct destroy move_construct move_assign w \<Longrightarrow> ok w"
  by (induction rule: lives.induct) (simp_all add: none_ok construct_ok destroy_ok move_construct_ok move_assign_ok)

text \<open>No handle is released twice or used after it was released, and none is left when no object is.\<close>

lemma released_once:
  assumes "lives construct destroy move_construct move_assign w"
  shows "distinct (hw_released w)" "hw_objects w a = Some (Some h) \<Longrightarrow> h \<notin> set (hw_released w)"
    "hw_objects w = Map.empty \<Longrightarrow> hw_live w = {}"
  using ok_owned [OF lives_ok [OF assms]] by (auto simp: owned_def held_def)

end

lemma held_upd:
  assumes "one_owner obs"
  shows "\<nexists>h. obs a = Some (Some h) \<Longrightarrow> held (obs(a \<mapsto> Some h)) = insert h (held obs)"
    "\<nexists>h. obs a = Some (Some h) \<Longrightarrow> held (obs(a \<mapsto> None)) = held obs"
    "obs a = Some (Some h) \<Longrightarrow> held (obs(a \<mapsto> None)) = held obs - {h}"
    "obs a = Some (Some h) \<Longrightarrow> held (obs(a := None)) = held obs - {h}"
    "\<nexists>h. obs a = Some (Some h) \<Longrightarrow> held (obs(a := None)) = held obs"
proof -
  have in_upd: "x \<in> held (obs(a := v)) \<longleftrightarrow> v = Some (Some x) \<or> (\<exists>b. b \<noteq> a \<and> obs b = Some (Some x))" for x v
    by (auto simp: held_def)
  have in_held: "x \<in> held obs \<longleftrightarrow> (\<exists>b. obs b = Some (Some x))" for x by (simp add: held_def)
  have one: "b = a" if "obs a = Some (Some h)" "obs b = Some (Some h)" for b h
    using assms that unfolding one_owner_def by metis
  show "\<nexists>h. obs a = Some (Some h) \<Longrightarrow> held (obs(a \<mapsto> Some h)) = insert h (held obs)"
    "\<nexists>h. obs a = Some (Some h) \<Longrightarrow> held (obs(a \<mapsto> None)) = held obs"
    "\<nexists>h. obs a = Some (Some h) \<Longrightarrow> held (obs(a := None)) = held obs"
    unfolding set_eq_iff insert_iff in_upd in_held by (metis option.inject option.distinct(1))+
  show "obs a = Some (Some h) \<Longrightarrow> held (obs(a \<mapsto> None)) = held obs - {h}"
    "obs a = Some (Some h) \<Longrightarrow> held (obs(a := None)) = held obs - {h}"
    unfolding set_eq_iff Diff_iff singleton_iff in_upd in_held using one by (metis option.inject option.distinct(1))+
qed

lemma one_owner_upd:
  assumes "one_owner obs"
  shows "h \<notin> held obs \<Longrightarrow> one_owner (obs(a \<mapsto> Some h))" "one_owner (obs(a \<mapsto> None))" "one_owner (obs(a := None))"
  using assms unfolding one_owner_def held_def by (auto split: if_splits)

lemma owned_acquire:
  assumes "owned w" "hw_objects w a = None"
  shows "owned (acquire_handle a fine w)"
proof -
  have "hw_fresh w \<notin> hw_live w" "hw_fresh w \<notin> set (hw_released w)" using assms(1) by (auto simp: owned_def)
  moreover have "one_owner (hw_objects w)" "hw_live w = held (hw_objects w)" using assms(1) by (simp_all add: owned_def)
  moreover have "\<nexists>h. hw_objects w a = Some (Some h)" using assms(2) by simp
  ultimately show ?thesis
    using assms(1) by (cases fine) (auto simp: owned_def acquire_handle_def held_upd one_owner_upd less_Suc_eq)
qed

text \<open>Releasing the handle of \<open>a\<close> and forgetting the pointer.\<close>

lemma owned_release:
  assumes "owned w" "hw_objects w a = Some p"
  shows "owned ((release_handle p w)\<lparr>hw_objects := (hw_objects w)(a \<mapsto> None)\<rparr>)"
    "owned ((release_handle p w)\<lparr>hw_objects := (hw_objects w)(a := None)\<rparr>)"
proof -
  have o: "one_owner (hw_objects w)" "hw_live w = held (hw_objects w)" using assms(1) by (simp_all add: owned_def)
  have h: "h \<in> hw_live w" if "p = Some h" for h using assms(2) that by (auto simp: o(2) held_def)
  show "owned ((release_handle p w)\<lparr>hw_objects := (hw_objects w)(a \<mapsto> None)\<rparr>)"
    "owned ((release_handle p w)\<lparr>hw_objects := (hw_objects w)(a := None)\<rparr>)"
    using assms o h by (cases p; auto simp: owned_def release_handle_def held_upd one_owner_upd)+
qed

text \<open>Handing the pointer of \<open>b\<close> over to an object that has none.\<close>

lemma owned_take:
  assumes "owned w" "pointer_of a w = None" "hw_objects w b = Some p" "a \<noteq> b"
  shows "owned (take_pointer a b w)"
proof -
  have o: "one_owner (hw_objects w)" "hw_live w = held (hw_objects w)" using assms(1) by (simp_all add: owned_def)
  let ?obs = "(hw_objects w)(b \<mapsto> None)"
  have eq: "(hw_objects w)(a \<mapsto> pointer_of b w, b \<mapsto> None) = ?obs(a \<mapsto> p)"
    using assms(3,4) by (auto simp: pointer_of_def)
  have a: "\<nexists>h. ?obs a = Some (Some h)" using assms(2,4) by (auto simp: pointer_of_def split: option.splits)
  have one: "one_owner ?obs" by (rule one_owner_upd [OF o(1)])
  have "one_owner (?obs(a \<mapsto> p)) \<and> held (?obs(a \<mapsto> p)) = held (hw_objects w)"
  proof (cases p)
    case None
    with assms(3) have "held ?obs = held (hw_objects w)" by (intro held_upd(2) [OF o(1)]) simp
    then show ?thesis unfolding None held_upd(2) [OF one a] using one_owner_upd(2) [OF one] by blast
  next
    case (Some h)
    with assms(3) have "held ?obs = held (hw_objects w) - {h}" "h \<in> held (hw_objects w)"
      using held_upd(3) [OF o(1)] by (auto simp: held_def)
    then show ?thesis unfolding Some held_upd(1) [OF one a] using one_owner_upd(1) [OF one, of h a] by auto
  qed
  with assms(1) show ?thesis unfolding owned_def take_pointer_def eq by auto
qed

lemma owned_assign:
  assumes "owned w" "hw_objects w a \<noteq> None" "hw_objects w b \<noteq> None" "a \<noteq> b"
  shows "owned (take_pointer a b (release_handle (pointer_of a w) w))"
proof -
  obtain p q where pq: "hw_objects w a = Some p" "hw_objects w b = Some q" using assms(2,3) by auto
  let ?w = "(release_handle p w)\<lparr>hw_objects := (hw_objects w)(a \<mapsto> None)\<rparr>"
  have rel: "hw_objects (release_handle p w) = hw_objects w" by (simp add: release_handle_def split: option.split)
  have "owned (take_pointer a b ?w)"
    by (rule owned_take [where p = q]) (use owned_release(1) [OF assms(1) pq(1)] pq assms(4) in \<open>simp_all add: pointer_of_def\<close>)
  moreover have "take_pointer a b ?w = take_pointer a b (release_handle (pointer_of a w) w)"
    using pq assms(4) by (simp add: take_pointer_def pointer_of_def rel)
  ultimately show ?thesis by simp
qed

interpretation statements: handle_class statement_construct statement_destroy statement_move_construct statement_move_assign owned
proof
  show "owned no_handles" by (simp add: owned_def no_handles_def one_owner_def held_def)
  show "owned (statement_construct a fine w)" if "owned w" "hw_objects w a = None" for w a fine
    using owned_acquire [OF that] by (simp add: statement_construct_def)
  show "owned (statement_destroy a w)" if "owned w" "hw_objects w a \<noteq> None" for w a
    using owned_release(2) [OF that(1)] that(2) by (auto simp: statement_destroy_def pointer_of_def)
  show "owned (statement_move_construct a b w)" if "owned w" "hw_objects w a = None" "hw_objects w b \<noteq> None" for w a b
    using owned_take [OF that(1), of a b] that by (cases "a = b") (auto simp: statement_move_construct_def pointer_of_def)
  show "owned (statement_move_assign a b w)" if "owned w" "hw_objects w a \<noteq> None" "hw_objects w b \<noteq> None" for w a b
    using owned_assign [OF that] that(1) by (simp add: statement_move_assign_def)
qed

text \<open>Telling the share which mutex is the owner's.\<close>

lemma locked_set_userdata:
  assumes "owned w" "\<And>b h. b \<noteq> a \<Longrightarrow> hw_objects w b = Some (Some h) \<Longrightarrow> hw_userdata w h = Some b"
  shows "locked_by_owner (set_userdata a w)"
proof (cases "pointer_of a w")
  case None
  then have "hw_objects w a \<noteq> Some (Some h)" for h by (auto simp: pointer_of_def)
  then have "hw_userdata w h = Some b" if "hw_objects w b = Some (Some h)" for b h using assms(2) that by (cases "b = a") auto
  with None assms(1) show ?thesis by (simp add: locked_by_owner_def set_userdata_def ShareLockCallback_def)
next
  case (Some h)
  then have h: "hw_objects w a = Some (Some h)" by (simp add: pointer_of_def split: option.splits)
  have only: "b = a" if "hw_objects w b = Some (Some h)" for b
    using assms(1) h that unfolding owned_def one_owner_def by metis
  have "((hw_userdata w)(h \<mapsto> a)) k = Some b" if "hw_objects w b = Some (Some k)" for b k
  proof (cases "b = a")
    case True
    with h that show ?thesis by simp
  next
    case False
    with only that have "k \<noteq> h" by blast
    with assms(2) [OF False that] show ?thesis by simp
  qed
  moreover have "owned (w\<lparr>hw_userdata := (hw_userdata w)(h \<mapsto> a)\<rparr>)" using assms(1) by (auto simp: owned_def)
  ultimately show ?thesis using Some by (simp add: locked_by_owner_def set_userdata_def ShareLockCallback_def)
qed

interpretation clients: handle_class curl_construct curl_destroy curl_move_construct curl_move_assign locked_by_owner
proof
  show "locked_by_owner no_handles" using statements.none_ok by (simp add: locked_by_owner_def no_handles_def)
  show "owned w" if "locked_by_owner w" for w using that by (simp add: locked_by_owner_def)
  show "locked_by_owner (curl_construct a fine w)" if w: "locked_by_owner w" "hw_objects w a = None" for w a fine
  proof -
    have "owned w" using w(1) by (simp add: locked_by_owner_def)
    then show ?thesis unfolding curl_construct_def
      by (rule locked_set_userdata [OF owned_acquire [OF _ w(2)]])
        (use w(1) in \<open>auto simp: locked_by_owner_def ShareLockCallback_def acquire_handle_def split: if_splits\<close>)
  qed
  show "locked_by_owner (curl_destroy a w)" if w: "locked_by_owner w" "hw_objects w a \<noteq> None" for w a
  proof -
    have "owned (curl_destroy a w)"
      using statements.destroy_ok [of w a] w by (simp add: locked_by_owner_def curl_destroy_def statement_destroy_def)
    moreover have "hw_userdata (curl_destroy a w) = hw_userdata w" "hw_objects (curl_destroy a w) = (hw_objects w)(a := None)"
      by (simp_all add: curl_destroy_def release_handle_def split: option.split)
    ultimately show ?thesis using w(1) by (auto simp: locked_by_owner_def ShareLockCallback_def split: if_splits)
  qed
  show "locked_by_owner (curl_move_construct a b w)"
    if w: "locked_by_owner w" "hw_objects w a = None" "hw_objects w b \<noteq> None" for w a b
  proof -
    have "owned (take_pointer a b w)"
      using statements.move_construct_ok [of w a b] w by (simp add: locked_by_owner_def statement_move_construct_def)
    then show ?thesis unfolding curl_move_construct_def
      by (rule locked_set_userdata)
        (use w(1) in \<open>auto simp: locked_by_owner_def ShareLockCallback_def take_pointer_def split: if_splits\<close>)
  qed
  show "locked_by_owner (curl_move_assign a b w)"
    if w: "locked_by_owner w" "hw_objects w a \<noteq> None" "hw_objects w b \<noteq> None" for w a b
  proof (cases "a = b")
    case False
    have "owned w" using w(1) by (simp add: locked_by_owner_def)
    from owned_assign [OF this w(2,3) False] False show ?thesis unfolding curl_move_assign_def
      by (simp, intro locked_set_userdata)
        (use w(1) in \<open>auto simp: locked_by_owner_def ShareLockCallback_def take_pointer_def release_handle_def
          split: if_splits option.splits\<close>)
  qed (use w(1) in \<open>simp add: curl_move_assign_def\<close>)
qed

section \<open>Properties\<close>

text \<open>
  C29: The handles of the C libraries are owned. Whatever sequence of constructions, moves and
  destructions the program performs, a share handle of a \<open>CurlClient\<close> that some client points to is
  alive, belongs to that client alone, and its lock callbacks lock that client's mutex; no handle is
  released twice, and when the last object is gone every handle has been released.
\<close>

theorem curl_share_has_one_owner:
  assumes "lives curl_construct curl_destroy curl_move_construct curl_move_assign w"
  shows "distinct (hw_released w) \<and> (hw_objects w = Map.empty \<longrightarrow> hw_live w = {}) \<and>
    (\<forall>a h. hw_objects w a = Some (Some h) \<longrightarrow>
       h \<in> hw_live w \<and> h \<notin> set (hw_released w) \<and> ShareLockCallback h w = Some a \<and>
       (\<forall>b. hw_objects w b = Some (Some h) \<longrightarrow> b = a))"
proof -
  have w: "locked_by_owner w" by (rule clients.lives_ok [OF assms])
  note once = clients.released_once [OF assms]
  have "h \<in> hw_live w \<and> ShareLockCallback h w = Some a \<and> (\<forall>b. hw_objects w b = Some (Some h) \<longrightarrow> b = a)"
    if "hw_objects w a = Some (Some h)" for a h
    using w that by (auto simp: locked_by_owner_def owned_def one_owner_def held_def)
  with once show ?thesis by blast
qed

definition moved_client :: handle_world where
  "moved_client = curl_destroy 1 (curl_move_construct 2 1 (curl_construct 1 True no_handles))"

lemma moved_client_lives: "lives curl_construct curl_destroy curl_move_construct curl_move_assign moved_client"
  unfolding moved_client_def
  by (intro lives.life_destroy lives.life_move lives.life_construct lives.life_none)
    (simp_all add: curl_move_construct_def curl_construct_def set_userdata_def acquire_handle_def take_pointer_def pointer_of_def
      no_handles_def)

theorem curl_share_has_one_owner_witness:
  "hw_objects moved_client 2 = Some (Some 0) \<and> ShareLockCallback 0 moved_client = Some 2 \<and> hw_released moved_client = []"
proof -
  have "hw_objects moved_client 2 = Some (Some 0)" "hw_released moved_client = []"
    by (simp_all add: moved_client_def curl_destroy_def curl_move_construct_def curl_construct_def set_userdata_def
        acquire_handle_def take_pointer_def pointer_of_def release_handle_def no_handles_def)
  with curl_share_has_one_owner [OF moved_client_lives] show ?thesis by blast
qed

text \<open>The same for prepared statements, which have no callbacks.\<close>

lemma statement_has_one_owner:
  assumes "lives statement_construct statement_destroy statement_move_construct statement_move_assign w"
  shows "distinct (hw_released w)" "hw_objects w a = Some (Some h) \<Longrightarrow> h \<notin> set (hw_released w)"
    "hw_objects w = Map.empty \<Longrightarrow> hw_live w = {}"
  by (rule statements.released_once [OF assms], assumption?)+

text \<open>A body that arrives in chunks is their concatenation.\<close>

lemma receive_body_concat:
  "list_all fst chunks \<Longrightarrow> receive_body chunks buffer = Some (buffer @ concat (map snd chunks))"
  by (induction chunks arbitrary: buffer) (auto simp: WriteCallback_def)

end
