(* ===== verification/Memory_Spec.thy ===== *)
theory Memory_Spec
  imports Store_Properties
begin

text \<open>
  What the interface \<open>MemoryStore\<close> of \<open>src/storage/store.h\<close> promises, without tables: a \<open>memory\<close> is a log,
  references to payloads by their address, summaries, entities by their identifier, one relation
  per agent and triple, and a cursor per agent and session. Every write of the interface is a
  list of steps on such a memory. The SQLite store refines it: a write that succeeds has carried out all its
  steps, one that fails the first few of them.
\<close>

section \<open>The abstract memory\<close>

record memory =
  m_log :: "MemoryEvent list"
  m_last :: int
  m_payloads :: "string \<rightharpoonup> MemoryPayloadRef"
  m_summaries :: "(string \<times> string \<times> LongTermSummaryRecord) list"
  m_entities :: "string \<rightharpoonup> MemoryEntity \<times> bool"
  m_relations :: "string \<times> string \<times> string \<times> string \<rightharpoonup> MemoryRelation"
  m_cursors :: "string \<times> string \<rightharpoonup> int"

type_synonym memory_step = "memory \<Rightarrow> memory"

text \<open>Values as they come back: texts end at a NUL byte, confidences have the precision of \<open>float\<close>.\<close>

definition stored_payload :: "MemoryPayloadRef \<Rightarrow> MemoryPayloadRef" where
  "stored_payload p =
     \<lparr>pay_agentId = c_str (pay_agentId p), pay_sessionId = c_str (pay_sessionId p), pay_uri = c_str (pay_uri p),
      pay_contentType = c_str (pay_contentType p), pay_summary = c_str (pay_summary p), pay_toolName = c_str (pay_toolName p),
      pay_originalChars = i32 (pay_originalChars p), pay_metadata = JObj [], pay_createdAt = []\<rparr>"

definition stored_summary :: "string \<Rightarrow> string \<Rightarrow> string \<Rightarrow> rat \<Rightarrow> string list \<Rightarrow> LongTermSummaryRecord" where
  "stored_summary level topic summary confidence refs =
     \<lparr>ls_level = c_str level, ls_topic = c_str topic, ls_summary = c_str summary, ls_confidence = f32 confidence,
      ls_sourceRefs = refs, ls_createdAt = [], ls_updatedAt = []\<rparr>"

definition stored_entity :: "MemoryEntity \<Rightarrow> MemoryEntity" where
  "stored_entity e =
     default_entity\<lparr>en_id := c_str (en_id e), en_agentId := c_str (en_agentId e), en_entityType := c_str (en_entityType e),
       en_name := c_str (en_name e), en_summary := c_str (en_summary e), en_confidence := f32 (en_confidence e),
       en_sourceRefs := en_sourceRefs e, en_metadata := jnorm (JsonObject (en_metadata e))\<rparr>"

definition stored_relation :: "MemoryRelation \<Rightarrow> MemoryRelation" where
  "stored_relation r =
     default_relation\<lparr>rel_agentId := c_str (rel_agentId r), rel_fromEntityId := c_str (rel_fromEntityId r),
       rel_relationType := c_str (rel_relationType r), rel_toEntityId := c_str (rel_toEntityId r),
       rel_confidence := f32 (rel_confidence r), rel_sourceRefs := rel_sourceRefs r,
       rel_metadata := jnorm (relation_metadata r)\<rparr>"

section \<open>The steps\<close>

definition add_event :: "MemoryEvent \<Rightarrow> memory_step" where
  "add_event e m = m\<lparr>m_log := m_log m @ [stored_event e (m_last m + 1)], m_last := m_last m + 1\<rparr>"

definition put_payload :: "string \<Rightarrow> MemoryPayloadRef \<Rightarrow> memory_step" where
  "put_payload now p m =
     m\<lparr>m_payloads := (m_payloads m)(c_str (pay_uri p) \<mapsto>
         (stored_payload p)\<lparr>pay_createdAt :=
            (case m_payloads m (c_str (pay_uri p)) of Some q \<Rightarrow> pay_createdAt q | None \<Rightarrow> now)\<rparr>)\<rparr>"

definition add_summary ::
  "string \<Rightarrow> string \<Rightarrow> string \<Rightarrow> string \<Rightarrow> string \<Rightarrow> rat \<Rightarrow> string list \<Rightarrow> memory_step" where
  "add_summary agent session level topic summary confidence refs m =
     m\<lparr>m_summaries := m_summaries m @ [(c_str agent, c_str session, stored_summary level topic summary confidence refs)]\<rparr>"

definition deactivate :: "(string \<Rightarrow> MemoryEntity \<Rightarrow> bool) \<Rightarrow> memory_step" where
  "deactivate P m = m\<lparr>m_entities := (\<lambda>i. map_option (\<lambda>(e, active). (e, active \<and> \<not> P i e)) (m_entities m i))\<rparr>"

definition put_entity :: "MemoryEntity \<Rightarrow> memory_step" where
  "put_entity e m = m\<lparr>m_entities := (m_entities m)(c_str (en_id e) \<mapsto> (stored_entity e, en_isActive e))\<rparr>"

definition drop_relation :: "MemoryRelation \<Rightarrow> memory_step" where
  "drop_relation r m =
     m\<lparr>m_relations := (m_relations m)
         ((c_str (rel_agentId r), c_str (rel_fromEntityId r), c_str (rel_relationType r), c_str (rel_toEntityId r)) := None)\<rparr>"

definition put_relation :: "MemoryRelation \<Rightarrow> memory_step" where
  "put_relation r m =
     m\<lparr>m_relations := (m_relations m)
         ((c_str (rel_agentId r), c_str (rel_fromEntityId r), c_str (rel_relationType r), c_str (rel_toEntityId r)) \<mapsto>
            stored_relation r)\<rparr>"

definition set_cursor :: "string \<Rightarrow> string \<Rightarrow> int \<Rightarrow> memory_step" where
  "set_cursor agent session c m = m\<lparr>m_cursors := (m_cursors m)((c_str agent, c_str session) \<mapsto> c)\<rparr>"

definition retire :: "string \<Rightarrow> memory_step" where
  "retire eid = deactivate (\<lambda>i e. i = c_str eid)"

definition same_subject :: "MemoryEntity \<Rightarrow> string \<Rightarrow> MemoryEntity \<Rightarrow> bool" where
  "same_subject e i x =
     (i \<noteq> c_str (en_id e) \<and> en_agentId x = c_str (en_agentId e) \<and> en_entityType x = c_str (en_entityType e) \<and>
      en_name x = c_str (en_name e))"

text \<open>
  The writes of the interface, and the steps each consists of: those that a \<open>MemoryStoreTransaction\<close>
  offers, and the writes of the store.
\<close>

datatype tx_write =
    WriteSummary string string string string string rat "string list"
  | WriteEntity MemoryEntity
  | WriteRelation MemoryRelation
  | WriteObsolete string string
  | WriteCursor string string string

datatype store_write =
    WriteEvent MemoryEvent
  | WritePayloadRef MemoryPayloadRef
  | WriteLongTerm tx_write

fun tx_steps :: "tx_write \<Rightarrow> memory_step list" where
  "tx_steps (WriteSummary agent session level topic summary confidence refs) =
     [add_summary agent session level topic summary confidence refs]"
| "tx_steps (WriteEntity e) =
     (if en_id e = [] \<or> en_agentId e = [] \<or> en_entityType e = [] \<or> en_name e = [] then []
      else [deactivate (same_subject e)]) @
     [put_entity e] @ (if en_supersededEntityId e = [] then [] else [retire (en_supersededEntityId e)])"
| "tx_steps (WriteRelation r) =
     [drop_relation r] @ [put_relation r] @ (if rel_relationType r = ''supersedes'' then [retire (rel_toEntityId r)] else [])"
| "tx_steps (WriteObsolete eid supersededBy) = [retire eid]"
| "tx_steps (WriteCursor agent session cursor) = [set_cursor agent session (CursorToInt cursor)]"

fun write_steps :: "string \<Rightarrow> store_write \<Rightarrow> memory_step list" where
  "write_steps now (WriteEvent e) = [add_event e]"
| "write_steps now (WritePayloadRef p) = [put_payload now p]"
| "write_steps now (WriteLongTerm w) = tx_steps w"

definition do_steps :: "memory_step list \<Rightarrow> memory_step" where
  "do_steps fs m = foldl (\<lambda>m f. f m) m fs"

lemma do_steps_append [simp]: "do_steps (fs @ gs) m = do_steps gs (do_steps fs m)"
  by (simp add: do_steps_def)

lemma do_steps_simps [simp]: "do_steps [] m = m" "do_steps (f # fs) m = do_steps fs (f m)"
  by (simp_all add: do_steps_def)

text \<open>The same writes on the store: through its public operations and through a transaction object.\<close>

fun perform_tx :: "json_lib \<Rightarrow> tx_write \<Rightarrow> store \<Rightarrow> MemoryOperationResult outcome \<times> store" where
  "perform_tx J (WriteSummary agent session level topic summary confidence refs) s =
     tx_SaveSummary J agent session level topic summary confidence refs s"
| "perform_tx J (WriteEntity e) s = tx_SaveEntity J e s"
| "perform_tx J (WriteRelation r) s = tx_SaveRelation J r s"
| "perform_tx J (WriteObsolete eid supersededBy) s = tx_MarkEntityObsolete eid supersededBy s"
| "perform_tx J (WriteCursor agent session cursor) s = tx_SaveConsolidationCursor agent session cursor s"

fun perform :: "json_lib \<Rightarrow> store_write \<Rightarrow> store \<Rightarrow> MemoryOperationResult outcome \<times> store" where
  "perform J (WriteEvent e) s = SaveEvent J e s"
| "perform J (WritePayloadRef p) s = SavePayload p s"
| "perform J (WriteLongTerm (WriteSummary agent session level topic summary confidence refs)) s =
     SaveSummary J agent session level topic summary confidence refs s"
| "perform J (WriteLongTerm (WriteEntity e)) s = SaveEntity J e s"
| "perform J (WriteLongTerm (WriteRelation r)) s = SaveRelation J r s"
| "perform J (WriteLongTerm (WriteObsolete eid supersededBy)) s = MarkEntityObsolete eid supersededBy s"
| "perform J (WriteLongTerm (WriteCursor agent session cursor)) s = SaveConsolidationCursor agent session cursor s"

text \<open>A client that makes several writes through either and stops at the first that fails.\<close>

fun perform_all ::
  "(tx_write \<Rightarrow> store \<Rightarrow> MemoryOperationResult outcome \<times> store) \<Rightarrow> tx_write list \<Rightarrow> store \<Rightarrow>
   (MemoryOperationResult \<times> unit) outcome \<times> store" where
  "perform_all save [] s = (Ret (MemorySuccess, ()), s)"
| "perform_all save (w # ws) s =
     (case save w s of
        (Throw t, s1) \<Rightarrow> (Throw t, s1)
      | (Ret r, s1) \<Rightarrow> (if succeeded r then perform_all save ws s1 else (Ret (r, ()), s1)))"

section \<open>The abstraction\<close>

definition relation_view :: "json_lib \<Rightarrow> relation_row \<Rightarrow> MemoryRelation" where
  "relation_view J r = (ReadRelationRow J r)\<lparr>rel_id := []\<rparr>"

definition memory_of :: "json_lib \<Rightarrow> database \<Rightarrow> memory" where
  "memory_of J d =
     \<lparr>m_log = event_log J d, m_last = seq_events d,
      m_payloads = (\<lambda>u. map_option ReadPayloadRow (find (\<lambda>r. pyr_ref r = u) (t_payloads d))),
      m_summaries = map (\<lambda>r. (smr_agent r, smr_session r, ReadSummaryRow J r)) (t_summaries d),
      m_entities = (\<lambda>i. map_option (\<lambda>r. (ReadEntityRow J r, enr_active r)) (find (\<lambda>r. enr_id r = i) (t_entities d))),
      m_relations = (\<lambda>k. map_option (relation_view J) (find (\<lambda>r. rlr_active r \<and> relation_key r = k) (rev (t_relations d)))),
      m_cursors = (\<lambda>(a, s). select_cursor a s d)\<rparr>"

section \<open>Statements\<close>

lemma find_exists: "\<exists>x\<in>set rows. P x \<Longrightarrow> \<exists>x. find P rows = Some x"
  by (induction rows) auto

lemma find_key_update:
  "(\<And>x. key x = k \<Longrightarrow> key (f x) = k) \<Longrightarrow>
   find (\<lambda>r. key r = u) (update_rows (\<lambda>r. key r = k) f rows) =
     (if u = k then map_option f (find (\<lambda>r. key r = k) rows) else find (\<lambda>r. key r = u) rows)"
  by (induction rows) (auto simp: update_rows_def)

lemma find_update_keep:
  "(\<And>x. P x \<Longrightarrow> key (f x) = key x) \<Longrightarrow>
   find (\<lambda>r. key r = u) (update_rows P f rows) = map_option (\<lambda>r. if P r then f r else r) (find (\<lambda>r. key r = u) rows)"
  by (induction rows) (auto simp: update_rows_def)

lemma ParseSourceRefs_stored:
  assumes "json_text_ok J" "SerializeSourceRefs J refs = Inr text"
  shows "ParseSourceRefsColumn J (c_str text) = refs"
proof -
  note t = json_text_okD [OF assms(1) assms(2) [unfolded SerializeSourceRefs_def]]
  show ?thesis
    using t by (simp add: ParseSourceRefsColumn_def c_str_nul_free ExtractSourceRefsFromJson_def)
      (simp add: string_array_def)
qed

lemma ParseJson_stored:
  assumes "json_text_ok J" "jdump J j = Inr text" "is_object j"
  shows "ParseJsonColumn J (c_str text) = jnorm j"
  using json_text_okD [OF assms(1,2)] assms(3)
  by (simp add: ParseJsonColumn_def ParseJsonSafely_def c_str_nul_free JsonObject_id)

lemma memory_event:
  assumes "json_text_ok J" "valid_event_type (ev_type e)" "jdump J (JsonObject (ev_metadata e)) = Inr mj"
    "insert_event now (event_to_row e mj) d = Some d'"
  shows "memory_of J d' = add_event e (memory_of J d)"
  using event_log_insert [OF assms] assms(4)
  by (auto simp: memory_of_def add_event_def insert_event_def select_cursor_def fun_eq_iff split: if_splits)

lemma memory_payload:
  assumes "upsert_payload now (payload_to_row p) d = Some d'"
  shows "memory_of J d' = put_payload now p (memory_of J d)"
proof (cases "\<exists>x\<in>set (t_payloads d). pyr_ref x = pyr_ref (payload_to_row p)")
  case True
  let ?P = "\<lambda>x. pyr_ref x = pyr_ref (payload_to_row p)"
  have d': "d' = d\<lparr>t_payloads := update_rows ?P (payload_conflict_update (payload_to_row p)) (t_payloads d)\<rparr>"
    using assms True by (simp add: upsert_payload_def)
  obtain x where x: "find ?P (t_payloads d) = Some x" using find_exists [OF True] by blast
  have f: "find (\<lambda>r. pyr_ref r = u) (t_payloads d') =
      (if u = pyr_ref (payload_to_row p) then Some (payload_conflict_update (payload_to_row p) x) else find (\<lambda>r. pyr_ref r = u) (t_payloads d))" for u
    unfolding d' using x find_key_update [of pyr_ref "pyr_ref (payload_to_row p)" "payload_conflict_update (payload_to_row p)" u]
    by (simp add: payload_conflict_update_def)
  have "pyr_ref x = pyr_ref (payload_to_row p)" using x by (auto simp: find_Some_iff)
  then have "ReadPayloadRow (payload_conflict_update (payload_to_row p) x) = (stored_payload p)\<lparr>pay_createdAt := pyr_created_at x\<rparr>"
    by (simp add: ReadPayloadRow_def payload_conflict_update_def payload_to_row_def stored_payload_def)
  with f x show ?thesis
    by (simp add: memory_of_def put_payload_def fun_eq_iff d' event_log_def select_cursor_def)
      (simp add: payload_to_row_def ReadPayloadRow_def)
next
  case False
  have new: "find (\<lambda>x. pyr_ref x = pyr_ref (payload_to_row p)) (t_payloads d) = None"
    using False by (simp add: find_None_iff)
  show ?thesis
    using assms False new
    by (auto simp: upsert_payload_def memory_of_def put_payload_def fun_eq_iff event_log_def select_cursor_def find_append1
        payload_to_row_def ReadPayloadRow_def stored_payload_def split: if_splits option.splits)
qed

lemma memory_summary:
  assumes "json_text_ok J" "SerializeSourceRefs J refs = Inr text"
    "insert_summary now \<lparr>smr_id = 0, smr_agent = c_str agent, smr_session = c_str session, smr_level = c_str level,
       smr_topic = c_str topic, smr_summary = c_str summary, smr_source_refs_json = c_str text, smr_confidence = confidence,
       smr_updated_at = []\<rparr> d = Some d'"
  shows "memory_of J d' = add_summary agent session level topic summary confidence refs (memory_of J d)"
  using assms(3) ParseSourceRefs_stored [OF assms(1,2)]
  by (auto simp: insert_summary_def memory_of_def add_summary_def stored_summary_def ReadSummaryRow_def event_log_def
      select_cursor_def Let_def split: if_splits)

lemma memory_cursor:
  assumes "upsert_cursor now (c_str agent) (c_str session) c d = Some d'"
  shows "memory_of J d' = set_cursor agent session c (memory_of J d)"
proof -
  have "t_events d' = t_events d" "seq_events d' = seq_events d" "t_payloads d' = t_payloads d" "t_summaries d' = t_summaries d"
    "t_entities d' = t_entities d" "t_relations d' = t_relations d"
    using assms by (auto simp: upsert_cursor_def split: if_splits)
  then show ?thesis
    by (auto simp: memory_of_def set_cursor_def event_log_def select_upsert_cursor [OF assms] fun_eq_iff)
qed

text \<open>Statements on the entities leave the other tables alone.\<close>

lemma memory_entities_only:
  assumes "d' = d\<lparr>t_entities := rows, fts_entities := idx\<rparr>"
  shows "memory_of J d' = (memory_of J d)\<lparr>m_entities :=
    (\<lambda>i. map_option (\<lambda>r. (ReadEntityRow J r, enr_active r)) (find (\<lambda>r. enr_id r = i) rows))\<rparr>"
  unfolding assms by (simp add: memory_of_def event_log_def select_cursor_def)

lemma find_keyed: "find (\<lambda>r. key r = i) rows = Some r \<Longrightarrow> key r = i"
  by (auto simp: find_Some_iff)

lemma memory_deactivate:
  assumes d': "d' = update_entities P (obsolete_entity now by) d"
    and P: "\<And>r. P r \<Longrightarrow> Q (enr_id r) (ReadEntityRow J r)" "\<And>r. enr_active r \<Longrightarrow> Q (enr_id r) (ReadEntityRow J r) \<Longrightarrow> P r"
  shows "memory_of J d' = deactivate Q (memory_of J d)"
proof -
  let ?rows = "update_rows P (obsolete_entity now by) (t_entities d)"
  have same: "ReadEntityRow J (obsolete_entity now by r) = ReadEntityRow J r" for r
    by (simp add: ReadEntityRow_def obsolete_entity_def)
  have "map_option (\<lambda>r. (ReadEntityRow J r, enr_active r)) (find (\<lambda>r. enr_id r = i) ?rows) =
      map_option (\<lambda>(e, active). (e, active \<and> \<not> Q i e))
        (map_option (\<lambda>r. (ReadEntityRow J r, enr_active r)) (find (\<lambda>r. enr_id r = i) (t_entities d)))" for i
  proof -
    have "find (\<lambda>r. enr_id r = i) ?rows =
        map_option (\<lambda>r. if P r then obsolete_entity now by r else r) (find (\<lambda>r. enr_id r = i) (t_entities d))"
      by (rule find_update_keep) (simp add: obsolete_entity_def)
    then show ?thesis
      using P same find_keyed [of enr_id i "t_entities d"]
      by (cases "find (\<lambda>r. enr_id r = i) (t_entities d)") (auto simp: obsolete_entity_def)
  qed
  then show ?thesis
    using memory_entities_only [OF d' [unfolded update_entities_def]] by (simp add: deactivate_def memory_of_def)
qed

lemma memory_retire:
  assumes "mark_entity_obsolete now (c_str eid) by d = Some d'"
  shows "memory_of J d' = retire eid (memory_of J d)"
proof -
  have "d' = update_entities (\<lambda>r. enr_id r = c_str eid) (obsolete_entity now by) d"
    using assms by (simp add: mark_entity_obsolete_def)
  then show ?thesis unfolding retire_def by (rule memory_deactivate) simp_all
qed

lemma memory_duplicates:
  assumes "mark_duplicate_entities now (c_str (en_id e)) (c_str (en_agentId e)) (c_str (en_entityType e)) (c_str (en_name e)) d = Some d'"
  shows "memory_of J d' = deactivate (same_subject e) (memory_of J d)"
proof (rule memory_deactivate)
  show "d' = update_entities (\<lambda>r. entity_key r = (c_str (en_agentId e), c_str (en_entityType e), c_str (en_name e)) \<and>
      enr_id r \<noteq> c_str (en_id e) \<and> enr_active r) (obsolete_entity now (c_str (en_id e))) d"
    using assms by (simp add: mark_duplicate_entities_def)
qed (auto simp: entity_key_def same_subject_def ReadEntityRow_def)

lemma memory_entity:
  assumes J: "json_text_ok J" and dumped: "SerializeSourceRefs J (en_sourceRefs e) = Inr refs"
      "jdump J (JsonObject (en_metadata e)) = Inr meta"
    and d': "upsert_entity now (entity_to_row e refs meta) d = Some d'"
  shows "memory_of J d' = put_entity e (memory_of J d)"
proof -
  let ?r = "entity_to_row e refs meta"
  have meta: "ParseJsonColumn J (c_str meta) = jnorm (JsonObject (en_metadata e))"
    by (rule ParseJson_stored [OF J dumped(2)]) simp
  have read: "ReadEntityRow J (?r\<lparr>enr_rowid := n, enr_updated_at := t\<rparr>) = stored_entity e" for n t
    using ParseSourceRefs_stored [OF J dumped(1)] meta by (simp add: ReadEntityRow_def entity_to_row_def stored_entity_def)
  have id: "enr_id ?r = c_str (en_id e)" "enr_active ?r = en_isActive e" by (simp_all add: entity_to_row_def)
  show ?thesis
  proof (cases "\<exists>x\<in>set (t_entities d). enr_id x = enr_id ?r")
    case True
    let ?rows = "update_rows (\<lambda>x. enr_id x = enr_id ?r) (entity_conflict_update now ?r) (t_entities d)"
    obtain x where x: "find (\<lambda>x. enr_id x = enr_id ?r) (t_entities d) = Some x" using find_exists [OF True] by blast
    have f: "find (\<lambda>r. enr_id r = u) ?rows =
        (if u = enr_id ?r then Some (entity_conflict_update now ?r x) else find (\<lambda>r. enr_id r = u) (t_entities d))" for u
      using x find_key_update [of enr_id "enr_id ?r" "entity_conflict_update now ?r" u]
      by (simp add: entity_conflict_update_def)
    have "d' = update_entities (\<lambda>x. enr_id x = enr_id ?r) (entity_conflict_update now ?r) d"
      using d' True by (simp add: upsert_entity_def)
    from memory_entities_only [OF this [unfolded update_entities_def]] show ?thesis
      using f read id by (simp add: put_entity_def memory_of_def fun_eq_iff entity_conflict_update_def)
  next
    case False
    have new: "find (\<lambda>x. enr_id x = enr_id ?r) (t_entities d) = None" using False by (simp add: find_None_iff)
    from d' upsert_entity_new [OF False] have
      "d' = d\<lparr>t_entities := t_entities d @ [?r\<lparr>enr_rowid := next_entity_rowid (t_entities d), enr_updated_at := now\<rparr>],
         fts_entities := fts_after_insert (entity_doc (?r\<lparr>enr_rowid := next_entity_rowid (t_entities d), enr_updated_at := now\<rparr>)) (fts_entities d)\<rparr>"
      by simp
    from memory_entities_only [OF this] show ?thesis
      using new read id by (simp add: put_entity_def memory_of_def fun_eq_iff find_append1 split: option.splits)
  qed
qed

lemma memory_relations_only:
  assumes "d' = d\<lparr>t_relations := rows, seq_relations := n, fts_relations := idx\<rparr>"
  shows "memory_of J d' = (memory_of J d)\<lparr>m_relations :=
    (\<lambda>k. map_option (relation_view J) (find (\<lambda>r. rlr_active r \<and> relation_key r = k) (rev rows)))\<rparr>"
  unfolding assms by (simp add: memory_of_def event_log_def select_cursor_def)

lemma find_deactivated:
  "(\<And>r. \<not> act (f r)) \<Longrightarrow> find (\<lambda>r. act r \<and> key r = u) (update_rows (\<lambda>r. key r = k \<and> act r) f rows) =
     (if u = k then None else find (\<lambda>r. act r \<and> key r = u) rows)"
  by (induction rows) (auto simp: update_rows_def)

lemma rev_update_rows: "rev (update_rows P f rows) = update_rows P f (rev rows)"
  by (simp add: update_rows_def rev_map)

lemma memory_drop_relation:
  assumes "obsolete_relations now (c_str (rel_agentId r)) (c_str (rel_fromEntityId r)) (c_str (rel_relationType r))
    (c_str (rel_toEntityId r)) d = Some d'"
  shows "memory_of J d' = drop_relation r (memory_of J d)"
proof -
  let ?k = "(c_str (rel_agentId r), c_str (rel_fromEntityId r), c_str (rel_relationType r), c_str (rel_toEntityId r))"
  let ?P = "\<lambda>r. relation_key r = ?k \<and> rlr_active r" and ?f = "\<lambda>r. r\<lparr>rlr_active := False, rlr_updated_at := now\<rparr>"
  have "d' = d\<lparr>t_relations := update_rows ?P ?f (t_relations d), seq_relations := seq_relations d,
      fts_relations := update_index relation_doc ?P ?f (t_relations d) (fts_relations d)\<rparr>"
    using assms by (simp add: obsolete_relations_def Let_def)
  from memory_relations_only [OF this] show ?thesis
    using find_deactivated [of rlr_active ?f relation_key _ ?k "rev (t_relations d)"]
    by (simp add: drop_relation_def memory_of_def rev_update_rows fun_eq_iff)
qed

lemma relation_metadata_object: "is_object (relation_metadata r)"
  by (simp add: relation_metadata_def Let_def)

lemma memory_put_relation:
  assumes J: "json_text_ok J" and dumped: "SerializeSourceRefs J (rel_sourceRefs r) = Inr refs" "jdump J (relation_metadata r) = Inr meta"
    and d': "insert_relation now (relation_to_row r refs meta) d = Some d'"
  shows "memory_of J d' = put_relation r (memory_of J d)"
proof -
  let ?k = "(c_str (rel_agentId r), c_str (rel_fromEntityId r), c_str (rel_relationType r), c_str (rel_toEntityId r))"
  let ?n = "(relation_to_row r refs meta)\<lparr>rlr_id := seq_relations d + 1, rlr_active := True, rlr_updated_at := now\<rparr>"
  have "d' = d\<lparr>t_relations := t_relations d @ [?n], seq_relations := seq_relations d + 1,
      fts_relations := fts_after_insert (relation_doc ?n) (fts_relations d)\<rparr>"
    using d' by (auto simp: insert_relation_def Let_def split: if_splits)
  note m = memory_relations_only [OF this, of J]
  have "ParseJsonColumn J (c_str meta) = jnorm (relation_metadata r)"
    by (rule ParseJson_stored [OF J dumped(2) relation_metadata_object])
  then have "relation_view J ?n = stored_relation r" "relation_key ?n = ?k"
    using ParseSourceRefs_stored [OF J dumped(1)]
    by (simp_all add: relation_view_def ReadRelationRow_def relation_to_row_def stored_relation_def relation_key_def default_relation_def)
  then show ?thesis unfolding m by (auto simp: put_relation_def memory_of_def fun_eq_iff)
qed

section \<open>Refinement\<close>

text \<open>
  The memory has gone through the first \<open>k\<close> of the steps; all of them exactly when the operation
  reports success.
\<close>

definition carried_out :: "json_lib \<Rightarrow> memory_step list \<Rightarrow> store \<Rightarrow> bool \<Rightarrow> store \<Rightarrow> bool" where
  "carried_out J fs s ok s' =
     (\<exists>d d' k. s_db s = Some d \<and> s_db s' = Some d' \<and> k \<le> length fs \<and>
        memory_of J d' = do_steps (take k fs) (memory_of J d) \<and> (ok \<longleftrightarrow> k = length fs))"

lemma carried_out_none: "s_db s = Some d \<Longrightarrow> s_db s' = s_db s \<Longrightarrow> fs \<noteq> [] \<Longrightarrow> carried_out J fs s False s'"
  unfolding carried_out_def by (intro exI [of _ d] exI [of _ 0]) simp

lemma carried_out_Nil: "s_db s = Some d \<Longrightarrow> carried_out J [] s True s"
  by (simp add: carried_out_def)

lemma carried_out_stop:
  assumes "carried_out J fs s False s'"
  shows "carried_out J (fs @ gs) s False s'"
proof -
  obtain d d' k where k: "s_db s = Some d" "s_db s' = Some d'" "k \<le> length fs" "k \<noteq> length fs"
    "memory_of J d' = do_steps (take k fs) (memory_of J d)" using assms by (auto simp: carried_out_def)
  then show ?thesis unfolding carried_out_def by (intro exI [of _ d] exI [of _ d'] exI [of _ k]) simp
qed

lemma carried_out_append:
  assumes "carried_out J fs s True s1" "carried_out J gs s1 ok s'"
  shows "carried_out J (fs @ gs) s ok s'"
proof -
  obtain d d1 where 1: "s_db s = Some d" "s_db s1 = Some d1" "memory_of J d1 = do_steps fs (memory_of J d)"
    using assms(1) by (auto simp: carried_out_def)
  with assms(2) obtain d' k where 2: "s_db s' = Some d'" "k \<le> length gs" "memory_of J d' = do_steps (take k gs) (memory_of J d1)"
    "ok \<longleftrightarrow> k = length gs" by (auto simp: carried_out_def)
  with 1 show ?thesis unfolding carried_out_def
    by (intro exI [of _ d] exI [of _ d'] exI [of _ "length fs + k"]) simp
qed

lemma stmt_carried_out:
  assumes "run_stmt f s = (ok, s')" "s_db s \<noteq> None" "\<And>d d'. f d = Some d' \<Longrightarrow> memory_of J d' = g (memory_of J d)"
  shows "carried_out J [g] s ok s'"
proof (cases ok)
  case True
  with run_stmt_db [OF assms(1)] obtain d d' where "s_db s = Some d" "f d = Some d'" "s_db s' = Some d'" by auto
  with True assms(3) show ?thesis unfolding carried_out_def by (intro exI [of _ d] exI [of _ d'] exI [of _ 1]) simp
next
  case False
  with run_stmt_db [OF assms(1)] assms(2) show ?thesis by (auto intro: carried_out_none)
qed

lemma carried_out_db: "carried_out J fs s ok s' \<Longrightarrow> s_db s' \<noteq> None"
  by (auto simp: carried_out_def)

text \<open>The operations, as the store and the transaction object share them.\<close>

lemma summary_carried_out:
  assumes "json_text_ok J" "s_db s \<noteq> None" "SaveSummaryUnlocked J agent session level topic summary confidence refs s = (r, s')"
  shows "carried_out J (tx_steps (WriteSummary agent session level topic summary confidence refs)) s (r = Ret True) s'"
proof (cases "SerializeSourceRefs J refs")
  case (Inl w)
  then show ?thesis using assms by (auto simp: SaveSummaryUnlocked_def intro: carried_out_none)
next
  case (Inr texts)
  let ?f = "insert_summary (s_now s) \<lparr>smr_id = 0, smr_agent = c_str agent, smr_session = c_str session, smr_level = c_str level,
       smr_topic = c_str topic, smr_summary = c_str summary, smr_source_refs_json = c_str texts, smr_confidence = confidence,
       smr_updated_at = []\<rparr>"
  obtain ok s1 where run: "run_stmt ?f s = (ok, s1)" by fastforce
  have "r = Ret ok" "s' = s1" using assms(3) Inr run by (simp_all add: SaveSummaryUnlocked_def Let_def)
  moreover have "carried_out J [add_summary agent session level topic summary confidence refs] s ok s1"
    by (rule stmt_carried_out [OF run assms(2)]) (rule memory_summary [OF assms(1) Inr])
  ultimately show ?thesis by simp
qed

lemma obsolete_carried_out:
  "s_db s \<noteq> None \<Longrightarrow> MarkEntityObsoleteUnlocked eid supersededBy s = (ok, s') \<Longrightarrow>
   carried_out J (tx_steps (WriteObsolete eid supersededBy)) s ok s'"
  unfolding MarkEntityObsoleteUnlocked_def by (simp add: stmt_carried_out memory_retire)

lemma cursor_carried_out:
  "s_db s \<noteq> None \<Longrightarrow> SaveConsolidationCursorUnlocked agent session cursor s = (ok, s') \<Longrightarrow>
   carried_out J (tx_steps (WriteCursor agent session cursor)) s ok s'"
  unfolding SaveConsolidationCursorUnlocked_def by (simp add: stmt_carried_out memory_cursor)

lemma payload_carried_out:
  "s_db s \<noteq> None \<Longrightarrow> SavePayloadUnlocked p s = (ok, s') \<Longrightarrow>
   carried_out J (write_steps (s_now s) (WritePayloadRef p)) s ok s'"
  unfolding SavePayloadUnlocked_def by (simp add: stmt_carried_out memory_payload)

lemma duplicates_carried_out:
  assumes "s_db s \<noteq> None" "MarkDuplicateEntitiesObsoleteUnlocked e s = (ok, s')"
  shows "carried_out J (if en_id e = [] \<or> en_agentId e = [] \<or> en_entityType e = [] \<or> en_name e = [] then []
      else [deactivate (same_subject e)]) s ok s'"
  using assms
  by (auto simp: MarkDuplicateEntitiesObsoleteUnlocked_def carried_out_Nil split: if_splits
      intro!: stmt_carried_out memory_duplicates)

text \<open>One statement after another, up to the first that fails.\<close>

lemma carried_out_then:
  assumes "carried_out J fs s ok s1" "ok \<Longrightarrow> carried_out J gs s1 ok' s'" "\<not> ok \<Longrightarrow> \<not> ok' \<and> s' = s1"
  shows "carried_out J (fs @ gs) s ok' s'"
  using assms carried_out_append carried_out_stop by (cases ok) auto

lemma entity_carried_out:
  assumes J: "json_text_ok J" and db: "s_db s \<noteq> None" and run: "SaveEntityUnlocked J e s = (r, s')"
  shows "carried_out J (tx_steps (WriteEntity e)) s (r = Ret True) s'"
proof (cases "\<exists>refs meta. SerializeSourceRefs J (en_sourceRefs e) = Inr refs \<and> jdump J (JsonObject (en_metadata e)) = Inr meta")
  case False
  then have "s' = s" "r \<noteq> Ret True" using run by (auto simp: SaveEntityUnlocked_def split: sum.splits)
  then show ?thesis using db by (auto intro: carried_out_none)
next
  case True
  then obtain refs meta where t: "SerializeSourceRefs J (en_sourceRefs e) = Inr refs" "jdump J (JsonObject (en_metadata e)) = Inr meta" by blast
  obtain ok1 s1 where m: "MarkDuplicateEntitiesObsoleteUnlocked e s = (ok1, s1)" by fastforce
  obtain ok2 s2 where u: "run_stmt (upsert_entity (s_now s1) (entity_to_row e refs meta)) s1 = (ok2, s2)" by fastforce
  obtain ok3 s3 where o: "MarkEntityObsoleteUnlocked (en_supersededEntityId e) (en_id e) s2 = (ok3, s3)" by fastforce
  note un = run [unfolded SaveEntityUnlocked_def t m u o sum.case Let_def prod.case]
  note 1 = duplicates_carried_out [OF db m, of J]
  have 2: "carried_out J [put_entity e] s1 ok2 s2"
    by (rule stmt_carried_out [OF u carried_out_db [OF 1]]) (rule memory_entity [OF J t])
  note 3 = obsolete_carried_out [OF carried_out_db [OF 2] o, of J]
  show ?thesis unfolding tx_steps.simps
  proof (rule carried_out_then [OF 1])
    show "carried_out J ([put_entity e] @ (if en_supersededEntityId e = [] then [] else [retire (en_supersededEntityId e)])) s1 (r = Ret True) s'"
      if ok1
      by (rule carried_out_then [OF 2]) (use un that 3 carried_out_Nil [of s2] carried_out_db [OF 2] in \<open>auto split: if_splits\<close>)
  qed (use un in auto)
qed

lemma relation_carried_out:
  assumes J: "json_text_ok J" and db: "s_db s \<noteq> None" and run: "SaveRelationUnlocked J rel s = (r, s')"
  shows "carried_out J (tx_steps (WriteRelation rel)) s (r = Ret True) s'"
proof (cases "\<exists>refs meta. SerializeSourceRefs J (rel_sourceRefs rel) = Inr refs \<and> jdump J (relation_metadata rel) = Inr meta")
  case False
  then have "s' = s" "r \<noteq> Ret True" using run by (auto simp: SaveRelationUnlocked_def split: sum.splits)
  then show ?thesis using db by (auto intro: carried_out_none)
next
  case True
  then obtain refs meta where t: "SerializeSourceRefs J (rel_sourceRefs rel) = Inr refs" "jdump J (relation_metadata rel) = Inr meta" by blast
  obtain ok1 s1 where m: "run_stmt (obsolete_relations (s_now s) (c_str (rel_agentId rel)) (c_str (rel_fromEntityId rel))
      (c_str (rel_relationType rel)) (c_str (rel_toEntityId rel))) s = (ok1, s1)" by fastforce
  obtain ok2 s2 where u: "run_stmt (insert_relation (s_now s1) (relation_to_row rel refs meta)) s1 = (ok2, s2)" by fastforce
  obtain ok3 s3 where o: "MarkEntityObsoleteUnlocked (rel_toEntityId rel) (rel_fromEntityId rel) s2 = (ok3, s3)" by fastforce
  note un = run [unfolded SaveRelationUnlocked_def t m u o sum.case Let_def prod.case]
  have 1: "carried_out J [drop_relation rel] s ok1 s1"
    by (rule stmt_carried_out [OF m db]) (rule memory_drop_relation)
  have 2: "carried_out J [put_relation rel] s1 ok2 s2"
    by (rule stmt_carried_out [OF u carried_out_db [OF 1]]) (rule memory_put_relation [OF J t])
  note 3 = obsolete_carried_out [OF carried_out_db [OF 2] o, of J]
  show ?thesis unfolding tx_steps.simps
  proof (rule carried_out_then [OF 1])
    show "carried_out J ([put_relation rel] @ (if rel_relationType rel = ''supersedes'' then [retire (rel_toEntityId rel)] else [])) s1 (r = Ret True) s'"
      if ok1
      by (rule carried_out_then [OF 2]) (use un that 3 carried_out_Nil [of s2] carried_out_db [OF 2] in \<open>auto split: if_splits\<close>)
  qed (use un in auto)
qed

definition ok_result :: "MemoryOperationResult outcome \<Rightarrow> bool" where
  "ok_result r = (\<exists>x. r = Ret x \<and> succeeded x)"

lemma op_result_ok: "op_result ctx p = (r, s') \<Longrightarrow> ok_result r = (fst p = Ret True) \<and> s' = snd p"
  by (cases "(ctx, p)" rule: op_result.cases) (auto simp: ok_result_def SqliteFailure_def split: if_splits)

definition unlocked_tx :: "json_lib \<Rightarrow> tx_write \<Rightarrow> store \<Rightarrow> bool outcome \<times> store" where
  "unlocked_tx J w s =
     (case w of
        WriteSummary agent session level topic summary confidence refs \<Rightarrow>
          SaveSummaryUnlocked J agent session level topic summary confidence refs s
      | WriteEntity e \<Rightarrow> SaveEntityUnlocked J e s
      | WriteRelation r \<Rightarrow> SaveRelationUnlocked J r s
      | WriteObsolete eid supersededBy \<Rightarrow> lift_ok (MarkEntityObsoleteUnlocked eid supersededBy s)
      | WriteCursor agent session cursor \<Rightarrow> lift_ok (SaveConsolidationCursorUnlocked agent session cursor s))"

lemma unlocked_carried_out:
  assumes "json_text_ok J" "s_db s \<noteq> None"
  shows "carried_out J (tx_steps w) s (fst (unlocked_tx J w s) = Ret True) (snd (unlocked_tx J w s))"
  using summary_carried_out [OF assms surjective_pairing] entity_carried_out [OF assms surjective_pairing]
    relation_carried_out [OF assms surjective_pairing] obsolete_carried_out [OF assms(2) surjective_pairing, of J]
    cursor_carried_out [OF assms(2) surjective_pairing, of J]
  by (cases w) (simp_all add: unlocked_tx_def lift_ok_def)

lemma perform_tx_unlocked: "\<exists>ctx. perform_tx J w s = op_result ctx (unlocked_tx J w s)"
  by (cases w) (auto simp: unlocked_tx_def tx_SaveSummary_def tx_SaveEntity_def tx_SaveRelation_def tx_MarkEntityObsolete_def
      tx_SaveConsolidationCursor_def)

lemma perform_unlocked: "s_db s \<noteq> None \<Longrightarrow> \<exists>ctx. perform J (WriteLongTerm w) s = op_result ctx (unlocked_tx J w s)"
  by (cases w) (auto simp: unlocked_tx_def guarded_def SaveSummary_def SaveEntity_def SaveRelation_def MarkEntityObsolete_def
      SaveConsolidationCursor_def)

text \<open>
  The contract of the writes of long-term memory, for whoever offers them: the transaction object
  and the store itself do. A client that makes several writes relies on nothing else.
\<close>

locale long_term_writes =
  fixes J :: json_lib and save :: "tx_write \<Rightarrow> store \<Rightarrow> MemoryOperationResult outcome \<times> store"
  assumes refines: "json_text_ok J \<Longrightarrow> s_db s \<noteq> None \<Longrightarrow> save w s = (r, s') \<Longrightarrow> carried_out J (tx_steps w) s (ok_result r) s'"
begin

lemma sequence_refines:
  assumes J: "json_text_ok J" and run: "s_db s \<noteq> None" "perform_all save ws s = (Ret (r, ()), s')"
  shows "carried_out J (concat (map tx_steps ws)) s (succeeded r) s'"
  using run
proof (induction ws arbitrary: s)
  case Nil
  then show ?case using carried_out_Nil by auto
next
  case (Cons w ws)
  obtain r1 s1 where run: "save w s = (r1, s1)" by fastforce
  obtain x where x: "r1 = Ret x" using Cons.prems(2) run by (cases r1) auto
  note 1 = refines [OF J Cons.prems(1) run]
  have ok: "ok_result r1 = succeeded x" by (simp add: ok_result_def x)
  have "carried_out J (tx_steps w @ concat (map tx_steps ws)) s (succeeded r) s'"
  proof (rule carried_out_then [OF 1])
    show "carried_out J (concat (map tx_steps ws)) s1 (succeeded r) s'" if "ok_result r1"
      by (rule Cons.IH [OF carried_out_db [OF 1]]) (use Cons.prems(2) run x that ok in simp)
    show "\<not> succeeded r \<and> s' = s1" if "\<not> ok_result r1" using Cons.prems(2) run x that ok by auto
  qed
  then show ?case by simp
qed

end

interpretation transaction_writes: long_term_writes J "perform_tx J" for J
proof
  fix s w r s'
  assume "json_text_ok J" "s_db s \<noteq> None" "perform_tx J w s = (r, s')"
  moreover from this obtain ctx where "op_result ctx (unlocked_tx J w s) = (r, s')" using perform_tx_unlocked [of J w s] by auto
  ultimately show "carried_out J (tx_steps w) s (ok_result r) s'" using op_result_ok [of ctx] unlocked_carried_out [of J s w] by simp
qed

interpretation store_writes: long_term_writes J "\<lambda>w. perform J (WriteLongTerm w)" for J
proof
  fix s w r s'
  assume *: "json_text_ok J" "s_db s \<noteq> None" "perform J (WriteLongTerm w) s = (r, s')"
  then obtain ctx where "op_result ctx (unlocked_tx J w s) = (r, s')" using perform_unlocked [of s J w] by auto
  with * show "carried_out J (tx_steps w) s (ok_result r) s'" using op_result_ok [of ctx] unlocked_carried_out [of J s w] by simp
qed

definition valid_write :: "store_write \<Rightarrow> bool" where
  "valid_write w = (case w of WriteEvent e \<Rightarrow> valid_event_type (ev_type e) | _ \<Rightarrow> True)"

lemma perform_refines:
  assumes "json_text_ok J" "valid_write w" "s_db s \<noteq> None" "perform J w s = (r, s')"
  shows "carried_out J (write_steps (s_now s) w) s (ok_result r) s'"
proof (cases w)
  case (WriteEvent e)
  obtain d where d: "s_db s = Some d" using assms(3) by blast
  from assms(4) WriteEvent have "SaveEvent J e s = (r, s')" by simp
  then show ?thesis
  proof (cases rule: SaveEvent_cases)
    case (saved d0 mj now)
    then obtain d' where d': "s_db s' = Some d'" "insert_event now (event_to_row e mj) d = Some d'" using d by auto
    have "memory_of J d' = add_event e (memory_of J d)"
      using memory_event [OF assms(1) _ saved(3) d'(2)] assms(2) WriteEvent by (simp add: valid_write_def)
    then show ?thesis using saved(1) d d' WriteEvent unfolding carried_out_def
      by (intro exI [of _ d] exI [of _ d'] exI [of _ 1]) (simp add: ok_result_def)
  next
    case (failed f)
    then show ?thesis using d WriteEvent by (auto simp: ok_result_def intro: carried_out_none)
  next
    case (thrown t)
    then show ?thesis using d WriteEvent by (auto simp: ok_result_def intro: carried_out_none)
  qed
next
  case (WritePayloadRef p)
  have "op_result ''SavePayload'' (lift_ok (SavePayloadUnlocked p s)) = (r, s')"
    using assms(3,4) WritePayloadRef by (auto simp: SavePayload_def guarded_def)
  from op_result_ok [OF this] payload_carried_out [OF assms(3) surjective_pairing, of J p]
  show ?thesis using WritePayloadRef by (simp add: lift_ok_def)
next
  case (WriteLongTerm t)
  then show ?thesis using store_writes.refines [OF assms(1,3)] assms(4) by simp
qed

lemma perform_tx_step: "tx_step J s (snd (perform_tx J w s))"
  by (cases w) (auto intro: tx_step.intros)

lemma perform_all_steps: "(tx_step J)\<^sup>*\<^sup>* s (snd (perform_all (perform_tx J) ws s))"
proof (induction ws arbitrary: s)
  case (Cons w ws)
  obtain r1 s1 where run: "perform_tx J w s = (r1, s1)" by fastforce
  have "tx_step J s s1" using perform_tx_step [of J s w] run by simp
  then show ?case using Cons.IH [of s1] run by (auto split: outcome.splits intro: converse_rtranclp_into_rtranclp)
qed simp

end
