(* ===== verification/Memory_Refinement.thy ===== *)
theory Memory_Refinement
  imports Memory_Spec Consolidation_Properties
begin

text \<open>
  The store, its transactions and a whole consolidation refine the abstract memory; what is loaded
  is what the abstract memory holds; what a write that fails outside a transaction leaves behind.
\<close>

section \<open>Writes\<close>

text \<open>
  C3: Every write of the store interface refines the abstract memory. It consists of at most three
  steps (deactivate what it replaces, put the new value, retire what it supersedes); whatever calls
  into SQLite fail, the memory has gone through the first few of them, in order, and through all of them
  exactly when the operation reports success.
\<close>

theorem store_writes_refine_memory:
  assumes "json_text_ok J" "valid_write w" "s_db s = Some d" "perform J w s = (r, s')"
  shows "\<exists>d' k. s_db s' = Some d' \<and> k \<le> length (write_steps (s_now s) w) \<and>
    memory_of J d' = do_steps (take k (write_steps (s_now s) w)) (memory_of J d) \<and>
    ((\<exists>x. r = Ret x \<and> succeeded x) \<longleftrightarrow> k = length (write_steps (s_now s) w))"
  using perform_refines [OF assms(1,2) _ assms(4)] assms(3) unfolding carried_out_def ok_result_def by fastforce

theorem store_writes_refine_memory_witness:
  "\<exists>d'. s_db tea_store = Some d' \<and> m_entities (memory_of small_lib d') ''e1'' = Some (stored_entity tea, True)"
proof -
  have c: "write_steps (s_now open_store) (WriteLongTerm (WriteEntity tea)) = [deactivate (same_subject tea), put_entity tea]"
    "c_str (en_id tea) = ''e1''" "en_isActive tea"
    by (simp_all add: tea_def default_entity_def) code_simp
  have run: "perform small_lib (WriteLongTerm (WriteEntity tea)) open_store = (Ret MemorySuccess, tea_store)"
    by (simp add: tea_saved)
  have db: "s_db open_store = Some empty_database" by (simp add: open_store_def)
  have "valid_write (WriteLongTerm (WriteEntity tea))" by (simp add: valid_write_def)
  from store_writes_refine_memory [OF small_lib_ok this db run] obtain d' where
    "s_db tea_store = Some d'"
    "memory_of small_lib d' = put_entity tea (deactivate (same_subject tea) (memory_of small_lib empty_database))"
    unfolding c(1) by auto
  moreover have "m_entities (put_entity tea m) ''e1'' = Some (stored_entity tea, True)" for m
    using c(2,3) by (simp add: put_entity_def)
  ultimately show ?thesis by metis
qed

section \<open>Transactions\<close>

text \<open>
  A transaction of any writes, stopped by the first that fails, refines the abstract memory
  in one step: when it reports success, what survives is the memory after all the writes in order;
  otherwise nothing has changed.
\<close>

theorem transaction_refines_memory:
  assumes "json_text_ok J" "s_db s = Some d" "RunInTransaction () (perform_all (perform_tx J) ws) s = (Ret (r, ()), s')"
  shows "if succeeded r then memory_of J (durable s') = do_steps (concat (map tx_steps ws)) (memory_of J d)
    else durable s' = durable s"
proof (cases "succeeded r")
  case False
  with transaction_work.failure_keeps_durable [OF tx_work_transactional [OF perform_all_steps] assms(3)] show ?thesis by simp
next
  case True
  with transaction_work.success_commits [OF tx_work_transactional [OF perform_all_steps] assms(3)] obtain s1 s2 r0 where
    t: "s_db s1 = s_db s" "perform_all (perform_tx J) ws s1 = (Ret (r0, ()), s2)" "succeeded r0" "s_db s2 = Some (durable s')" by auto
  from transaction_writes.sequence_refines [OF assms(1) _ t(2)] t assms(2) True show ?thesis by (auto simp: carried_out_def)
qed

theorem transaction_refines_memory_witness:
  "m_cursors (memory_of small_lib (durable (snd (RunInTransaction ()
     (perform_all (perform_tx small_lib) [WriteCursor ''a'' ''s'' ''7'', WriteEntity tea, WriteCursor ''a'' ''s'' ''8'']) open_store)))) (''a'', ''s'') = Some 8"
proof -
  let ?ws = "[WriteCursor ''a'' ''s'' ''7'', WriteEntity tea, WriteCursor ''a'' ''s'' ''8'']"
  let ?run = "RunInTransaction () (perform_all (perform_tx small_lib) ?ws) open_store"
  have "fst ?run = Ret (MemorySuccess, ())" by code_simp
  then have run: "?run = (Ret (MemorySuccess, ()), snd ?run)" by (metis prod.collapse)
  have db: "s_db open_store = Some empty_database" by (simp add: open_store_def)
  have c: "c_str ''a'' = ''a''" "c_str ''s'' = ''s''" "CursorToInt ''8'' = 8" by code_simp+
  from transaction_refines_memory [OF small_lib_ok db run] show ?thesis by (simp add: set_cursor_def c)
qed

section \<open>Consolidation\<close>

text \<open>The writes of a consolidation: the session summary, the update, the cursor.\<close>

definition entity_writes :: "string \<Rightarrow> MemoryEntity \<Rightarrow> tx_write list" where
  "entity_writes agentId entity =
     (let e = (if en_agentId entity = [] then entity\<lparr>en_agentId := agentId\<rparr> else entity)
      in WriteEntity e # (if en_supersededEntityId e \<noteq> [] then [WriteObsolete (en_supersededEntityId e) (en_id e)] else []))"

definition relation_writes :: "string \<Rightarrow> MemoryRelation \<Rightarrow> tx_write list" where
  "relation_writes agentId relation =
     [WriteRelation (if rel_agentId relation = [] then relation\<lparr>rel_agentId := agentId\<rparr> else relation)]"

definition update_writes :: "string \<Rightarrow> string \<Rightarrow> LongTermMemoryUpdate \<Rightarrow> string list \<Rightarrow> tx_write list" where
  "update_writes agentId sessionId update sourceRefs =
     map (\<lambda>t. WriteSummary agentId sessionId ''topic'' ''auto'' t (f32 (1 / 2)) sourceRefs) (lu_topicSummaries update) @
     map (\<lambda>t. WriteSummary agentId sessionId ''profile'' ''user'' t (f32 (6 / 10)) sourceRefs) (lu_profileSummaries update) @
     concat (map (entity_writes agentId) (lu_entities update)) @
     concat (map (relation_writes agentId) (lu_relations update))"

definition cursor_writes :: "MemoryConsolidationRequest \<Rightarrow> ConsolidationBatchBuildResult \<Rightarrow> tx_write list" where
  "cursor_writes request build =
     (if bb_nextCursor build = [] then []
      else [WriteCursor (cr_agentId request) (cr_sessionId request) (bb_nextCursor build)])"

definition consolidation_writes ::
  "MemoryConsolidationRequest \<Rightarrow> ConsolidationBatchBuildResult \<Rightarrow> LongTermMemoryUpdate \<Rightarrow> tx_write list" where
  "consolidation_writes request build update =
     (if lb_events (bb_batch build) = [] then []
      else WriteSummary (cr_agentId request) (bb_sessionId build) ''session'' ''conversation'' (bb_sessionSummary build)
             (f32 (1 / 2)) (bb_sessionSourceRefs build) #
           update_writes (cr_agentId request) (bb_sessionId build) update (lb_sourceRefs (bb_batch build))) @
     cursor_writes request build"

abbreviation all_done :: "json_lib \<Rightarrow> tx_write list \<Rightarrow> store \<Rightarrow> store \<Rightarrow> bool" where
  "all_done J ws s s' \<equiv> carried_out J (concat (map tx_steps ws)) s True s'"

lemma all_done_append: "all_done J vs s s1 \<Longrightarrow> all_done J ws s1 s' \<Longrightarrow> all_done J (vs @ ws) s s'"
  using carried_out_append by simp

lemma tx_done:
  assumes "json_text_ok J" "s_db s \<noteq> None" "perform_tx J w s = (Ret r, s')" "succeeded r"
  shows "all_done J [w] s s'"
  using transaction_writes.refines [OF assms(1-3)] assms(4) by (simp add: ok_result_def)

lemma write_loop_done:
  assumes op: "\<And>x s r s'. s_db s \<noteq> None \<Longrightarrow> op x s = (Ret r, s') \<Longrightarrow> succeeded r \<Longrightarrow> all_done J (g x) s s'"
    and run: "write_loop op bump xs r0 s = (Ret r, s')" "mw_succeeded r" "s_db s \<noteq> None"
  shows "all_done J (concat (map g xs)) s s'"
  using run
proof (induction xs arbitrary: r0 s)
  case Nil
  then show ?case using carried_out_Nil by auto
next
  case (Cons x xs)
  obtain o1 s1 where o1: "op x s = (o1, s1)" by fastforce
  then obtain r1 where r1: "o1 = Ret r1" "succeeded r1" "write_loop op bump xs (bump r0) s1 = (Ret r, s')"
    using Cons.prems(1,2) by (cases o1) (auto simp: FailedWrite_def split: if_splits)
  have 1: "all_done J (g x) s s1" using op [OF Cons.prems(3)] o1 r1 by blast
  show ?case using all_done_append [OF 1 Cons.IH [OF r1(3) Cons.prems(2) carried_out_db [OF 1]]] by simp
qed

lemma save_update_entity_done:
  assumes "json_text_ok J" "s_db s \<noteq> None" "save_update_entity J agentId x s = (Ret r, s')" "succeeded r"
  shows "all_done J (entity_writes agentId x) s s'"
proof -
  define e where "e = (if en_agentId x = [] then x\<lparr>en_agentId := agentId\<rparr> else x)"
  obtain o1 s1 where o1: "tx_SaveEntity J e s = (o1, s1)" by fastforce
  note un = assms(3) [unfolded save_update_entity_def Let_def e_def [symmetric] o1 prod.case]
  obtain r1 where r1: "o1 = Ret r1" "succeeded r1" using un assms(4) by (cases o1) (auto split: if_splits)
  have 1: "all_done J [WriteEntity e] s s1" by (rule tx_done [OF assms(1,2)]) (use o1 r1 in simp_all)
  show ?thesis
  proof (cases "en_supersededEntityId e = []")
    case True
    then show ?thesis using 1 un r1 by (simp add: entity_writes_def Let_def e_def [symmetric])
  next
    case False
    have "all_done J [WriteObsolete (en_supersededEntityId e) (en_id e)] s1 s'"
      by (rule tx_done [OF assms(1) carried_out_db [OF 1] _ assms(4)]) (use un r1 False in simp)
    from all_done_append [OF 1 this] False show ?thesis by (simp add: entity_writes_def Let_def e_def [symmetric])
  qed
qed

lemma save_update_relation_done:
  assumes "json_text_ok J" "s_db s \<noteq> None" "save_update_relation J agentId x s = (Ret r, s')" "succeeded r"
  shows "all_done J (relation_writes agentId x) s s'"
  unfolding relation_writes_def by (rule tx_done [OF assms(1,2) _ assms(4)]) (use assms(3) in \<open>simp add: save_update_relation_def\<close>)

lemma SaveUpdate_done:
  assumes J: "json_text_ok J" and db: "s_db s \<noteq> None" and run: "SaveUpdate J a ss u refs s = (Ret r, s')" "mw_succeeded r"
  shows "all_done J (update_writes a ss u refs) s s'"
proof -
  let ?topic = "\<lambda>t. WriteSummary a ss ''topic'' ''auto'' t (f32 (1 / 2)) refs"
    and ?profile = "\<lambda>t. WriteSummary a ss ''profile'' ''user'' t (f32 (6 / 10)) refs"
  note un = run(1) [unfolded SaveUpdate_def]
  from then_loop_success [OF un run(2)] obtain r3 s3 where 3: "mw_succeeded r3"
    "write_loop (save_update_relation J a) bump_relations (lu_relations u) r3 s3 = (Ret r, s')"
    and e3: "then_loop (then_loop (write_loop (\<lambda>t. tx_SaveSummary J a ss ''topic'' ''auto'' t (f32 (1 / 2)) refs)
        bump_summaries (lu_topicSummaries u) empty_write s)
       (write_loop (\<lambda>t. tx_SaveSummary J a ss ''profile'' ''user'' t (f32 (6 / 10)) refs) bump_summaries (lu_profileSummaries u)))
       (write_loop (save_update_entity J a) bump_entities (lu_entities u)) = (Ret r3, s3)" by blast
  from then_loop_success [OF e3 3(1)] obtain r2 s2 where 2: "mw_succeeded r2"
    "write_loop (save_update_entity J a) bump_entities (lu_entities u) r2 s2 = (Ret r3, s3)"
    and e2: "then_loop (write_loop (\<lambda>t. tx_SaveSummary J a ss ''topic'' ''auto'' t (f32 (1 / 2)) refs)
        bump_summaries (lu_topicSummaries u) empty_write s)
       (write_loop (\<lambda>t. tx_SaveSummary J a ss ''profile'' ''user'' t (f32 (6 / 10)) refs) bump_summaries (lu_profileSummaries u)) = (Ret r2, s2)"
    by blast
  from then_loop_success [OF e2 2(1)] obtain r1 s1 where 1: "mw_succeeded r1"
    "write_loop (\<lambda>t. tx_SaveSummary J a ss ''profile'' ''user'' t (f32 (6 / 10)) refs) bump_summaries (lu_profileSummaries u) r1 s1 = (Ret r2, s2)"
    and e1: "write_loop (\<lambda>t. tx_SaveSummary J a ss ''topic'' ''auto'' t (f32 (1 / 2)) refs) bump_summaries (lu_topicSummaries u) empty_write s = (Ret r1, s1)"
    by blast
  have a: "all_done J (concat (map (\<lambda>t. [?topic t]) (lu_topicSummaries u))) s s1"
    by (rule write_loop_done [OF tx_done [OF J] e1 1(1) db]) simp_all
  have b: "all_done J (concat (map (\<lambda>t. [?profile t]) (lu_profileSummaries u))) s1 s2"
    by (rule write_loop_done [OF tx_done [OF J] 1(2) 2(1) carried_out_db [OF a]]) simp_all
  have c: "all_done J (concat (map (entity_writes a) (lu_entities u))) s2 s3"
    by (rule write_loop_done [OF save_update_entity_done [OF J] 2(2) 3(1) carried_out_db [OF b]])
  have d: "all_done J (concat (map (relation_writes a) (lu_relations u))) s3 s'"
    by (rule write_loop_done [OF save_update_relation_done [OF J] 3(2) run(2) carried_out_db [OF c]])
  have single: "concat (map (\<lambda>t. [f t]) xs) = map f xs" for f :: "string \<Rightarrow> tx_write" and xs by (induction xs) simp_all
  show ?thesis
    unfolding update_writes_def using all_done_append [OF a all_done_append [OF b all_done_append [OF c d]]] single by metis
qed

lemma save_cursor_op_done:
  assumes "json_text_ok J" "s_db s \<noteq> None" "save_cursor_op request cursor s = (Ret r, s')" "succeeded r"
  shows "all_done J [WriteCursor (cr_agentId request) (cr_sessionId request) cursor] s s'"
proof -
  obtain o1 s1 where o1: "tx_SaveConsolidationCursor (cr_agentId request) (cr_sessionId request) cursor s = (o1, s1)" by fastforce
  then obtain r1 where r1: "o1 = Ret r1" "succeeded r1" "s' = s1"
    using assms(3,4) by (cases o1) (auto simp: save_cursor_op_def MemoryFailure_def split: if_splits)
  show ?thesis by (rule tx_done [OF assms(1,2) _ r1(2)]) (use o1 r1 in simp)
qed

lemma consolidation_work_done:
  assumes J: "json_text_ok J" and db: "s_db s \<noteq> None" and ev: "lb_events (bb_batch build) \<noteq> []"
    and run: "consolidation_work J request build update s = (Ret (op, sw, uw), s')" "succeeded op"
  shows "all_done J (consolidation_writes request build update) s s'"
proof -
  let ?first = "WriteSummary (cr_agentId request) (bb_sessionId build) ''session'' ''conversation'' (bb_sessionSummary build)
    (f32 (1 / 2)) (bb_sessionSourceRefs build)"
  let ?upd = "update_writes (cr_agentId request) (bb_sessionId build) update (lb_sourceRefs (bb_batch build))"
  obtain r1 s1 where 1: "SaveSessionSummary J (cr_agentId request) (bb_sessionId build) (bb_sessionSummary build)
      (bb_sessionSourceRefs build) s = (r1, s1)" by fastforce
  obtain r2 s2 where 2: "(if has_update update
      then SaveUpdate J (cr_agentId request) (bb_sessionId build) update (lb_sourceRefs (bb_batch build)) s1
      else (Ret empty_write, s1)) = (r2, s2)" by fastforce
  obtain r3 s3 where 3: "save_cursor_op request (bb_nextCursor build) s2 = (r3, s3)" by fastforce
  note un = run(1) [unfolded consolidation_work_def 1 2 3 Let_def prod.case]
  from un run(2) have ok: "r1 = Ret sw" "mw_succeeded sw" "r2 = Ret uw" "mw_succeeded uw"
    "if bb_nextCursor build = [] then s' = s2 else r3 = Ret op \<and> s' = s3"
    by (auto split: outcome.splits if_splits)
  have a: "all_done J [?first] s s1"
    using 1 ok(1,2) tx_done [OF J db, of ?first _ s1]
    by (auto simp: SaveSessionSummary_def FailedWrite_def split: prod.splits outcome.splits if_splits)
  have b: "all_done J ?upd s1 s2"
  proof (cases "has_update update")
    case True
    with 2 ok show ?thesis using SaveUpdate_done [OF J carried_out_db [OF a]] by simp
  next
    case False
    then have "?upd = []" by (simp add: has_update_def update_writes_def)
    with False 2 carried_out_db [OF a] show ?thesis using carried_out_Nil by auto
  qed
  have c: "all_done J (cursor_writes request build) s2 s'"
  proof (cases "bb_nextCursor build = []")
    case True
    with ok(5) carried_out_db [OF b] show ?thesis using carried_out_Nil by (auto simp: cursor_writes_def)
  next
    case False
    with ok(5) 3 run(2) save_cursor_op_done [OF J carried_out_db [OF b]] show ?thesis by (simp add: cursor_writes_def)
  qed
  show ?thesis
    using all_done_append [OF all_done_append [OF a b] c] ev by (simp add: consolidation_writes_def)
qed

lemma all_done_durable:
  assumes "all_done J ws s1 s2" "s_db s1 = s_db s" "s_db s2 = Some d'" "s_db s \<noteq> None" "s_saved s = None"
  shows "memory_of J d' = do_steps (concat (map tx_steps ws)) (memory_of J (durable s))"
  using assms by (auto simp: carried_out_def durable_def)

lemma Consolidate_ran_memory:
  assumes J: "json_text_ok J" and s: "s_db s \<noteq> None" "s_saved s = None"
    and run: "Consolidate J fallback request events model s = (Ret res, s')" "cres_succeeded res"
    and batch: "lb_events (bb_batch (Build request events)) \<noteq> []"
  shows "\<exists>update. choose_update J model fallback (bb_batch (Build request events)) = Ret (cres_fallbackUsed res, update) \<and>
    memory_of J (durable s') =
      do_steps (concat (map tx_steps (consolidation_writes request (Build request events) update))) (memory_of J (durable s))"
  using run(1)
proof (cases rule: Consolidate_cases)
  case (ran update used op sw uw)
  from consolidating.success_commits [OF ran(3)] ran(4) run(2) obtain s1 s2 r0 where
    w: "consolidation_work J request (Build request events) update s1 = (Ret (r0, sw, uw), s2)" "succeeded r0"
      "s_db s2 = Some (durable s')" "s_db s1 = s_db s" by auto
  have "all_done J (consolidation_writes request (Build request events) update) s1 s2"
    by (rule consolidation_work_done [OF J _ ran(1) w(1,2)]) (use w(4) s(1) in simp)
  from all_done_durable [OF this w(4,3) s] ran(2,7) show ?thesis by blast
qed (use batch in simp_all)

lemma Consolidate_moved_memory:
  assumes J: "json_text_ok J" and s: "s_db s \<noteq> None" "s_saved s = None"
    and run: "Consolidate J fallback request events model s = (Ret res, s')" "cres_succeeded res"
    and batch: "lb_events (bb_batch (Build request events)) = []"
  shows "memory_of J (durable s') =
    do_steps (concat (map tx_steps (cursor_writes request (Build request events)))) (memory_of J (durable s))"
  using run(1)
proof (cases rule: Consolidate_cases)
  case nothing
  then show ?thesis by (simp add: cursor_writes_def)
next
  case (moved op)
  from cursor_only.success_commits [OF moved(3)] moved(4) run(2) obtain s1 s2 r0 where
    w: "cursor_only_work request (bb_nextCursor (Build request events)) s1 = (Ret (r0, ()), s2)" "succeeded r0"
      "s_db s2 = Some (durable s')" "s_db s1 = s_db s" by auto
  then have "save_cursor_op request (bb_nextCursor (Build request events)) s1 = (Ret r0, s2)"
    by (cases "save_cursor_op request (bb_nextCursor (Build request events)) s1") (auto simp: cursor_only_work_def)
  then have "all_done J (cursor_writes request (Build request events)) s1 s2"
    using save_cursor_op_done [OF J _ _ w(2)] w(4) s(1) moved(2) by (simp add: cursor_writes_def)
  from all_done_durable [OF this w(4,3) s] show ?thesis .
qed (use batch in simp_all)

text \<open>
  C5: A consolidation that reports success refines the abstract memory in one step: what
  survives is the memory after the session summary, then the topic and profile summaries, the entities
  and the relations of the update it chose, then the new cursor, all applied in this order; with no
  message to process, only the cursor.
\<close>

theorem Consolidate_refines_memory:
  assumes "json_text_ok J" "s_db s \<noteq> None" "s_saved s = None"
    and "Consolidate J fallback request events model s = (Ret res, s')" "cres_succeeded res"
  shows "\<exists>update. (lb_events (bb_batch (Build request events)) \<noteq> [] \<longrightarrow>
        choose_update J model fallback (bb_batch (Build request events)) = Ret (cres_fallbackUsed res, update)) \<and>
    memory_of J (durable s') =
      do_steps (concat (map tx_steps (consolidation_writes request (Build request events) update))) (memory_of J (durable s))"
proof (cases "lb_events (bb_batch (Build request events)) = []")
  case True
  then show ?thesis using Consolidate_moved_memory [OF assms True] by (simp add: consolidation_writes_def)
next
  case False
  from Consolidate_ran_memory [OF assms False] show ?thesis by blast
qed

definition note_lib :: json_lib where
  "note_lib = table_lib [(JObj [], ''{}''), (JArr [], ''[]''), (JArr [JStr ''session://s''], ''[s]'')]"

theorem Consolidate_refines_memory_witness:
  "\<exists>res s'. Consolidate note_lib None one_message [stored_event hello 1] None hello_store = (Ret res, s') \<and>
     cres_savedSummaries res = 1 \<and> length (m_summaries (memory_of note_lib (durable s'))) = 1 \<and>
     m_cursors (memory_of note_lib (durable s')) (''a'', ''s'') = Some 1"
proof -
  let ?run = "Consolidate note_lib None one_message [stored_event hello 1] None hello_store"
  let ?b = "Build one_message [stored_event hello 1]"
  have J: "json_text_ok note_lib" unfolding note_lib_def by (rule table_lib_ok) (simp_all add: nul_free_def)
  have "case fst ?run of Ret res \<Rightarrow> cres_succeeded res \<and> cres_savedSummaries res = 1 \<and> \<not> cres_fallbackUsed res | Throw w \<Rightarrow> False" by code_simp
  then obtain res where r: "fst ?run = Ret res" "cres_succeeded res" "cres_savedSummaries res = 1" "\<not> cres_fallbackUsed res"
    by (auto split: outcome.splits)
  have run: "?run = (Ret res, snd ?run)" using r(1) by (metis prod.collapse)
  have st: "s_db hello_store \<noteq> None" "s_saved hello_store = None" "s_db hello_store = Some (durable hello_store)"
    "t_summaries (durable hello_store) = []" by code_simp+
  have c: "lb_events (bb_batch ?b) \<noteq> []" "bb_nextCursor ?b = ''1''" "c_str (cr_agentId one_message) = ''a''"
    "c_str (cr_sessionId one_message) = ''s''" "CursorToInt ''1'' = 1" by code_simp+
  have "choose_update note_lib None None batch = Ret (False, empty_update)" for batch
    by (simp add: choose_update_def)
  with Consolidate_refines_memory [OF J st(1,2) run r(2)] c(1) have
    m: "memory_of note_lib (durable (snd ?run)) =
      do_steps (concat (map tx_steps (consolidation_writes one_message ?b empty_update))) (memory_of note_lib (durable hello_store))" by auto
  have "update_writes a ss empty_update refs = []" for a ss refs by (simp add: update_writes_def empty_update_def)
  then have "length (m_summaries (memory_of note_lib (durable (snd ?run)))) = 1"
    "m_cursors (memory_of note_lib (durable (snd ?run))) (''a'', ''s'') = Some 1"
    unfolding m consolidation_writes_def cursor_writes_def using c st(4)
    by (simp_all add: set_cursor_def add_summary_def memory_of_def)
  with run r(3) show ?thesis by blast
qed

section \<open>What a failed write leaves\<close>

text \<open>
  C38: Outside a transaction a write of several statements is not atomic. When saving an entity
  fails in its second statement, it reports an error, the new entity is not stored, and yet every active
  entity of the same agent, type and name has been deactivated: the agent is left with none.
\<close>

theorem failed_SaveEntity_deactivates:
  assumes db: "s_db s = Some d" and faults: "s_faults s = True # True # False # bs"
    and dumped: "SerializeSourceRefs J (en_sourceRefs e) = Inr refs" "jdump J (JsonObject (en_metadata e)) = Inr meta"
    and keyed: "en_id e \<noteq> []" "en_agentId e \<noteq> []" "en_entityType e \<noteq> []" "en_name e \<noteq> []"
    and old: "m_entities (memory_of J d) i = Some (x, True)" "same_subject e i x"
  shows "\<exists>r s' d'. SaveEntity J e s = (Ret r, s') \<and> \<not> succeeded r \<and> HasError (error_of r) \<and> s_db s' = Some d' \<and>
    m_entities (memory_of J d') i = Some (x, False) \<and>
    m_entities (memory_of J d') (c_str (en_id e)) = m_entities (memory_of J d) (c_str (en_id e))"
proof -
  let ?f = "mark_duplicate_entities (s_now s) (c_str (en_id e)) (c_str (en_agentId e)) (c_str (en_entityType e)) (c_str (en_name e))"
  obtain d' where d': "?f d = Some d'" by (simp add: mark_duplicate_entities_def)
  define s1 where "s1 = s\<lparr>s_faults := False # bs, s_db := Some d'\<rparr>"
  have m: "MarkDuplicateEntitiesObsoleteUnlocked e s = (True, s1)"
    using db faults keyed d' by (simp add: MarkDuplicateEntitiesObsoleteUnlocked_def run_stmt_def sql_step_def next_ok_def s1_def)
  have u: "run_stmt (upsert_entity (s_now s1) (entity_to_row e refs meta)) s1 = (False, s1\<lparr>s_faults := bs\<rparr>)"
    by (simp add: run_stmt_def next_ok_def s1_def)
  have "SaveEntity J e s = (Ret (SqliteFailure (s1\<lparr>s_faults := bs\<rparr>) ''SaveEntity''), s1\<lparr>s_faults := bs\<rparr>)"
    using db by (simp add: SaveEntity_def guarded_def SaveEntityUnlocked_def dumped m u)
  moreover have "memory_of J d' = deactivate (same_subject e) (memory_of J d)" by (rule memory_duplicates [OF d'])
  moreover have "m_entities (deactivate (same_subject e) mem) (c_str (en_id e)) = m_entities mem (c_str (en_id e))" for mem
    by (cases "m_entities mem (c_str (en_id e))") (auto simp: deactivate_def same_subject_def)
  ultimately show ?thesis
    using old by (intro exI [of _ "SqliteFailure (s1\<lparr>s_faults := bs\<rparr>) ''SaveEntity''"] exI [of _ "s1\<lparr>s_faults := bs\<rparr>"] exI [of _ d'])
      (simp add: SqliteFailure_def sqlite_error_def s1_def deactivate_def)
qed

definition coffee :: MemoryEntity where
  "coffee = tea\<lparr>en_id := ''e2'', en_summary := ''coffee''\<rparr>"

theorem failed_SaveEntity_deactivates_witness:
  "\<exists>r s' d'. SaveEntity small_lib coffee (tea_store\<lparr>s_faults := [True, True, False]\<rparr>) = (Ret r, s') \<and> \<not> succeeded r \<and>
     s_db s' = Some d' \<and> m_entities (memory_of small_lib d') ''e1'' = Some (stored_entity tea, False)"
proof -
  let ?s = "tea_store\<lparr>s_faults := [True, True, False]\<rparr>"
  have "s_db tea_store \<noteq> None" by code_simp
  then obtain d where d: "s_db ?s = Some d" "s_db tea_store = Some d" by auto
  have t: "SerializeSourceRefs small_lib (en_sourceRefs coffee) = Inr ''[]''" "jdump small_lib (JsonObject (en_metadata coffee)) = Inr ''{}''"
    "en_id coffee \<noteq> []" "en_agentId coffee \<noteq> []" "en_entityType coffee \<noteq> []" "en_name coffee \<noteq> []"
    "same_subject coffee ''e1'' (stored_entity tea)" by code_simp+
  have "m_entities (memory_of small_lib (the (s_db tea_store))) ''e1'' = Some (stored_entity tea, True)" by code_simp
  then have e: "m_entities (memory_of small_lib d) ''e1'' = Some (stored_entity tea, True)" using d(2) by simp
  have f: "s_faults ?s = True # True # False # []" by simp
  from failed_SaveEntity_deactivates [OF d(1) f t(1-6) e t(7)] show ?thesis by blast
qed

end
