(* ===== verification/Memory_Reads.thy ===== *)
theory Memory_Reads
  imports Memory_Spec Context_Properties
begin

text \<open>
  Reading the abstract memory of \<open>Memory_Spec\<close>: what \<open>LoadLongTermMemory\<close>, \<open>LoadConsolidationCursor\<close> and
  \<open>LoadRecentPayloads\<close> of the SQLite store return is determined by it.
\<close>

section \<open>Looking up a row\<close>

lemma find_distinct:
  "distinct (map key rows) \<Longrightarrow> x \<in> set rows \<Longrightarrow> find (\<lambda>r. key r = key x) rows = Some x"
  by (induction rows) auto

lemma find_in_set: "find P rows = Some x \<Longrightarrow> x \<in> set rows \<and> P x"
  by (induction rows) (auto split: if_splits)

lemma distinct_order_desc [simp]: "distinct (map f (order_desc g xs)) = distinct (map f xs)"
proof -
  have "mset (map f (order_desc g xs)) = mset (map f xs)" by simp
  then show ?thesis by (metis mset_eq_imp_distinct_iff)
qed

lemma card_keys: "distinct (map f xs) \<Longrightarrow> card (f ` set xs) = length xs"
  by (metis length_map distinct_card set_map)

definition key_of_relation :: "MemoryRelation \<Rightarrow> string \<times> string \<times> string \<times> string" where
  "key_of_relation r = (rel_agentId r, rel_fromEntityId r, rel_relationType r, rel_toEntityId r)"

section \<open>Entities\<close>

lemma entity_lookup:
  assumes "db_inv d" "x \<in> set (t_entities d)"
  shows "m_entities (memory_of J d) (enr_id x) = Some (ReadEntityRow J x, enr_active x)"
  using find_distinct [of enr_id "t_entities d" x] assms by (simp add: memory_of_def db_inv_def entities_ok_def)

lemma entity_found:
  assumes "m_entities (memory_of J d) i = Some (e, active)"
  shows "\<exists>x\<in>set (t_entities d). enr_id x = i \<and> e = ReadEntityRow J x \<and> active = enr_active x"
  using assms by (auto simp: memory_of_def find_Some_iff)

definition active_entities :: "string \<Rightarrow> memory \<Rightarrow> string set" where
  "active_entities agent m = {i. \<exists>e. m_entities m i = Some (e, True) \<and> en_agentId e = agent}"

lemma active_entities_rows:
  assumes "db_inv d"
  shows "active_entities (c_str a) (memory_of J d) = enr_id ` set (select_entities a d)"
  using entity_lookup [OF assms] entity_found [of J d]
  unfolding active_entities_def select_entities_def by (fastforce simp: ReadEntityRow_def)

lemma select_entities_distinct: "db_inv d \<Longrightarrow> distinct (map enr_id (select_entities a d))"
  by (simp add: select_entities_def db_inv_def entities_ok_def distinct_map_filter)

section \<open>Relations\<close>

lemma active_relation_unique:
  assumes "db_inv d" "x \<in> set (t_relations d)" "y \<in> set (t_relations d)" "rlr_active x" "rlr_active y" "relation_key x = relation_key y"
  shows "x = y"
proof -
  have ids: "sorted_wrt (\<lambda>x y. rlr_id x < rlr_id y) (t_relations d)" and "one_active_relation (t_relations d)"
    using assms(1) by (auto simp: db_inv_def relations_ok_def ids_ok_def)
  then have "rlr_id x = rlr_id y" using assms(2-6) unfolding one_active_relation_def by blast
  moreover have "inj_on rlr_id (set (t_relations d))"
    using ids by (metis distinct_map sorted_wrt_map strict_sorted_iff)
  ultimately show ?thesis using assms(2,3) by (auto dest: inj_onD)
qed

lemma relation_lookup:
  assumes "db_inv d" "x \<in> set (t_relations d)" "rlr_active x"
  shows "m_relations (memory_of J d) (relation_key x) = Some (relation_view J x)"
proof -
  have "\<exists>y\<in>set (rev (t_relations d)). rlr_active y \<and> relation_key y = relation_key x" using assms(2,3) by auto
  from find_exists [OF this] obtain y where y: "find (\<lambda>r. rlr_active r \<and> relation_key r = relation_key x) (rev (t_relations d)) = Some y" by blast
  then have "y \<in> set (t_relations d)" "rlr_active y" "relation_key y = relation_key x" by (auto simp: find_Some_iff rev_nth)
  then have "y = x" using active_relation_unique [OF assms(1)] assms(2,3) by blast
  then show ?thesis using y by (simp add: memory_of_def)
qed

definition active_relations :: "string \<Rightarrow> memory \<Rightarrow> (string \<times> string \<times> string \<times> string) set" where
  "active_relations agent m = {k \<in> dom (m_relations m). fst k = agent}"

lemma relation_found:
  assumes "m_relations (memory_of J d) k = Some r"
  shows "\<exists>x\<in>set (t_relations d). rlr_active x \<and> relation_key x = k \<and> r = relation_view J x"
proof -
  obtain x where x: "find (\<lambda>r. rlr_active r \<and> relation_key r = k) (rev (t_relations d)) = Some x" "r = relation_view J x"
    using assms by (auto simp: memory_of_def)
  from find_in_set [OF x(1)] x(2) show ?thesis by auto
qed

lemma active_relations_rows:
  assumes "db_inv d"
  shows "active_relations (c_str a) (memory_of J d) = relation_key ` set (select_relations a d)"
proof -
  have agent: "fst (relation_key x) = rlr_agent x" for x by (simp add: relation_key_def)
  have rows: "set (select_relations a d) = {x \<in> set (t_relations d). rlr_active x \<and> rlr_agent x = c_str a}"
    by (auto simp: select_relations_def)
  show ?thesis
  proof (intro equalityI subsetI)
    fix k
    assume "k \<in> active_relations (c_str a) (memory_of J d)"
    then obtain r where "m_relations (memory_of J d) k = Some r" "fst k = c_str a" by (auto simp: active_relations_def)
    with relation_found [OF this(1)] agent rows show "k \<in> relation_key ` set (select_relations a d)" by force
  next
    fix k
    assume "k \<in> relation_key ` set (select_relations a d)"
    then obtain x where "x \<in> set (t_relations d)" "rlr_active x" "rlr_agent x = c_str a" "k = relation_key x" using rows by auto
    then show "k \<in> active_relations (c_str a) (memory_of J d)"
      using relation_lookup [OF assms] agent by (auto simp: active_relations_def)
  qed
qed

lemma select_relations_distinct:
  assumes "db_inv d"
  shows "distinct (map relation_key (select_relations a d))"
proof -
  let ?rows = "filter (\<lambda>r. rlr_active r \<and> rlr_agent r = c_str a) (t_relations d)"
  have "sorted_wrt (\<lambda>x y. rlr_id x < rlr_id y) (t_relations d)" using assms by (simp add: db_inv_def relations_ok_def ids_ok_def)
  then have "distinct (t_relations d)" by (metis distinct_map sorted_wrt_map strict_sorted_iff)
  moreover have "inj_on relation_key (set ?rows)" using active_relation_unique [OF assms] by (auto intro!: inj_onI)
  ultimately have "distinct (map relation_key ?rows)" by (simp add: distinct_map)
  then show ?thesis unfolding select_relations_def distinct_order_desc .
qed

section \<open>Loading\<close>

definition summaries_in :: "string \<Rightarrow> string \<Rightarrow> memory \<Rightarrow> LongTermSummaryRecord list" where
  "summaries_in agentId sessionId m =
     map (\<lambda>(a, s, r). r) (filter (\<lambda>(a, s, r). in_scope agentId sessionId a s) (m_summaries m))"

lemma summaries_in_rows:
  "mset (map (ReadSummaryRow J) (select_summaries a ss d)) = mset (summaries_in a ss (memory_of J d))"
  by (simp add: select_summaries_def summaries_in_def memory_of_def filter_map o_def case_prod_beta)

lemma loaded_entities:
  assumes inv: "store_inv s" and db: "s_db s = Some d" and load: "LoadLongTermMemory J a limit ss s = (res, s')" "succeeded res"
  defines "es \<equiv> snap_entities (payload_of res)" and "m \<equiv> memory_of J d"
  shows "distinct (map en_id es)" "\<forall>e\<in>set es. m_entities m (en_id e) = Some (e, True) \<and> en_agentId e = c_str a"
    "length es = min (effective_limit 100 limit) (card (active_entities (c_str a) m))"
proof -
  have d: "db_inv d" using inv db by (simp add: store_inv_def db_ok_def)
  have p: "es = map (ReadEntityRow J) (take (effective_limit 100 limit) (select_entities a d))"
    using LoadLongTermMemory_law(1) [OF load(1) db] load(2) by (simp add: es_def)
  have "map en_id es = take (effective_limit 100 limit) (map enr_id (select_entities a d))" by (simp add: p take_map ReadEntityRow_def)
  then show "distinct (map en_id es)" using select_entities_distinct [OF d] by simp
  show "\<forall>e\<in>set es. m_entities m (en_id e) = Some (e, True) \<and> en_agentId e = c_str a"
  proof
    fix e
    assume "e \<in> set es"
    then obtain x where "x \<in> set (select_entities a d)" "e = ReadEntityRow J x" using p by (auto dest: in_set_takeD)
    then show "m_entities m (en_id e) = Some (e, True) \<and> en_agentId e = c_str a"
      using entity_lookup [OF d, of x J] by (auto simp: m_def select_entities_def ReadEntityRow_def)
  qed
  show "length es = min (effective_limit 100 limit) (card (active_entities (c_str a) m))"
    unfolding m_def active_entities_rows [OF d] card_keys [OF select_entities_distinct [OF d]] by (simp add: p min.commute)
qed

lemma loaded_relations:
  assumes inv: "store_inv s" and db: "s_db s = Some d" and load: "LoadLongTermMemory J a limit ss s = (res, s')" "succeeded res"
  defines "rs \<equiv> snap_relations (payload_of res)" and "m \<equiv> memory_of J d"
  shows "distinct (map key_of_relation rs)"
    "\<forall>r\<in>set rs. m_relations m (key_of_relation r) = Some (r\<lparr>rel_id := []\<rparr>) \<and> rel_agentId r = c_str a"
    "length rs = min (effective_limit 100 limit) (card (active_relations (c_str a) m))"
proof -
  have d: "db_inv d" using inv db by (simp add: store_inv_def db_ok_def)
  have p: "rs = map (ReadRelationRow J) (take (effective_limit 100 limit) (select_relations a d))"
    using LoadLongTermMemory_law(1) [OF load(1) db] load(2) by (simp add: rs_def)
  have key: "key_of_relation (ReadRelationRow J x) = relation_key x" for x
    by (simp add: ReadRelationRow_def key_of_relation_def relation_key_def)
  have "map key_of_relation rs = take (effective_limit 100 limit) (map relation_key (select_relations a d))" by (simp add: p take_map key)
  then show "distinct (map key_of_relation rs)" using select_relations_distinct [OF d] by simp
  show "\<forall>r\<in>set rs. m_relations m (key_of_relation r) = Some (r\<lparr>rel_id := []\<rparr>) \<and> rel_agentId r = c_str a"
  proof
    fix r
    assume "r \<in> set rs"
    then obtain x where "x \<in> set (select_relations a d)" "r = ReadRelationRow J x" using p by (auto dest: in_set_takeD)
    then show "m_relations m (key_of_relation r) = Some (r\<lparr>rel_id := []\<rparr>) \<and> rel_agentId r = c_str a"
      using relation_lookup [OF d, of x J] key [of x] by (auto simp: m_def select_relations_def ReadRelationRow_def relation_view_def)
  qed
  show "length rs = min (effective_limit 100 limit) (card (active_relations (c_str a) m))"
    unfolding m_def active_relations_rows [OF d] card_keys [OF select_relations_distinct [OF d]] by (simp add: p min.commute)
qed

lemma loaded_summaries:
  assumes db: "s_db s = Some d" and load: "LoadLongTermMemory J a limit ss s = (res, s')" "succeeded res"
  defines "xs \<equiv> snap_summaries (payload_of res)" and "m \<equiv> memory_of J d"
  shows "mset xs \<subseteq># mset (summaries_in a ss m)" "length xs = min (effective_limit 100 limit) (length (summaries_in a ss m))"
proof -
  let ?S = "select_summaries a ss d"
  have p: "xs = map (ReadSummaryRow J) (take (effective_limit 100 limit) ?S)"
    using LoadLongTermMemory_law(1) [OF load(1) db] load(2) by (simp add: xs_def)
  have "mset xs \<subseteq># mset (map (ReadSummaryRow J) ?S)"
    unfolding p take_map [symmetric] by (metis append_take_drop_id mset_append mset_subset_eq_add_left)
  then show "mset xs \<subseteq># mset (summaries_in a ss m)" unfolding summaries_in_rows m_def .
  have "length (summaries_in a ss m) = length ?S"
    using arg_cong [OF summaries_in_rows [of J a ss d], of size] by (simp add: m_def)
  then show "length xs = min (effective_limit 100 limit) (length (summaries_in a ss m))" by (simp add: p min.commute)
qed

text \<open>
  C20: Loading the long-term memory of an agent reads the abstract memory. The entities returned are
  active entities of that agent as they were last saved, each once, as many as there are up to the limit;
  the relations are the current ones of that agent, one per triple, again all of them up to the
  limit; the summaries are summaries of that agent and session, none more often than it was saved.
\<close>

theorem LoadLongTermMemory_reads_memory:
  assumes "store_inv s" "s_db s = Some d" "LoadLongTermMemory J a limit ss s = (res, s')" "succeeded res"
    and "n = effective_limit 100 limit" "m = memory_of J d" "snap = payload_of res"
  shows "distinct (map en_id (snap_entities snap)) \<and>
    (\<forall>e\<in>set (snap_entities snap). m_entities m (en_id e) = Some (e, True) \<and> en_agentId e = c_str a) \<and>
    length (snap_entities snap) = min n (card (active_entities (c_str a) m)) \<and>
    distinct (map key_of_relation (snap_relations snap)) \<and>
    (\<forall>r\<in>set (snap_relations snap). m_relations m (key_of_relation r) = Some (r\<lparr>rel_id := []\<rparr>) \<and> rel_agentId r = c_str a) \<and>
    length (snap_relations snap) = min n (card (active_relations (c_str a) m)) \<and>
    mset (snap_summaries snap) \<subseteq># mset (summaries_in a ss m) \<and>
    length (snap_summaries snap) = min n (length (summaries_in a ss m))"
  unfolding assms(5-7)
  by (intro conjI loaded_entities [OF assms(1-4)] loaded_relations [OF assms(1-4)] loaded_summaries [OF assms(2-4)])

theorem LoadLongTermMemory_reads_memory_witness:
  "length (snap_entities (payload_of (fst (LoadLongTermMemory small_lib ''a'' 5 [] tea_store)))) = 1 \<and>
   card (active_entities ''a'' (memory_of small_lib (the (s_db tea_store)))) = 1"
proof -
  let ?run = "LoadLongTermMemory small_lib ''a'' 5 [] tea_store"
  have "s_db tea_store \<noteq> None" by code_simp
  then have db: "s_db tea_store = Some (the (s_db tea_store))" by simp
  have c: "length (snap_entities (payload_of (fst ?run))) = 1" "succeeded (fst ?run)" "effective_limit 100 5 = 5" "c_str ''a'' = ''a''"
    by code_simp+
  have run: "?run = (fst ?run, snd ?run)" by simp
  from LoadLongTermMemory_reads_memory [OF tea_store_inv db run c(2) refl refl refl]
  have "length (snap_entities (payload_of (fst ?run))) = min 5 (card (active_entities ''a'' (memory_of small_lib (the (s_db tea_store)))))"
    unfolding c(3,4) by blast
  with c(1) show ?thesis by simp
qed

text \<open>The cursor that is loaded is the one the memory holds.\<close>

lemma LoadConsolidationCursor_reads_memory:
  assumes "s_db s = Some d" "LoadConsolidationCursor a ss s = (r, s')" "succeeded r"
  shows "payload_of r = (case m_cursors (memory_of J d) (c_str a, c_str ss) of Some c \<Rightarrow> to_string c | None \<Rightarrow> [])"
  using LoadConsolidationCursor_success [OF assms(2,3)] assms(1) by (simp add: memory_of_def)

end
