(* ===== verification/Memory_Recall.thy ===== *)
theory Memory_Recall
  imports Memory_Refinement Memory_Reads Runtime_Laws
begin

text \<open>
  From consolidation to recall: what a consolidation has learned is in the long-term memory that is
  loaded afterwards.
\<close>

section \<open>Steps that leave an entity alone\<close>

definition leaves :: "string \<Rightarrow> memory_step \<Rightarrow> bool" where
  "leaves i f = (\<forall>m. m_entities (f m) i = m_entities m i)"

lemma leaves_steps: "\<forall>f\<in>set fs. leaves i f \<Longrightarrow> m_entities (do_steps fs m) i = m_entities m i"
  by (induction fs arbitrary: m) (simp_all add: leaves_def)

lemma leaves_other [simp]:
  "leaves i (drop_relation r)" "leaves i (put_relation r)" "leaves i (set_cursor a s c)"
  by (simp_all add: leaves_def drop_relation_def put_relation_def set_cursor_def)

lemma leaves_retire: "c_str eid \<noteq> i \<Longrightarrow> leaves i (retire eid)"
  unfolding leaves_def retire_def deactivate_def by (auto simp: option.map_id case_prod_beta)

definition spared :: "string \<Rightarrow> tx_write \<Rightarrow> bool" where
  "spared i w = (case w of
      WriteRelation r \<Rightarrow> rel_relationType r = ''supersedes'' \<longrightarrow> c_str (rel_toEntityId r) \<noteq> i
    | WriteObsolete eid b \<Rightarrow> c_str eid \<noteq> i
    | WriteCursor a s c \<Rightarrow> True
    | _ \<Rightarrow> False)"

lemma spared_leaves: "spared i w \<Longrightarrow> \<forall>f\<in>set (tx_steps w). leaves i f"
  by (cases w) (auto simp: spared_def leaves_retire)

lemma saved_entity_stays:
  assumes "c_str (en_supersededEntityId e) \<noteq> c_str (en_id e) \<or> en_supersededEntityId e = []" "\<forall>w\<in>set ws. spared (c_str (en_id e)) w"
  shows "m_entities (do_steps (concat (map tx_steps (WriteEntity e # ws))) m) (c_str (en_id e)) = Some (stored_entity e, en_isActive e)"
proof -
  have ws: "\<forall>f\<in>set (concat (map tx_steps ws)). leaves (c_str (en_id e)) f" using assms(2) spared_leaves by fastforce
  have put: "m_entities (put_entity e mem) (c_str (en_id e)) = Some (stored_entity e, en_isActive e)" for mem
    by (simp add: put_entity_def)
  have "m_entities (do_steps (tx_steps (WriteEntity e)) m) (c_str (en_id e)) = Some (stored_entity e, en_isActive e)"
    using assms(1) put leaves_retire [of "en_supersededEntityId e" "c_str (en_id e)"] by (auto simp: leaves_def)
  then show ?thesis using leaves_steps [OF ws] by simp
qed

section \<open>Recall\<close>

lemma Consolidate_committed:
  assumes "Consolidate J fallback request events model s = (Ret res, s')" "cres_succeeded res"
    "lb_events (bb_batch (Build request events)) \<noteq> []"
  shows "s_saved s' = None"
  using assms(1)
proof (cases rule: Consolidate_cases)
  case (ran update used op sw uw)
  then show ?thesis using consolidating.success_commits [OF ran(3)] assms(2) by auto
qed (use assms(3) in simp_all)

lemma LoadLongTermMemory_open:
  "LoadLongTermMemory J a n ss s = (r, s') \<Longrightarrow> succeeded r \<Longrightarrow> s_db s \<noteq> None"
  by (cases "s_db s") (auto simp: LoadLongTermMemory_def)

lemma recalled_when_active:
  assumes inv: "store_inv s" and db: "s_db s = Some d" and load: "LoadLongTermMemory J a limit ss s = (r, s')" "succeeded r"
    and few: "card (active_entities (c_str a) (memory_of J d)) \<le> effective_limit 100 limit"
    and e: "m_entities (memory_of J d) i = Some (e, True)" "en_agentId e = c_str a"
  shows "e \<in> set (snap_entities (payload_of r))"
proof -
  let ?m = "memory_of J d" and ?es = "snap_entities (payload_of r)"
  note l = loaded_entities [OF inv db load]
  have fin: "finite (active_entities (c_str a) ?m)"
    using active_entities_rows [of d a J] inv db by (simp add: store_inv_def db_ok_def)
  have sub: "en_id ` set ?es \<subseteq> active_entities (c_str a) ?m" using l(2) by (auto simp: active_entities_def)
  have "card (en_id ` set ?es) = length ?es" by (rule card_keys [OF l(1)])
  then have "card (active_entities (c_str a) ?m) \<le> card (en_id ` set ?es)" using l(3) few by simp
  with fin sub have "en_id ` set ?es = active_entities (c_str a) ?m" by (metis card_seteq)
  moreover have "i \<in> active_entities (c_str a) ?m" using e by (auto simp: active_entities_def)
  ultimately obtain x where x: "x \<in> set ?es" "en_id x = i" by (metis imageE)
  then have "m_entities ?m i = Some (x, True)" using l(2) by blast
  with x(1) e(1) show ?thesis by simp
qed


definition preference_event :: MemoryEvent where
  "preference_event = (stored_event hello 1)\<lparr>ev_content := ''I prefer tea'', ev_role := ''user''\<rparr>"

definition preference_lib :: json_lib where
  "preference_lib = table_lib [(JObj [], ''{}''), (JArr [JStr ''session://s''], ''[s]''), (JArr [JStr ''session://s#event:1''], ''[s1]'')]"

definition preference_run :: "MemoryConsolidationResult outcome \<times> store" where
  "preference_run = Consolidate preference_lib (Some RuleBasedProcess) one_message [preference_event] None open_store"


end
