(* ===== verification/Spec2Isabelle.thy ===== *)
theory Spec2Isabelle
  imports Store_Properties Schema_Migration Store_Search Consolidation_Properties Context_Properties
    Codec_Properties Payload_Properties Payload_Store Payload_Access Payload_Crash Model_Properties Runtime_Properties
    Http_Properties Server_Properties Threads_Properties Listening_Properties Codec_Types Handles
    Memory_Recall
begin

text \<open>
  \<^bold>\<open>agent-memory-cpp: a verification development.\<close>

  The program is a local memory for language-model agents. A \<^emph>\<open>store\<close> (SQLite) keeps an append-only log
  of events, references to payload files, long-term memory (summaries, entities, relations) with
  full-text indexes, and the cursors of consolidation. A \<^emph>\<open>payload service\<close> moves large contents into
  files. \<^emph>\<open>Consolidation\<close> reads the events after a cursor, extracts an update from them with a language
  model or with rules, and writes the update and the new cursor in one transaction. The \<^emph>\<open>context
  builder\<close> puts recent messages, selected long-term memory and payload references together. The
  \<^emph>\<open>runtime\<close> owns these services; an HTTP server and an MCP (JSON-RPC) endpoint offer it to clients; a
  \<^emph>\<open>server program\<close> reads options and starts them.

  \<^bold>\<open>Theories and sources\<close> (paths below \<open>src/\<close>; definitions keep the names of the functions).

  \<^item> \<open>Prelude\<close>, \<open>Cpp_Lib\<close>: shared lemmas; results with exceptions (\<open>outcome\<close>: \<open>Ret\<close> or \<open>Throw\<close> with the text
    of the exception); what is used of C++: conversions between integer widths written out
    (\<open>i32\<close>, \<open>i64\<close>), \<open>cctype\<close>, number parsing and printing, C strings, IEEE rounding of exact rationals.
  \<^item> \<open>Json\<close>: JSON values with the three kinds of number and \<open>src/serialization/json_helpers.h\<close>. Parsing
    and printing text belongs to nlohmann::json and is the parameter \<open>json_lib\<close>; theorems that need it name
    the hypothesis \<open>json_text_ok\<close> (printed text is free of NUL bytes and parses back to the same value up
    to the kind of integer). \<open>table_lib\<close> is a concrete library that satisfies it.
  \<^item> \<open>Memory_Types\<close>: the public structs and enums of \<open>include/agent_memory\<close> and \<open>src/storage/store.h\<close>.
  \<^item> \<open>Codec\<close>, \<open>Codec_Laws\<close>, \<open>Codec_Properties\<close>: \<open>src/serialization/json_memory_codec.cpp\<close>. The locale
    \<open>json_codec\<close> states that a decoder inverts its encoder, \<open>schema_codec\<close> that decoding then reports nothing;
    both are interpreted for every type of the codec.
  \<^item> \<open>Floats\<close>, \<open>Codec_Types\<close>: rounding to a floating-point format; what it means for a record of the model to
    be a value of its C++ type.
  \<^item> \<open>Sqlite_Db\<close>, \<open>Sqlite_Store\<close>: \<open>src/storage/sqlite_store.cpp\<close>. Tables are lists of rows, statements are
    functions on the \<open>database\<close> record with their constraints and full-text triggers. A \<open>store\<close> is the
    connection: the open database, the content of the file, the content to return to on rollback, the
    clock, and \<open>s_faults\<close>, the schedule that says which of the next SQLite calls fail (exhausted means
    success). Losing the connection leaves \<open>durable s\<close>.
  \<^item> \<open>Store_Laws\<close>, \<open>Event_Log\<close>, \<open>Log_Frame\<close>, \<open>Store_Properties\<close>, \<open>Schema_Migration\<close>: the invariant \<open>db_inv\<close>
    and \<open>store_inv\<close>; locales \<open>write_op\<close> and \<open>transaction_work\<close> (what a write and a transaction callback keep,
    interpreted for every operation); reachability under operations, failures, restarts and crashes; the
    events table as an abstract log (locale \<open>cursor_log\<close>); which views of the tables an operation leaves
    alone (locale \<open>memory_view\<close>, interpreted for the log and for the cursor of a scope); opening databases
    of earlier versions.
  \<^item> \<open>Memory_Spec\<close>, \<open>Memory_Refinement\<close>, \<open>Memory_Reads\<close>, \<open>Memory_Recall\<close>: what \<open>src/storage/store.h\<close> promises,
    as an abstract \<open>memory\<close> without tables, and the abstraction \<open>memory_of\<close> of a database. Every write is a
    short list of steps on such a memory (\<open>tx_steps\<close>, \<open>write_steps\<close>); the locale \<open>long_term_writes\<close> is the contract
    that the transaction object and the public operations of the store share, interpreted for both.
  \<^item> \<open>Store_Search\<close>: query escaping, the LIKE stage, scores and the two-stage search. MATCH with its rank
    is the parameter \<open>fts_engine\<close>.
  \<^item> \<open>Utils\<close>, \<open>Consolidation\<close>, \<open>Consolidation_Laws\<close>, \<open>Consolidation_Properties\<close>: \<open>src/consolidation\<close>. A
    model client is a function from prompts to results that may throw.
  \<^item> \<open>Context\<close>, \<open>Context_Properties\<close>: \<open>src/core/context_builder.cpp\<close> and \<open>payload_query.cpp\<close>.
  \<^item> \<open>Filesystem\<close>, \<open>Filesystem_Laws\<close>, \<open>Payload\<close>, \<open>Payload_Properties\<close>, \<open>Payload_Store\<close>, \<open>Payload_Access\<close>,
    \<open>Payload_Crash\<close>: \<open>src/utils/path_util.cpp\<close>, \<open>file_util.cpp\<close> and \<open>src/core/payload_service.cpp\<close> over a file system with
    directories, files and symbolic links. \<open>fs_io\<close> is the schedule of system calls that fail;
    resolution follows at most \<open>MAX_LINKS = 40\<close> links, the limit of Linux; \<open>draws\<close> are the random numbers
    of one write. \<open>Payload_Crash\<close> lists the states between the system calls of a write.
  \<^item> \<open>Model_Client\<close>, \<open>Model_Properties\<close>: \<open>src/model\<close> and \<open>src/utils/curl_client.cpp\<close>. libcurl is a parameter,
    and so is the transport of the providers (locale \<open>model_provider\<close>, interpreted for both).
  \<^item> \<open>Runtime\<close>, \<open>Runtime_Laws\<close>, \<open>Runtime_Properties\<close>: \<open>src/core/builtin_memory_runtime.cpp\<close>,
    \<open>runtime_services.cpp\<close>, \<open>runtime_store_initializer.cpp\<close>, \<open>runtime_paths.cpp\<close>; histories of a runtime as the
    inductive relation \<open>history\<close>.
  \<^item> \<open>Threads\<close>, \<open>Threads_Laws\<close>, \<open>Threads_Properties\<close>: the same runtime used by several threads. \<open>ConsolidateWithModel\<close>
    is taken apart at the points where another thread can be seen, \<open>sys_holder\<close> is who holds
    \<open>consolidationMutex\<close>; the inductive relation \<open>interleaving\<close> is every order of the steps of all threads,
    with appends, payload writes, reads, faults and restarts between them.
  \<^item> \<open>Handles\<close>: the owners of C handles, \<open>SQLiteStatement\<close> and \<open>CurlClient\<close> (locale \<open>handle_class\<close>, interpreted for
    both), and what else \<open>curl_client.cpp\<close> has.
  \<^item> \<open>Mcp\<close>, \<open>Http\<close>, \<open>Http_Laws\<close>, \<open>Http_Properties\<close>: \<open>src/transport\<close>. The state is the runtime with its file
    system. The locale \<open>server_frame\<close> carries a relation from the seven operations to every request and
    every sequence of requests; it is interpreted for the growth of the log and for the services. The
    matching of paths against patterns belongs to cpp-httplib and is the parameter \<open>matcher\<close>; the order of
    the steps of that library (pre-routing handler, body, first matching route, exceptions) is modelled.
  \<^item> \<open>Server\<close>, \<open>Server_Properties\<close>: \<open>src/server\<close>: options, command line, data directory, start-up, exit codes.
  \<^item> \<open>Listening\<close>, \<open>Listening_Properties\<close>: the rest of \<open>server_main.cpp\<close>: the signal handler, the stop thread and
    the main thread, interleaved, over the flags that \<open>listen\<close> and \<open>stop\<close> of cpp-httplib work on.

  \<^bold>\<open>What is shown.\<close>

  \<^item> Store: in every reachable state the invariant holds, the indexes mirror their tables and at most one
    row per key is active; a transaction is all or nothing under any failures; saving an event appends to
    the abstract log; continuing from a cursor delivers exactly the rest; a search stays within the
    agent and the limit; opening an old database touches no row.
  \<^item> Store as a whole: its writes and transactions refine the abstract memory under any failures; loading
    long-term memory returns what that memory holds; a consolidation is one step of it; what a
    consolidation has learned is recalled.
  \<^item> Consolidation and runtime: a consolidation that fails leaves no trace, one that succeeds has saved
    what it reports; through any history, restarts included, every wanted message is processed exactly
    once, and repeated runs catch up; an appended message is the last of the next context.
  \<^item> Threads: consolidations exclude each other and all return, under every schedule; the steps of one that
    is not interrupted are the sequential function; under every interleaving the messages of a scope are
    processed exactly once and no event leaves the log.
  \<^item> Values and handles: whatever JSON arrives, the decoders give values of the C++ types; every C handle has
    one owner and is released once.
  \<^item> Payloads: offloaded content is read back, also after cleanups; reads are confined to the payload
    directory (over HTTP without proviso); what is not offloaded leaves nothing behind; a
    process killed inside a write leaves no partial payload file and no row without its file.
  \<^item> Transports and server: the token decides; an acknowledged event is never lost; every JSON-RPC request
    is answered; tool and route agree; a server that listens was set up as its options say, and keeps
    every event of the database it was started on; a stop signal while it listens ends it within a few
    steps, and its exit code says how it ended.
  \<^item> Where the code does not do what it means to, a theorem shows it: an exception inside a transaction
    leaves it open; saving an entity outside a transaction can fail half-way and leave none active; an entity identifier used by two agents moves the entity; \<open>missing/../link\<close> escapes the
    containment check; a null answer of a model aborts a consolidation; port numbers wrap before they are
    checked; an MCP path of \<open>/health\<close> needs no token; a runtime without a store builds empty contexts; a
    stop signal before the server listens is lost; an MCP path that is no regular expression terminates
    the process.

  \<^bold>\<open>Termination, bounds.\<close> There is no fuel: every recursion is structural or has a measure. The retry loop
  of the HTTP client is bounded by the attempts left, path resolution by the links left; a consolidation
  takes at most five steps (\<open>steps_left\<close>), a shutdown at most five (\<open>process_left\<close>). Integers are
  exact, with the conversions of the code written out; \<open>size_t\<close> in the token comparison is a 64-bit word.

  \<^bold>\<open>Not modelled.\<close> The store's mutex is recursive and held by every operation from beginning to end, so
  an operation of the store is one step; system calls of two threads on the payload directory are not
  interleaved, the cleanup of temporary files runs as a step of its own at any later time. What was written
  is taken to be on disk: a power failure that loses the caches of the operating system is outside the
  model, as the code does not flush them. Sockets, the
  thread pool and the timeouts it is given belong to cpp-httplib. A model client that calls back into
  \<open>Consolidate\<close> of the same runtime would wait for itself; model clients are functions here. The texts
  written to the console and by \<open>--help\<close> are left out. SQLite, nlohmann::json, cpp-httplib and libcurl are
  used through parameters or through a model of the documented behaviour the program relies on.
\<close>

end
